(* ===== verification/Prelude.thy ===== *)
theory Prelude
  imports Main "HOL-Library.Sublist" "HOL-Library.Char_ord" "HOL-Library.List_Lexorder"
begin

section \<open>Shared notions of the development\<close>

text \<open>
  What every component shares: the parts of Go's \<^verbatim>\<open>strings\<close>, \<^verbatim>\<open>strconv\<close> and
  \<^verbatim>\<open>fmt\<close> packages that GoZone uses, as functions on \<^typ>\<open>string\<close>, and their lemmas.

  A Go string is a byte sequence, and so is a \<^typ>\<open>string\<close> here: \<^term>\<open>length\<close> is Go's
  \<^verbatim>\<open>len\<close>.  Case mapping and white space are those of ASCII: a byte from 128 on has
  no case and is not a space.  Go's \<^verbatim>\<open>ToLower\<close>, \<^verbatim>\<open>ToUpper\<close>, \<^verbatim>\<open>TrimSpace\<close> and
  \<^verbatim>\<open>Fields\<close> agree with that on ASCII strings; their treatment of Unicode letters
  and Unicode spaces is not modelled.
\<close>

named_theorems go_str \<open>evaluation rules for the string functions\<close>

type_synonym go_error = "string option"

subsection \<open>Characters\<close>

definition ord :: "char \<Rightarrow> nat" where
  "ord c = of_char c"

definition is_digit :: "char \<Rightarrow> bool" where
  "is_digit c \<longleftrightarrow> 48 \<le> ord c \<and> ord c \<le> 57"

definition is_upper :: "char \<Rightarrow> bool" where
  "is_upper c \<longleftrightarrow> 65 \<le> ord c \<and> ord c \<le> 90"

definition is_lower :: "char \<Rightarrow> bool" where
  "is_lower c \<longleftrightarrow> 97 \<le> ord c \<and> ord c \<le> 122"

definition is_alnum :: "char \<Rightarrow> bool" where
  "is_alnum c \<longleftrightarrow> is_digit c \<or> is_upper c \<or> is_lower c"

text \<open>The ASCII part of \<^verbatim>\<open>unicode.IsSpace\<close>: tab, line feed, vertical tab, form feed,
  carriage return and space.\<close>

definition is_space :: "char \<Rightarrow> bool" where
  "is_space c \<longleftrightarrow> (9 \<le> ord c \<and> ord c \<le> 13) \<or> ord c = 32"

definition lower_char :: "char \<Rightarrow> char" where
  "lower_char c = (if is_upper c then char_of (ord c + 32) else c)"

definition upper_char :: "char \<Rightarrow> char" where
  "upper_char c = (if is_lower c then char_of (ord c - 32) else c)"

lemmas char_defs = ord_def is_digit_def is_upper_def is_lower_def is_alnum_def is_space_def
  lower_char_def upper_char_def

lemma ord_lt [simp]: "ord c < 256"
  unfolding ord_def by (rule nat_of_char_less_256)

lemma ord_eq_iff [simp]: "ord c = ord d \<longleftrightarrow> c = d"
  by (simp add: ord_def)

lemma ord_char_of [simp]: "n < 256 \<Longrightarrow> ord (char_of n) = n"
  by (simp add: ord_def)

lemma lower_char_idem [simp]: "lower_char (lower_char c) = lower_char c"
proof (cases "is_upper c")
  case True
  then have "ord (lower_char c) = ord c + 32"
    by (simp add: lower_char_def is_upper_def)
  with True show ?thesis by (simp add: lower_char_def [of "lower_char c"] is_upper_def)
qed (simp add: lower_char_def)

lemma lower_char_fix: "\<not> is_upper c \<Longrightarrow> lower_char c = c"
  by (simp add: lower_char_def)

lemma ord_lower_char: "ord (lower_char c) = (if is_upper c then ord c + 32 else ord c)"
  by (simp add: lower_char_def is_upper_def)

lemma lower_char_eq_nonletter:
  "ord d < 65 \<Longrightarrow> lower_char c = d \<longleftrightarrow> c = d"
  by (auto simp: ord_lower_char is_upper_def lower_char_fix simp flip: ord_eq_iff split: if_splits)

lemma lower_char_dot [simp]: "lower_char c = CHR ''.'' \<longleftrightarrow> c = CHR ''.''"
  by (rule lower_char_eq_nonletter) (simp add: ord_def)

lemma is_space_lower_char [simp]: "is_space (lower_char c) \<longleftrightarrow> is_space c"
  by (auto simp: is_space_def ord_lower_char is_upper_def)

subsection \<open>Prefixes and suffixes\<close>

definition has_prefix :: "string \<Rightarrow> string \<Rightarrow> bool" where
  "has_prefix s p \<longleftrightarrow> prefix p s"

definition has_suffix :: "string \<Rightarrow> string \<Rightarrow> bool" where
  "has_suffix s t \<longleftrightarrow> suffix t s"

definition trim_suffix :: "string \<Rightarrow> string \<Rightarrow> string" where
  "trim_suffix s t = (if has_suffix s t then take (length s - length t) s else s)"

definition trim_prefix :: "string \<Rightarrow> string \<Rightarrow> string" where
  "trim_prefix s p = (if has_prefix s p then drop (length p) s else s)"

lemma has_prefix_code [code]: "has_prefix s p \<longleftrightarrow> take (length p) s = p"
  unfolding has_prefix_def
  by (metis append_eq_conv_conj append_take_drop_id prefixE prefixI)

lemma has_suffix_code [code]:
  "has_suffix s t \<longleftrightarrow> length t \<le> length s \<and> drop (length s - length t) s = t"
  unfolding has_suffix_def
  by (metis append_eq_conv_conj append_take_drop_id diff_diff_cancel length_drop suffix_length_le
      suffixE suffixI add_diff_cancel_right' length_append)

lemma has_suffix_append [simp]: "has_suffix (s @ t) t"
  by (simp add: has_suffix_def suffixI)

lemma has_suffixE: "has_suffix s t \<Longrightarrow> (\<And>r. s = r @ t \<Longrightarrow> P) \<Longrightarrow> P"
  by (auto simp: has_suffix_def elim: suffixE)

lemma has_suffix_single [simp]: "has_suffix (s @ [x]) [y] \<longleftrightarrow> x = y"
  by (auto simp: has_suffix_def)

lemma has_suffix_singleton: "has_suffix s [y] \<longleftrightarrow> s \<noteq> [] \<and> last s = y"
  by (auto simp: has_suffix_def suffix_def intro: exI [of _ "butlast s"])

lemma has_prefix_singleton: "has_prefix s [y] \<longleftrightarrow> s \<noteq> [] \<and> hd s = y"
  by (cases s) (auto simp: has_prefix_def)

lemma has_prefix_Nil [simp]: "has_prefix [] [y] \<longleftrightarrow> False"
  by (simp add: has_prefix_def)

lemma has_prefix_Cons [simp]: "has_prefix (x # xs) [y] \<longleftrightarrow> x = y"
  by (auto simp: has_prefix_def)

lemma trim_suffix_append [simp]: "trim_suffix (s @ t) t = s"
  by (simp add: trim_suffix_def)

lemma trim_suffix_none: "\<not> has_suffix s t \<Longrightarrow> trim_suffix s t = s"
  by (simp add: trim_suffix_def)

lemma trim_suffix_cases:
  obtains "has_suffix s t" "s = trim_suffix s t @ t" | "\<not> has_suffix s t" "trim_suffix s t = s"
  by (metis has_suffixE trim_suffix_append trim_suffix_none)

subsection \<open>Splitting and joining\<close>

text \<open>\<^verbatim>\<open>strings.Split\<close> at every character that satisfies a predicate (GoZone only
  splits at single bytes), \<^verbatim>\<open>strings.Fields\<close> and \<^verbatim>\<open>strings.Join\<close>.\<close>

fun split_by :: "(char \<Rightarrow> bool) \<Rightarrow> string \<Rightarrow> string list" where
  "split_by P [] = [[]]"
| "split_by P (x # xs) =
     (if P x then [] # split_by P xs
      else case split_by P xs of [] \<Rightarrow> [[x]] | y # ys \<Rightarrow> (x # y) # ys)"

definition split_on :: "char \<Rightarrow> string \<Rightarrow> string list" where
  "split_on c s = split_by (\<lambda>x. x = c) s"

definition str_fields :: "string \<Rightarrow> string list" where
  "str_fields s = filter (\<lambda>t. t \<noteq> []) (split_by is_space s)"

fun join_with :: "string \<Rightarrow> string list \<Rightarrow> string" where
  "join_with sep [] = []"
| "join_with sep [x] = x"
| "join_with sep (x # y # ys) = x @ sep @ join_with sep (y # ys)"

lemma split_by_not_Nil [simp]: "split_by P s \<noteq> []"
  by (cases s) (auto split: list.splits)

lemma split_by_Cons_ex: "\<exists>y ys. split_by P s = y # ys"
  by (cases "split_by P s") auto

lemma join_with_Cons: "xs \<noteq> [] \<Longrightarrow> join_with sep (x # xs) = x @ sep @ join_with sep xs"
  by (cases xs) auto

lemma join_with_Cons_Cons [simp]:
  "xs \<noteq> [] \<Longrightarrow> join_with sep ((c # x) # xs) = c # join_with sep (x # xs)"
  by (cases xs) auto

lemma join_split_on [simp]: "join_with [c] (split_on c s) = s"
  unfolding split_on_def
proof (induction s)
  case (Cons x xs)
  obtain y ys where ys: "split_by (\<lambda>x. x = c) xs = y # ys"
    using split_by_Cons_ex by blast
  show ?case
  proof (cases "x = c")
    case True
    with Cons show ?thesis by (simp add: join_with_Cons)
  next
    case False
    with Cons ys show ?thesis by (cases ys) auto
  qed
qed simp

lemma split_by_no: "\<forall>x\<in>set s. \<not> P x \<Longrightarrow> split_by P s = [s]"
  by (induction s) auto

lemma split_by_parts: "t \<in> set (split_by P s) \<Longrightarrow> x \<in> set t \<Longrightarrow> \<not> P x"
proof (induction s arbitrary: t)
  case (Cons y ys)
  obtain z zs where z: "split_by P ys = z # zs"
    using split_by_Cons_ex by blast
  with Cons show ?case by (fastforce split: if_splits)
qed auto

lemma split_by_subset: "t \<in> set (split_by P s) \<Longrightarrow> set t \<subseteq> set s"
proof (induction s arbitrary: t)
  case (Cons y ys)
  obtain z zs where z: "split_by P ys = z # zs"
    using split_by_Cons_ex by blast
  with Cons show ?case by (fastforce split: if_splits)
qed auto

lemma split_by_append_sep:
  "\<forall>x\<in>set t. \<not> P x \<Longrightarrow> P c \<Longrightarrow> split_by P (t @ c # s) = t # split_by P s"
  by (induction t) auto

lemma split_by_append: "P c \<Longrightarrow> split_by P (s @ c # t) = split_by P s @ split_by P t"
  by (induction s) (auto split: list.splits)

lemma split_on_join:
  "xs \<noteq> [] \<Longrightarrow> \<forall>t\<in>set xs. c \<notin> set t \<Longrightarrow> split_on c (join_with [c] xs) = xs"
  unfolding split_on_def
proof (induction xs)
  case (Cons x xs)
  show ?case
  proof (cases xs)
    case Nil
    with Cons show ?thesis by (auto intro: split_by_no)
  next
    case xs: (Cons y ys)
    have "\<forall>a\<in>set x. \<not> a = c" using Cons.prems by auto
    moreover have "split_by (\<lambda>x. x = c) (join_with [c] xs) = xs"
      using Cons.IH Cons.prems xs by simp
    ultimately show ?thesis
      using xs by (simp add: split_by_append_sep)
  qed
qed simp

lemma split_on_no_sep: "c \<notin> set s \<Longrightarrow> split_on c s = [s]"
  unfolding split_on_def by (rule split_by_no) auto

lemma split_on_parts: "t \<in> set (split_on c s) \<Longrightarrow> c \<notin> set t"
  unfolding split_on_def using split_by_parts by fastforce

lemma split_on_not_Nil [simp]: "split_on c s \<noteq> []"
  by (simp add: split_on_def)

lemma set_join_with: "set (join_with sep xs) \<subseteq> set sep \<union> (\<Union>t\<in>set xs. set t)"
  by (induction sep xs rule: join_with.induct) auto

lemma join_with_eq_Nil: "join_with [c] xs = [] \<longleftrightarrow> xs = [] \<or> xs = [[]]"
  by (induction "[c]" xs rule: join_with.induct) auto

text \<open>\<^verbatim>\<open>strings.SplitN(s, sep, 2)\<close> for a one-byte separator, as \<^const>\<open>None\<close> when the
  separator does not occur (one part) and the two parts otherwise.\<close>

definition cut_at :: "char \<Rightarrow> string \<Rightarrow> (string \<times> string) option" where
  "cut_at c s =
     (if c \<in> set s then Some (takeWhile (\<lambda>x. x \<noteq> c) s, tl (dropWhile (\<lambda>x. x \<noteq> c) s)) else None)"

lemma cut_at_append: "c \<notin> set a \<Longrightarrow> cut_at c (a @ c # b) = Some (a, b)"
  by (auto simp: cut_at_def takeWhile_append dropWhile_append)

lemma cut_at_SomeD: "cut_at c s = Some (a, b) \<Longrightarrow> s = a @ c # b \<and> c \<notin> set a"
proof -
  assume "cut_at c s = Some (a, b)"
  then have c: "c \<in> set s" and a: "a = takeWhile (\<lambda>x. x \<noteq> c) s"
    and b: "b = tl (dropWhile (\<lambda>x. x \<noteq> c) s)"
    by (auto simp: cut_at_def split: if_splits)
  from c have "dropWhile (\<lambda>x. x \<noteq> c) s \<noteq> []" by (auto simp: dropWhile_eq_Nil_conv)
  moreover from this have "hd (dropWhile (\<lambda>x. x \<noteq> c) s) = c"
    using hd_dropWhile by blast
  ultimately have "dropWhile (\<lambda>x. x \<noteq> c) s = c # b"
    using b by (metis list.collapse)
  then show ?thesis
    using a takeWhile_dropWhile_id [of "\<lambda>x. x \<noteq> c" s] set_takeWhileD [of c "\<lambda>x. x \<noteq> c" s] by auto
qed

subsubsection \<open>Fields\<close>

definition field_tok :: "string \<Rightarrow> bool" where
  "field_tok t \<longleftrightarrow> t \<noteq> [] \<and> (\<forall>x\<in>set t. \<not> is_space x)"

lemma str_fields_tok: "t \<in> set (str_fields s) \<Longrightarrow> field_tok t"
  using split_by_parts by (auto simp: str_fields_def field_tok_def)

lemma is_space_blank [simp]: "is_space CHR '' ''"
  by (simp add: is_space_def ord_def)

lemma str_fields_Nil [simp]: "str_fields [] = []"
  by (simp add: str_fields_def)

lemma str_fields_tok_blank: "field_tok t \<Longrightarrow> is_space c \<Longrightarrow> str_fields (t @ c # s) = t # str_fields s"
  by (simp add: str_fields_def field_tok_def split_by_append_sep)

lemma str_fields_tok_id: "field_tok t \<Longrightarrow> str_fields t = [t]"
  by (simp add: str_fields_def field_tok_def split_by_no)

lemma str_fields_space_Cons: "is_space c \<Longrightarrow> str_fields (c # s) = str_fields s"
  by (simp add: str_fields_def)

lemma str_fields_join: "\<forall>t\<in>set ts. field_tok t \<Longrightarrow> str_fields (join_with '' '' ts) = ts"
proof (induction ts)
  case (Cons t ts)
  then show ?case
    by (cases ts) (auto simp: str_fields_tok_id str_fields_tok_blank)
qed simp

lemma str_fields_join_fields [simp]: "str_fields (join_with '' '' (str_fields s)) = str_fields s"
  by (rule str_fields_join) (auto dest: str_fields_tok)

text \<open>Appending one byte extends the last part, or the last field unless a space precedes it.\<close>

lemma split_by_snoc:
  "\<not> P d \<Longrightarrow> split_by P (s @ [d]) = butlast (split_by P s) @ [last (split_by P s) @ [d]]"
proof (induction s)
  case (Cons x xs)
  obtain y ys where y: "split_by P xs = y # ys"
    using split_by_Cons_ex by blast
  with Cons show ?case by (cases ys) auto
qed simp

lemma split_by_eq_single_Nil: "split_by P s = [[]] \<longleftrightarrow> s = []"
proof (cases s)
  case (Cons x xs)
  obtain y ys where "split_by P xs = y # ys"
    using split_by_Cons_ex by blast
  with Cons show ?thesis by auto
qed simp

lemma last_split_by: "last (split_by P s) = [] \<longleftrightarrow> s = [] \<or> P (last s)"
proof (induction s)
  case (Cons x xs)
  obtain y ys where y: "split_by P xs = y # ys"
    using split_by_Cons_ex by blast
  with Cons split_by_eq_single_Nil [of P xs] show ?case
    by (cases ys) (auto split: if_splits)
qed simp

lemma str_fields_snoc:
  assumes "\<not> is_space d"
  shows "str_fields (s @ [d]) =
    (if s = [] \<or> is_space (last s) then str_fields s @ [[d]]
     else butlast (str_fields s) @ [last (str_fields s) @ [d]])"
proof -
  let ?ps = "split_by is_space s"
  have ps: "?ps = butlast ?ps @ [last ?ps]" by simp
  have "str_fields (s @ [d]) = filter (\<lambda>t. t \<noteq> []) (butlast ?ps) @ [last ?ps @ [d]]"
    using assms by (simp add: str_fields_def split_by_snoc)
  moreover have "str_fields s = filter (\<lambda>t. t \<noteq> []) (butlast ?ps)
      @ (if last ?ps = [] then [] else [last ?ps])"
    unfolding str_fields_def by (subst ps) (simp only: filter_append, simp)
  ultimately show ?thesis by (simp add: last_split_by)
qed

lemma str_fields_not_Nil: "s \<noteq> [] \<Longrightarrow> \<not> is_space (last s) \<Longrightarrow> str_fields s \<noteq> []"
  using str_fields_snoc [of "last s" "butlast s"] by (auto split: if_splits)

subsection \<open>Trimming and case mapping\<close>

definition trim_left :: "(char \<Rightarrow> bool) \<Rightarrow> string \<Rightarrow> string" where
  "trim_left P s = dropWhile P s"

definition trim_right :: "(char \<Rightarrow> bool) \<Rightarrow> string \<Rightarrow> string" where
  "trim_right P s = rev (dropWhile P (rev s))"

definition trim_space :: "string \<Rightarrow> string" where
  "trim_space s = trim_right is_space (trim_left is_space s)"

definition to_lower :: "string \<Rightarrow> string" where
  "to_lower s = map lower_char s"

definition to_upper :: "string \<Rightarrow> string" where
  "to_upper s = map upper_char s"

lemma to_lower_idem [simp]: "to_lower (to_lower s) = to_lower s"
  by (simp add: to_lower_def)

lemma to_lower_append [simp]: "to_lower (s @ t) = to_lower s @ to_lower t"
  by (simp add: to_lower_def)

lemma to_lower_Nil [simp]: "to_lower [] = []"
  by (simp add: to_lower_def)

lemma to_lower_eq_Nil [simp]: "to_lower s = [] \<longleftrightarrow> s = []"
  by (simp add: to_lower_def)

lemma to_lower_dot [simp]: "to_lower ''.'' = ''.''"
  by (simp add: to_lower_def)

lemma length_to_lower [simp]: "length (to_lower s) = length s"
  by (simp add: to_lower_def)

lemma last_to_lower: "s \<noteq> [] \<Longrightarrow> last (to_lower s) = lower_char (last s)"
  by (simp add: to_lower_def last_map)

lemma trim_right_eq:
  "trim_right P s = (if s = [] then [] else if P (last s) then trim_right P (butlast s) else s)"
  by (cases s rule: rev_cases) (auto simp: trim_right_def)

lemma trim_space_noop:
  assumes "s = [] \<or> \<not> is_space (hd s) \<and> \<not> is_space (last s)"
  shows "trim_space s = s"
proof (cases s)
  case (Cons x xs)
  with assms have "\<not> is_space x" and "\<not> is_space (last s)" by auto
  with Cons show ?thesis
    by (simp add: trim_space_def trim_left_def trim_right_eq)
qed (simp add: trim_space_def trim_left_def trim_right_def)

lemma trim_space_ends: "trim_space s = [] \<or> \<not> is_space (hd (trim_space s)) \<and> \<not> is_space (last (trim_space s))"
proof (cases "trim_left is_space s")
  case Nil
  then show ?thesis by (simp add: trim_space_def trim_right_def)
next
  case (Cons x xs)
  then have x: "\<not> is_space x"
    by (metis dropWhile_eq_Cons_conv trim_left_def)
  let ?r = "rev (dropWhile is_space (rev xs @ [x]))"
  have ne: "dropWhile is_space (rev xs @ [x]) \<noteq> []"
    using x by (auto simp: dropWhile_eq_Nil_conv)
  have "\<exists>zs. dropWhile is_space (rev xs @ [x]) = zs @ [x]"
    using x by (simp add: dropWhile_append)
  then have "hd ?r = x" by auto
  moreover have "\<not> is_space (last ?r)"
    using ne hd_dropWhile [of is_space "rev xs @ [x]"] by (simp add: last_rev)
  ultimately show ?thesis
    using x Cons by (simp add: trim_space_def trim_right_def)
qed

lemma trim_space_idem [simp]: "trim_space (trim_space s) = trim_space s"
  using trim_space_ends by (rule trim_space_noop)


lemmas prelude_eval [go_str] = char_defs has_prefix_code has_suffix_code trim_suffix_def
  trim_prefix_def split_on_def str_fields_def cut_at_def trim_left_def trim_right_def
  trim_space_def to_lower_def to_upper_def

end
