(* ===== verification/Strconv.thy ===== *)
theory Strconv
  imports Prelude
begin

section \<open>Numbers as decimal strings, and replacement\<close>

text \<open>
  The parts of \<^verbatim>\<open>strconv\<close> and \<^verbatim>\<open>fmt\<close> that read and print decimal numbers
  (\<^verbatim>\<open>ParseUint(s, 10, bits)\<close>, \<^verbatim>\<open>Atoi\<close>, \<^verbatim>\<open>%d\<close>) and
  \<^verbatim>\<open>strings.ReplaceAll\<close> for a one-byte pattern.  A Go \<^verbatim>\<open>int\<close> is a 64-bit
  signed integer; it is an \<^typ>\<open>int\<close> here, and \<open>int64\<close> states its range.
\<close>

definition int64 :: "int \<Rightarrow> bool" where
  "int64 i \<longleftrightarrow> - (2 ^ 63) \<le> i \<and> i < 2 ^ 63"

definition digit_val :: "char \<Rightarrow> nat" where
  "digit_val c = ord c - 48"

definition digit_char :: "nat \<Rightarrow> char" where
  "digit_char n = char_of (48 + n)"

fun dec_nat :: "nat \<Rightarrow> string" where
  "dec_nat n = (if n < 10 then [digit_char n] else dec_nat (n div 10) @ [digit_char (n mod 10)])"

declare dec_nat.simps [simp del]

definition dec_int :: "int \<Rightarrow> string" where
  "dec_int i = (if i < 0 then CHR ''-'' # dec_nat (nat (- i)) else dec_nat (nat i))"

definition digits_val :: "string \<Rightarrow> nat" where
  "digits_val s = foldl (\<lambda>a c. 10 * a + digit_val c) 0 s"

definition parse_digits :: "string \<Rightarrow> nat option" where
  "parse_digits s = (if s \<noteq> [] \<and> list_all is_digit s then Some (digits_val s) else None)"

definition parse_uint :: "nat \<Rightarrow> string \<Rightarrow> nat option" where
  "parse_uint bits s =
     (case parse_digits s of
        None \<Rightarrow> None
      | Some n \<Rightarrow> if n < 2 ^ bits then Some n else None)"

definition atoi :: "string \<Rightarrow> int option" where
  "atoi s =
     (let neg = has_prefix s ''-'';
          body = (if neg \<or> has_prefix s ''+'' then tl s else s)
      in case parse_digits body of
           None \<Rightarrow> None
         | Some n \<Rightarrow> let i = (if neg then - int n else int n) in if int64 i then Some i else None)"

text \<open>The value \<^verbatim>\<open>Atoi\<close> returns when its error is ignored: zero for a text that is no number;
  the nearest limit for one that does not fit, and then what follows the digit that overflows is
  not read.\<close>

fun uint_prefix :: "nat \<Rightarrow> string \<Rightarrow> nat" where
  "uint_prefix n [] = n"
| "uint_prefix n (c # cs) =
     (if \<not> is_digit c then 0
      else let n' = n * 10 + (ord c - 48) in
        if 2 ^ 64 \<le> n' then 2 ^ 64 - 1 else uint_prefix n' cs)"

definition atoi_value :: "string \<Rightarrow> int" where
  "atoi_value s =
     (let neg = has_prefix s ''-'';
          body = (if neg \<or> has_prefix s ''+'' then tl s else s);
          n = int (uint_prefix 0 body)
      in if neg then max (- n) (- (2 ^ 63)) else min n (2 ^ 63 - 1))"

definition replace_char :: "char \<Rightarrow> string \<Rightarrow> string \<Rightarrow> string" where
  "replace_char c r s = concat (map (\<lambda>x. if x = c then r else [x]) s)"

lemma is_digit_digit_char [simp]: "n < 10 \<Longrightarrow> is_digit (digit_char n)"
  by (simp add: is_digit_def digit_char_def)

lemma digit_val_digit_char [simp]: "n < 10 \<Longrightarrow> digit_val (digit_char n) = n"
  by (simp add: digit_val_def digit_char_def)

lemma dec_nat_digits: "list_all is_digit (dec_nat n)"
proof (induction n rule: dec_nat.induct)
  case (1 n)
  then show ?case by (cases "n < 10") (simp_all add: dec_nat.simps [of n])
qed

lemma dec_nat_not_Nil [simp]: "dec_nat n \<noteq> []"
  by (simp add: dec_nat.simps [of n])

lemma digits_val_dec_nat [simp]: "digits_val (dec_nat n) = n"
proof (induction n rule: dec_nat.induct)
  case (1 n)
  then show ?case
    by (cases "n < 10") (simp_all add: dec_nat.simps [of n] digits_val_def)
qed

lemma parse_digits_dec_nat [simp]: "parse_digits (dec_nat n) = Some n"
  by (simp add: parse_digits_def dec_nat_digits)

lemma parse_uint_dec_nat: "parse_uint bits (dec_nat n) = (if n < 2 ^ bits then Some n else None)"
  by (simp add: parse_uint_def)

lemma parse_digits_SomeD: "parse_digits s = Some n \<Longrightarrow> s \<noteq> [] \<and> list_all is_digit s"
  by (auto simp: parse_digits_def split: if_splits)

lemma parse_uint_SomeD:
  "parse_uint bits s = Some n \<Longrightarrow> s \<noteq> [] \<and> list_all is_digit s \<and> n < 2 ^ bits"
  by (auto simp: parse_uint_def dest: parse_digits_SomeD split: option.splits if_splits)

lemma is_digit_not_space: "is_digit c \<Longrightarrow> \<not> is_space c"
  by (simp add: is_digit_def is_space_def)

lemma list_all_digit_hd: "s \<noteq> [] \<Longrightarrow> list_all is_digit s \<Longrightarrow> is_digit (hd s)"
  by (cases s) auto

lemma dec_nat_no_sign [simp]:
  "\<not> has_prefix (dec_nat n) ''-''" "\<not> has_prefix (dec_nat n) ''+''"
proof -
  have "is_digit (hd (dec_nat n))"
    using dec_nat_digits by (rule list_all_digit_hd [rotated]) simp
  then show "\<not> has_prefix (dec_nat n) ''-''" "\<not> has_prefix (dec_nat n) ''+''"
    by (auto simp: has_prefix_singleton is_digit_def ord_def)
qed

lemma atoi_dec_int [simp]: "int64 i \<Longrightarrow> atoi (dec_int i) = Some i"
  by (simp add: atoi_def dec_int_def Let_def)

lemma dec_int_field_tok: "field_tok (dec_int i)"
proof -
  have "\<forall>c\<in>set (dec_nat n). \<not> is_space c" for n
    using dec_nat_digits [of n] by (auto simp: list_all_iff dest: is_digit_not_space)
  moreover have "\<not> is_space CHR ''-''" by (simp add: is_space_def ord_def)
  ultimately show ?thesis by (auto simp: field_tok_def dec_int_def)
qed

lemma parse_digits_dec_int:
  "parse_digits (dec_int i) = (if i < 0 then None else Some (nat i))"
  by (simp add: dec_int_def parse_digits_def is_digit_def ord_def dec_nat_digits)

lemma replace_char_Nil [simp]: "replace_char c r [] = []"
  by (simp add: replace_char_def)

lemma replace_char_Cons [simp]:
  "replace_char c r (x # xs) = (if x = c then r @ replace_char c r xs else x # replace_char c r xs)"
  by (simp add: replace_char_def)

lemma replace_char_append [simp]:
  "replace_char c r (xs @ ys) = replace_char c r xs @ replace_char c r ys"
  by (simp add: replace_char_def)

lemma replace_char_id: "c \<notin> set s \<Longrightarrow> replace_char c r s = s"
  by (induction s) auto


lemmas strconv_eval [go_str] = int64_def digit_val_def digit_char_def dec_nat.simps dec_int_def
  digits_val_def parse_digits_def parse_uint_def atoi_def replace_char_def char_of_def bit_Suc_0_iff

end
