(* ===== verification/Models.thy ===== *)
theory Models
  imports Strconv
begin

section \<open>Data models\<close>

text \<open>
  Models \<^verbatim>\<open>internal/models\<close>: zones, record sets and comments (\<^verbatim>\<open>zone.go\<close>), users
  (\<^verbatim>\<open>models.go\<close>) and API-key scopes (\<^verbatim>\<open>apikey_scope.go\<close>).  Fields keep the Go names
  with a prefix per struct; the ones no modelled operation reads are left out.  Times are
  nanoseconds on one clock, as \<^typ>\<open>int\<close>.
\<close>

type_synonym time = int

abbreviation second :: int where "second \<equiv> 1000000000"
abbreviation minute :: int where "minute \<equiv> 60 * second"

subsection \<open>Zones and record sets\<close>

record zone =
  z_id :: string
  z_name :: string
  z_kind :: string
  z_serial :: int

record record_info =
  ri_name :: string
  ri_type :: string
  ri_content :: string
  ri_ttl :: int
  ri_priority :: int
  ri_disabled :: bool

record comment =
  cm_content :: string
  cm_account :: string
  cm_modified_at :: int

record comment_patch =
  cp_items :: "comment list"
  cp_clear :: bool

text \<open>The three wire forms \<^verbatim>\<open>MarshalJSON\<close> emits, and how \<^verbatim>\<open>UnmarshalJSON\<close> reads one back.\<close>

datatype comments_wire = WireNull | WireArray "comment list"

definition marshal_comments :: "comment_patch \<Rightarrow> comments_wire" where
  "marshal_comments c =
     (if cp_clear c then WireArray []
      else if length (cp_items c) = 0 then WireNull
      else WireArray (cp_items c))"

definition unmarshal_comments :: "comments_wire \<Rightarrow> comment_patch" where
  "unmarshal_comments w =
     (case w of
        WireNull \<Rightarrow> \<lparr>cp_items = [], cp_clear = False\<rparr>
      | WireArray cs \<Rightarrow> \<lparr>cp_items = cs, cp_clear = False\<rparr>)"

record rrset =
  rr_name :: string
  rr_type :: string
  rr_ttl :: int
  rr_changetype :: string
  rr_records :: "record_info list"
  rr_comments :: "comment_patch option"

record zone_create_request =
  zc_name :: string
  zc_kind :: string
  zc_nameservers :: "string list"
  zc_masters :: "string list"
  zc_catalog :: string

definition dnssec_algorithms :: "string list" where
  "dnssec_algorithms =
     [''rsasha256'', ''rsasha512'', ''ecdsa256'', ''ecdsa384'', ''ed25519'', ''ed448'']"

subsection \<open>Users\<close>

record user =
  u_id :: int
  u_username :: string
  u_role :: string
  u_enabled :: bool
  u_locked_until :: "time option"
  u_must_change_password :: bool
  u_tokens_valid_after :: time
  u_credential_version :: int
  u_manual_lock_until :: time

definition is_admin :: "user \<Rightarrow> bool" where
  "is_admin u \<longleftrightarrow> u_role u = ''admin''"

definition can_manage_dns :: "user \<Rightarrow> bool" where
  "can_manage_dns u \<longleftrightarrow> u_role u = ''admin'' \<or> u_role u = ''operator''"

definition is_locked :: "time \<Rightarrow> user \<Rightarrow> bool" where
  "is_locked now u = (case u_locked_until u of None \<Rightarrow> False | Some t \<Rightarrow> t > now)"

lemma is_admin_manages_dns: "is_admin u \<Longrightarrow> can_manage_dns u"
  by (simp add: is_admin_def can_manage_dns_def)

subsection \<open>API-key scopes\<close>

datatype api_key_scope = ScopeAPIRead | ScopeAPIWrite | ScopeMCPRead | ScopeMCPWrite

datatype api_key_surface = SurfaceAPI | SurfaceMCP

definition scope_string :: "api_key_scope \<Rightarrow> string" where
  "scope_string s =
     (case s of ScopeAPIRead \<Rightarrow> ''api:read'' | ScopeAPIWrite \<Rightarrow> ''api:write''
      | ScopeMCPRead \<Rightarrow> ''mcp:read'' | ScopeMCPWrite \<Rightarrow> ''mcp:write'')"

definition parse_api_key_scope :: "string \<Rightarrow> api_key_scope option" where
  "parse_api_key_scope s =
     (let scope = to_lower s in
      if scope = ''api:read'' then Some ScopeAPIRead
      else if scope = ''api:write'' then Some ScopeAPIWrite
      else if scope = ''mcp:read'' then Some ScopeMCPRead
      else if scope = ''mcp:write'' then Some ScopeMCPWrite
      else None)"

definition scope_surface :: "api_key_scope \<Rightarrow> api_key_surface" where
  "scope_surface s = (if s = ScopeMCPRead \<or> s = ScopeMCPWrite then SurfaceMCP else SurfaceAPI)"

definition scope_can_write :: "api_key_scope \<Rightarrow> bool" where
  "scope_can_write s \<longleftrightarrow> s = ScopeAPIWrite \<or> s = ScopeMCPWrite"

lemma parse_scope_string: "parse_api_key_scope (scope_string s) = Some s"
  by (cases s) (simp_all add: parse_api_key_scope_def scope_string_def go_str)

lemma parse_scope_inverse: "parse_api_key_scope s = Some k \<Longrightarrow> to_lower s = scope_string k"
  by (auto simp: parse_api_key_scope_def scope_string_def Let_def split: if_splits)

end
