(* ===== verification/GoNet.thy ===== *)
theory GoNet
  imports Strconv
begin

section \<open>The standard library's address and rune decoding\<close>

text \<open>
  What the validators use of Go's \<^verbatim>\<open>net\<close> and \<^verbatim>\<open>unicode/utf8\<close> packages:
  \<^verbatim>\<open>net.ParseIP\<close> with \<^verbatim>\<open>To4\<close>, and the decoding of a string into runes that
  \<^verbatim>\<open>range\<close>, \<^verbatim>\<open>RuneCountInString\<close> and \<^verbatim>\<open>ValidString\<close> share.  An address is its
  list of 16 bytes, an IPv4 address in the IPv4-mapped form, as \<^verbatim>\<open>net.IP\<close> holds it.
\<close>

subsection \<open>IPv4\<close>

definition ipv4_octet :: "string \<Rightarrow> bool" where
  "ipv4_octet s \<longleftrightarrow> s \<noteq> [] \<and> list_all is_digit s \<and> digits_val s \<le> 255
     \<and> (length s = 1 \<or> hd s \<noteq> CHR ''0'')"

definition parse_ipv4_fields :: "string \<Rightarrow> nat list option" where
  "parse_ipv4_fields s =
     (let ps = split_on CHR ''.'' s in
      if length ps = 4 \<and> list_all ipv4_octet ps then Some (map digits_val ps) else None)"

definition v4_in_6 :: "nat list \<Rightarrow> nat list" where
  "v4_in_6 bs = replicate 10 0 @ [255, 255] @ bs"

subsection \<open>IPv6\<close>

definition hex_val :: "char \<Rightarrow> nat option" where
  "hex_val c =
     (let n = ord c in
      if 48 \<le> n \<and> n \<le> 57 then Some (n - 48)
      else if 97 \<le> n \<and> n \<le> 102 then Some (n - 87)
      else if 65 \<le> n \<and> n \<le> 70 then Some (n - 55)
      else None)"

definition is_hex :: "char \<Rightarrow> bool" where
  "is_hex c \<longleftrightarrow> hex_val c \<noteq> None"

definition hex_group_val :: "string \<Rightarrow> nat" where
  "hex_group_val s = foldl (\<lambda>a c. 16 * a + (case hex_val c of Some v \<Rightarrow> v | None \<Rightarrow> 0)) 0 s"

text \<open>
  The group loop of the IPv6 parser: the text left, the bytes read, and how many bytes stood
  before the ellipsis when there was one.  It returns the bytes and the ellipsis once the text
  is used up; a rest after the eighth group is refused.
\<close>

function ipv6_groups :: "string \<Rightarrow> nat list \<Rightarrow> nat option \<Rightarrow> (nat list \<times> nat option) option" where
  "ipv6_groups s bs el =
     (if length bs \<ge> 16 then (if s = [] then Some (bs, el) else None)
      else
        let g = takeWhile is_hex s; rest = dropWhile is_hex s in
        if g = [] \<or> length g > 4 then None
        else if rest \<noteq> [] \<and> hd rest = CHR ''.'' then
          (if el = None \<and> length bs \<noteq> 12 then None
           else if length bs + 4 > 16 then None
           else case parse_ipv4_fields s of
                  None \<Rightarrow> None
                | Some v4 \<Rightarrow> Some (bs @ v4, el))
        else
          let bs' = bs @ [hex_group_val g div 256, hex_group_val g mod 256] in
          if rest = [] then Some (bs', el)
          else if hd rest \<noteq> CHR '':'' then None
          else if length rest = 1 then None
          else if hd (tl rest) = CHR '':'' then
            (if el \<noteq> None then None
             else if tl (tl rest) = [] then Some (bs', Some (length bs'))
             else ipv6_groups (tl (tl rest)) bs' (Some (length bs')))
          else ipv6_groups (tl rest) bs' el)"
  by pat_completeness auto
termination
  by (relation "measure (\<lambda>(s, bs, el). 16 - length bs)") auto

declare ipv6_groups.simps [simp del]

definition ipv6_expand :: "nat list \<times> nat option \<Rightarrow> nat list option" where
  "ipv6_expand r =
     (case r of (bs, el) \<Rightarrow>
        if length bs < 16 then
          (case el of
             None \<Rightarrow> None
           | Some k \<Rightarrow> Some (take k bs @ replicate (16 - length bs) 0 @ drop k bs))
        else if el \<noteq> None then None
        else Some bs)"

text \<open>An IPv6 literal; one with a zone is refused by \<^verbatim>\<open>net.ParseIP\<close>.\<close>

definition parse_ipv6 :: "string \<Rightarrow> nat list option" where
  "parse_ipv6 s =
     (if CHR ''%'' \<in> set s then None
      else if take 2 s = ''::'' then
        (if length s = 2 then Some (replicate 16 0)
         else case ipv6_groups (drop 2 s) [] (Some 0) of
                None \<Rightarrow> None | Some r \<Rightarrow> ipv6_expand r)
      else case ipv6_groups s [] None of
             None \<Rightarrow> None | Some r \<Rightarrow> ipv6_expand r)"

text \<open>The first of the bytes \<open>.\<close>, \<open>:\<close> and \<open>%\<close> decides which parser runs.\<close>

definition parse_ip :: "string \<Rightarrow> nat list option" where
  "parse_ip s =
     (case dropWhile (\<lambda>c. c \<noteq> CHR ''.'' \<and> c \<noteq> CHR '':'' \<and> c \<noteq> CHR ''%'') s of
        [] \<Rightarrow> None
      | c # _ \<Rightarrow>
          if c = CHR ''.'' then map_option v4_in_6 (parse_ipv4_fields s)
          else if c = CHR '':'' then parse_ipv6 s
          else None)"

definition to4 :: "nat list \<Rightarrow> nat list option" where
  "to4 ip = (if take 12 ip = replicate 10 0 @ [255, 255] then Some (drop 12 ip) else None)"

subsection \<open>Runes\<close>

text \<open>The first rune of a string and its width; \<^const>\<open>None\<close> for an invalid byte, which Go
  reads as U+FFFD of width one.\<close>

definition cont_byte :: "nat \<Rightarrow> nat \<Rightarrow> char \<Rightarrow> bool" where
  "cont_byte lo hi c \<longleftrightarrow> lo \<le> ord c \<and> ord c \<le> hi"

fun decode_rune :: "string \<Rightarrow> nat option \<times> nat" where
  "decode_rune [] = (None, 0)"
| "decode_rune (c0 # s) =
     (let b0 = ord c0 in
      if b0 < 0x80 then (Some b0, 1)
      else if 0xC2 \<le> b0 \<and> b0 \<le> 0xDF then
        (case s of
           c1 # _ \<Rightarrow>
             if cont_byte 0x80 0xBF c1
             then (Some ((b0 - 0xC0) * 64 + (ord c1 - 0x80)), 2) else (None, 1)
         | _ \<Rightarrow> (None, 1))
      else if 0xE0 \<le> b0 \<and> b0 \<le> 0xEF then
        (case s of
           c1 # c2 # _ \<Rightarrow>
             if cont_byte (if b0 = 0xE0 then 0xA0 else 0x80) (if b0 = 0xED then 0x9F else 0xBF) c1
               \<and> cont_byte 0x80 0xBF c2
             then (Some ((b0 - 0xE0) * 4096 + (ord c1 - 0x80) * 64 + (ord c2 - 0x80)), 3)
             else (None, 1)
         | _ \<Rightarrow> (None, 1))
      else if 0xF0 \<le> b0 \<and> b0 \<le> 0xF4 then
        (case s of
           c1 # c2 # c3 # _ \<Rightarrow>
             if cont_byte (if b0 = 0xF0 then 0x90 else 0x80) (if b0 = 0xF4 then 0x8F else 0xBF) c1
               \<and> cont_byte 0x80 0xBF c2 \<and> cont_byte 0x80 0xBF c3
             then (Some ((b0 - 0xF0) * 262144 + (ord c1 - 0x80) * 4096 + (ord c2 - 0x80) * 64
                     + (ord c3 - 0x80)), 4)
             else (None, 1)
         | _ \<Rightarrow> (None, 1))
      else (None, 1))"

function decode_runes :: "string \<Rightarrow> nat option list" where
  "decode_runes [] = []"
| "decode_runes (c # s) =
     fst (decode_rune (c # s)) # decode_runes (drop (snd (decode_rune (c # s)) - 1) s)"
  by pat_completeness auto
termination
  by (relation "measure length") auto

definition runes :: "string \<Rightarrow> nat list" where
  "runes s = map (\<lambda>r. case r of Some n \<Rightarrow> n | None \<Rightarrow> 0xFFFD) (decode_runes s)"

definition rune_count :: "string \<Rightarrow> nat" where
  "rune_count s = length (decode_runes s)"

definition valid_string :: "string \<Rightarrow> bool" where
  "valid_string s = list_all (\<lambda>r. r \<noteq> None) (decode_runes s)"

definition ascii :: "string \<Rightarrow> bool" where
  "ascii s = list_all (\<lambda>c. ord c < 128) s"

lemma decode_runes_ascii: "ascii s \<Longrightarrow> decode_runes s = map (\<lambda>c. Some (ord c)) s"
  by (induction s) (auto simp: ascii_def)

lemma runes_ascii: "ascii s \<Longrightarrow> runes s = map ord s"
  by (simp add: runes_def decode_runes_ascii)

lemma rune_count_ascii: "ascii s \<Longrightarrow> rune_count s = length s"
  by (simp add: rune_count_def decode_runes_ascii)

lemma valid_string_ascii: "ascii s \<Longrightarrow> valid_string s"
  by (simp add: valid_string_def decode_runes_ascii list_all_iff)

subsection \<open>Lemmas on addresses\<close>

lemma digit_char_digit_val: "is_digit c \<Longrightarrow> digit_char (digit_val c) = c"
  by (simp add: is_digit_def digit_char_def digit_val_def ord_def)

lemma digits_val_snoc: "digits_val (s @ [c]) = 10 * digits_val s + digit_val c"
  by (simp add: digits_val_def)

lemma digit_val_lt: "is_digit c \<Longrightarrow> digit_val c < 10"
  unfolding is_digit_def digit_val_def by linarith

lemma digits_val_pos:
  "list_all is_digit s \<Longrightarrow> s \<noteq> [] \<Longrightarrow> hd s \<noteq> CHR ''0'' \<Longrightarrow> 0 < digits_val s"
proof (induction s rule: rev_induct)
  case (snoc c s)
  have "0 < digit_val d" if "is_digit d" "d \<noteq> CHR ''0''" for d
  proof -
    have "ord d \<noteq> ord CHR ''0''" using that(2) by (simp only: ord_eq_iff not_False_eq_True)
    with that(1) show ?thesis by (simp add: is_digit_def digit_val_def ord_def)
  qed
  with snoc show ?case by (cases s) (auto simp: digits_val_snoc digits_val_def)
qed simp

lemma dec_nat_digits_val:
  "list_all is_digit s \<Longrightarrow> s \<noteq> [] \<Longrightarrow> length s = 1 \<or> hd s \<noteq> CHR ''0'' \<Longrightarrow>
     dec_nat (digits_val s) = s"
proof (induction s rule: rev_induct)
  case (snoc c s)
  then have c: "is_digit c" and s: "list_all is_digit s" by auto
  show ?case
  proof (cases "s = []")
    case True
    with c show ?thesis
      by (simp add: digits_val_def dec_nat.simps [of "digit_val c"] digit_val_lt digit_char_digit_val)
  next
    case False
    with snoc.prems have hd: "hd s \<noteq> CHR ''0''" by (cases s) auto
    with s False have "0 < digits_val s" by (intro digits_val_pos)
    moreover have "dec_nat (digits_val s) = s" using snoc.IH s False hd by blast
    ultimately show ?thesis
      using c digit_val_lt [OF c]
      by (simp add: digits_val_snoc dec_nat.simps [of "10 * digits_val s + digit_val c"]
          digit_char_digit_val)
  qed
qed simp

lemma hd_dec_nat: "10 \<le> n \<Longrightarrow> hd (dec_nat n) \<noteq> CHR ''0''"
proof (induction n rule: dec_nat.induct)
  case (1 n)
  show ?case
  proof (cases "n div 10 < 10")
    case True
    then have "dec_nat n = [digit_char (n div 10), digit_char (n mod 10)]"
      using 1(2) by (simp add: dec_nat.simps [of n] dec_nat.simps [of "n div 10"])
    moreover have "digit_char k \<noteq> CHR ''0''" if "0 < k" "k < 10" for k
    proof
      assume "digit_char k = CHR ''0''"
      then have "digit_val (digit_char k) = digit_val CHR ''0''" by simp
      with that show False by (simp add: digit_val_def [of "CHR ''0''"] ord_def)
    qed
    ultimately show ?thesis using True 1(2) by simp
  next
    case False
    then have "hd (dec_nat (n div 10)) \<noteq> CHR ''0''" using 1 by simp
    moreover have "\<not> n < 10" using 1(2) by simp
    ultimately show ?thesis by (simp add: dec_nat.simps [of n] hd_append)
  qed
qed

lemma length_dec_nat_1: "n < 10 \<Longrightarrow> length (dec_nat n) = 1"
  by (simp add: dec_nat.simps [of n])

lemma ipv4_octet_iff: "ipv4_octet s \<longleftrightarrow> (\<exists>n\<le>255. s = dec_nat n)"
proof
  assume "ipv4_octet s"
  then show "\<exists>n\<le>255. s = dec_nat n"
    using dec_nat_digits_val [of s] by (intro exI [of _ "digits_val s"]) (auto simp: ipv4_octet_def)
next
  assume "\<exists>n\<le>255. s = dec_nat n"
  then obtain n where n: "n \<le> 255" "s = dec_nat n" by blast
  have "length (dec_nat n) = 1 \<or> hd (dec_nat n) \<noteq> CHR ''0''"
    using hd_dec_nat [of n] length_dec_nat_1 [of n] by linarith
  with n show "ipv4_octet s" by (simp add: ipv4_octet_def dec_nat_digits)
qed

lemma digit_not_dot: "is_digit c \<Longrightarrow> c \<noteq> CHR ''.'' \<and> c \<noteq> CHR '':'' \<and> c \<noteq> CHR ''%''"
  by (auto simp: is_digit_def ord_def)

lemma dec_nat_chars: "c \<in> set (dec_nat n) \<Longrightarrow> is_digit c"
  using dec_nat_digits [of n] by (auto simp: list_all_iff)

lemma length_4_iff: "length xs = 4 \<longleftrightarrow> (\<exists>a b c d. xs = [a, b, c, d])"
  by (auto simp: length_Suc_conv numeral_eq_Suc)

lemma parse_ipv4_fields_iff:
  "parse_ipv4_fields s = Some bs \<longleftrightarrow>
     (\<exists>a b c d. a \<le> 255 \<and> b \<le> 255 \<and> c \<le> 255 \<and> d \<le> 255 \<and> bs = [a, b, c, d]
        \<and> s = join_with ''.'' [dec_nat a, dec_nat b, dec_nat c, dec_nat d])"
  (is "?l \<longleftrightarrow> ?r")
proof
  assume ?l
  then obtain p q r t where ps: "split_on CHR ''.'' s = [p, q, r, t]"
    and oct: "ipv4_octet p" "ipv4_octet q" "ipv4_octet r" "ipv4_octet t"
    and bs: "bs = map digits_val [p, q, r, t]"
    by (auto simp: parse_ipv4_fields_def Let_def length_4_iff split: if_splits)
  from join_split_on [of "CHR ''.''" s] ps have s: "s = join_with ''.'' [p, q, r, t]" by simp
  from oct obtain a b c d where "p = dec_nat a" "q = dec_nat b" "r = dec_nat c" "t = dec_nat d"
    and "a \<le> 255" "b \<le> 255" "c \<le> 255" "d \<le> 255"
    unfolding ipv4_octet_iff by blast
  with s bs show ?r by auto
next
  assume ?r
  then obtain a b c d where le: "a \<le> 255" "b \<le> 255" "c \<le> 255" "d \<le> 255"
    and bs: "bs = [a, b, c, d]"
    and s: "s = join_with ''.'' [dec_nat a, dec_nat b, dec_nat c, dec_nat d]"
    by blast
  have "CHR ''.'' \<notin> set (dec_nat n)" for n
    using dec_nat_chars digit_not_dot by blast
  then have "split_on CHR ''.'' s = [dec_nat a, dec_nat b, dec_nat c, dec_nat d]"
    unfolding s by (intro split_on_join) auto
  with le bs show ?l by (auto simp: parse_ipv4_fields_def ipv4_octet_iff)
qed

lemma parse_ip_dotted:
  assumes "CHR '':'' \<notin> set s"
  shows "parse_ip s = Some ip \<longleftrightarrow> (\<exists>bs. parse_ipv4_fields s = Some bs \<and> ip = v4_in_6 bs)"
proof
  let ?P = "\<lambda>c. c \<noteq> CHR ''.'' \<and> c \<noteq> CHR '':'' \<and> c \<noteq> CHR ''%''"
  assume ip: "parse_ip s = Some ip"
  then obtain c r where cr: "dropWhile ?P s = c # r"
    by (cases "dropWhile ?P s") (simp_all add: parse_ip_def)
  then have "c \<in> set s" using set_dropWhileD [of c ?P s] by simp
  with assms have "c \<noteq> CHR '':''" by blast
  with ip cr have "map_option v4_in_6 (parse_ipv4_fields s) = Some ip"
    by (simp add: parse_ip_def split: if_splits)
  then show "\<exists>bs. parse_ipv4_fields s = Some bs \<and> ip = v4_in_6 bs" by auto
next
  assume "\<exists>bs. parse_ipv4_fields s = Some bs \<and> ip = v4_in_6 bs"
  then obtain bs where bs: "parse_ipv4_fields s = Some bs" "ip = v4_in_6 bs" by blast
  then obtain a r where s: "s = dec_nat a @ CHR ''.'' # r"
    by (auto simp: parse_ipv4_fields_iff)
  let ?P = "\<lambda>c. c \<noteq> CHR ''.'' \<and> c \<noteq> CHR '':'' \<and> c \<noteq> CHR ''%''"
  have "dropWhile ?P s = CHR ''.'' # r"
    unfolding s using dec_nat_chars digit_not_dot by (subst dropWhile_append2) auto
  with bs show "parse_ip s = Some ip" by (simp add: parse_ip_def)
qed

lemma parse_ip_no_colon:
  "CHR '':'' \<notin> set s \<Longrightarrow> parse_ip s = map_option v4_in_6 (parse_ipv4_fields s)"
  using parse_ip_dotted [of s] by (cases "parse_ip s"; cases "parse_ipv4_fields s") auto

lemma to4_v4_in_6: "to4 (v4_in_6 bs) = Some bs"
  by (simp add: to4_def v4_in_6_def)

end
