(* ===== verification/TextCodec.thy ===== *)
theory TextCodec
  imports Strconv
begin

section \<open>The contract of a text codec\<close>

text \<open>
  GoZone repeatedly writes a text in an escaped form and reads it back: TXT contents on
  their way to PowerDNS, free-text cells of a CSV export.  The locale states what the
  callers rely on, that decoding undoes encoding on the texts of a domain, and derives
  what they use: the encoding loses nothing, also element by element on lists.
\<close>

locale text_codec =
  fixes enc :: "'a \<Rightarrow> 'b" and dec :: "'b \<Rightarrow> 'a" and dom :: "'a \<Rightarrow> bool"
  assumes dec_enc: "dom x \<Longrightarrow> dec (enc x) = x"
begin

lemma enc_inject: "dom x \<Longrightarrow> dom y \<Longrightarrow> enc x = enc y \<longleftrightarrow> x = y"
  by (metis dec_enc)

lemma map_dec_enc: "\<forall>x\<in>set xs. dom x \<Longrightarrow> map dec (map enc xs) = xs"
  by (induction xs) (auto simp: dec_enc)

end

end
