(* ===== verification/RecordCodec.thy ===== *)
theory RecordCodec
  imports TextCodec
begin

section \<open>The record-content codec\<close>

text \<open>
  Models \<^verbatim>\<open>internal/models/recordtype.go\<close>: how the content a user edits maps to and from
  the wire content PowerDNS stores.  \<open>record_type_specs\<close> is the table, the other
  definitions are the functions of the file under their names in snake case.  The
  lemmas give the round trips (quote and unquote, embed and detach a priority), and that
  each normalisation is idempotent.
\<close>

abbreviation quote_ch :: char where "quote_ch \<equiv> CHR 0x22"
abbreviation bslash_ch :: char where "bslash_ch \<equiv> CHR 0x5C"
abbreviation tab_ch :: char where "tab_ch \<equiv> CHR 0x09"
abbreviation blank_ch :: char where "blank_ch \<equiv> CHR 0x20"

record record_type_spec =
  has_priority :: bool
  quoted :: bool
  fqdn_target :: bool
  fqdn_field_indices :: "int list"
  wire_fields :: nat
  quoted_field_indices :: "int list"

definition no_spec :: record_type_spec where
  "no_spec = \<lparr>has_priority = False, quoted = False, fqdn_target = False,
     fqdn_field_indices = [], wire_fields = 0, quoted_field_indices = []\<rparr>"

definition record_type_specs :: "(string \<times> record_type_spec) list" where
  "record_type_specs =
    [(''MX'',    no_spec\<lparr>has_priority := True, fqdn_target := True, wire_fields := 2\<rparr>),
     (''SRV'',   no_spec\<lparr>has_priority := True, fqdn_target := True, wire_fields := 4\<rparr>),
     (''TXT'',   no_spec\<lparr>quoted := True\<rparr>),
     (''SPF'',   no_spec\<lparr>quoted := True\<rparr>),
     (''CNAME'', no_spec\<lparr>fqdn_target := True\<rparr>),
     (''DNAME'', no_spec\<lparr>fqdn_target := True\<rparr>),
     (''NS'',    no_spec\<lparr>fqdn_target := True\<rparr>),
     (''PTR'',   no_spec\<lparr>fqdn_target := True\<rparr>),
     (''ALIAS'', no_spec\<lparr>fqdn_target := True\<rparr>),
     (''AFSDB'', no_spec\<lparr>fqdn_target := True\<rparr>),
     (''NAPTR'', no_spec\<lparr>fqdn_target := True\<rparr>),
     (''SOA'',   no_spec\<lparr>fqdn_field_indices := [0, 1]\<rparr>),
     (''RP'',    no_spec\<lparr>fqdn_field_indices := [0, 1]\<rparr>),
     (''MINFO'', no_spec\<lparr>fqdn_field_indices := [0, 1]\<rparr>),
     (''NSEC'',  no_spec\<lparr>fqdn_field_indices := [0]\<rparr>),
     (''CAA'',   no_spec\<lparr>quoted_field_indices := [2]\<rparr>),
     (''HINFO'', no_spec\<lparr>quoted_field_indices := [0, 1]\<rparr>),
     (''URI'',   no_spec\<lparr>quoted_field_indices := [2]\<rparr>)]"

definition spec_for :: "string \<Rightarrow> record_type_spec" where
  "spec_for t = (case map_of record_type_specs t of Some s \<Rightarrow> s | None \<Rightarrow> no_spec)"

definition type_has_priority :: "string \<Rightarrow> bool" where
  "type_has_priority t = has_priority (spec_for t)"

definition type_wire_fields :: "string \<Rightarrow> nat" where
  "type_wire_fields t = wire_fields (spec_for t)"

definition type_is_quoted :: "string \<Rightarrow> bool" where
  "type_is_quoted t = quoted (spec_for t)"

definition type_is_fqdn_target :: "string \<Rightarrow> bool" where
  "type_is_fqdn_target t = fqdn_target (spec_for t)"

definition ensure_trailing_dot :: "string \<Rightarrow> string" where
  "ensure_trailing_dot content =
     (if content = [] \<or> has_suffix content ''.'' then content else content @ ''.'')"

definition type_has_fqdn_fields :: "string \<Rightarrow> bool" where
  "type_has_fqdn_fields t \<longleftrightarrow> length (fqdn_field_indices (spec_for t)) > 0"

definition type_fqdn_indices :: "string \<Rightarrow> int list" where
  "type_fqdn_indices t = fqdn_field_indices (spec_for t)"

text \<open>One pass of the loop of \<^verbatim>\<open>EnsureTrailingDotFields\<close>, and the function.\<close>

definition dot_field :: "string list \<Rightarrow> int \<Rightarrow> string list" where
  "dot_field fs idx =
     (if idx \<ge> 0 \<and> idx < int (length fs) \<and> \<not> has_suffix (fs ! nat idx) ''.''
      then fs[nat idx := fs ! nat idx @ ''.''] else fs)"

definition ensure_trailing_dot_fields :: "string \<Rightarrow> int list \<Rightarrow> string" where
  "ensure_trailing_dot_fields content indices =
     (if indices = [] \<or> content = [] then content
      else join_with '' '' (foldl dot_field (str_fields content) indices))"

definition type_has_quoted_fields :: "string \<Rightarrow> bool" where
  "type_has_quoted_fields t \<longleftrightarrow> length (quoted_field_indices (spec_for t)) > 0"

definition type_quoted_indices :: "string \<Rightarrow> int list" where
  "type_quoted_indices t = quoted_field_indices (spec_for t)"

text \<open>The tests of the switch in \<^verbatim>\<open>splitQuotedFields\<close>: an escape, a separator.\<close>

definition esc_byte :: "bool \<Rightarrow> char \<Rightarrow> bool" where
  "esc_byte q c \<longleftrightarrow> c = bslash_ch \<and> q"

definition sep_byte :: "bool \<Rightarrow> char \<Rightarrow> bool" where
  "sep_byte q c \<longleftrightarrow> (c = blank_ch \<or> c = tab_ch) \<and> \<not> q"

text \<open>
  The scanner of \<^verbatim>\<open>splitQuotedFields\<close>: \<open>q\<close> is \<^verbatim>\<open>inQuote\<close>, \<open>cur\<close> the
  builder.  A backslash inside quotes takes the next byte with it.
\<close>

function scan_quoted :: "bool \<Rightarrow> string \<Rightarrow> string \<Rightarrow> string list" where
  "scan_quoted q cur [] = (if cur \<noteq> [] then [cur] else [])"
| "scan_quoted q cur (c # s) =
     (if esc_byte q c \<and> s \<noteq> [] then scan_quoted q (cur @ [c, hd s]) (tl s)
      else if c = quote_ch then scan_quoted (\<not> q) (cur @ [c]) s
      else if sep_byte q c then
        (if cur \<noteq> [] then cur # scan_quoted q [] s else scan_quoted q cur s)
      else scan_quoted q (cur @ [c]) s)"
  by pat_completeness auto
termination
  by (relation "measure (\<lambda>(q, cur, s). length s)") auto

definition split_quoted_fields :: "string \<Rightarrow> string list" where
  "split_quoted_fields s = scan_quoted False [] s"

definition escape_quoted :: "string \<Rightarrow> string" where
  "escape_quoted s =
     replace_char quote_ch [bslash_ch, quote_ch] (replace_char bslash_ch [bslash_ch, bslash_ch] s)"

definition quote_field_if_needed :: "string \<Rightarrow> string" where
  "quote_field_if_needed field =
     (if has_prefix field [quote_ch] then field
      else [quote_ch] @ escape_quoted field @ [quote_ch])"

definition quote_field_at :: "string list \<Rightarrow> int \<Rightarrow> string list" where
  "quote_field_at ts idx =
     (if idx < 0 \<or> idx \<ge> int (length ts) then ts
      else ts[nat idx := quote_field_if_needed (ts ! nat idx)])"

definition quote_content_fields :: "string \<Rightarrow> int list \<Rightarrow> string" where
  "quote_content_fields content indices =
     (if indices = [] \<or> content = [] then content
      else join_with '' '' (foldl quote_field_at (split_quoted_fields content) indices))"

definition split_priority :: "string \<Rightarrow> string \<Rightarrow> int \<times> string \<times> bool" where
  "split_priority t content =
     (if \<not> type_has_priority t then (0, content, False)
      else case cut_at blank_ch content of
        None \<Rightarrow> (0, content, False)
      | Some (p, rest) \<Rightarrow>
          (case atoi p of
             None \<Rightarrow> (0, content, False)
           | Some prio \<Rightarrow> (prio, rest, True)))"

definition join_priority :: "string \<Rightarrow> int \<Rightarrow> string \<Rightarrow> string" where
  "join_priority t priority content =
     (let spec = spec_for t in
      if \<not> has_priority spec then content
      else
        let tokens = str_fields content;
            content' =
              (if length tokens \<ge> wire_fields spec \<and> parse_uint 16 (hd tokens) \<noteq> None
               then join_with '' '' (tl tokens) else content)
        in dec_int priority @ '' '' @ content')"

definition quote_content :: "string \<Rightarrow> string \<Rightarrow> string" where
  "quote_content t content =
     (if \<not> type_is_quoted t \<or> content = [] then content
      else if has_prefix content [quote_ch] then content
      else [quote_ch] @ escape_quoted content @ [quote_ch])"

text \<open>The loop of \<^verbatim>\<open>isSingleQuotedString\<close> over the bytes between the outer quotes.\<close>

fun no_bare_quote :: "string \<Rightarrow> bool" where
  "no_bare_quote [] = True"
| "no_bare_quote [c] = (c \<noteq> quote_ch)"
| "no_bare_quote (c # d # s) =
     (if c = bslash_ch then no_bare_quote s
      else if c = quote_ch then False
      else no_bare_quote (d # s))"

definition is_single_quoted_string :: "string \<Rightarrow> bool" where
  "is_single_quoted_string content =
     (if length content < 2 \<or> hd content \<noteq> quote_ch \<or> last content \<noteq> quote_ch then False
      else no_bare_quote (butlast (tl content)))"

fun unescape_quoted_content :: "string \<Rightarrow> string" where
  "unescape_quoted_content [] = []"
| "unescape_quoted_content [c] = [c]"
| "unescape_quoted_content (c # d # s) =
     (if c = bslash_ch then
        (if d = bslash_ch then bslash_ch # unescape_quoted_content s
         else if d = quote_ch then quote_ch # unescape_quoted_content s
         else c # unescape_quoted_content (d # s))
      else c # unescape_quoted_content (d # s))"

definition unquote_content :: "string \<Rightarrow> string \<Rightarrow> string" where
  "unquote_content t content =
     (if \<not> type_is_quoted t then content
      else if \<not> is_single_quoted_string content then content
      else unescape_quoted_content (butlast (tl content)))"

record record_type_rule =
  rule_priority :: bool
  rule_quoted :: bool
  rule_fqdn_target :: bool
  rule_fqdn_field_indices :: "int list"
  rule_quoted_field_indices :: "int list"

definition record_type_rules :: "string \<rightharpoonup> record_type_rule" where
  "record_type_rules t =
     map_option (\<lambda>spec. \<lparr>rule_priority = has_priority spec, rule_quoted = quoted spec,
       rule_fqdn_target = fqdn_target spec, rule_fqdn_field_indices = fqdn_field_indices spec,
       rule_quoted_field_indices = quoted_field_indices spec\<rparr>) (map_of record_type_specs t)"


subsection \<open>The table\<close>

lemmas type_flag_defs = type_has_priority_def type_wire_fields_def type_is_quoted_def
  type_is_fqdn_target_def type_has_fqdn_fields_def type_fqdn_indices_def
  type_has_quoted_fields_def type_quoted_indices_def

lemma spec_for_priority: "has_priority (spec_for t) \<longleftrightarrow> t = ''MX'' \<or> t = ''SRV''"
  by (simp add: spec_for_def record_type_specs_def no_spec_def)

lemma spec_for_quoted: "quoted (spec_for t) \<longleftrightarrow> t = ''TXT'' \<or> t = ''SPF''"
  by (simp add: spec_for_def record_type_specs_def no_spec_def)

lemma spec_for_wire_fields:
  "wire_fields (spec_for t) = (if t = ''MX'' then 2 else if t = ''SRV'' then 4 else 0)"
  by (simp add: spec_for_def record_type_specs_def no_spec_def)

lemma wire_fields_ge_2: "has_priority (spec_for t) \<Longrightarrow> 2 \<le> wire_fields (spec_for t)"
  by (auto simp: spec_for_priority spec_for_wire_fields)

subsection \<open>Quoting a whole content\<close>

lemma escape_quoted_Nil [simp]: "escape_quoted [] = []"
  by (simp add: escape_quoted_def)

lemma escape_quoted_Cons [simp]:
  "escape_quoted (c # s) =
     (if c = bslash_ch then [bslash_ch, bslash_ch]
      else if c = quote_ch then [bslash_ch, quote_ch] else [c]) @ escape_quoted s"
  by (simp add: escape_quoted_def)

lemma escape_quoted_eq_Nil [simp]: "escape_quoted s = [] \<longleftrightarrow> s = []"
  by (cases s) auto

lemma unescape_plain: "c \<noteq> bslash_ch \<Longrightarrow> unescape_quoted_content (c # s) = c # unescape_quoted_content s"
  by (cases s) auto

lemma unescape_escape [simp]: "unescape_quoted_content (escape_quoted s) = s"
  by (induction s) (auto simp: unescape_plain)

lemma no_bare_quote_plain:
  "c \<noteq> bslash_ch \<Longrightarrow> c \<noteq> quote_ch \<Longrightarrow> no_bare_quote (c # s) = no_bare_quote s"
  by (cases s) auto

lemma no_bare_quote_escape [simp]: "no_bare_quote (escape_quoted s)"
  by (induction s) (auto simp: no_bare_quote_plain)

lemma single_quoted_wrap:
  "is_single_quoted_string (quote_ch # s @ [quote_ch]) = no_bare_quote s"
  by (simp add: is_single_quoted_string_def)

lemma unquote_wrap:
  "type_is_quoted t \<Longrightarrow> unquote_content t (quote_ch # escape_quoted s @ [quote_ch]) = s"
  by (simp add: unquote_content_def single_quoted_wrap)

lemma quote_content_bare:
  "type_is_quoted t \<Longrightarrow> c \<noteq> [] \<Longrightarrow> \<not> has_prefix c [quote_ch] \<Longrightarrow>
     quote_content t c = quote_ch # escape_quoted c @ [quote_ch]"
  by (simp add: quote_content_def)

interpretation txt_wire: text_codec "\<lambda>c. quote_ch # escape_quoted c @ [quote_ch]"
    "unquote_content ''TXT''" "\<lambda>_. True"
  by unfold_locales (rule unquote_wrap, simp add: type_is_quoted_def spec_for_quoted)

lemma quote_content_idem [simp]: "quote_content t (quote_content t c) = quote_content t c"
  by (auto simp: quote_content_def)

subsection \<open>Trailing dots\<close>

lemma ensure_trailing_dot_idem [simp]:
  "ensure_trailing_dot (ensure_trailing_dot c) = ensure_trailing_dot c"
  by (simp add: ensure_trailing_dot_def)

lemma ensure_trailing_dot_suffix: "c \<noteq> [] \<Longrightarrow> has_suffix (ensure_trailing_dot c) ''.''"
  by (simp add: ensure_trailing_dot_def)

lemma ensure_trailing_dot_eq_Nil [simp]: "ensure_trailing_dot c = [] \<longleftrightarrow> c = []"
  by (simp add: ensure_trailing_dot_def)

lemma length_dot_field [simp]: "length (dot_field fs i) = length fs"
  by (simp add: dot_field_def)

lemma length_foldl_dot_field [simp]: "length (foldl dot_field fs is) = length fs"
  by (induction "is" arbitrary: fs) auto

lemma has_suffix_not_Nil: "has_suffix t ''.'' \<Longrightarrow> t \<noteq> []"
  by (auto simp: has_suffix_def)

lemma nth_dot_field:
  "j < length fs \<Longrightarrow> dot_field fs i ! j =
     (if int j = i \<and> \<not> has_suffix (fs ! j) ''.'' then fs ! j @ ''.'' else fs ! j)"
  by (auto simp: dot_field_def nth_list_update)

lemma nth_foldl_dot_field:
  "j < length fs \<Longrightarrow> foldl dot_field fs is ! j =
     (if int j \<in> set is \<and> \<not> has_suffix (fs ! j) ''.'' then fs ! j @ ''.'' else fs ! j)"
  by (induction "is" arbitrary: fs) (auto simp: nth_dot_field)

lemma nth_foldl_dot_field':
  "j < length fs \<Longrightarrow> fs ! j \<noteq> [] \<Longrightarrow> foldl dot_field fs is ! j =
     (if int j \<in> set is then ensure_trailing_dot (fs ! j) else fs ! j)"
  by (simp add: nth_foldl_dot_field ensure_trailing_dot_def)

lemma str_fields_nth_not_Nil: "j < length (str_fields c) \<Longrightarrow> str_fields c ! j \<noteq> []"
  using str_fields_tok [of "str_fields c ! j" c] by (simp add: field_tok_def)

lemma field_tok_dot: "field_tok t \<Longrightarrow> field_tok (t @ ''.'')"
  by (auto simp: field_tok_def is_space_def ord_def)

lemma field_tok_dot_field:
  "\<forall>t\<in>set fs. field_tok t \<Longrightarrow> \<forall>t\<in>set (dot_field fs i). field_tok t"
  using set_update_subset_insert [of fs "nat i" "fs ! nat i @ ''.''"]
  by (auto simp: dot_field_def nat_less_iff intro!: field_tok_dot dest!: subsetD)

lemma field_tok_foldl_dot_field:
  "\<forall>t\<in>set fs. field_tok t \<Longrightarrow> \<forall>t\<in>set (foldl dot_field fs is). field_tok t"
proof (induction "is" arbitrary: fs)
  case (Cons i "is")
  from Cons.IH [OF field_tok_dot_field [OF Cons.prems]] show ?case by simp
qed simp

lemma foldl_dot_field_Nil: "foldl dot_field [] is = []"
  by (metis length_0_conv length_foldl_dot_field)

lemma str_fields_ensure_trailing_dot_fields:
  "is \<noteq> [] \<Longrightarrow>
     str_fields (ensure_trailing_dot_fields c is) = foldl dot_field (str_fields c) is"
  by (cases "c = []") (auto simp: foldl_dot_field_Nil ensure_trailing_dot_fields_def intro!: str_fields_join field_tok_foldl_dot_field
      dest: str_fields_tok)

subsection \<open>Quote-aware fields\<close>

text \<open>
  What the scanner knows after reading a string from outside or inside quotes: it is
  outside, inside, it stopped on a lone backslash inside, or it met a separator.
\<close>

datatype qstate = Outside | Inside | Dangling | Separated

definition qstate_of :: "bool \<Rightarrow> qstate" where
  "qstate_of q = (if q then Inside else Outside)"

function qscan :: "bool \<Rightarrow> string \<Rightarrow> qstate" where
  "qscan q [] = qstate_of q"
| "qscan q (c # s) =
     (if esc_byte q c then (if s = [] then Dangling else qscan q (tl s))
      else if c = quote_ch then qscan (\<not> q) s
      else if sep_byte q c then Separated
      else qscan q s)"
  by pat_completeness auto
termination
  by (relation "measure (\<lambda>(q, s). length s)") auto

lemma qstate_of_inj [simp]: "qstate_of p = qstate_of q \<longleftrightarrow> p = q"
  "qstate_of p \<noteq> Dangling" "qstate_of p \<noteq> Separated" "Dangling \<noteq> qstate_of p"
  "Separated \<noteq> qstate_of p"
  by (auto simp: qstate_of_def)

lemma byte_classes [simp]:
  "\<not> esc_byte q quote_ch" "\<not> sep_byte q quote_ch" "esc_byte q bslash_ch = q"
  "\<not> sep_byte q bslash_ch" "sep_byte q blank_ch = (\<not> q)" "\<not> esc_byte q blank_ch"
  "\<not> sep_byte True c" "\<not> esc_byte False c"
  "esc_byte True c \<longleftrightarrow> c = bslash_ch"
  by (auto simp: esc_byte_def sep_byte_def)

lemma esc_byte_not_quote: "esc_byte q c \<Longrightarrow> c \<noteq> quote_ch \<and> \<not> sep_byte q c"
  by (auto simp: esc_byte_def sep_byte_def)

lemma sep_byte_not: "sep_byte q c \<Longrightarrow> \<not> q \<and> \<not> esc_byte q c \<and> c \<noteq> quote_ch"
  by (auto simp: esc_byte_def sep_byte_def)

lemma qscan_append: "qscan q t = qstate_of q' \<Longrightarrow> qscan q (t @ u) = qscan q' u"
proof (induction q t rule: qscan.induct)
  case (2 q c s)
  then show ?case
    by (cases "esc_byte q c"; cases "c = quote_ch"; cases "sep_byte q c"; cases "s = []") auto
qed simp

lemma scan_quoted_through:
  "qscan q t = qstate_of q' \<Longrightarrow> scan_quoted q cur (t @ s) = scan_quoted q' (cur @ t) s"
proof (induction q t arbitrary: cur rule: qscan.induct)
  case (2 q c t)
  show ?case
  proof (cases "esc_byte q c")
    case True
    with "2.prems" obtain d t' where t: "t = d # t'" by (cases t) auto
    with True 2 show ?thesis by simp
  next
    case False
    with 2 show ?thesis by (cases "c = quote_ch"; cases "sep_byte q c") auto
  qed
qed simp

lemma scan_quoted_last:
  "qscan q t \<noteq> Separated \<Longrightarrow> cur @ t \<noteq> [] \<Longrightarrow> scan_quoted q cur t = [cur @ t]"
proof (induction q t arbitrary: cur rule: qscan.induct)
  case (2 q c t)
  show ?case
  proof (cases "esc_byte q c")
    case True
    with 2 show ?thesis by (cases t) (auto dest: esc_byte_not_quote)
  next
    case False
    with 2 show ?thesis by (cases "c = quote_ch"; cases "sep_byte q c") auto
  qed
qed simp

definition quoted_toks :: "string list \<Rightarrow> bool" where
  "quoted_toks ts \<longleftrightarrow> (\<forall>t\<in>set ts. t \<noteq> [] \<and> qscan False t \<noteq> Separated) \<and>
     (\<forall>t\<in>set (butlast ts). qscan False t = Outside)"

lemma quoted_toks_Cons:
  "ts \<noteq> [] \<Longrightarrow> quoted_toks (t # ts) \<longleftrightarrow> t \<noteq> [] \<and> qscan False t = Outside \<and> quoted_toks ts"
  by (auto simp: quoted_toks_def)

lemma quoted_toks_single: "quoted_toks [t] \<longleftrightarrow> t \<noteq> [] \<and> qscan False t \<noteq> Separated"
  by (auto simp: quoted_toks_def)

lemma quoted_toks_Nil [simp]: "quoted_toks []"
  by (simp add: quoted_toks_def)

lemma split_quoted_join: "quoted_toks ts \<Longrightarrow> split_quoted_fields (join_with '' '' ts) = ts"
proof (induction ts)
  case Nil
  then show ?case by (simp add: split_quoted_fields_def)
next
  case (Cons t ts)
  show ?case
  proof (cases "ts = []")
    case True
    with Cons.prems show ?thesis
      by (simp add: quoted_toks_single split_quoted_fields_def scan_quoted_last)
  next
    case False
    with Cons.prems have t: "t \<noteq> []" "qscan False t = qstate_of False" and ts: "quoted_toks ts"
      by (simp_all add: quoted_toks_Cons qstate_of_def)
    have "scan_quoted False [] (t @ blank_ch # join_with '' '' ts) =
        t # scan_quoted False [] (join_with '' '' ts)"
      using t by (simp add: scan_quoted_through)
    with Cons.IH [OF ts] False show ?thesis
      by (simp add: split_quoted_fields_def join_with_Cons)
  qed
qed

lemma quoted_toks_scan:
  "qscan False cur = qstate_of q \<Longrightarrow> quoted_toks (scan_quoted q cur s)"
proof (induction q cur s rule: scan_quoted.induct)
  case (1 q cur)
  then show ?case by (simp add: quoted_toks_single)
next
  case (2 q cur c s)
  note IH = "2.IH"
  note cur = qscan_append [OF "2.prems"]
  show ?case
  proof (cases "esc_byte q c")
    case True
    note esc = this esc_byte_not_quote [OF this]
    show ?thesis
    proof (cases s)
      case Nil
      with esc cur show ?thesis by (simp add: quoted_toks_single)
    next
      case (Cons d s')
      have "quoted_toks (scan_quoted q (cur @ [c, hd s]) (tl s))"
        by (rule IH(1)) (use esc Cons cur in simp_all)
      with esc Cons show ?thesis by simp
    qed
  next
    case esc: False
    show ?thesis
    proof (cases "c = quote_ch")
      case True
      have "quoted_toks (scan_quoted (\<not> q) (cur @ [c]) s)"
        by (rule IH(2)) (use esc True cur in simp_all)
      with True show ?thesis by simp
    next
      case quote: False
      show ?thesis
      proof (cases "sep_byte q c")
        case True
        then have q: "\<not> q" by (simp add: sep_byte_def)
        have "quoted_toks (scan_quoted q [] s)"
        proof (cases "cur = []")
          case cur: True
          then show ?thesis using IH(4) esc quote True q by (simp add: qstate_of_def)
        next
          case False
          then show ?thesis using IH(3) esc quote True q by (simp add: qstate_of_def)
        qed
        with True esc quote q "2.prems" show ?thesis
          by (cases "scan_quoted False [] s = []")
            (auto simp: quoted_toks_Cons quoted_toks_single qstate_of_def)
      next
        case False
        have "quoted_toks (scan_quoted q (cur @ [c]) s)"
          by (rule IH(5)) (use esc quote False cur in simp_all)
        with esc quote False show ?thesis by simp
      qed
    qed
  qed
qed

lemma quoted_toks_split: "quoted_toks (split_quoted_fields s)"
  unfolding split_quoted_fields_def by (rule quoted_toks_scan) (simp add: qstate_of_def)

lemma qscan_escape: "qscan True (escape_quoted s) = Inside"
  by (induction s) (auto simp: qstate_of_def)

lemma qscan_quote_field:
  "\<not> has_prefix f [quote_ch] \<Longrightarrow> qscan False (quote_field_if_needed f) = Outside"
  using qscan_append [of True "escape_quoted f" True "[quote_ch]"]
  by (simp add: quote_field_if_needed_def qscan_escape qstate_of_def)

lemma quote_field_props:
  "f \<noteq> [] \<Longrightarrow> quote_field_if_needed f \<noteq> [] \<and> has_prefix (quote_field_if_needed f) [quote_ch]"
  by (auto simp: quote_field_if_needed_def)

lemma quote_field_idem [simp]:
  "quote_field_if_needed (quote_field_if_needed f) = quote_field_if_needed f"
  by (auto simp: quote_field_if_needed_def)

lemma nth_mem_butlast: "k < length xs \<Longrightarrow> k \<noteq> length xs - 1 \<Longrightarrow> xs ! k \<in> set (butlast xs)"
  using nth_mem [of k "butlast xs"] by (simp add: nth_butlast)

lemma quoted_toks_quote_field_at:
  assumes "quoted_toks ts"
  shows "quoted_toks (quote_field_at ts i)"
proof (cases "i < 0 \<or> i \<ge> int (length ts)")
  case False
  then have i: "nat i < length ts" by auto
  let ?f = "ts ! nat i"
  have f: "?f \<noteq> []" "qscan False ?f \<noteq> Separated"
    using assms i by (auto simp: quoted_toks_def)
  have new: "quote_field_if_needed ?f \<noteq> []" "qscan False (quote_field_if_needed ?f) \<noteq> Separated"
    "qscan False ?f = Outside \<Longrightarrow> qscan False (quote_field_if_needed ?f) = Outside"
    using f qscan_quote_field [of ?f] by (auto simp: quote_field_if_needed_def)
  have "qscan False t = Outside" if "t \<in> set (butlast (ts[nat i := quote_field_if_needed ?f]))" for t
  proof (cases "nat i = length ts - 1")
    case True
    with that assms show ?thesis by (auto simp: butlast_list_update quoted_toks_def)
  next
    case False
    with i have "?f \<in> set (butlast ts)"
      by (intro nth_mem_butlast) simp_all
    with assms have out: "qscan False ?f = Outside" by (simp add: quoted_toks_def)
    have "t = quote_field_if_needed ?f \<or> t \<in> set (butlast ts)"
      using that False set_update_subset_insert [of "butlast ts" "nat i" "quote_field_if_needed ?f"]
      by (auto simp: butlast_list_update)
    with new(3) [OF out] assms show ?thesis by (auto simp: quoted_toks_def)
  qed
  moreover have "t \<noteq> [] \<and> qscan False t \<noteq> Separated"
    if "t \<in> set (ts[nat i := quote_field_if_needed ?f])" for t
  proof -
    have "t = quote_field_if_needed ?f \<or> t \<in> set ts"
      using that set_update_subset_insert [of ts "nat i" "quote_field_if_needed ?f"] by auto
    with new(1,2) assms show ?thesis by (auto simp: quoted_toks_def)
  qed
  ultimately show ?thesis
    using False unfolding quote_field_at_def quoted_toks_def by simp
next
  case True
  with assms show ?thesis by (simp add: quote_field_at_def)
qed

lemma quoted_toks_foldl:
  "quoted_toks ts \<Longrightarrow> quoted_toks (foldl quote_field_at ts is)"
  by (induction "is" arbitrary: ts) (auto simp: quoted_toks_quote_field_at)

lemma length_quote_field_at [simp]: "length (quote_field_at ts i) = length ts"
  by (simp add: quote_field_at_def)

lemma length_foldl_quote_field_at [simp]: "length (foldl quote_field_at ts is) = length ts"
  by (induction "is" arbitrary: ts) auto

lemma nth_quote_field_at:
  "j < length ts \<Longrightarrow> quote_field_at ts i ! j =
     (if int j = i then quote_field_if_needed (ts ! j) else ts ! j)"
  by (auto simp: quote_field_at_def nth_list_update)

lemma nth_foldl_quote_field_at:
  "j < length ts \<Longrightarrow> foldl quote_field_at ts is ! j =
     (if int j \<in> set is then quote_field_if_needed (ts ! j) else ts ! j)"
  by (induction "is" arbitrary: ts) (auto simp: nth_quote_field_at)

lemma foldl_quote_field_at_Nil: "foldl quote_field_at [] is = []"
  by (metis length_0_conv length_foldl_quote_field_at)

lemma split_quoted_fields_Nil: "split_quoted_fields [] = []"
  by (simp add: split_quoted_fields_def)

lemma split_quote_content_fields:
  "is \<noteq> [] \<Longrightarrow> split_quoted_fields (quote_content_fields c is) =
     foldl quote_field_at (split_quoted_fields c) is"
  by (cases "c = []") (auto simp: foldl_quote_field_at_Nil split_quoted_fields_Nil quote_content_fields_def intro!: split_quoted_join quoted_toks_foldl
      quoted_toks_split)


subsection \<open>Priorities\<close>

lemma dec_int_no_blank [simp]: "blank_ch \<notin> set (dec_int i)"
  using dec_int_field_tok [of i] by (auto simp: field_tok_def)

lemma join_priority_bare:
  "type_has_priority t \<Longrightarrow> length (str_fields c) < type_wire_fields t \<Longrightarrow>
     join_priority t p c = dec_int p @ blank_ch # c"
  by (simp add: join_priority_def type_flag_defs)

lemma str_fields_join_priority:
  "str_fields (dec_int p @ blank_ch # c) = dec_int p # str_fields c"
  by (simp add: str_fields_tok_blank dec_int_field_tok)

lemma join_priority_wire:
  assumes "type_has_priority t" "length (str_fields w) \<ge> type_wire_fields t"
    and "parse_uint 16 (hd (str_fields w)) \<noteq> None"
  shows "join_priority t p w = dec_int p @ blank_ch # join_with '' '' (tl (str_fields w))"
  using assms by (auto simp: join_priority_def type_flag_defs)

section \<open>Properties of the codec\<close>

text \<open>For TXT and SPF, unquoting undoes quoting for every text that does not itself begin
  with a double quote, and what quoting produces is then one complete quoted string.\<close>

theorem unquote_quote_roundtrip:
  assumes "type_is_quoted t" and "\<not> has_prefix c [quote_ch]"
  shows "unquote_content t (quote_content t c) = c
    \<and> (c = [] \<or> is_single_quoted_string (quote_content t c))"
proof (cases "c = []")
  case True
  then show ?thesis
    by (simp add: quote_content_def unquote_content_def is_single_quoted_string_def)
next
  case False
  with assms show ?thesis
    by (simp add: quote_content_bare unquote_wrap single_quoted_wrap)
qed

theorem unquote_quote_roundtrip_witness:
  "unquote_content ''TXT'' (quote_content ''TXT'' ''v=spf1 -all'') = ''v=spf1 -all''"
  using unquote_quote_roundtrip [of "''TXT''" "''v=spf1 -all''"]
  by (simp add: type_is_quoted_def spec_for_quoted)

text \<open>In the other direction the codec is lossy in one case.  A well-formed wire string that
  carries the text \<open>c\<close> survives unquote and quote exactly when \<open>c\<close> does not begin with a
  double quote: quoting takes such a text for wire content and leaves it alone.\<close>

theorem requote_iff:
  assumes "type_is_quoted t" and "c \<noteq> []"
  shows "quote_content t (unquote_content t (quote_ch # escape_quoted c @ [quote_ch]))
      = quote_ch # escape_quoted c @ [quote_ch]
    \<longleftrightarrow> \<not> has_prefix c [quote_ch]"
proof -
  have "length c \<le> length (escape_quoted c)" by (induction c) auto
  then have "c \<noteq> quote_ch # escape_quoted c @ [quote_ch]"
    by (metis add_Suc_right impossible_Cons le_Suc_eq le_add1 le_trans length_append)
  with assms show ?thesis
    by (cases "has_prefix c [quote_ch]") (simp_all add: unquote_wrap quote_content_def)
qed

theorem requote_iff_witness:
  "quote_content ''TXT'' (unquote_content ''TXT'' (quote_ch # escape_quoted [quote_ch, CHR ''a''] @ [quote_ch]))
     \<noteq> quote_ch # escape_quoted [quote_ch, CHR ''a''] @ [quote_ch]"
  using requote_iff [of "''TXT''" "[quote_ch, CHR ''a'']"]
  by (simp add: type_is_quoted_def spec_for_quoted)

text \<open>Detaching the priority returns exactly what was embedded, for MX and SRV, every priority
  a Go int holds, and every content in form shape (fewer fields than the wire shape).\<close>

theorem split_join_priority:
  assumes "type_has_priority t" and "int64 p" and "length (str_fields c) < type_wire_fields t"
  shows "split_priority t (join_priority t p c) = (p, c, True)"
  using assms by (simp add: split_priority_def join_priority_bare cut_at_append)

theorem split_join_priority_witness:
  "split_priority ''SRV'' (join_priority ''SRV'' 10 ''20 5060 sip.example.com.'')
     = (10, ''20 5060 sip.example.com.'', True)"
proof (rule split_join_priority)
  show "type_has_priority ''SRV''" by (simp add: type_has_priority_def spec_for_priority)
  show "int64 10" by (simp add: int64_def)
  show "length (str_fields ''20 5060 sip.example.com.'') < type_wire_fields ''SRV''"
    by (simp add: type_wire_fields_def spec_for_wire_fields go_str)
qed

text \<open>Embedding a priority into content that already carries one (a valid 16-bit one) replaces
  it instead of duplicating it, so the wire content never holds two.\<close>

theorem join_priority_replaces:
  assumes "type_has_priority t" and "0 \<le> p" and "p < 65536"
    and "Suc (length (str_fields c)) = type_wire_fields t"
  shows "join_priority t q (join_priority t p c) = join_priority t q (join_with '' '' (str_fields c))"
proof -
  have "parse_uint 16 (dec_int p) \<noteq> None"
    using assms(2,3) by (simp add: parse_uint_def parse_digits_dec_int nat_less_iff)
  then have "join_priority t q (dec_int p @ blank_ch # c)
      = dec_int q @ blank_ch # join_with '' '' (str_fields c)"
    using assms join_priority_wire [of t "dec_int p @ blank_ch # c" q]
    by (simp add: str_fields_join_priority)
  with assms show ?thesis by (simp add: join_priority_bare)
qed

theorem join_priority_replaces_witness:
  "join_priority ''MX'' 5 (join_priority ''MX'' 10 ''mail.example.com.'') = ''5 mail.example.com.''"
proof -
  have f: "str_fields ''mail.example.com.'' = [''mail.example.com.'']" by (simp add: go_str)
  have "join_priority ''MX'' 5 (join_priority ''MX'' 10 ''mail.example.com.'')
      = join_priority ''MX'' 5 (join_with '' '' (str_fields ''mail.example.com.''))"
    by (rule join_priority_replaces)
      (simp_all add: f type_flag_defs spec_for_priority spec_for_wire_fields)
  also have "\<dots> = ''5 mail.example.com.''" by (simp add: f join_priority_def spec_for_def record_type_specs_def no_spec_def go_str)
  finally show ?thesis .
qed

text \<open>Quoting selected fields changes those fields only.  Split again on unquoted white space,
  the result has the same number of fields; a selected one is wrapped and escaped unless it was
  already quoted, every other one is as it was, and a second pass changes nothing.\<close>

theorem quote_content_fields_spec:
  fixes c :: string and "is" :: "int list"
  assumes "is \<noteq> []"
  defines "old \<equiv> split_quoted_fields c" and "new \<equiv> split_quoted_fields (quote_content_fields c is)"
  shows "length new = length old
    \<and> (\<forall>j. j < length old \<longrightarrow>
         new ! j = (if int j \<in> set is then quote_field_if_needed (old ! j) else old ! j))
    \<and> quote_content_fields (quote_content_fields c is) is = quote_content_fields c is"
proof -
  have new: "new = foldl quote_field_at old is"
    using assms by (simp add: split_quote_content_fields)
  have "foldl quote_field_at new is = new"
    by (rule nth_equalityI) (auto simp: new nth_foldl_quote_field_at)
  then have "quote_content_fields (quote_content_fields c is) is = quote_content_fields c is"
    using assms(1) new unfolding new_def old_def
    by (cases "c = []"; cases "quote_content_fields c is = []") (auto simp: quote_content_fields_def)
  with new show ?thesis by (simp add: nth_foldl_quote_field_at)
qed

theorem quote_content_fields_spec_witness:
  "length (split_quoted_fields (quote_content_fields ''0 issue letsencrypt.org'' [2])) = 3"
proof -
  have "length (split_quoted_fields ''0 issue letsencrypt.org'') = 3"
    by (simp add: split_quoted_fields_def esc_byte_def sep_byte_def)
  then show ?thesis
    using quote_content_fields_spec [of "[2]" "''0 issue letsencrypt.org''"] by simp
qed

text \<open>The per-field trailing dot touches exactly the requested fields: the field count is kept, a
  requested field ends with a dot and is otherwise unchanged, the others are as they were.\<close>

theorem ensure_trailing_dot_fields_spec:
  fixes c :: string and "is" :: "int list"
  assumes "is \<noteq> []"
  defines "old \<equiv> str_fields c" and "new \<equiv> str_fields (ensure_trailing_dot_fields c is)"
  shows "length new = length old
    \<and> (\<forall>j. j < length old \<longrightarrow>
         new ! j = (if int j \<in> set is then ensure_trailing_dot (old ! j) else old ! j))"
proof -
  have new: "new = foldl dot_field old is"
    using assms by (simp add: str_fields_ensure_trailing_dot_fields)
  have "old ! j \<noteq> []" if "j < length old" for j
    using that str_fields_tok [of "old ! j" c] nth_mem [of j old] by (simp add: old_def field_tok_def)
  with new show ?thesis by (auto simp: nth_foldl_dot_field ensure_trailing_dot_def)
qed

theorem ensure_trailing_dot_fields_spec_witness:
  "str_fields (ensure_trailing_dot_fields ''ns1.example.com admin.example.com. 7'' [0, 1]) ! 0
     = ''ns1.example.com.''"
proof -
  have f: "str_fields ''ns1.example.com admin.example.com. 7''
      = [''ns1.example.com'', ''admin.example.com.'', ''7'']" by (simp add: go_str)
  show ?thesis
    using ensure_trailing_dot_fields_spec [of "[0, 1]" "''ns1.example.com admin.example.com. 7''"]
    by (simp add: f ensure_trailing_dot_def go_str)
qed

end
