(* ===== verification/Validators.thy ===== *)
theory Validators
  imports GoNet RecordCodec
begin

section \<open>Validation of names, kinds, users and addresses\<close>

text \<open>
  Models \<^verbatim>\<open>internal/validators/validators.go\<close> up to line 518 and the password policy
  at its end.  A Go \<^verbatim>\<open>error\<close> result is a \<open>validation_error option\<close>, \<^const>\<open>None\<close> for
  \<^verbatim>\<open>nil\<close>; the constructors name the distinct messages, with the values they quote.
  The regular expressions are written out as the conditions they match.
\<close>

datatype validation_error =
    NameEmpty | NameTooLong | EmptyLabel | LabelTooLong string | LabelFormat string
  | WildcardNotLeftmost string | SingleLabelTarget string
  | KindEmpty | KindUnsupported string
  | UsernameEmpty | UsernameInvalid string
  | EmailEmpty | EmailTooLong | EmailFormat string | EmailAtSigns | EmailLocalEmpty
  | EmailLocalTooLong | EmailDomainUtf8
  | AddressEmpty | AddressInvalid string
  | NotUint string string nat | RrsigTimeFormat string string
  | TxtControl char | TxtTooLong nat | TxtStringTooLong nat | TxtOutsideQuotes | TxtUnclosed
  | ContentEmpty | FieldCount string | InField string validation_error
  | SoaNotPositive string | CaaFlags nat | CaaTag string | CaaValue string | CaaUnquotedSpaces
  | UriTargetEmpty | NotHex string | NotBase64 string | Nsec3HashEmpty | LocNoCoordinates
  | LocNoDirection | ContentNotImplemented string | PriorityRange string int
  | PasswordEmpty | PasswordTooShort int | PasswordTooLong int nat | PasswordNoUpper
  | PasswordNoLower | PasswordNoDigit | PasswordNoSpecial

type_synonym verdict = "validation_error option"

text \<open>\<^verbatim>\<open>if err := a; err != nil { return err }\<close> followed by the rest \<open>b\<close>, and the
  wrapping \<^verbatim>\<open>fmt.Errorf("field: %w", err)\<close>.\<close>

definition and_then :: "verdict \<Rightarrow> verdict \<Rightarrow> verdict" where
  "and_then a b = (case a of Some e \<Rightarrow> Some e | None \<Rightarrow> b)"

definition in_field :: "string \<Rightarrow> verdict \<Rightarrow> verdict" where
  "in_field name v = map_option (InField name) v"

lemma and_then_None [simp]: "and_then a b = None \<longleftrightarrow> a = None \<and> b = None"
  by (auto simp: and_then_def split: option.splits)

lemma in_field_None [simp]: "in_field name v = None \<longleftrightarrow> v = None"
  by (simp add: in_field_def)

subsection \<open>Labels and names\<close>

definition rfc1035_label :: "string \<Rightarrow> bool" where
  "rfc1035_label s \<longleftrightarrow> s \<noteq> [] \<and> length s \<le> 63 \<and> is_alnum (hd s) \<and> is_alnum (last s)
     \<and> list_all (\<lambda>c. is_alnum c \<or> c = CHR ''-'') s"

definition is_word_char :: "char \<Rightarrow> bool" where
  "is_word_char c \<longleftrightarrow> is_alnum c \<or> c = CHR ''_''"

definition dns_label :: "string \<Rightarrow> bool" where
  "dns_label s \<longleftrightarrow> s = ''*''
     \<or> (s \<noteq> [] \<and> length s \<le> 63 \<and> is_word_char (hd s) \<and> is_word_char (last s)
        \<and> list_all (\<lambda>c. is_word_char c \<or> c = CHR ''-'') s)"

fun check_domain_labels :: "string list \<Rightarrow> verdict" where
  "check_domain_labels [] = None"
| "check_domain_labels (label # rest) =
     (if length label = 0 then Some EmptyLabel
      else if length label > 63 then Some (LabelTooLong label)
      else if \<not> rfc1035_label label then Some (LabelFormat label)
      else check_domain_labels rest)"

definition validate_domain_name :: "string \<Rightarrow> verdict" where
  "validate_domain_name name0 =
     (let name = trim_suffix name0 ''.'' in
      if length name = 0 then Some NameEmpty
      else if length name > 253 then Some NameTooLong
      else check_domain_labels (split_on CHR ''.'' name))"

text \<open>The loop of \<^verbatim>\<open>ValidateDNSName\<close>; the number is the loop index.\<close>

fun check_dns_labels :: "nat \<Rightarrow> string list \<Rightarrow> verdict" where
  "check_dns_labels i [] = None"
| "check_dns_labels i (label # rest) =
     (if length label = 0 then Some EmptyLabel
      else if length label > 63 then Some (LabelTooLong label)
      else if \<not> dns_label label then Some (LabelFormat label)
      else if label = ''*'' \<and> i \<noteq> 0 then Some (WildcardNotLeftmost label)
      else check_dns_labels (Suc i) rest)"

definition validate_dns_name :: "string \<Rightarrow> verdict" where
  "validate_dns_name name0 =
     (let name = trim_suffix name0 ''.'' in
      if length name = 0 then Some NameEmpty
      else if length name > 253 then Some NameTooLong
      else check_dns_labels 0 (split_on CHR ''.'' name))"

definition reject_bare_target_label :: "string \<Rightarrow> verdict" where
  "reject_bare_target_label name =
     (if CHR ''.'' \<notin> set name then Some (SingleLabelTarget name) else None)"

definition validate_domain_target :: "string \<Rightarrow> verdict" where
  "validate_domain_target name =
     (if name = ''.'' then None
      else and_then (validate_dns_name name) (reject_bare_target_label name))"

definition validate_qualified_target :: "string \<Rightarrow> verdict" where
  "validate_qualified_target name =
     and_then (validate_dns_name name) (reject_bare_target_label name)"

definition validate_record_name :: "string \<Rightarrow> verdict" where
  "validate_record_name name =
     (if name = [] then Some NameEmpty
      else if name = ''@'' then None
      else validate_dns_name name)"

subsection \<open>White lists\<close>

definition zone_kind_whitelist :: "string list" where
  "zone_kind_whitelist = [''Native'', ''Master'', ''Slave'', ''Producer'', ''Consumer'']"

definition validate_zone_kind :: "string \<Rightarrow> verdict" where
  "validate_zone_kind kind =
     (if kind = [] then Some KindEmpty
      else if kind \<notin> set zone_kind_whitelist then Some (KindUnsupported kind)
      else None)"

definition record_type_whitelist :: "string list" where
  "record_type_whitelist =
     [''A'', ''AAAA'', ''AFSDB'', ''ALIAS'', ''CAA'', ''CERT'', ''CNAME'', ''DNAME'', ''DNSKEY'',
      ''DS'', ''HINFO'', ''KEY'', ''LOC'', ''MINFO'', ''MX'', ''NAPTR'', ''NS'', ''NSEC'',
      ''NSEC3'', ''NSEC3PARAM'', ''OPENPGPKEY'', ''PTR'', ''RP'', ''RRSIG'', ''SOA'', ''SPF'',
      ''SRV'', ''SSHFP'', ''TLSA'', ''TXT'', ''URI'']"

definition validate_record_type :: "string \<Rightarrow> verdict" where
  "validate_record_type record_type =
     (let upper = to_upper record_type in
      if upper = [] then Some KindEmpty
      else if upper \<notin> set record_type_whitelist then Some (KindUnsupported record_type)
      else None)"

definition metadata_kind_whitelist :: "string list" where
  "metadata_kind_whitelist =
     [''ALLOW-AXFR-FROM'', ''ALLOW-DNSUPDATE-FROM'', ''ALSO-NOTIFY'', ''AXFR-MASTER-TSIG'',
      ''AXFR-SOURCE'', ''FORWARD-DNSSEC'', ''GSS-ACCEPTOR-PRINCIPAL'',
      ''GSS-ALLOW-AXFR-PRINCIPALS'', ''IXFR'', ''LUA-AXFR-SCRIPT'', ''NOTIFY-DNSUPDATE'',
      ''NSEC3NARROW'', ''NSEC3PARAM'', ''PRESIGNED'', ''PUBLISH-CDNSKEY'', ''PUBLISH-CDS'',
      ''SOA-EDIT'', ''SOA-EDIT-API'', ''SOA-EDIT-DNSUPDATE'', ''TSIG-ALLOW-AXFR'',
      ''TSIG-ALLOW-DNSUPDATE'']"

definition validate_metadata_kind :: "string \<Rightarrow> verdict" where
  "validate_metadata_kind kind =
     (if kind = [] then Some KindEmpty
      else if kind \<notin> set metadata_kind_whitelist then Some (KindUnsupported kind)
      else None)"

definition dnssec_algorithm_whitelist :: "string list" where
  "dnssec_algorithm_whitelist =
     [''rsasha256'', ''rsasha512'', ''ecdsa256'', ''ecdsa384'', ''ed25519'', ''ed448'']"

definition validate_dnssec_algorithm :: "string \<Rightarrow> verdict" where
  "validate_dnssec_algorithm algorithm =
     (if algorithm = [] then Some KindEmpty
      else if to_lower algorithm \<notin> set dnssec_algorithm_whitelist
      then Some (KindUnsupported algorithm)
      else None)"

definition tsig_algorithm_whitelist :: "string list" where
  "tsig_algorithm_whitelist = [''hmac-md5'', ''hmac-sha1'', ''hmac-sha256'', ''hmac-sha512'']"

definition validate_tsig_algorithm :: "string \<Rightarrow> verdict" where
  "validate_tsig_algorithm algorithm =
     (if algorithm = [] then Some KindEmpty
      else if to_lower algorithm \<notin> set tsig_algorithm_whitelist
      then Some (KindUnsupported algorithm)
      else None)"

subsection \<open>Users\<close>

definition username_regex :: "string \<Rightarrow> bool" where
  "username_regex s \<longleftrightarrow> 3 \<le> length s \<and> length s \<le> 32 \<and> (is_upper (hd s) \<or> is_lower (hd s))
     \<and> list_all (\<lambda>c. is_alnum c \<or> c = CHR ''.'' \<or> c = CHR ''_'' \<or> c = CHR ''-'') (tl s)"

definition validate_username :: "string \<Rightarrow> verdict" where
  "validate_username username =
     (if username = [] then Some UsernameEmpty
      else if \<not> username_regex username then Some (UsernameInvalid username)
      else None)"

definition email_local_char :: "char \<Rightarrow> bool" where
  "email_local_char c \<longleftrightarrow> is_alnum c \<or> c \<in> set ''.!#$%&*+/=?^_{|}~-'' \<or> c = CHR 0x27 \<or> c = CHR 0x60"

definition email_regex :: "string \<Rightarrow> bool" where
  "email_regex s =
     (case cut_at CHR ''@'' s of
        None \<Rightarrow> False
      | Some (local_part, domain) \<Rightarrow>
          local_part \<noteq> [] \<and> list_all email_local_char local_part
          \<and> list_all rfc1035_label (split_on CHR ''.'' domain))"

definition validate_email :: "string \<Rightarrow> verdict" where
  "validate_email email =
     (if length email = 0 then Some EmailEmpty
      else if length email > 254 then Some EmailTooLong
      else if \<not> email_regex email then Some (EmailFormat email)
      else
        let parts = split_on CHR ''@'' email in
        if length parts \<noteq> 2 then Some EmailAtSigns
        else if length (parts ! 0) = 0 then Some EmailLocalEmpty
        else if length (parts ! 0) > 64 then Some EmailLocalTooLong
        else if \<not> valid_string (parts ! 1) then Some EmailDomainUtf8
        else None)"

definition role_whitelist :: "string list" where
  "role_whitelist = [''admin'', ''operator'', ''user'']"

definition validate_role :: "string \<Rightarrow> verdict" where
  "validate_role role =
     (if role = [] then Some KindEmpty
      else if role \<notin> set role_whitelist then Some (KindUnsupported role)
      else None)"

subsection \<open>Addresses\<close>

definition validate_ip_address :: "string \<Rightarrow> verdict" where
  "validate_ip_address ip =
     (if ip = [] then Some AddressEmpty
      else if parse_ip ip = None then Some (AddressInvalid ip)
      else None)"

definition validate_ipv4 :: "string \<Rightarrow> verdict" where
  "validate_ipv4 ip =
     (if ip = [] then Some AddressEmpty
      else if CHR '':'' \<in> set ip then Some (AddressInvalid ip)
      else case parse_ip ip of
             None \<Rightarrow> Some (AddressInvalid ip)
           | Some parsed \<Rightarrow> if to4 parsed = None then Some (AddressInvalid ip) else None)"

definition validate_ipv6 :: "string \<Rightarrow> verdict" where
  "validate_ipv6 ip =
     (if ip = [] then Some AddressEmpty
      else case parse_ip ip of
             None \<Rightarrow> Some (AddressInvalid ip)
           | Some parsed \<Rightarrow> if to4 parsed \<noteq> None then Some (AddressInvalid ip) else None)"

subsection \<open>Helpers of the record validators\<close>

definition hex_string :: "string \<Rightarrow> bool" where
  "hex_string s \<longleftrightarrow> s \<noteq> [] \<and> list_all is_hex s"

text \<open>\<^verbatim>\<open>^[A-Za-z0-9+/]+={0,2}$\<close>: at most two padding bytes are taken off the end.\<close>

definition base64_string :: "string \<Rightarrow> bool" where
  "base64_string s =
     (let body = trim_suffix (trim_suffix s ''='') ''='' in
      body \<noteq> [] \<and> list_all (\<lambda>c. is_alnum c \<or> c = CHR ''+'' \<or> c = CHR ''/'') body)"

definition validate_uint_field :: "string \<Rightarrow> string \<Rightarrow> nat \<Rightarrow> verdict" where
  "validate_uint_field s name bits =
     (if parse_uint bits s = None then Some (NotUint name s bits) else None)"

definition validate_rrsig_time :: "string \<Rightarrow> string \<Rightarrow> verdict" where
  "validate_rrsig_time s name =
     (if length s \<noteq> 14 then Some (RrsigTimeFormat name s)
      else if \<not> list_all is_digit s then Some (RrsigTimeFormat name s)
      else None)"

subsection \<open>The password policy\<close>

record password_policy =
  min_length :: int
  require_uppercase :: bool
  require_lowercase :: bool
  require_digit :: bool
  require_special :: bool
  max_length :: int

text \<open>The first class of the switch a rune falls into.  The Unicode tables behind
  \<^verbatim>\<open>unicode.IsUpper\<close>, \<^verbatim>\<open>IsLower\<close> and \<^verbatim>\<open>IsDigit\<close> are the argument
  \<open>classify\<close> of the model; \<open>ascii_class\<close> is what they say below 128.\<close>

datatype rune_class = UpperRune | LowerRune | DigitRune | SpecialRune

definition ascii_class :: "nat \<Rightarrow> rune_class" where
  "ascii_class r =
     (if 65 \<le> r \<and> r \<le> 90 then UpperRune
      else if 97 \<le> r \<and> r \<le> 122 then LowerRune
      else if 48 \<le> r \<and> r \<le> 57 then DigitRune
      else SpecialRune)"

definition validate_password ::
  "(nat \<Rightarrow> rune_class) \<Rightarrow> string \<Rightarrow> password_policy \<Rightarrow> verdict" where
  "validate_password classify password p =
     (if password = [] then Some PasswordEmpty
      else if min_length p > 0 \<and> int (rune_count password) < min_length p
      then Some (PasswordTooShort (min_length p))
      else if max_length p > 0 \<and> int (length password) > max_length p
      then Some (PasswordTooLong (max_length p) (length password))
      else
        let classes = map classify (runes password) in
        if require_uppercase p \<and> UpperRune \<notin> set classes then Some PasswordNoUpper
        else if require_lowercase p \<and> LowerRune \<notin> set classes then Some PasswordNoLower
        else if require_digit p \<and> DigitRune \<notin> set classes then Some PasswordNoDigit
        else if require_special p \<and> SpecialRune \<notin> set classes then Some PasswordNoSpecial
        else None)"


section \<open>Properties of the validators\<close>

lemma rfc1035_label_dns_label: "rfc1035_label s \<Longrightarrow> dns_label s \<and> s \<noteq> ''*''"
  by (auto simp: rfc1035_label_def dns_label_def is_word_char_def list_all_iff go_str)

lemma check_domain_labels_None: "check_domain_labels ls = None \<longleftrightarrow> list_all rfc1035_label ls"
  by (induction ls) (auto simp: rfc1035_label_def)

lemma dns_label_length: "dns_label s \<Longrightarrow> s \<noteq> [] \<and> length s \<le> 63"
  by (auto simp: dns_label_def)

lemma check_dns_labels_None:
  "check_dns_labels i ls = None \<longleftrightarrow>
     list_all dns_label ls \<and> ''*'' \<notin> set (if i = 0 then tl ls else ls)"
  by (induction i ls rule: check_dns_labels.induct) (auto dest: dns_label_length)

text \<open>The names the two validators accept, after the optional trailing dot is taken off.\<close>

definition domain_labels :: "string \<Rightarrow> string list" where
  "domain_labels name = split_on CHR ''.'' (trim_suffix name ''.'')"

lemma validate_domain_name_None:
  "validate_domain_name name = None \<longleftrightarrow>
     length (trim_suffix name ''.'') \<in> {1..253} \<and> list_all rfc1035_label (domain_labels name)"
  by (auto simp: validate_domain_name_def domain_labels_def Let_def check_domain_labels_None
      Suc_le_eq split: if_splits)

lemma validate_dns_name_None:
  "validate_dns_name name = None \<longleftrightarrow>
     length (trim_suffix name ''.'') \<in> {1..253} \<and> list_all dns_label (domain_labels name)
     \<and> ''*'' \<notin> set (tl (domain_labels name))"
  by (auto simp: validate_dns_name_def domain_labels_def Let_def check_dns_labels_None
      Suc_le_eq split: if_splits)

lemma validate_dns_name_dot:
  "name \<noteq> [] \<Longrightarrow> validate_dns_name (ensure_trailing_dot name) = validate_dns_name name"
  by (simp add: validate_dns_name_def ensure_trailing_dot_def trim_suffix_none)

lemma validate_qualified_target_dot:
  "validate_qualified_target name = None \<Longrightarrow> validate_qualified_target (ensure_trailing_dot name) = None"
proof (cases "name = []")
  case False
  assume "validate_qualified_target name = None"
  moreover have "set name \<subseteq> set (ensure_trailing_dot name)"
    by (auto simp: ensure_trailing_dot_def)
  ultimately show ?thesis
    using False validate_dns_name_dot [OF False]
    by (auto simp: validate_qualified_target_def reject_bare_target_label_def split: if_splits)
qed (simp add: ensure_trailing_dot_def)

text \<open>A domain name is accepted exactly when, without its optional trailing dot, it has 1 to 253
  bytes and every dot-separated label is an RFC 1123 label of 1 to 63 bytes.  Every accepted
  domain name is also an accepted DNS name, and carries no wildcard or underscore label.\<close>

theorem validate_domain_name_exact:
  "(validate_domain_name name = None \<longleftrightarrow>
      length (trim_suffix name ''.'') \<in> {1..253} \<and> list_all rfc1035_label (domain_labels name))
   \<and> \<not> (validate_domain_name name = None \<and> validate_dns_name name \<noteq> None)"
proof -
  have "list_all dns_label ls \<and> ''*'' \<notin> set (tl ls)" if "list_all rfc1035_label ls" for ls
    using that rfc1035_label_dns_label by (cases ls) (auto simp: list_all_iff)
  then show ?thesis
    unfolding validate_domain_name_None validate_dns_name_None by blast
qed

text \<open>A record content is accepted as an IPv4 address exactly when it is four decimal numbers of
  at most 255, without leading zeros, joined by dots; and no content passes both as an IPv4 and
  as an IPv6 address, so an A record can never be stored as AAAA or the reverse.\<close>

theorem validate_ipv4_exact:
  "(validate_ipv4 s = None \<longleftrightarrow>
      (\<exists>a b c d. a \<le> 255 \<and> b \<le> 255 \<and> c \<le> 255 \<and> d \<le> 255
         \<and> s = join_with ''.'' [dec_nat a, dec_nat b, dec_nat c, dec_nat d]))
   \<and> \<not> (validate_ipv4 s = None \<and> validate_ipv6 s = None)"
  (is "(_ \<longleftrightarrow> ?Q) \<and> _")
proof (cases "CHR '':'' \<in> set s")
  case True
  have "CHR '':'' \<notin> set (dec_nat n)" for n
    using dec_nat_chars digit_not_dot by blast
  then have "CHR '':'' \<notin> set (join_with ''.'' [dec_nat a, dec_nat b, dec_nat c, dec_nat d])" for a b c d
    by simp
  with True show ?thesis by (auto simp: validate_ipv4_def)
next
  case False
  have Q: "?Q \<longleftrightarrow> (\<exists>bs. parse_ipv4_fields s = Some bs)"
    unfolding parse_ipv4_fields_iff by blast
  moreover have "?Q \<Longrightarrow> s \<noteq> []" by auto
  moreover have "validate_ipv4 s = None \<longleftrightarrow> s \<noteq> [] \<and> (\<exists>bs. parse_ipv4_fields s = Some bs)"
    using False by (auto simp: validate_ipv4_def parse_ip_no_colon to4_v4_in_6 split: option.splits)
  moreover have "validate_ipv6 s = None \<Longrightarrow> parse_ipv4_fields s = None"
    using False
    by (cases "parse_ipv4_fields s")
      (auto simp: validate_ipv6_def parse_ip_no_colon to4_v4_in_6 split: if_splits)
  ultimately show ?thesis by (metis option.distinct(1))
qed

text \<open>The password policy is enforced rule by rule: a password is accepted exactly when it is not
  empty, has at least the minimum number of runes and at most the maximum number of bytes
  where those rules are on, and holds a rune of every required class.\<close>

theorem validate_password_exact:
  "validate_password classify pw p = None \<longleftrightarrow>
     pw \<noteq> []
     \<and> (min_length p \<le> 0 \<or> min_length p \<le> int (rune_count pw))
     \<and> (max_length p \<le> 0 \<or> int (length pw) \<le> max_length p)
     \<and> (require_uppercase p \<longrightarrow> UpperRune \<in> classify ` set (runes pw))
     \<and> (require_lowercase p \<longrightarrow> LowerRune \<in> classify ` set (runes pw))
     \<and> (require_digit p \<longrightarrow> DigitRune \<in> classify ` set (runes pw))
     \<and> (require_special p \<longrightarrow> SpecialRune \<in> classify ` set (runes pw))"
  by (auto simp: validate_password_def Let_def not_less split: if_splits)

theorem validate_password_exact_witness:
  "validate_password ascii_class ''Passw0rd!'' \<lparr>min_length = 8, require_uppercase = True,
     require_lowercase = True, require_digit = True, require_special = True, max_length = 72\<rparr> = None"
proof -
  have "ascii ''Passw0rd!''" by (simp add: ascii_def go_str)
  then have "rune_count ''Passw0rd!'' = 9" "runes ''Passw0rd!'' = map ord ''Passw0rd!''"
    by (simp_all add: rune_count_ascii runes_ascii)
  then show ?thesis
    unfolding validate_password_exact by (simp add: ascii_class_def ord_def)
qed

end
