(* ===== verification/RecordValidators.thy ===== *)
theory RecordValidators
  imports Validators RecordCodec
begin

section \<open>Validation of record contents\<close>

text \<open>
  Models \<^verbatim>\<open>ValidateRecordContent\<close> of \<^verbatim>\<open>internal/validators/validators.go\<close>, one
  definition per case of its switch, with the TXT validators and
  \<^verbatim>\<open>ValidateRecordPriority\<close>.  Each case checks in the order of the code and returns the
  first error.
\<close>

subsection \<open>TXT and SPF\<close>

text \<open>The loop of \<^verbatim>\<open>validateQuotedTXTStrings\<close>: inside a quote or not, and the number of
  bytes since the opening quote (\<^verbatim>\<open>i - segStart - 1\<close>).\<close>

function quoted_txt_loop :: "bool \<Rightarrow> nat \<Rightarrow> string \<Rightarrow> verdict" where
  "quoted_txt_loop q n [] = (if q then Some TxtUnclosed else None)"
| "quoted_txt_loop q n (c # s) =
     (if esc_byte q c \<and> s \<noteq> [] then quoted_txt_loop q (n + 2) (tl s)
      else if c = quote_ch then
        (if q then (if n > 255 then Some (TxtStringTooLong n) else quoted_txt_loop False 0 s)
         else quoted_txt_loop True 0 s)
      else if sep_byte q c then quoted_txt_loop q n s
      else if \<not> q then Some TxtOutsideQuotes
      else quoted_txt_loop q (n + 1) s)"
  by pat_completeness auto
termination
  by (relation "measure (\<lambda>(q, n, s). length s)") auto

definition validate_quoted_txt_strings :: "string \<Rightarrow> verdict" where
  "validate_quoted_txt_strings content = quoted_txt_loop False 0 content"

text \<open>Control bytes are refused first.  The code ranges over runes, but a rune below 128 is one
  byte and every other rune is made of bytes from 128 on.\<close>

definition control_byte :: "char \<Rightarrow> bool" where
  "control_byte c \<longleftrightarrow> ord c < 0x20 \<or> ord c = 0x7F"

definition validate_txt_content :: "string \<Rightarrow> verdict" where
  "validate_txt_content content =
     (case filter control_byte content of
        c # _ \<Rightarrow> Some (TxtControl c)
      | [] \<Rightarrow>
          if has_prefix content [quote_ch] then validate_quoted_txt_strings content
          else if length (escape_quoted content) > 255
          then Some (TxtTooLong (length (escape_quoted content)))
          else None)"

subsection \<open>Types made of names\<close>

definition validate_two_mailboxes :: "string \<Rightarrow> string \<Rightarrow> verdict" where
  "validate_two_mailboxes rt content =
     (let parts = str_fields content in
      if length parts \<noteq> 2 then Some (FieldCount rt)
      else and_then (in_field ''rmailbx'' (validate_qualified_target (parts ! 0)))
                    (in_field ''emailbx'' (validate_qualified_target (parts ! 1))))"

fun check_soa_fields :: "(string \<times> string) list \<Rightarrow> verdict" where
  "check_soa_fields [] = None"
| "check_soa_fields ((name, value) # rest) =
     (case parse_uint 32 value of
        None \<Rightarrow> Some (NotUint name value 32)
      | Some n \<Rightarrow> if n = 0 then Some (SoaNotPositive name) else check_soa_fields rest)"

definition validate_soa :: "string \<Rightarrow> verdict" where
  "validate_soa content =
     (let parts = str_fields content in
      if length parts \<noteq> 7 then Some (FieldCount ''SOA'')
      else and_then (in_field ''mname'' (validate_qualified_target (parts ! 0)))
          (and_then (in_field ''rname'' (validate_qualified_target (parts ! 1)))
            (check_soa_fields
              [(''serial'', parts ! 2), (''refresh'', parts ! 3), (''retry'', parts ! 4),
               (''expire'', parts ! 5), (''minimum'', parts ! 6)])))"

definition validate_srv :: "string \<Rightarrow> verdict" where
  "validate_srv content =
     (let parts = str_fields content; n = length parts in
      if n < 3 \<or> n > 4 then Some (FieldCount ''SRV'')
      else and_then (validate_uint_field (parts ! (n - 3)) ''SRV weight'' 16)
          (and_then (validate_uint_field (parts ! (n - 2)) ''SRV port'' 16)
            (in_field ''SRV target'' (validate_domain_target (parts ! (n - 1))))))"

definition validate_afsdb :: "string \<Rightarrow> verdict" where
  "validate_afsdb content =
     (let parts = str_fields content in
      if length parts \<noteq> 2 then Some (FieldCount ''AFSDB'')
      else and_then (validate_uint_field (parts ! 0) ''AFSDB subtype'' 16)
          (in_field ''AFSDB hostname'' (validate_qualified_target (parts ! 1))))"

definition validate_naptr :: "string \<Rightarrow> verdict" where
  "validate_naptr content =
     (let parts = str_fields content in
      if length parts \<noteq> 6 then Some (FieldCount ''NAPTR'')
      else and_then (validate_uint_field (parts ! 0) ''NAPTR order'' 16)
          (and_then (validate_uint_field (parts ! 1) ''NAPTR preference'' 16)
            (in_field ''NAPTR replacement'' (validate_domain_target (parts ! 5)))))"

subsection \<open>CAA, HINFO, URI\<close>

text \<open>The loop of the CAA case that takes at most \<open>n\<close> leading fields off the content.\<close>

fun caa_leading :: "nat \<Rightarrow> string \<Rightarrow> string list \<times> string" where
  "caa_leading 0 rest = ([], rest)"
| "caa_leading (Suc n) rest =
     (if rest = [] then ([], [])
      else
        let tok = takeWhile (\<lambda>c. c \<noteq> blank_ch \<and> c \<noteq> tab_ch) rest;
            after = dropWhile (\<lambda>c. c \<noteq> blank_ch \<and> c \<noteq> tab_ch) rest in
        if after = [] then ([rest], [])
        else (case caa_leading n (trim_space (tl after)) of (l, r) \<Rightarrow> (tok # l, r)))"

definition caa_tags :: "string list" where
  "caa_tags = [''issue'', ''issuewild'', ''iodef'', ''issuemail'', ''issuevmc'']"

definition validate_caa :: "string \<Rightarrow> verdict" where
  "validate_caa content =
     (case caa_leading 2 (trim_space content) of (leading, rest) \<Rightarrow>
        if length leading < 2 \<or> rest = [] then Some (FieldCount ''CAA'')
        else case parse_uint 8 (leading ! 0) of
          None \<Rightarrow> Some (NotUint ''CAA flags'' (leading ! 0) 8)
        | Some flags \<Rightarrow>
            if flags \<noteq> 0 \<and> flags \<noteq> 128 then Some (CaaFlags flags)
            else if leading ! 1 \<notin> set caa_tags then Some (CaaTag (leading ! 1))
            else if has_prefix rest [quote_ch] then
              (if \<not> has_suffix rest [quote_ch] \<or> length rest < 3 then Some (CaaValue rest) else None)
            else if blank_ch \<in> set rest \<or> tab_ch \<in> set rest then Some CaaUnquotedSpaces
            else None)"

definition validate_hinfo :: "string \<Rightarrow> verdict" where
  "validate_hinfo content =
     (if length (str_fields content) < 2 then Some (FieldCount ''HINFO'') else None)"

definition validate_uri :: "string \<Rightarrow> verdict" where
  "validate_uri content =
     (let parts = str_fields content in
      if length parts < 3 then Some (FieldCount ''URI'')
      else and_then (validate_uint_field (parts ! 0) ''URI priority'' 16)
          (and_then (validate_uint_field (parts ! 1) ''URI weight'' 16)
            (if trim_right (\<lambda>c. c = quote_ch) (trim_left (\<lambda>c. c = quote_ch)
                  (join_with '' '' (drop 2 parts))) = []
             then Some UriTargetEmpty else None)))"

subsection \<open>Fingerprints, keys and DNSSEC types\<close>

definition check_hex :: "string \<Rightarrow> string \<Rightarrow> verdict" where
  "check_hex name s = (if \<not> hex_string s then Some (NotHex name) else None)"

definition check_base64 :: "string \<Rightarrow> string \<Rightarrow> verdict" where
  "check_base64 name s = (if \<not> base64_string s then Some (NotBase64 name) else None)"

definition validate_sshfp :: "string \<Rightarrow> verdict" where
  "validate_sshfp content =
     (let parts = str_fields content in
      if length parts \<noteq> 3 then Some (FieldCount ''SSHFP'')
      else and_then (validate_uint_field (parts ! 0) ''SSHFP algorithm'' 8)
          (and_then (validate_uint_field (parts ! 1) ''SSHFP fptype'' 8)
            (check_hex ''SSHFP fingerprint'' (parts ! 2))))"

definition validate_tlsa :: "string \<Rightarrow> verdict" where
  "validate_tlsa content =
     (let parts = str_fields content in
      if length parts \<noteq> 4 then Some (FieldCount ''TLSA'')
      else and_then (validate_uint_field (parts ! 0) ''TLSA usage'' 8)
          (and_then (validate_uint_field (parts ! 1) ''TLSA selector'' 8)
            (and_then (validate_uint_field (parts ! 2) ''TLSA matchingtype'' 8)
              (check_hex ''TLSA certificate data'' (parts ! 3)))))"

definition validate_ds :: "string \<Rightarrow> verdict" where
  "validate_ds content =
     (let parts = str_fields content in
      if length parts \<noteq> 4 then Some (FieldCount ''DS'')
      else and_then (validate_uint_field (parts ! 0) ''DS keytag'' 16)
          (and_then (validate_uint_field (parts ! 1) ''DS algorithm'' 8)
            (and_then (validate_uint_field (parts ! 2) ''DS digesttype'' 8)
              (check_hex ''DS digest'' (parts ! 3)))))"

definition validate_dnskey :: "string \<Rightarrow> string \<Rightarrow> verdict" where
  "validate_dnskey rt content =
     (let parts = str_fields content in
      if length parts \<noteq> 4 then Some (FieldCount rt)
      else and_then (validate_uint_field (parts ! 0) (rt @ '' flags'') 16)
          (and_then (validate_uint_field (parts ! 1) (rt @ '' protocol'') 8)
            (and_then (validate_uint_field (parts ! 2) (rt @ '' algorithm'') 8)
              (check_base64 (rt @ '' publickey'') (parts ! 3)))))"

definition validate_cert :: "string \<Rightarrow> verdict" where
  "validate_cert content =
     (let parts = str_fields content in
      if length parts \<noteq> 4 then Some (FieldCount ''CERT'')
      else and_then (validate_uint_field (parts ! 1) ''CERT keytag'' 16)
          (and_then (validate_uint_field (parts ! 2) ''CERT algorithm'' 8)
            (check_base64 ''CERT certificate'' (parts ! 3))))"

definition validate_nsec :: "string \<Rightarrow> verdict" where
  "validate_nsec content =
     (let parts = str_fields content in
      if length parts < 2 then Some (FieldCount ''NSEC'')
      else in_field ''NSEC next domain'' (validate_dns_name (parts ! 0)))"

definition check_salt :: "string \<Rightarrow> string \<Rightarrow> verdict" where
  "check_salt name s = (if s \<noteq> ''-'' \<and> \<not> hex_string s then Some (NotHex name) else None)"

definition validate_nsec3 :: "string \<Rightarrow> verdict" where
  "validate_nsec3 content =
     (let parts = str_fields content in
      if length parts < 5 then Some (FieldCount ''NSEC3'')
      else and_then (validate_uint_field (parts ! 0) ''NSEC3 hash algorithm'' 8)
          (and_then (validate_uint_field (parts ! 1) ''NSEC3 flags'' 8)
            (and_then (validate_uint_field (parts ! 2) ''NSEC3 iterations'' 16)
              (and_then (check_salt ''NSEC3 salt'' (parts ! 3))
                (if parts ! 4 = [] then Some Nsec3HashEmpty else None)))))"

definition validate_nsec3param :: "string \<Rightarrow> verdict" where
  "validate_nsec3param content =
     (let parts = str_fields content in
      if length parts \<noteq> 4 then Some (FieldCount ''NSEC3PARAM'')
      else and_then (validate_uint_field (parts ! 0) ''NSEC3PARAM hash algorithm'' 8)
          (and_then (validate_uint_field (parts ! 1) ''NSEC3PARAM flags'' 8)
            (and_then (validate_uint_field (parts ! 2) ''NSEC3PARAM iterations'' 16)
              (check_salt ''NSEC3PARAM salt'' (parts ! 3)))))"

definition validate_rrsig :: "string \<Rightarrow> verdict" where
  "validate_rrsig content =
     (let parts = str_fields content in
      if length parts \<noteq> 9 then Some (FieldCount ''RRSIG'')
      else and_then (in_field ''RRSIG typecovered'' (validate_record_type (parts ! 0)))
          (and_then (validate_uint_field (parts ! 1) ''RRSIG algorithm'' 8)
            (and_then (validate_uint_field (parts ! 2) ''RRSIG labels'' 8)
              (and_then (validate_uint_field (parts ! 3) ''RRSIG origttl'' 32)
                (and_then (validate_rrsig_time (parts ! 4) ''expiration'')
                  (and_then (validate_rrsig_time (parts ! 5) ''inception'')
                    (and_then (validate_uint_field (parts ! 6) ''RRSIG keytag'' 16)
                      (and_then (in_field ''RRSIG signer'' (validate_dns_name (parts ! 7)))
                        (check_base64 ''RRSIG signature'' (parts ! 8))))))))))"

definition validate_loc :: "string \<Rightarrow> verdict" where
  "validate_loc content =
     (if \<not> list_ex is_digit content then Some LocNoCoordinates
      else if \<not> list_ex (\<lambda>c. c \<in> set ''NSEW'') (to_upper content) then Some LocNoDirection
      else None)"

subsection \<open>The switch\<close>

definition validate_record_content :: "string \<Rightarrow> string \<Rightarrow> verdict" where
  "validate_record_content record_type content =
     (let t = to_upper record_type in
      if content = [] then Some ContentEmpty
      else if t = ''A'' then validate_ipv4 content
      else if t = ''AAAA'' then validate_ipv6 content
      else if t \<in> {''CNAME'', ''ALIAS'', ''NS'', ''PTR'', ''DNAME''}
        then validate_qualified_target content
      else if t = ''MINFO'' then validate_two_mailboxes ''MINFO'' content
      else if t = ''MX'' then validate_domain_target content
      else if t = ''SOA'' then validate_soa content
      else if t = ''SRV'' then validate_srv content
      else if t = ''CAA'' then validate_caa content
      else if t \<in> {''TXT'', ''SPF''} then validate_txt_content content
      else if t = ''RP'' then validate_two_mailboxes ''RP'' content
      else if t = ''AFSDB'' then validate_afsdb content
      else if t = ''HINFO'' then validate_hinfo content
      else if t = ''NAPTR'' then validate_naptr content
      else if t = ''URI'' then validate_uri content
      else if t = ''SSHFP'' then validate_sshfp content
      else if t = ''TLSA'' then validate_tlsa content
      else if t = ''DS'' then validate_ds content
      else if t \<in> {''DNSKEY'', ''KEY''} then validate_dnskey t content
      else if t = ''CERT'' then validate_cert content
      else if t = ''OPENPGPKEY'' then check_base64 ''OPENPGPKEY'' content
      else if t = ''NSEC'' then validate_nsec content
      else if t = ''NSEC3'' then validate_nsec3 content
      else if t = ''NSEC3PARAM'' then validate_nsec3param content
      else if t = ''RRSIG'' then validate_rrsig content
      else if t = ''LOC'' then validate_loc content
      else Some (ContentNotImplemented record_type))"

definition validate_record_priority :: "string \<Rightarrow> int \<Rightarrow> verdict" where
  "validate_record_priority record_type priority =
     (let t = to_upper record_type in
      if (t = ''MX'' \<or> t = ''SRV'') \<and> (priority < 0 \<or> priority > 65535)
      then Some (PriorityRange t priority) else None)"


section \<open>Properties of the record validators\<close>

lemma control_escape: "filter control_byte (escape_quoted s) = [] \<longleftrightarrow> filter control_byte s = []"
  by (induction s) (auto simp: control_byte_def ord_def)

lemma quoted_txt_loop_escape:
  "quoted_txt_loop True n (escape_quoted s @ [quote_ch]) = None \<longleftrightarrow>
     n + length (escape_quoted s) \<le> 255"
  by (induction s arbitrary: n) auto

lemma validate_txt_None:
  "validate_txt_content c = None \<longleftrightarrow> filter control_byte c = []
     \<and> (if has_prefix c [quote_ch] then validate_quoted_txt_strings c = None
        else length (escape_quoted c) \<le> 255)"
  by (auto simp: validate_txt_content_def split: list.splits)

lemma validate_txt_wrap:
  "filter control_byte c = [] \<Longrightarrow> length (escape_quoted c) \<le> 255 \<Longrightarrow>
     validate_txt_content (quote_ch # escape_quoted c @ [quote_ch]) = None"
  using control_escape [of c] quoted_txt_loop_escape [of 0 c]
  by (simp add: validate_txt_None validate_quoted_txt_strings_def)
    (simp add: control_byte_def ord_def)

text \<open>The quoted wire content of an accepted text has balanced character-strings of at most 255
  bytes and no control byte, so it passes the validator when it is read back.\<close>

lemma txt_wire_valid:
  assumes "type_is_quoted t" and "c \<noteq> []" and "validate_txt_content c = None"
  shows "has_prefix (quote_content t c) [quote_ch]
    \<and> validate_quoted_txt_strings (quote_content t c) = None
    \<and> validate_txt_content (quote_content t c) = None"
proof (cases "has_prefix c [quote_ch]")
  case True
  with assms show ?thesis by (simp add: quote_content_def validate_txt_None)
next
  case False
  with assms have w: "quote_content t c = quote_ch # escape_quoted c @ [quote_ch]"
    and v: "validate_txt_content (quote_ch # escape_quoted c @ [quote_ch]) = None"
    by (simp_all add: quote_content_bare validate_txt_None [of c] validate_txt_wrap)
  from v show ?thesis unfolding w by (simp add: validate_txt_None)
qed

lemma and_then_Some: "and_then a b = Some e \<Longrightarrow> a = Some e \<or> b = Some e"
  by (auto simp: and_then_def split: option.splits)

definition not_implemented :: "verdict \<Rightarrow> bool" where
  "not_implemented v \<longleftrightarrow> (case v of Some (ContentNotImplemented _) \<Rightarrow> True | _ \<Rightarrow> False)"

lemma not_implemented_simps [simp]:
  "\<not> not_implemented None" "\<not> not_implemented (in_field n v)"
  "\<not> not_implemented (validate_uint_field s n k)" "\<not> not_implemented (check_hex n s)"
  "\<not> not_implemented (check_base64 n s)" "\<not> not_implemented (check_salt n s)"
  "\<not> not_implemented (validate_rrsig_time s n)" "\<not> not_implemented (reject_bare_target_label s)"
  "not_implemented (and_then a b) \<longleftrightarrow> not_implemented a \<or> a = None \<and> not_implemented b"
  "not_implemented (if q then a else b) \<longleftrightarrow> (if q then not_implemented a else not_implemented b)"
  by (auto simp: not_implemented_def in_field_def validate_uint_field_def check_hex_def
      check_base64_def check_salt_def validate_rrsig_time_def reject_bare_target_label_def
      and_then_def split: option.splits)

lemma not_implemented_Some [simp]:
  "not_implemented (Some e) \<longleftrightarrow> (case e of ContentNotImplemented _ \<Rightarrow> True | _ \<Rightarrow> False)"
  by (simp add: not_implemented_def split: validation_error.splits)

lemma not_implemented_dns [simp]: "\<not> not_implemented (check_dns_labels i ls)"
  by (induction i ls rule: check_dns_labels.induct) auto

lemma not_implemented_names [simp]:
  "\<not> not_implemented (validate_dns_name s)" "\<not> not_implemented (validate_qualified_target s)"
  "\<not> not_implemented (validate_domain_target s)" "\<not> not_implemented (validate_ipv4 s)"
  "\<not> not_implemented (validate_ipv6 s)"
  by (auto simp: validate_dns_name_def validate_qualified_target_def validate_domain_target_def
      validate_ipv4_def validate_ipv6_def Let_def split: option.splits)

lemma not_implemented_soa [simp]: "\<not> not_implemented (check_soa_fields fs)"
  by (induction fs rule: check_soa_fields.induct) (auto split: option.splits)

lemma not_implemented_txt [simp]: "\<not> not_implemented (quoted_txt_loop q n s)"
  by (induction q n s rule: quoted_txt_loop.induct) auto

lemma not_implemented_cases [simp]:
  "\<not> not_implemented (validate_two_mailboxes rt c)" "\<not> not_implemented (validate_soa c)"
  "\<not> not_implemented (validate_srv c)" "\<not> not_implemented (validate_afsdb c)"
  "\<not> not_implemented (validate_naptr c)" "\<not> not_implemented (validate_hinfo c)"
  "\<not> not_implemented (validate_uri c)" "\<not> not_implemented (validate_sshfp c)"
  "\<not> not_implemented (validate_tlsa c)" "\<not> not_implemented (validate_ds c)"
  "\<not> not_implemented (validate_dnskey rt c)" "\<not> not_implemented (validate_cert c)"
  "\<not> not_implemented (validate_nsec c)" "\<not> not_implemented (validate_nsec3 c)"
  "\<not> not_implemented (validate_nsec3param c)" "\<not> not_implemented (validate_rrsig c)"
  "\<not> not_implemented (validate_loc c)"
  by (simp_all add: validate_two_mailboxes_def validate_soa_def validate_srv_def
      validate_afsdb_def validate_naptr_def validate_hinfo_def validate_uri_def validate_sshfp_def
      validate_tlsa_def validate_ds_def validate_dnskey_def validate_cert_def validate_nsec_def
      validate_nsec3_def validate_nsec3param_def validate_rrsig_def validate_loc_def Let_def split: option.split)

lemma not_implemented_caa [simp]: "\<not> not_implemented (validate_caa c)"
  by (auto simp: validate_caa_def split: prod.splits option.splits)

lemma not_implemented_txt_content [simp]: "\<not> not_implemented (validate_txt_content c)"
  by (auto simp: validate_txt_content_def validate_quoted_txt_strings_def split: list.splits)

text \<open>The type white list and the content switch agree: a non-empty content is answered with "not
  implemented" exactly for the types the type validator refuses, so no accepted type, in any
  letter case, goes without a content check and no checked type is unreachable.\<close>

theorem content_check_covers_whitelist:
  "not_implemented (validate_record_content t c) \<longleftrightarrow> c \<noteq> [] \<and> validate_record_type t \<noteq> None"
proof (cases "c = []")
  case True
  then show ?thesis by (simp add: validate_record_content_def)
next
  case False
  show ?thesis
  proof (cases "to_upper t \<in> set record_type_whitelist")
    case True
    then have "validate_record_type t = None"
      by (auto simp: validate_record_type_def record_type_whitelist_def)
    moreover have "\<not> not_implemented (validate_record_content t c)"
      using True False unfolding record_type_whitelist_def validate_record_content_def Let_def
      by (elim set_ConsD [THEN disjE] disjE) auto
    ultimately show ?thesis by simp
  next
    case False
    then have "validate_record_type t \<noteq> None"
      by (simp add: validate_record_type_def Let_def)
    moreover have "validate_record_content t c = Some (ContentNotImplemented t)"
      using False \<open>c \<noteq> []\<close> by (simp add: validate_record_content_def record_type_whitelist_def)
    ultimately show ?thesis using \<open>c \<noteq> []\<close> by simp
  qed
qed

text \<open>For SRV the tolerated four-field form is only half checked.  The wire content built from
  an accepted content has the four fields of the SRV format exactly when the submission had
  three fields or its leading field is a 16-bit number; otherwise, as with
  \<open>abc 10 5060 sip.example.com.\<close>, a five-field content goes to PowerDNS.\<close>

theorem srv_wire_field_count:
  assumes "validate_record_content ''SRV'' c = None"
  shows "length (str_fields (join_priority ''SRV'' p c)) = 4 \<longleftrightarrow>
    length (str_fields c) = 3 \<or> parse_uint 16 (hd (str_fields c)) \<noteq> None"
proof -
  from assms have len: "length (str_fields c) = 3 \<or> length (str_fields c) = 4"
    by (auto simp: validate_record_content_def validate_srv_def Let_def go_str split: if_splits)
  have tl: "\<forall>t\<in>set (tl (str_fields c)). field_tok t"
    using str_fields_tok list.set_sel(2) by (metis tl_Nil)
  show ?thesis
  proof (cases "length (str_fields c) = 4 \<and> parse_uint 16 (hd (str_fields c)) \<noteq> None")
    case True
    then have "join_priority ''SRV'' p c = dec_int p @ blank_ch # join_with '' '' (tl (str_fields c))"
      by (intro join_priority_wire) (simp_all add: type_flag_defs spec_for_priority spec_for_wire_fields)
    with True tl show ?thesis by (simp add: str_fields_join_priority str_fields_join)
  next
    case False
    then have "join_priority ''SRV'' p c = dec_int p @ blank_ch # c"
      using len by (auto simp: join_priority_def spec_for_priority spec_for_wire_fields)
    with False len show ?thesis by (auto simp: str_fields_join_priority)
  qed
qed

theorem srv_wire_field_count_witness:
  "validate_record_content ''SRV'' ''abc 10 5060 sip.example.com.'' = None
   \<and> length (str_fields (join_priority ''SRV'' 5 ''abc 10 5060 sip.example.com.'')) \<noteq> 4"
proof -
  let ?c = "''abc 10 5060 sip.example.com.''"
  have f: "str_fields ?c = [''abc'', ''10'', ''5060'', ''sip.example.com.'']"
    by (simp add: go_str)
  have v: "validate_record_content ''SRV'' ?c = None"
    by (simp add: validate_record_content_def validate_srv_def f and_then_def in_field_def
        validate_uint_field_def validate_domain_target_def validate_dns_name_def
        reject_bare_target_label_def dns_label_def is_word_char_def go_str)
  moreover have "parse_uint 16 ''abc'' = None" by (simp add: go_str)
  ultimately show ?thesis using srv_wire_field_count [OF v, of 5] by (simp add: f)
qed

end
