(* ===== verification/RecordOps.thy ===== *)
theory RecordOps
  imports Models RecordValidators
begin

section \<open>Normalising and validating record sets\<close>

text \<open>
  Models the pure part of \<^verbatim>\<open>internal/dnsops/records.go\<close> and \<^verbatim>\<open>zones.go\<close>: names,
  wire contents, deduplication, the audit image and the validate-and-prepare path every
  write takes, and the validation of a zone creation.  The JSON text of the audit image is
  not modelled; the image is the record set that is rendered, \<^const>\<open>None\<close> for the empty string.
\<close>

definition default_record_ttl :: int where
  "default_record_ttl = 3600"

subsection \<open>Names\<close>

definition canonical_record_type :: "string \<Rightarrow> string" where
  "canonical_record_type t = to_upper (trim_space t)"

definition equal_fold :: "string \<Rightarrow> string \<Rightarrow> bool" where
  "equal_fold s t \<longleftrightarrow> to_lower s = to_lower t"

definition normalize_zone_name :: "string \<Rightarrow> string" where
  "normalize_zone_name name = ensure_trailing_dot (to_lower (trim_space name))"

definition normalize_record_name :: "string \<Rightarrow> string \<Rightarrow> string" where
  "normalize_record_name name0 zone_name =
     (let name = to_lower (trim_space name0);
          zone0 = to_lower zone_name;
          zone = (if \<not> has_suffix zone0 ''.'' then zone0 @ ''.'' else zone0);
          root = trim_suffix zone ''.'' in
      if name = ''@'' \<or> name = [] then zone
      else if has_suffix name ''.'' then
        (if equal_fold name zone then zone else name)
      else if equal_fold name root then zone
      else if has_suffix name (''.'' @ root) then name @ ''.''
      else name @ ''.'' @ zone)"

subsection \<open>Contents\<close>

definition prepare_record_content :: "string \<Rightarrow> string \<Rightarrow> int \<Rightarrow> string \<times> int" where
  "prepare_record_content t content priority =
     (if type_has_priority t then (ensure_trailing_dot (join_priority t priority content), 0)
      else if type_is_quoted t then (quote_content t content, priority)
      else if type_is_fqdn_target t then (ensure_trailing_dot content, priority)
      else if type_has_fqdn_fields t
        then (ensure_trailing_dot_fields content (type_fqdn_indices t), priority)
      else if type_has_quoted_fields t
        then (quote_content_fields content (type_quoted_indices t), priority)
      else (content, priority))"

fun dedup_loop :: "string set \<Rightarrow> record_info list \<Rightarrow> record_info list" where
  "dedup_loop seen [] = []"
| "dedup_loop seen (r # rs) =
     (if ri_content r \<in> seen then dedup_loop seen rs
      else r # dedup_loop (insert (ri_content r) seen) rs)"

definition dedup_records_by_content :: "record_info list \<Rightarrow> record_info list" where
  "dedup_records_by_content records =
     (if length records < 2 then records else dedup_loop {} records)"

subsection \<open>The audit image\<close>

definition snapshot_record :: "string \<Rightarrow> record_info \<Rightarrow> record_info" where
  "snapshot_record t r =
     (if type_wire_fields t > 0 \<and> length (str_fields (ri_content r)) \<ge> type_wire_fields t then
        (case split_priority t (ri_content r) of
           (p, c, ok) \<Rightarrow> if ok then r\<lparr>ri_content := c, ri_priority := p\<rparr> else r)
      else r)"

definition rrset_snapshot :: "rrset option \<Rightarrow> rrset option" where
  "rrset_snapshot img =
     (case img of
        None \<Rightarrow> None
      | Some rr \<Rightarrow> Some (rr\<lparr>rr_records := map (snapshot_record (rr_type rr)) (rr_records rr)\<rparr>))"

subsection \<open>Validating a record set\<close>

datatype record_set_error =
    InvalidField validation_error | NegativeTTL | NoRecords

fun check_records :: "string \<Rightarrow> record_info list \<Rightarrow> verdict" where
  "check_records t [] = None"
| "check_records t (r # rs) =
     and_then (validate_record_content t (ri_content r))
       (and_then (validate_record_priority t (ri_priority r)) (check_records t rs))"

definition validate_record_set :: "rrset \<Rightarrow> string \<Rightarrow> record_set_error + rrset" where
  "validate_record_set rr0 zone_id =
     (let rr = rr0\<lparr>rr_type := canonical_record_type (rr_type rr0)\<rparr> in
      case validate_record_type (rr_type rr) of
        Some e \<Rightarrow> Inl (InvalidField e)
      | None \<Rightarrow>
        if rr_ttl rr < 0 then Inl NegativeTTL
        else if length (rr_records rr) = 0 then Inl NoRecords
        else case validate_record_name (rr_name rr) of
          Some e \<Rightarrow> Inl (InvalidField e)
        | None \<Rightarrow>
          (case check_records (rr_type rr) (rr_records rr) of
             Some e \<Rightarrow> Inl (InvalidField e)
           | None \<Rightarrow> Inr (rr\<lparr>rr_name := normalize_record_name (rr_name rr) zone_id\<rparr>)))"

definition prepare_record :: "string \<Rightarrow> record_info \<Rightarrow> record_info" where
  "prepare_record t r =
     (case prepare_record_content t (ri_content r) (ri_priority r) of
        (c, p) \<Rightarrow> r\<lparr>ri_content := c, ri_priority := p\<rparr>)"

definition prepare_validated_record_set :: "rrset \<Rightarrow> string \<Rightarrow> record_set_error + rrset" where
  "prepare_validated_record_set rr0 zone_id =
     (case validate_record_set rr0 zone_id of
        Inl e \<Rightarrow> Inl e
      | Inr rr \<Rightarrow> Inr (rr\<lparr>rr_records := map (prepare_record (rr_type rr)) (rr_records rr)\<rparr>))"

subsection \<open>Zones\<close>

definition record_types :: "string list" where
  "record_types =
     [''A'', ''AAAA'', ''AFSDB'', ''ALIAS'', ''CAA'', ''CERT'', ''CNAME'', ''DNAME'', ''DNSKEY'',
      ''DS'', ''HINFO'', ''KEY'', ''LOC'', ''MINFO'', ''MX'', ''NAPTR'', ''NS'', ''NSEC'',
      ''NSEC3'', ''NSEC3PARAM'', ''OPENPGPKEY'', ''PTR'', ''RP'', ''RRSIG'', ''SOA'', ''SPF'',
      ''SRV'', ''SSHFP'', ''TLSA'', ''TXT'', ''URI'']"

datatype zone_create_error =
    ZoneField validation_error | InvalidMaster string | MasterRequired string

fun check_masters :: "string list \<Rightarrow> zone_create_error option" where
  "check_masters [] = None"
| "check_masters (m # ms) =
     (if validate_ipv4 m \<noteq> None \<and> validate_ipv6 m \<noteq> None then Some (InvalidMaster m)
      else check_masters ms)"

definition validate_zone_create ::
  "zone_create_request \<Rightarrow> zone_create_error + zone_create_request" where
  "validate_zone_create req0 =
     (case validate_domain_name (zc_name req0) of
        Some e \<Rightarrow> Inl (ZoneField e)
      | None \<Rightarrow>
        let req = (if zc_kind req0 = [] then req0\<lparr>zc_kind := ''Native''\<rparr> else req0) in
        case validate_zone_kind (zc_kind req) of
          Some e \<Rightarrow> Inl (ZoneField e)
        | None \<Rightarrow>
          (case check_masters (zc_masters req) of
             Some e \<Rightarrow> Inl e
           | None \<Rightarrow>
             if (zc_kind req = ''Slave'' \<or> zc_kind req = ''Consumer'') \<and> length (zc_masters req) = 0
             then Inl (MasterRequired (zc_kind req))
             else Inr req))"

section \<open>Properties of names and contents\<close>

lemma to_lower_Cons: "to_lower (c # s) = lower_char c # to_lower s"
  by (simp add: to_lower_def)

lemma to_lower_Cons_dot [simp]: "to_lower (CHR ''.'' # s) = CHR ''.'' # to_lower s"
  using lower_char_dot [of "CHR ''.''"] by (simp add: to_lower_Cons)

lemma to_lower_ensure_trailing_dot [simp]:
  "to_lower (ensure_trailing_dot s) = ensure_trailing_dot (to_lower s)"
  by (cases s rule: rev_cases) (auto simp: ensure_trailing_dot_def to_lower_def)

lemma normalize_record_name_shape:
  assumes "z \<noteq> []"
  shows "has_suffix (normalize_record_name n z) ''.''
    \<and> to_lower (normalize_record_name n z) = normalize_record_name n z"
proof -
  have "\<exists>s. ensure_trailing_dot (to_lower z) = s @ ''.''"
    using ensure_trailing_dot_suffix [of "to_lower z"] assms by (auto elim: has_suffixE)
  then show ?thesis
    using assms by (auto simp: normalize_record_name_def Let_def has_suffix_singleton last_to_lower)
qed

lemma normalize_record_name_dotted:
  assumes "has_suffix r ''.''" "to_lower r = r" "trim_space r = r"
  shows "normalize_record_name r z = r"
proof -
  have "r \<noteq> []" "r \<noteq> ''@''" using assms(1) by (auto simp: has_suffix_singleton)
  then show ?thesis
    using assms by (simp add: normalize_record_name_def Let_def equal_fold_def)
qed

lemma trim_space_lower: "trim_space (to_lower (trim_space s)) = to_lower (trim_space s)"
proof (rule trim_space_noop)
  show "to_lower (trim_space s) = [] \<or>
    \<not> is_space (hd (to_lower (trim_space s))) \<and> \<not> is_space (last (to_lower (trim_space s)))"
    using trim_space_ends [of s] by (cases "trim_space s") (auto simp: to_lower_def last_map)
qed

lemma not_space_dot [simp]: "\<not> is_space CHR ''.''"
  by (simp add: is_space_def ord_def)

lemma trim_space_dotted:
  assumes "s \<noteq> []" "\<not> is_space (hd s)" "last s = CHR ''.''"
  shows "trim_space s = s"
  using assms by (intro trim_space_noop) auto

lemma normalized_zone:
  assumes "normalize_zone_name z = z" "z \<noteq> []"
  shows "has_suffix z ''.''" "to_lower z = z" "\<not> is_space (hd z)"
proof -
  let ?t = "to_lower (trim_space z)"
  have z: "z = ensure_trailing_dot ?t" using assms(1) by (simp add: normalize_zone_name_def)
  with assms have t: "?t \<noteq> []" by (metis ensure_trailing_dot_eq_Nil)
  with z show "has_suffix z ''.''" using ensure_trailing_dot_suffix by metis
  from z show "to_lower z = z" by (metis to_lower_ensure_trailing_dot to_lower_idem)
  have "hd z = hd ?t" using t by (subst z) (simp add: ensure_trailing_dot_def)
  with t show "\<not> is_space (hd z)"
    using trim_space_ends [of z] by (cases "trim_space z") (auto simp: to_lower_def)
qed

lemma normalize_record_name_trimmed:
  assumes "normalize_zone_name z = z" "z \<noteq> []"
  shows "trim_space (normalize_record_name n z) = normalize_record_name n z"
proof (rule trim_space_dotted)
  note nz = normalized_zone [OF assms]
  let ?r = "normalize_record_name n z" and ?t = "to_lower (trim_space n)"
  have s: "has_suffix ?r ''.''" using normalize_record_name_shape [OF assms(2)] by simp
  then show "?r \<noteq> []" and "last ?r = CHR ''.''" by (auto simp: has_suffix_singleton)
  have "?t \<noteq> [] \<Longrightarrow> \<not> is_space (hd ?t)"
    using trim_space_ends [of n] by (cases "trim_space n") (auto simp: to_lower_def)
  moreover have "?r = z \<or> ?t \<noteq> [] \<and> (\<exists>u. ?r = ?t @ u)"
    using nz(1,2) by (auto simp: normalize_record_name_def Let_def)
  ultimately show "\<not> is_space (hd ?r)" using nz(3) by auto
qed

text \<open>Every name a write stores is canonical: it ends in a dot, is in lower case, and comes back
  unchanged when it is normalised again.\<close>

theorem normalize_record_name_canonical:
  assumes "normalize_zone_name z = z" and "z \<noteq> []"
  shows "has_suffix (normalize_record_name n z) ''.''
    \<and> to_lower (normalize_record_name n z) = normalize_record_name n z
    \<and> normalize_record_name (normalize_record_name n z) z = normalize_record_name n z"
  using normalize_record_name_shape [OF assms(2)] normalize_record_name_trimmed [OF assms]
    normalize_record_name_dotted by simp

theorem normalize_record_name_canonical_witness:
  "normalize_zone_name ''example.com.'' = ''example.com.''
   \<and> has_suffix (normalize_record_name '' WWW'' ''example.com.'') ''.''"
proof -
  have z: "normalize_zone_name ''example.com.'' = ''example.com.''"
    by (simp add: normalize_zone_name_def ensure_trailing_dot_def go_str)
  then show ?thesis using normalize_record_name_canonical [OF z, of "'' WWW''"] by blast
qed

text \<open>The relative, the absolute and the dotted spelling of a name of a zone are one stored name,
  and the three spellings of the zone itself all name its apex.\<close>

theorem normalize_record_name_spellings:
  assumes "normalize_zone_name z = z" and "z = root @ ''.''" and "field_tok root"
    and "\<not> has_suffix root ''.''" and "field_tok w" and "to_lower w = w" and "w \<noteq> ''@''"
    and "\<not> has_suffix w ''.''" and "\<not> has_suffix w (''.'' @ root)" and "w \<noteq> root"
  shows "normalize_record_name w z = w @ ''.'' @ z
    \<and> normalize_record_name (w @ ''.'' @ root) z = w @ ''.'' @ z
    \<and> normalize_record_name (w @ ''.'' @ z) z = w @ ''.'' @ z
    \<and> normalize_record_name ''@'' z = z \<and> normalize_record_name root z = z
    \<and> normalize_record_name z z = z"
proof -
  have zne: "z \<noteq> []" using assms by simp
  note nz = normalized_zone [OF assms(1) zne]
  have rl: "to_lower root = root" using nz(2) assms(2) by (simp add: to_lower_def)
  have ft: "trim_space t = t \<and> t \<noteq> [] \<and> \<not> is_space (hd t) \<and> \<not> is_space (last t)"
    if "field_tok t" for t
    using that by (auto simp: field_tok_def intro!: trim_space_noop)
  have tr: "trim_space (w @ ''.'' @ root) = w @ ''.'' @ root"
    using ft [OF assms(3)] ft [OF assms(5)] by (intro trim_space_noop) auto
  have tz: "trim_space (w @ ''.'' @ z) = w @ ''.'' @ z"
    using ft [OF assms(5)] assms(2) by (intro trim_space_dotted) auto
  have zz: "trim_space z = z" using nz assms(2) zne by (intro trim_space_dotted) auto
  have rne: "root \<noteq> []" using assms(3) by (simp add: field_tok_def)
  have ne: "w @ ''.'' @ root \<noteq> ''@''"
    by (auto simp: append_eq_Cons_conv)
  have at: "trim_space ''@'' = ''@''" "to_lower ''@'' = ''@''" "has_suffix ''@.'' ''.''"
    by (simp_all add: go_str)
  have "normalize_record_name w z = w @ ''.'' @ z"
    using assms ft [OF assms(5)] rl nz rne
    by (simp add: normalize_record_name_def Let_def equal_fold_def)
  moreover have "normalize_record_name (w @ ''.'' @ root) z = w @ ''.'' @ z"
    using assms ft [OF assms(5)] rl nz tr ne rne
    by (auto simp: normalize_record_name_def Let_def equal_fold_def has_suffix_singleton)
  moreover have "normalize_record_name (w @ ''.'' @ z) z = w @ ''.'' @ z"
  proof (rule normalize_record_name_dotted [OF _ _ tz])
    show "has_suffix (w @ ''.'' @ z) ''.''" using assms(2) by (simp add: has_suffix_singleton)
  qed (use assms(6) nz(2) in simp)
  moreover have "normalize_record_name ''@'' z = z"
    using nz by (simp add: normalize_record_name_def Let_def at)
  moreover have "normalize_record_name root z = z"
    using assms ft [OF assms(3)] rne rl nz at(3)
    by (simp add: normalize_record_name_def Let_def equal_fold_def)
  moreover have "normalize_record_name z z = z"
    using normalize_record_name_dotted [of z] nz zz by simp
  ultimately show ?thesis by blast
qed

theorem normalize_record_name_spellings_witness:
  "normalize_record_name ''www'' ''example.com.'' = ''www.example.com.''
   \<and> normalize_record_name ''www.example.com'' ''example.com.'' = ''www.example.com.''"
proof -
  have z: "normalize_zone_name ''example.com.'' = ''example.com.''"
    by (simp add: normalize_zone_name_def ensure_trailing_dot_def go_str)
  have f: "field_tok ''example.com''" "field_tok ''www''" by (simp_all add: field_tok_def go_str)
  have s: "\<not> has_suffix ''example.com'' ''.''" "\<not> has_suffix ''www'' ''.''"
    "\<not> has_suffix ''www'' (''.'' @ ''example.com'')" by (simp_all add: go_str)
  have l: "to_lower ''www'' = ''www''" by (simp add: go_str)
  show ?thesis
    using normalize_record_name_spellings [OF z _ f(1) s(1) f(2) l _ s(2,3)] by simp
qed

subsection \<open>Deduplication\<close>

lemma dedup_loop_subseq: "subseq (dedup_loop seen rs) rs"
  by (induction seen rs rule: dedup_loop.induct) auto

lemma dedup_loop_contents:
  "ri_content ` set (dedup_loop seen rs) = ri_content ` set rs - seen"
  by (induction seen rs rule: dedup_loop.induct) auto

lemma dedup_loop_distinct: "distinct (map ri_content (dedup_loop seen rs))"
  by (induction seen rs rule: dedup_loop.induct) (auto simp: dedup_loop_contents)

lemma dedup_loop_first:
  "c \<notin> seen \<Longrightarrow> find (\<lambda>r. ri_content r = c) (dedup_loop seen rs) = find (\<lambda>r. ri_content r = c) rs"
  by (induction seen rs rule: dedup_loop.induct) auto

lemma dedup_eq_loop: "dedup_records_by_content rs = dedup_loop {} rs"
proof (cases rs)
  case (Cons r rs')
  then show ?thesis by (cases rs') (simp_all add: dedup_records_by_content_def)
qed (simp add: dedup_records_by_content_def)

text \<open>Deduplication makes a record list a set and nothing else: the contents of the result are
  distinct and are exactly those given, the order is kept, and of equal contents the first
  record survives, with its disabled flag and its priority.\<close>

theorem dedup_records_spec:
  "distinct (map ri_content (dedup_records_by_content rs))
   \<and> set (map ri_content (dedup_records_by_content rs)) = set (map ri_content rs)
   \<and> subseq (dedup_records_by_content rs) rs
   \<and> find (\<lambda>r. ri_content r = c) (dedup_records_by_content rs) = find (\<lambda>r. ri_content r = c) rs"
  by (simp add: dedup_eq_loop dedup_loop_distinct dedup_loop_contents dedup_loop_subseq
      dedup_loop_first)

subsection \<open>Wire contents validate\<close>

lemma canonical_types:
  "validate_record_type t = None \<Longrightarrow> to_upper t = t \<Longrightarrow> t \<in> set record_type_whitelist"
  by (auto simp: validate_record_type_def Let_def split: if_splits)

lemma str_fields_dot_fields_nth:
  assumes "is \<noteq> []" "j < length (str_fields c)"
  shows "str_fields (ensure_trailing_dot_fields c is) ! j =
    (if int j \<in> set is then ensure_trailing_dot (str_fields c ! j) else str_fields c ! j)"
  using assms by (simp add: str_fields_ensure_trailing_dot_fields nth_foldl_dot_field'
      str_fields_nth_not_Nil)

lemma length_str_fields_dot_fields [simp]:
  "is \<noteq> [] \<Longrightarrow> length (str_fields (ensure_trailing_dot_fields c is)) = length (str_fields c)"
  by (simp add: str_fields_ensure_trailing_dot_fields)

lemma validate_soa_dotted:
  "validate_soa c = None \<Longrightarrow> validate_soa (ensure_trailing_dot_fields c [0, 1]) = None"
  by (simp add: validate_soa_def Let_def str_fields_dot_fields_nth validate_qualified_target_dot
      split: if_splits)

lemma validate_two_mailboxes_dotted:
  "validate_two_mailboxes t c = None \<Longrightarrow>
     validate_two_mailboxes t (ensure_trailing_dot_fields c [0, 1]) = None"
  by (simp add: validate_two_mailboxes_def Let_def str_fields_dot_fields_nth
      validate_qualified_target_dot split: if_splits)

lemma validate_nsec_dotted:
  assumes "validate_nsec c = None"
  shows "validate_nsec (ensure_trailing_dot_fields c [0]) = None"
proof -
  from assms have l: "0 < length (str_fields c)"
    by (auto simp: validate_nsec_def Let_def split: if_splits)
  from str_fields_dot_fields_nth [OF _ l, of "[0]"] str_fields_nth_not_Nil [OF l] assms
  show ?thesis by (simp add: validate_nsec_def Let_def validate_dns_name_dot split: if_splits)
qed

definition wire_checked_types :: "string set" where
  "wire_checked_types =
     set record_type_whitelist
       - {''MX'', ''SRV'', ''AFSDB'', ''NAPTR'', ''CAA'', ''HINFO'', ''URI''}"

lemma prepare_content_unchanged:
  "map_of record_type_specs t = None \<Longrightarrow> prepare_record_content t c p = (c, p)"
  by (simp add: prepare_record_content_def type_flag_defs spec_for_def no_spec_def)

lemmas prepare_record_content_eval =
  prepare_record_content_def type_flag_defs spec_for_def record_type_specs_def no_spec_def

lemma prepare_content_quoted:
  "t \<in> {''TXT'', ''SPF''} \<Longrightarrow> prepare_record_content t c p = (quote_content t c, p)"
  by (elim insertE emptyE; simp add: prepare_record_content_eval)+

lemma prepare_content_target:
  "t \<in> {''CNAME'', ''DNAME'', ''NS'', ''PTR'', ''ALIAS'', ''AFSDB'', ''NAPTR''} \<Longrightarrow>
     prepare_record_content t c p = (ensure_trailing_dot c, p)"
  by (elim insertE emptyE; simp add: prepare_record_content_eval)+

lemma prepare_content_fields:
  "t \<in> {''SOA'', ''RP'', ''MINFO''} \<Longrightarrow>
     prepare_record_content t c p = (ensure_trailing_dot_fields c [0, 1], p)"
  "prepare_record_content ''NSEC'' c p = (ensure_trailing_dot_fields c [0], p)"
  by (elim insertE emptyE; simp add: prepare_record_content_eval)
    (simp add: prepare_record_content_eval)

lemma wire_checked_cases:
  assumes "t \<in> wire_checked_types"
  obtains "map_of record_type_specs t = None" | "t \<in> {''TXT'', ''SPF''}"
    | "t \<in> {''CNAME'', ''DNAME'', ''NS'', ''PTR'', ''ALIAS''}"
    | "t = ''SOA''" | "t \<in> {''RP'', ''MINFO''}" | "t = ''NSEC''"
proof (cases "map_of record_type_specs t")
  case (Some s)
  then have "t \<in> fst ` set record_type_specs" by (force dest: map_of_SomeD)
  then have "t \<in> {''MX'', ''SRV'', ''AFSDB'', ''NAPTR'', ''CAA'', ''HINFO'', ''URI''}
      \<or> t \<in> {''TXT'', ''SPF''} \<or> t \<in> {''CNAME'', ''DNAME'', ''NS'', ''PTR'', ''ALIAS''}
      \<or> t = ''SOA'' \<or> t \<in> {''RP'', ''MINFO''} \<or> t = ''NSEC''"
    unfolding record_type_specs_def
    by (simp only: list.set image_insert image_empty fst_conv) (elim insertE emptyE; simp)
  moreover have "t \<notin> {''MX'', ''SRV'', ''AFSDB'', ''NAPTR'', ''CAA'', ''HINFO'', ''URI''}"
    using assms by (simp only: wire_checked_types_def Diff_iff simp_thms)
  ultimately show ?thesis using that(2-6) by (elim disjE) simp_all
qed (rule that(1))

lemma content_check_txt:
  "t \<in> {''TXT'', ''SPF''} \<Longrightarrow> c \<noteq> [] \<Longrightarrow> validate_record_content t c = validate_txt_content c"
  by (elim insertE emptyE; simp add: validate_record_content_def go_str)

lemma content_check_target:
  "t \<in> {''CNAME'', ''DNAME'', ''NS'', ''PTR'', ''ALIAS''} \<Longrightarrow> c \<noteq> [] \<Longrightarrow>
     validate_record_content t c = validate_qualified_target c"
  by (elim insertE emptyE; simp add: validate_record_content_def go_str)

lemma content_check_mailboxes:
  "t \<in> {''RP'', ''MINFO''} \<Longrightarrow> c \<noteq> [] \<Longrightarrow>
     validate_record_content t c = validate_two_mailboxes t c"
  by (elim insertE emptyE; simp add: validate_record_content_def go_str)

lemma content_check_soa: "c \<noteq> [] \<Longrightarrow> validate_record_content ''SOA'' c = validate_soa c"
  by (simp add: validate_record_content_def go_str)

lemma content_check_nsec: "c \<noteq> [] \<Longrightarrow> validate_record_content ''NSEC'' c = validate_nsec c"
  by (simp add: validate_record_content_def go_str)

lemma content_not_Nil: "validate_record_content t c = None \<Longrightarrow> c \<noteq> []"
  by (auto simp: validate_record_content_def)

lemma ensure_trailing_dot_fields_not_Nil:
  "is \<noteq> [] \<Longrightarrow> str_fields c \<noteq> [] \<Longrightarrow> ensure_trailing_dot_fields c is \<noteq> []"
  by (metis length_0_conv length_str_fields_dot_fields str_fields_Nil)

text \<open>Validation comes before normalisation, and normalisation keeps it: for every type outside
  the ones with an embedded priority, a target after other fields or quoted fields, a content
  the validator accepts is still accepted in the wire form sent to PowerDNS, so a record read
  back can be written again.\<close>

theorem wire_content_revalidates:
  assumes "t \<in> wire_checked_types" and "validate_record_content t c = None"
  shows "validate_record_content t (fst (prepare_record_content t c p)) = None"
proof -
  note c = content_not_Nil [OF assms(2)]
  show ?thesis
proof (cases rule: wire_checked_cases [OF assms(1)])
  case 1
  with assms show ?thesis by (simp add: prepare_content_unchanged)
next
  case 2
  then have q: "type_is_quoted t" by (auto simp: type_is_quoted_def spec_for_quoted)
  from 2 assms have "validate_txt_content c = None" by (simp only: content_check_txt [OF 2 c])
  from txt_wire_valid [OF q c this] show ?thesis
    by (subst prepare_content_quoted [OF 2], subst content_check_txt [OF 2]) auto
next
  case 3
  then have p: "t \<in> {''CNAME'', ''DNAME'', ''NS'', ''PTR'', ''ALIAS'', ''AFSDB'', ''NAPTR''}"
    by (elim insertE emptyE) simp_all
  from 3 assms have "validate_qualified_target c = None" by (simp only: content_check_target [OF 3 c])
  then show ?thesis
    by (subst prepare_content_target [OF p], subst content_check_target [OF 3])
      (simp_all add: c validate_qualified_target_dot)
next
  case 4
  with assms have v: "validate_soa c = None" by (simp add: content_check_soa c)
  moreover have "str_fields c \<noteq> []" using v by (auto simp: validate_soa_def)
  ultimately show ?thesis using 4
    by (simp add: prepare_content_fields content_check_soa validate_soa_dotted
        ensure_trailing_dot_fields_not_Nil)
next
  case 5
  then have p: "t \<in> {''SOA'', ''RP'', ''MINFO''}" by (elim insertE emptyE) simp_all
  from 5 assms have v: "validate_two_mailboxes t c = None" by (simp only: content_check_mailboxes [OF 5 c])
  moreover have "str_fields c \<noteq> []" using v by (auto simp: validate_two_mailboxes_def)
  ultimately show ?thesis
    by (subst prepare_content_fields(1) [OF p], subst content_check_mailboxes [OF 5])
      (simp_all add: validate_two_mailboxes_dotted ensure_trailing_dot_fields_not_Nil)
next
  case 6
  with assms have v: "validate_nsec c = None" by (simp add: content_check_nsec c)
  moreover have "str_fields c \<noteq> []" using v by (auto simp: validate_nsec_def)
  ultimately show ?thesis using 6
    by (simp add: prepare_content_fields content_check_nsec validate_nsec_dotted
        ensure_trailing_dot_fields_not_Nil)
qed
qed

theorem wire_content_revalidates_witness:
  "validate_record_content ''CNAME'' (fst (prepare_record_content ''CNAME'' ''a.b'' 0)) = None"
proof (rule wire_content_revalidates)
  show "''CNAME'' \<in> wire_checked_types"
    by (simp add: wire_checked_types_def record_type_whitelist_def)
  show "validate_record_content ''CNAME'' ''a.b'' = None"
    by (simp add: content_check_target validate_qualified_target_def validate_dns_name_def
        reject_bare_target_label_def dns_label_def is_word_char_def go_str)
qed

text \<open>
  For a target that is the last of several fields the dot goes to the end of the text, which
  is the end of the target only when no white space follows it.
\<close>

lemma length_str_fields_ensure_dot:
  assumes "c \<noteq> []"
  shows "length (str_fields (ensure_trailing_dot c)) =
    length (str_fields c) + (if is_space (last c) then 1 else 0)"
proof (cases "has_suffix c ''.''")
  case True
  with assms show ?thesis by (auto simp: ensure_trailing_dot_def has_suffix_singleton)
next
  case False
  with assms str_fields_not_Nil [OF assms] show ?thesis
    by (auto simp: ensure_trailing_dot_def str_fields_snoc)
qed

lemma str_fields_ensure_dot_last:
  assumes "c \<noteq> []" "\<not> is_space (last c)"
  shows "str_fields (ensure_trailing_dot c) =
    butlast (str_fields c) @ [ensure_trailing_dot (last (str_fields c))]"
proof -
  have e: "last (last (str_fields c)) = last c \<and> last (str_fields c) \<noteq> []"
    using str_fields_snoc [of "last c" "butlast c"] assms by (auto split: if_splits)
  have ne: "str_fields c \<noteq> []" using str_fields_not_Nil [OF assms] .
  show ?thesis
  proof (cases "has_suffix c ''.''")
    case True
    with e assms ne show ?thesis
      by (simp add: ensure_trailing_dot_def has_suffix_singleton)
  next
    case False
    with e assms ne show ?thesis
      by (simp add: ensure_trailing_dot_def has_suffix_singleton str_fields_snoc)
  qed
qed

lemma content_check_afsdb: "c \<noteq> [] \<Longrightarrow> validate_record_content ''AFSDB'' c = validate_afsdb c"
  by (simp add: validate_record_content_def go_str)

text \<open>The trailing dot of an AFSDB target is placed by the last byte of the text, not of the
  target: the wire form of an accepted content is accepted again exactly when the content does
  not end in white space.  With a trailing blank the dot becomes a field of its own.\<close>

theorem afsdb_wire_revalidates_iff:
  assumes "validate_record_content ''AFSDB'' c = None"
  shows "validate_record_content ''AFSDB'' (fst (prepare_record_content ''AFSDB'' c p)) = None
    \<longleftrightarrow> \<not> is_space (last c)"
proof -
  note c = content_not_Nil [OF assms]
  have v: "validate_afsdb c = None" using assms by (simp add: content_check_afsdb c)
  have w: "fst (prepare_record_content ''AFSDB'' c p) = ensure_trailing_dot c"
    by (subst prepare_content_target) simp_all
  have d: "ensure_trailing_dot c \<noteq> []" using c by simp
  show ?thesis unfolding w content_check_afsdb [OF d]
  proof
    assume "validate_afsdb (ensure_trailing_dot c) = None"
    with v show "\<not> is_space (last c)"
      by (auto simp: validate_afsdb_def Let_def length_str_fields_ensure_dot [OF c] split: if_splits)
  next
    assume l: "\<not> is_space (last c)"
    obtain a b where f: "str_fields c = [a, b]"
      using v by (auto simp: validate_afsdb_def Let_def length_Suc_conv numeral_2_eq_2 split: if_splits)
    with str_fields_ensure_dot_last [OF c l] have "str_fields (ensure_trailing_dot c) = [a, ensure_trailing_dot b]"
      by simp
    with v f show "validate_afsdb (ensure_trailing_dot c) = None"
      by (simp add: validate_afsdb_def validate_qualified_target_dot)
  qed
qed

theorem afsdb_wire_revalidates_iff_witness:
  "validate_record_content ''AFSDB''
     (fst (prepare_record_content ''AFSDB'' ''1 afs.example.com '' 0)) \<noteq> None"
proof -
  let ?c = "''1 afs.example.com ''"
  have f: "str_fields ?c = [''1'', ''afs.example.com'']" by (simp add: go_str)
  have "validate_record_content ''AFSDB'' ?c = None"
    by (simp add: content_check_afsdb validate_afsdb_def f)
      (simp add: validate_uint_field_def validate_qualified_target_def validate_dns_name_def
        reject_bare_target_label_def dns_label_def is_word_char_def go_str)
  then show ?thesis using afsdb_wire_revalidates_iff [of ?c 0] by simp
qed

subsection \<open>The prepared record set\<close>

lemma check_records_None:
  "check_records t rs = None \<longleftrightarrow>
     (\<forall>r\<in>set rs. validate_record_content t (ri_content r) = None
        \<and> validate_record_priority t (ri_priority r) = None)"
  by (induction rs) auto

lemma validate_record_set_Inr:
  assumes "validate_record_set rr z = Inr rr'"
  shows "rr' = rr\<lparr>rr_type := canonical_record_type (rr_type rr),
      rr_name := normalize_record_name (rr_name rr) z\<rparr>"
    and "validate_record_type (rr_type rr') = None" and "0 \<le> rr_ttl rr'" and "rr_records rr' \<noteq> []"
    and "validate_record_name (rr_name rr) = None" and "check_records (rr_type rr') (rr_records rr) = None"
  using assms by (auto simp: validate_record_set_def Let_def split: option.splits if_splits)

lemma type_has_priority_eq: "type_has_priority t \<longleftrightarrow> t = ''MX'' \<or> t = ''SRV''"
  by (simp add: type_has_priority_def spec_for_priority)

lemma ensure_trailing_dot_append:
  "c \<noteq> [] \<Longrightarrow> ensure_trailing_dot (a @ c) = a @ ensure_trailing_dot c"
  by (auto simp: ensure_trailing_dot_def has_suffix_singleton)

lemma prepare_priority:
  assumes "type_has_priority t" "length (str_fields c) < type_wire_fields t" "c \<noteq> []"
  shows "prepare_record_content t c p = (dec_int p @ blank_ch # ensure_trailing_dot c, 0)"
  using assms ensure_trailing_dot_append [of c "dec_int p @ [blank_ch]"]
  by (simp add: prepare_record_content_def join_priority_bare)

text \<open>The audit image of a written MX or SRV record shows the submitted priority and the
  content without it, and taking the image of an image again changes nothing: a record already
  in human form does not have its SRV weight mistaken for a priority.\<close>

theorem snapshot_shows_priority:
  assumes "type_has_priority t" and "Suc (length (str_fields c)) = type_wire_fields t"
    and "c \<noteq> []" and "\<not> is_space (last c)" and "int64 p"
  shows "snapshot_record t (prepare_record t (r\<lparr>ri_content := c, ri_priority := p\<rparr>))
      = r\<lparr>ri_content := ensure_trailing_dot c, ri_priority := p\<rparr>
    \<and> snapshot_record t (r\<lparr>ri_content := ensure_trailing_dot c, ri_priority := p\<rparr>)
      = r\<lparr>ri_content := ensure_trailing_dot c, ri_priority := p\<rparr>"
proof -
  let ?w = "dec_int p @ blank_ch # ensure_trailing_dot c"
  have l: "length (str_fields (ensure_trailing_dot c)) = length (str_fields c)"
    using assms(3,4) by (simp add: length_str_fields_ensure_dot)
  have "prepare_record t (r\<lparr>ri_content := c, ri_priority := p\<rparr>) = r\<lparr>ri_content := ?w, ri_priority := 0\<rparr>"
    using assms by (simp add: prepare_record_def prepare_priority)
  moreover have "split_priority t ?w = (p, ensure_trailing_dot c, True)"
    using assms by (simp add: split_priority_def cut_at_append)
  moreover have "length (str_fields ?w) = type_wire_fields t"
    using assms l by (simp add: str_fields_join_priority)
  ultimately show ?thesis using assms(2) l by (simp add: snapshot_record_def)
qed

theorem snapshot_shows_priority_witness:
  "snapshot_record ''MX'' (prepare_record ''MX''
      \<lparr>ri_name = [], ri_type = [], ri_content = ''mail.example.com'', ri_ttl = 0,
       ri_priority = 10, ri_disabled = False\<rparr>)
   = \<lparr>ri_name = [], ri_type = [], ri_content = ''mail.example.com.'', ri_ttl = 0,
      ri_priority = 10, ri_disabled = False\<rparr>"
proof -
  let ?r = "\<lparr>ri_name = [], ri_type = [], ri_content = [], ri_ttl = 0, ri_priority = 0, ri_disabled = False\<rparr>"
  have f: "str_fields ''mail.example.com'' = [''mail.example.com'']" by (simp add: go_str)
  have "snapshot_record ''MX'' (prepare_record ''MX'' (?r\<lparr>ri_content := ''mail.example.com'', ri_priority := 10\<rparr>))
      = ?r\<lparr>ri_content := ensure_trailing_dot ''mail.example.com'', ri_priority := 10\<rparr>"
    using snapshot_shows_priority [of "''MX''" "''mail.example.com''" 10 ?r]
    by (simp add: type_has_priority_eq type_wire_fields_def spec_for_wire_fields f int64_def
        is_space_def ord_def)
  then show ?thesis by (simp add: ensure_trailing_dot_def go_str)
qed

lemma prepare_record_simps [simp]:
  "ri_content (prepare_record t r) = fst (prepare_record_content t (ri_content r) (ri_priority r))"
  "ri_disabled (prepare_record t r) = ri_disabled r"
  by (simp_all add: prepare_record_def split: prod.splits)

lemma prepare_record_content_priority:
  "snd (prepare_record_content t c p) = (if type_has_priority t then 0 else p)"
  by (simp add: prepare_record_content_def)

lemma ri_priority_prepare [simp]:
  "ri_priority (prepare_record t r) = (if type_has_priority t then 0 else ri_priority r)"
  using prepare_record_content_priority [of t "ri_content r" "ri_priority r"]
  by (cases "prepare_record_content t (ri_content r) (ri_priority r)") (simp add: prepare_record_def)

definition writable_rrset :: "rrset \<Rightarrow> bool" where
  "writable_rrset rr \<longleftrightarrow>
     rr_type rr \<in> set record_type_whitelist \<and> 0 \<le> rr_ttl rr \<and> rr_records rr \<noteq> []
     \<and> has_suffix (rr_name rr) ''.'' \<and> to_lower (rr_name rr) = rr_name rr
     \<and> (\<forall>r\<in>set (rr_records rr). type_has_priority (rr_type rr) \<longrightarrow> ri_priority r = 0)"

lemma validate_record_type_upper:
  "validate_record_type t = None \<longleftrightarrow> to_upper t \<in> set record_type_whitelist"
proof -
  have "[] \<notin> set record_type_whitelist" by (simp add: record_type_whitelist_def)
  then show ?thesis by (auto simp: validate_record_type_def Let_def split: if_splits)
qed

lemma upper_char_idem [simp]: "upper_char (upper_char c) = upper_char c"
proof (cases "is_lower c")
  case True
  then have "ord (upper_char c) = ord c - 32" "97 \<le> ord c" "ord c \<le> 122"
    using ord_lt [of c] by (auto simp: upper_char_def is_lower_def intro!: ord_char_of)
  then have "\<not> is_lower (upper_char c)" by (simp add: is_lower_def)
  then show ?thesis by (simp add: upper_char_def [of "upper_char c"])
qed (simp add: upper_char_def)

lemma to_upper_idem [simp]: "to_upper (to_upper s) = to_upper s"
  by (simp add: to_upper_def)



lemma check_masters_None:
  "check_masters ms = None \<longleftrightarrow> (\<forall>m\<in>set ms. validate_ipv4 m = None \<or> validate_ipv6 m = None)"
  by (induction ms) auto

text \<open>A zone is accepted for creation exactly when its name is a domain name, its kind (Native
  when left empty) is a known one, every master is an IP address, and a Slave or Consumer zone
  names at least one master; the accepted request differs from the submitted one in nothing
  but the defaulted kind.\<close>

theorem validate_zone_create_exact:
  "validate_zone_create req = Inr req' \<longleftrightarrow>
     validate_domain_name (zc_name req) = None
     \<and> req' = (if zc_kind req = [] then req\<lparr>zc_kind := ''Native''\<rparr> else req)
     \<and> zc_kind req' \<in> set zone_kind_whitelist
     \<and> list_all (\<lambda>m. validate_ipv4 m = None \<or> validate_ipv6 m = None) (zc_masters req)
     \<and> \<not> (zc_kind req \<in> {''Slave'', ''Consumer''} \<and> zc_masters req = [])"
proof -
  have k: "validate_zone_kind k = None \<longleftrightarrow> k \<in> set zone_kind_whitelist" for k
    by (auto simp: validate_zone_kind_def zone_kind_whitelist_def)
  have n: "''Native'' \<in> set zone_kind_whitelist" by (simp add: zone_kind_whitelist_def)
  show ?thesis
    by (auto simp: validate_zone_create_def k n check_masters_None Let_def list_all_iff split: option.splits
        simp flip: not_None_eq)
qed

end
