(* ===== verification/Authz.thy ===== *)
theory Authz
  imports RecordOps
begin

section \<open>Zone authorization and role gates\<close>

text \<open>
  Models \<^verbatim>\<open>internal/dnsops/authz.go\<close>, the gates of \<^verbatim>\<open>service.go\<close>,
  \<^verbatim>\<open>internal/middleware/zoneauth.go\<close> and the role and scope gates of
  \<^verbatim>\<open>middleware/auth.go\<close>.  The grant tables are association lists; how a query ended
  (well, with a fault, or cancelled by the client) is an argument.  Requests carry what the
  gates read; the answer of a gate is to pass the request on or a status.
\<close>

subsection \<open>Grants\<close>

record grant_db =
  gd_members :: "(int \<times> int) list"
  gd_zones :: "(int \<times> string) list"

datatype query_end = QueryOk | QueryFault | QueryCancelled

datatype stage = StageLock | StageFetch | StagePatch | StageStatistics | StageZoneList | StageZoneAccess

definition has_grant :: "grant_db \<Rightarrow> int \<Rightarrow> string \<Rightarrow> bool" where
  "has_grant db uid zone \<longleftrightarrow>
     list_ex (\<lambda>(g, u). u = uid \<and> list_ex (\<lambda>(g', z). g' = g \<and> z = zone) (gd_zones db)) (gd_members db)"

text \<open>\<^term>\<open>Inl ()\<close> is the error of a failed lookup.\<close>

definition can_access_zone :: "query_end \<Rightarrow> grant_db \<Rightarrow> user option \<Rightarrow> string \<Rightarrow> unit + bool" where
  "can_access_zone q db user zone =
     (case user of
        None \<Rightarrow> Inr False
      | Some u \<Rightarrow>
          (case q of QueryOk \<Rightarrow> Inr (has_grant db (u_id u) zone)
           | QueryCancelled \<Rightarrow> Inr False
           | QueryFault \<Rightarrow> Inl ()))"

text \<open>A row that cannot be scanned is skipped; \<open>scans\<close> says which ones can.\<close>

definition user_allowed_zone_ids ::
  "query_end \<Rightarrow> (string \<Rightarrow> bool) \<Rightarrow> grant_db \<Rightarrow> int \<Rightarrow> unit + string list" where
  "user_allowed_zone_ids q scans db uid =
     (if q \<noteq> QueryOk then Inl ()
      else Inr (concat (map (\<lambda>(g, u).
        if u = uid then map snd (filter (\<lambda>(g', z). g' = g \<and> scans z) (gd_zones db)) else [])
        (gd_members db))))"

definition filter_zones_for_user ::
  "query_end \<Rightarrow> (string \<Rightarrow> bool) \<Rightarrow> grant_db \<Rightarrow> user option \<Rightarrow> zone list \<Rightarrow> stage + zone list" where
  "filter_zones_for_user q scans db user zones =
     (case user of
        None \<Rightarrow> Inr []
      | Some u \<Rightarrow>
          if can_manage_dns u then Inr zones
          else case user_allowed_zone_ids q scans db (u_id u) of
            Inl _ \<Rightarrow> Inl StageZoneAccess
          | Inr allowed \<Rightarrow> Inr (filter (\<lambda>z. z_id z \<in> set allowed) zones))"

text \<open>The same over the zone-with-info shape, which wraps a zone.\<close>

definition filter_zones_with_info_for_user ::
  "query_end \<Rightarrow> (string \<Rightarrow> bool) \<Rightarrow> grant_db \<Rightarrow> user option \<Rightarrow> ('i \<Rightarrow> zone) \<Rightarrow> 'i list \<Rightarrow> stage + 'i list" where
  "filter_zones_with_info_for_user q scans db user zone_of zones =
     (case user of
        None \<Rightarrow> Inr []
      | Some u \<Rightarrow>
          if can_manage_dns u then Inr zones
          else case user_allowed_zone_ids q scans db (u_id u) of
            Inl _ \<Rightarrow> Inl StageZoneAccess
          | Inr allowed \<Rightarrow> Inr (filter (\<lambda>z. z_id (zone_of z) \<in> set allowed) zones))"

subsection \<open>Gates of the service\<close>

datatype service_error = Forbidden | StageFailed stage | Upstream

definition require_admin :: "user option \<Rightarrow> service_error option" where
  "require_admin user =
     (case user of None \<Rightarrow> None
      | Some u \<Rightarrow> if can_manage_dns u then None else Some Forbidden)"

definition authorize_zone ::
  "query_end \<Rightarrow> grant_db \<Rightarrow> user option \<Rightarrow> string \<Rightarrow> service_error option" where
  "authorize_zone q db user zone =
     (case user of
        None \<Rightarrow> None
      | Some u \<Rightarrow>
          if can_manage_dns u then None
          else case can_access_zone q db (Some u) zone of
            Inl _ \<Rightarrow> Some (StageFailed StageZoneAccess)
          | Inr ok \<Rightarrow> if \<not> ok then Some Forbidden else None)"

subsection \<open>Middleware gates\<close>

record request =
  rq_method :: string
  rq_path :: string
  rq_accept :: string
  rq_zone_id :: string
  rq_cookie :: "string option"
  rq_authorization :: string
  rq_api_key :: string
  rq_user :: "user option"
  rq_scope :: "api_key_scope option"

datatype gate_result = Next request | Status nat

definition is_api_request :: "request \<Rightarrow> bool" where
  "is_api_request r \<longleftrightarrow> has_prefix (rq_path r) ''/api/'' \<or> rq_accept r = ''application/json''"

definition canonicalize_zone_path_value :: "request \<Rightarrow> request" where
  "canonicalize_zone_path_value r =
     (if rq_zone_id r = [] then r else r\<lparr>rq_zone_id := normalize_zone_name (rq_zone_id r)\<rparr>)"

definition canonicalize_zone_id :: "request \<Rightarrow> gate_result" where
  "canonicalize_zone_id r = Next (canonicalize_zone_path_value r)"

definition check_zone_access :: "query_end \<Rightarrow> grant_db \<Rightarrow> request \<Rightarrow> gate_result" where
  "check_zone_access q db r =
     (case rq_user r of
        None \<Rightarrow> Status 401
      | Some u \<Rightarrow>
          if can_manage_dns u then Next r
          else
            let r' = canonicalize_zone_path_value r in
            if rq_zone_id r' = [] then Next r'
            else case can_access_zone q db (Some u) (rq_zone_id r') of
              Inl _ \<Rightarrow> Status 500
            | Inr allowed \<Rightarrow> if allowed then Next r' else Status 403)"

definition require_role :: "(user \<Rightarrow> bool) \<Rightarrow> request \<Rightarrow> gate_result" where
  "require_role allowed r =
     (case rq_user r of None \<Rightarrow> Status 403
      | Some u \<Rightarrow> if allowed u then Next r else Status 403)"

definition require_admin_gate :: "request \<Rightarrow> gate_result" where
  "require_admin_gate = require_role is_admin"

definition require_dns_admin_gate :: "request \<Rightarrow> gate_result" where
  "require_dns_admin_gate = require_role can_manage_dns"

definition require_write_scope :: "request \<Rightarrow> gate_result" where
  "require_write_scope r =
     (if rq_method r \<in> {''GET'', ''HEAD'', ''OPTIONS''} then Next r
      else case rq_scope r of
        None \<Rightarrow> Status 403
      | Some s \<Rightarrow> if scope_can_write s then Next r else Status 403)"

section \<open>Properties of authorization\<close>

text \<open>A listing filter that agrees with a per-item decision.\<close>

locale access_filter =
  fixes decide :: "'z \<Rightarrow> bool" and listing :: "'z list \<Rightarrow> 'z list"
  assumes listing_filter: "listing zs = filter decide zs"
begin

lemma listed_iff: "z \<in> set (listing zs) \<longleftrightarrow> z \<in> set zs \<and> decide z"
  by (auto simp: listing_filter)

lemma listing_idem: "listing (listing zs) = listing zs"
  by (simp add: listing_filter)

lemma listing_subseq: "subseq (listing zs) zs"
  by (simp add: listing_filter)

lemma listing_append: "listing (xs @ ys) = listing xs @ listing ys"
  by (simp add: listing_filter)

end

definition may_use :: "grant_db \<Rightarrow> user \<Rightarrow> zone \<Rightarrow> bool" where
  "may_use db u z \<longleftrightarrow> can_manage_dns u \<or> has_grant db (u_id u) (z_id z)"

lemma has_grant_iff:
  "has_grant db uid zone \<longleftrightarrow> (\<exists>g. (g, uid) \<in> set (gd_members db) \<and> (g, zone) \<in> set (gd_zones db))"
  unfolding has_grant_def list_ex_iff by auto

lemma allowed_ids_grant:
  "user_allowed_zone_ids QueryOk (\<lambda>_. True) db uid = Inr allowed \<Longrightarrow>
     zone \<in> set allowed \<longleftrightarrow> has_grant db uid zone"
  unfolding user_allowed_zone_ids_def has_grant_iff by (auto split: if_splits) force+

lemma listing_eq:
  "filter_zones_with_info_for_user QueryOk (\<lambda>_. True) db (Some u) zone_of zs =
     Inr (filter (\<lambda>z. may_use db u (zone_of z)) zs)"
proof (cases "can_manage_dns u")
  case False
  obtain allowed where a: "user_allowed_zone_ids QueryOk (\<lambda>_. True) db (u_id u) = Inr allowed"
    by (simp add: user_allowed_zone_ids_def)
  from allowed_ids_grant [OF a] False a show ?thesis
    by (simp add: filter_zones_with_info_for_user_def may_use_def)
qed (simp add: filter_zones_with_info_for_user_def may_use_def)

lemma filter_zones_info: "filter_zones_for_user q scans db user zs =
  filter_zones_with_info_for_user q scans db user id zs"
  by (simp add: filter_zones_for_user_def filter_zones_with_info_for_user_def split: option.split sum.split)

definition listed_zones :: "grant_db \<Rightarrow> user \<Rightarrow> zone list \<Rightarrow> zone list" where
  "listed_zones db u zs =
     (case filter_zones_for_user QueryOk (\<lambda>_. True) db (Some u) zs of Inl _ \<Rightarrow> [] | Inr r \<Rightarrow> r)"

interpretation zone_listing: access_filter "may_use db u" "listed_zones db u" for db u
  by unfold_locales (simp add: listed_zones_def filter_zones_info listing_eq)

lemma service_listing_eq:
  "filter_zones_for_user QueryOk (\<lambda>_. True) db (Some u) zs = Inr (listed_zones db u zs)"
  by (simp add: listed_zones_def filter_zones_info listing_eq)

text \<open>C8: One authorization for every path.  With the grant tables readable, the zones the list
  shows a user, the zones the service lets the user work on and the zones the middleware lets
  through are the same: all of them for DNS administrators, else those a group of the user
  holds, and the decision never depends on which other zones exist.\<close>

theorem zone_access_agrees:
  assumes "rq_user r = Some u" and "rq_zone_id r = z_id z" and "normalize_zone_name (z_id z) = z_id z"
    and "z_id z \<noteq> []" and "z \<in> set zs"
  shows "(authorize_zone QueryOk db (Some u) (z_id z) = None \<longleftrightarrow> may_use db u z)
    \<and> (check_zone_access QueryOk db r = Next r \<longleftrightarrow> may_use db u z)
    \<and> (\<exists>l. filter_zones_for_user QueryOk (\<lambda>_. True) db (Some u) zs = Inr l
        \<and> (z \<in> set l \<longleftrightarrow> may_use db u z))"
  using assms
  by (auto simp: authorize_zone_def can_access_zone_def check_zone_access_def may_use_def
      canonicalize_zone_path_value_def Let_def service_listing_eq zone_listing.listed_iff)

theorem zone_access_agrees_witness:
  "\<exists>u z db. \<not> may_use db u z \<and> authorize_zone QueryOk db (Some u) (z_id z) \<noteq> None"
proof -
  let ?u = "\<lparr>u_id = 7, u_username = ''eve'', u_role = ''user'', u_enabled = True, u_locked_until = None,
    u_must_change_password = False, u_tokens_valid_after = 0, u_credential_version = 0,
    u_manual_lock_until = 0\<rparr>"
  let ?z = "\<lparr>z_id = ''a.b.'', z_name = ''a.b.'', z_kind = ''Native'', z_serial = 1\<rparr>"
  let ?db = "\<lparr>gd_members = [(1, 8)], gd_zones = [(1, ''a.b.'')]\<rparr>"
  let ?r = "\<lparr>rq_method = ''GET'', rq_path = [], rq_accept = [], rq_zone_id = ''a.b.'', rq_cookie = None,
    rq_authorization = [], rq_api_key = [], rq_user = Some ?u, rq_scope = None\<rparr>"
  have n: "normalize_zone_name (z_id ?z) = z_id ?z"
    by (simp add: normalize_zone_name_def ensure_trailing_dot_def go_str)
  have m: "\<not> may_use ?db ?u ?z" by (simp add: may_use_def can_manage_dns_def has_grant_def)
  have "authorize_zone QueryOk ?db (Some ?u) (z_id ?z) = None \<longleftrightarrow> may_use ?db ?u ?z"
    using zone_access_agrees [of ?r ?u ?z "[?z]" ?db] n by simp
  with m show ?thesis by blast
qed

text \<open>Exactly who passes the zone gate, and with which zone: a DNS administrator with the zone
  spelled as in the URL, and any other user with the canonical zone, when a readable grant
  covers it or when the zone is blank once trimmed.  A lookup fault or a cancelled lookup
  never passes.\<close>

theorem zone_gate_exact:
  "check_zone_access q db r = Next r' \<longleftrightarrow>
     (\<exists>u. rq_user r = Some u
        \<and> (if can_manage_dns u then r' = r
           else r' = canonicalize_zone_path_value r
             \<and> (rq_zone_id r' = [] \<or> q = QueryOk \<and> has_grant db (u_id u) (rq_zone_id r'))))"
  by (cases "rq_user r"; cases q)
    (auto simp: check_zone_access_def can_access_zone_def Let_def split: if_splits)

text \<open>A blank zone passes the zone gate.  A path value made of white space only is not empty, so
  the route is a zone-scoped one, but it is canonicalised to the empty string, which the gate
  takes for a route without a zone: a user without any grant reaches the handler.\<close>

theorem blank_zone_passes_gate:
  assumes "rq_user r = Some u" and "rq_zone_id r = replicate n CHR '' ''" and "n > 0"
    and "\<not> can_manage_dns u"
  shows "rq_zone_id r \<noteq> [] \<and> check_zone_access q db r = Next (r\<lparr>rq_zone_id := []\<rparr>)"
proof -
  have "trim_space (replicate n CHR '' '') = []"
    by (simp add: trim_space_def trim_left_def trim_right_def dropWhile_eq_Nil_conv)
  then have "normalize_zone_name (rq_zone_id r) = []"
    by (simp add: normalize_zone_name_def assms(2) ensure_trailing_dot_def)
  with assms show ?thesis
    by (simp add: check_zone_access_def canonicalize_zone_path_value_def)
qed

theorem blank_zone_passes_gate_witness:
  "\<exists>r u. rq_user r = Some u \<and> \<not> can_manage_dns u \<and> rq_zone_id r = '' ''
     \<and> check_zone_access QueryOk \<lparr>gd_members = [], gd_zones = []\<rparr> r \<noteq> Status 403"
proof -
  let ?u = "\<lparr>u_id = 7, u_username = ''eve'', u_role = ''user'', u_enabled = True, u_locked_until = None,
    u_must_change_password = False, u_tokens_valid_after = 0, u_credential_version = 0,
    u_manual_lock_until = 0\<rparr>"
  let ?r = "\<lparr>rq_method = ''GET'', rq_path = [], rq_accept = [], rq_zone_id = '' '', rq_cookie = None,
    rq_authorization = [], rq_api_key = [], rq_user = Some ?u, rq_scope = None\<rparr>"
  have m: "\<not> can_manage_dns ?u" by (simp add: can_manage_dns_def)
  have "check_zone_access QueryOk \<lparr>gd_members = [], gd_zones = []\<rparr> ?r = Next (?r\<lparr>rq_zone_id := []\<rparr>)"
    using blank_zone_passes_gate [of ?r ?u 1] m by simp
  with m show ?thesis by (intro exI [of _ ?r] exI [of _ ?u]) simp
qed

end
