(* ===== verification/Service.thy ===== *)
theory Service
  imports Authz
begin

section \<open>The DNS service\<close>

text \<open>
  Models \<^verbatim>\<open>internal/dnsops/service.go\<close>, \<^verbatim>\<open>records.go\<close>, \<^verbatim>\<open>zones.go\<close>,
  \<^verbatim>\<open>stats.go\<close> and \<^verbatim>\<open>audit.go\<close>.  PowerDNS is a parameter: a record of the calls
  the service makes on a state of its own.  A call answers \<^const>\<open>None\<close> for an error; a write says
  whether it succeeded.  The activity log keeps the audit images as record sets.  What may
  fail around an operation (the grant query, the zone lock, the log, the purge) is an argument.
\<close>

subsection \<open>PowerDNS, the log and the state\<close>

record 'p pdns =
  pd_list :: "string \<Rightarrow> 'p \<Rightarrow> rrset list option"
  pd_list_one :: "string \<Rightarrow> string \<Rightarrow> string \<Rightarrow> 'p \<Rightarrow> rrset list option"
  pd_update :: "string \<Rightarrow> rrset \<Rightarrow> 'p \<Rightarrow> bool \<times> 'p"
  pd_delete :: "string \<Rightarrow> string \<Rightarrow> string \<Rightarrow> 'p \<Rightarrow> bool \<times> 'p"
  pd_list_zones :: "'p \<Rightarrow> zone list option"
  pd_get_zone :: "string \<Rightarrow> 'p \<Rightarrow> zone option"
  pd_create_zone :: "zone_create_request \<Rightarrow> 'p \<Rightarrow> zone option \<times> 'p"
  pd_delete_zone :: "string \<Rightarrow> 'p \<Rightarrow> bool \<times> 'p"
  pd_statistics :: "'p \<Rightarrow> string list option"

datatype source = SourceAPI | SourceMCP | SourceWeb | SourceOther string

definition source_label :: "source \<Rightarrow> string" where
  "source_label s =
     (case s of SourceAPI \<Rightarrow> ''API'' | SourceMCP \<Rightarrow> ''MCP'' | SourceWeb \<Rightarrow> ''Web'' | SourceOther x \<Rightarrow> x)"

record activity_entry =
  ae_user_id :: int
  ae_zone_id :: "string option"
  ae_action :: string
  ae_details :: string
  ae_old_list :: "rrset list option"
  ae_old :: "rrset option"
  ae_new :: "rrset option"

record 'p svc =
  sv_pdns :: 'p
  sv_log :: "activity_entry list"
  sv_grants :: grant_db

record svc_faults =
  sf_query :: query_end
  sf_lock :: bool
  sf_log :: bool
  sf_purge :: bool

definition user_id_of :: "user option \<Rightarrow> int" where
  "user_id_of u = (case u of Some x \<Rightarrow> u_id x | None \<Rightarrow> 0)"

definition log_activity :: "bool \<Rightarrow> activity_entry \<Rightarrow> 'p svc \<Rightarrow> 'p svc" where
  "log_activity fails e s =
     (if fails then s
      else s\<lparr>sv_log := sv_log s @
        [e\<lparr>ae_zone_id := (case ae_zone_id e of Some z \<Rightarrow> if z = [] then None else Some z | None \<Rightarrow> None)\<rparr>]\<rparr>)"

definition list_records ::
  "'p pdns \<Rightarrow> svc_faults \<Rightarrow> user option \<Rightarrow> string \<Rightarrow> string \<Rightarrow> string \<Rightarrow> 'p svc
    \<Rightarrow> service_error + rrset list" where
  "list_records pd sf user zone name rtype s =
     (case authorize_zone (sf_query sf) (sv_grants s) user zone of
        Some e \<Rightarrow> Inl e
      | None \<Rightarrow>
          (case (if name = [] then pd_list pd zone (sv_pdns s)
                 else pd_list_one pd zone name rtype (sv_pdns s)) of
             None \<Rightarrow> Inl Upstream
           | Some rs \<Rightarrow> Inr rs))"

subsection \<open>Record writes\<close>

text \<open>The merge of \<^verbatim>\<open>CreateRecord\<close>: the submission is appended to the first record set of the
  same name and type, prepared, deduplicated, and given a time to live.\<close>

definition find_rrset :: "rrset \<Rightarrow> rrset list \<Rightarrow> rrset option" where
  "find_rrset rr rrs = find (\<lambda>x. rr_name x = rr_name rr \<and> rr_type x = rr_type rr) rrs"

definition resolve_ttl :: "rrset option \<Rightarrow> rrset \<Rightarrow> rrset" where
  "resolve_ttl old rr =
     (if rr_ttl rr \<le> 0
      then rr\<lparr>rr_ttl := (case old of Some o' \<Rightarrow> if rr_ttl o' > 0 then rr_ttl o' else default_record_ttl
                        | None \<Rightarrow> default_record_ttl)\<rparr>
      else rr)"

definition merge_rrset :: "rrset list \<Rightarrow> rrset \<Rightarrow> rrset" where
  "merge_rrset existing rr =
     (let old = find_rrset rr existing;
          siblings = (case old of Some o' \<Rightarrow> rr_records o' | None \<Rightarrow> []);
          records = map (prepare_record (rr_type rr)) (siblings @ rr_records rr)
      in resolve_ttl old (rr\<lparr>rr_records := dedup_records_by_content records\<rparr>))"

definition last_content :: "rrset \<Rightarrow> string" where
  "last_content rr = (if rr_records rr = [] then [] else ri_content (last (rr_records rr)))"

definition create_record ::
  "'p pdns \<Rightarrow> svc_faults \<Rightarrow> user option \<Rightarrow> string \<Rightarrow> rrset \<Rightarrow> source \<Rightarrow> 'p svc
    \<Rightarrow> service_error option \<times> 'p svc" where
  "create_record pd sf user zone rr src s =
     (case authorize_zone (sf_query sf) (sv_grants s) user zone of
        Some e \<Rightarrow> (Some e, s)
      | None \<Rightarrow>
          if sf_lock sf then (Some (StageFailed StageLock), s)
          else case pd_list pd zone (sv_pdns s) of
            None \<Rightarrow> (Some (StageFailed StageFetch), s)
          | Some existing \<Rightarrow>
              let merged = merge_rrset existing rr in
              case pd_update pd zone merged (sv_pdns s) of
                (ok, p) \<Rightarrow>
                  if \<not> ok then (Some (StageFailed StagePatch), s\<lparr>sv_pdns := p\<rparr>)
                  else (None, log_activity (sf_log sf)
                    \<lparr>ae_user_id = user_id_of user, ae_zone_id = Some zone, ae_action = ''create_record'',
                     ae_details = ''Created '' @ rr_type rr @ '' record '' @ rr_name rr @ '' -> ''
                       @ last_content merged @ '' via '' @ source_label src,
                     ae_old_list = None, ae_old = rrset_snapshot (find_rrset rr existing),
                     ae_new = rrset_snapshot (Some merged)\<rparr> (s\<lparr>sv_pdns := p\<rparr>)))"

text \<open>The best-effort before-image of a replace or a delete.\<close>

definition before_image :: "'p pdns \<Rightarrow> string \<Rightarrow> string \<Rightarrow> string \<Rightarrow> 'p \<Rightarrow> rrset option" where
  "before_image pd zone name rtype p =
     (case pd_list_one pd zone name rtype p of Some (r # _) \<Rightarrow> Some r | _ \<Rightarrow> None)"

definition update_record ::
  "'p pdns \<Rightarrow> svc_faults \<Rightarrow> user option \<Rightarrow> string \<Rightarrow> rrset \<Rightarrow> source \<Rightarrow> 'p svc
    \<Rightarrow> service_error option \<times> 'p svc" where
  "update_record pd sf user zone rr0 src s =
     (case authorize_zone (sf_query sf) (sv_grants s) user zone of
        Some e \<Rightarrow> (Some e, s)
      | None \<Rightarrow>
          if sf_lock sf then (Some (StageFailed StageLock), s)
          else
            let old = before_image pd zone (rr_name rr0) (rr_type rr0) (sv_pdns s);
                rr = resolve_ttl old rr0 in
            case pd_update pd zone rr (sv_pdns s) of
              (ok, p) \<Rightarrow>
                if \<not> ok then (Some (StageFailed StagePatch), s\<lparr>sv_pdns := p\<rparr>)
                else (None, log_activity (sf_log sf)
                  \<lparr>ae_user_id = user_id_of user, ae_zone_id = Some zone, ae_action = ''update_record'',
                   ae_details = ''Updated '' @ rr_type rr @ '' record '' @ rr_name rr @ '' via '' @ source_label src,
                   ae_old_list = None, ae_old = rrset_snapshot old, ae_new = rrset_snapshot (Some rr)\<rparr> (s\<lparr>sv_pdns := p\<rparr>)))"

definition delete_record ::
  "'p pdns \<Rightarrow> svc_faults \<Rightarrow> user option \<Rightarrow> string \<Rightarrow> string \<Rightarrow> string \<Rightarrow> source \<Rightarrow> 'p svc
    \<Rightarrow> service_error option \<times> 'p svc" where
  "delete_record pd sf user zone name rtype src s =
     (case authorize_zone (sf_query sf) (sv_grants s) user zone of
        Some e \<Rightarrow> (Some e, s)
      | None \<Rightarrow>
          if sf_lock sf then (Some (StageFailed StageLock), s)
          else
            let old = before_image pd zone name rtype (sv_pdns s) in
            case pd_delete pd zone name rtype (sv_pdns s) of
              (ok, p) \<Rightarrow>
                if \<not> ok then (Some (StageFailed StagePatch), s\<lparr>sv_pdns := p\<rparr>)
                else (None, log_activity (sf_log sf)
                  \<lparr>ae_user_id = user_id_of user, ae_zone_id = Some zone, ae_action = ''delete_record'',
                   ae_details = ''Deleted '' @ rtype @ '' record '' @ name @ '' via '' @ source_label src,
                   ae_old_list = None, ae_old = rrset_snapshot old, ae_new = None\<rparr> (s\<lparr>sv_pdns := p\<rparr>)))"

subsection \<open>Zones\<close>

definition purge_zone_group_grants :: "bool \<Rightarrow> string \<Rightarrow> grant_db \<Rightarrow> grant_db" where
  "purge_zone_group_grants fails zone db =
     (if fails then db
      else db\<lparr>gd_zones := filter (\<lambda>(g, z). z \<noteq> normalize_zone_name zone) (gd_zones db)\<rparr>)"

definition list_zones ::
  "'p pdns \<Rightarrow> svc_faults \<Rightarrow> (string \<Rightarrow> bool) \<Rightarrow> user option \<Rightarrow> 'p svc \<Rightarrow> service_error + zone list" where
  "list_zones pd sf scans user s =
     (case pd_list_zones pd (sv_pdns s) of
        None \<Rightarrow> Inl Upstream
      | Some zs \<Rightarrow>
          (case filter_zones_for_user (sf_query sf) scans (sv_grants s) user zs of
             Inl st \<Rightarrow> Inl (StageFailed st) | Inr l \<Rightarrow> Inr l))"

definition get_zone ::
  "'p pdns \<Rightarrow> svc_faults \<Rightarrow> user option \<Rightarrow> string \<Rightarrow> 'p svc \<Rightarrow> service_error + zone" where
  "get_zone pd sf user zone s =
     (case authorize_zone (sf_query sf) (sv_grants s) user zone of
        Some e \<Rightarrow> Inl e
      | None \<Rightarrow> (case pd_get_zone pd zone (sv_pdns s) of None \<Rightarrow> Inl Upstream | Some z \<Rightarrow> Inr z))"

definition create_zone ::
  "'p pdns \<Rightarrow> svc_faults \<Rightarrow> user option \<Rightarrow> zone_create_request \<Rightarrow> source \<Rightarrow> 'p svc
    \<Rightarrow> (service_error + zone) \<times> 'p svc" where
  "create_zone pd sf user req src s =
     (case require_admin user of
        Some e \<Rightarrow> (Inl e, s)
      | None \<Rightarrow>
          let req' = req\<lparr>zc_name := normalize_zone_name (zc_name req),
                         zc_nameservers := map normalize_zone_name (zc_nameservers req)\<rparr> in
          case pd_create_zone pd req' (sv_pdns s) of
            (None, p) \<Rightarrow> (Inl Upstream, s\<lparr>sv_pdns := p\<rparr>)
          | (Some z, p) \<Rightarrow>
              (Inr z, log_activity (sf_log sf)
                \<lparr>ae_user_id = user_id_of user, ae_zone_id = Some (z_id z), ae_action = ''create_zone'',
                 ae_details = ''Created zone '' @ z_name z @ '' (kind: '' @ z_kind z @ '') via '' @ source_label src,
                 ae_old_list = None, ae_old = None, ae_new = None\<rparr> (s\<lparr>sv_pdns := p\<rparr>)))"

definition delete_zone ::
  "'p pdns \<Rightarrow> svc_faults \<Rightarrow> user option \<Rightarrow> string \<Rightarrow> source \<Rightarrow> 'p svc
    \<Rightarrow> service_error option \<times> 'p svc" where
  "delete_zone pd sf user zone src s =
     (case require_admin user of
        Some e \<Rightarrow> (Some e, s)
      | None \<Rightarrow>
          (case pd_delete_zone pd zone (sv_pdns s) of
             (False, p) \<Rightarrow> (Some Upstream, s\<lparr>sv_pdns := p\<rparr>)
           | (True, p) \<Rightarrow>
               let s1 = log_activity (sf_log sf)
                 \<lparr>ae_user_id = user_id_of user, ae_zone_id = Some zone, ae_action = ''delete_zone'',
                  ae_details = ''Deleted zone '' @ zone @ '' via '' @ source_label src,
                  ae_old_list = None, ae_old = None, ae_new = None\<rparr> (s\<lparr>sv_pdns := p\<rparr>)
               in (None, s1\<lparr>sv_grants := purge_zone_group_grants (sf_purge sf) zone (sv_grants s1)\<rparr>)))"

definition stats ::
  "'p pdns \<Rightarrow> svc_faults \<Rightarrow> (string \<Rightarrow> bool) \<Rightarrow> user option \<Rightarrow> 'p svc
    \<Rightarrow> service_error + (string list \<times> nat)" where
  "stats pd sf scans user s =
     (case pd_statistics pd (sv_pdns s) of
        None \<Rightarrow> Inl (StageFailed StageStatistics)
      | Some st \<Rightarrow>
          (case pd_list_zones pd (sv_pdns s) of
             None \<Rightarrow> Inl (StageFailed StageZoneList)
           | Some zs \<Rightarrow>
               (case filter_zones_for_user (sf_query sf) scans (sv_grants s) user zs of
                  Inl _ \<Rightarrow> Inl (StageFailed StageZoneAccess)
                | Inr l \<Rightarrow> Inr (st, length l))))"

subsection \<open>Writers under the zone lock\<close>

text \<open>
  Concurrent \<^verbatim>\<open>CreateRecord\<close> calls.  \<open>ws_held\<close> is the lock of
  \<^verbatim>\<open>zonelock.go\<close>, one per zone identifier as given, shared by all instances.  A writer
  takes the lock, fetches, patches the merge of what it fetched, and releases; a failed fetch
  releases too.  \<open>ws_patched\<close> lists the submissions in the order of their patches.
\<close>

type_synonym job = "string \<times> rrset"

datatype writer = WIdle | WLocked | WFetched "rrset list" | WDone bool

record 'p writers =
  ws_p :: 'p
  ws_held :: "string \<rightharpoonup> nat"
  ws_pc :: "nat \<Rightarrow> writer"
  ws_patched :: "job list"

definition lock_zone :: "string \<Rightarrow> nat \<Rightarrow> (string \<rightharpoonup> nat) \<Rightarrow> (string \<rightharpoonup> nat) option" where
  "lock_zone zone t held = (case held zone of None \<Rightarrow> Some (held(zone \<mapsto> t)) | Some _ \<Rightarrow> None)"

definition unlock_zone :: "string \<Rightarrow> (string \<rightharpoonup> nat) \<Rightarrow> (string \<rightharpoonup> nat)" where
  "unlock_zone zone held = held(zone := None)"

inductive write_step :: "'p pdns \<Rightarrow> (nat \<Rightarrow> job) \<Rightarrow> 'p writers \<Rightarrow> 'p writers \<Rightarrow> bool"
  for pd :: "'p pdns" and jobs :: "nat \<Rightarrow> job" where
  acquire: "ws_pc s t = WIdle \<Longrightarrow> lock_zone (fst (jobs t)) t (ws_held s) = Some h \<Longrightarrow>
    write_step pd jobs s (s\<lparr>ws_held := h, ws_pc := (ws_pc s)(t := WLocked)\<rparr>)"
| fetch: "ws_pc s t = WLocked \<Longrightarrow> pd_list pd (fst (jobs t)) (ws_p s) = Some rrs \<Longrightarrow>
    write_step pd jobs s (s\<lparr>ws_pc := (ws_pc s)(t := WFetched rrs)\<rparr>)"
| fetch_fails: "ws_pc s t = WLocked \<Longrightarrow> pd_list pd (fst (jobs t)) (ws_p s) = None \<Longrightarrow>
    write_step pd jobs s (s\<lparr>ws_held := unlock_zone (fst (jobs t)) (ws_held s),
      ws_pc := (ws_pc s)(t := WDone False)\<rparr>)"
| patch: "ws_pc s t = WFetched rrs \<Longrightarrow>
    pd_update pd (fst (jobs t)) (merge_rrset rrs (snd (jobs t))) (ws_p s) = (ok, p') \<Longrightarrow>
    write_step pd jobs s (s\<lparr>ws_p := p', ws_held := unlock_zone (fst (jobs t)) (ws_held s),
      ws_pc := (ws_pc s)(t := WDone ok), ws_patched := ws_patched s @ [jobs t]\<rparr>)"

inductive write_reach :: "'p pdns \<Rightarrow> (nat \<Rightarrow> job) \<Rightarrow> 'p \<Rightarrow> 'p writers \<Rightarrow> bool"
  for pd :: "'p pdns" and jobs :: "nat \<Rightarrow> job" and p0 :: 'p where
  start: "write_reach pd jobs p0
    \<lparr>ws_p = p0, ws_held = Map.empty, ws_pc = (\<lambda>_. WIdle), ws_patched = []\<rparr>"
| move: "write_reach pd jobs p0 s \<Longrightarrow> write_step pd jobs s s' \<Longrightarrow> write_reach pd jobs p0 s'"

text \<open>What one uninterrupted call does to PowerDNS.\<close>

definition append_alone :: "'p pdns \<Rightarrow> 'p \<Rightarrow> job \<Rightarrow> 'p" where
  "append_alone pd p j =
     (case pd_list pd (fst j) p of None \<Rightarrow> p
      | Some rrs \<Rightarrow> snd (pd_update pd (fst j) (merge_rrset rrs (snd j)) p))"

section \<open>Properties of the service\<close>

lemma create_record_append:
  assumes "authorize_zone (sf_query sf) (sv_grants s) user zone = None" "\<not> sf_lock sf"
  shows "sv_pdns (snd (create_record pd sf user zone rr src s)) = append_alone pd (sv_pdns s) (zone, rr)"
  using assms
  by (auto simp: create_record_def append_alone_def log_activity_def Let_def split: option.splits prod.splits)

lemma resolve_ttl_simps [simp]:
  "rr_records (resolve_ttl old rr) = rr_records rr" "rr_name (resolve_ttl old rr) = rr_name rr"
  "rr_type (resolve_ttl old rr) = rr_type rr"
  by (simp_all add: resolve_ttl_def)

text \<open>An append loses nothing and duplicates nothing.  The record set sent carries exactly the
  prepared contents of the existing siblings and of the submission, each once, the siblings
  before the new ones and each with the flags of its first occurrence; its time to live is
  positive: the submitted one, else that of the siblings, else the default.\<close>

theorem merge_rrset_spec:
  "let old = find_rrset rr existing;
       given = map (prepare_record (rr_type rr)) ((case old of Some x \<Rightarrow> rr_records x | None \<Rightarrow> []) @ rr_records rr);
       m = merge_rrset existing rr in
   rr_name m = rr_name rr \<and> rr_type m = rr_type rr
   \<and> distinct (map ri_content (rr_records m))
   \<and> set (map ri_content (rr_records m)) = set (map ri_content given)
   \<and> subseq (rr_records m) given
   \<and> find (\<lambda>r. ri_content r = c) (rr_records m) = find (\<lambda>r. ri_content r = c) given
   \<and> rr_ttl m > 0
   \<and> rr_ttl m = (if rr_ttl rr > 0 then rr_ttl rr
       else case old of Some x \<Rightarrow> if rr_ttl x > 0 then rr_ttl x else 3600 | None \<Rightarrow> 3600)"
  unfolding Let_def merge_rrset_def
  by (simp add: dedup_eq_loop dedup_loop_distinct dedup_loop_contents dedup_loop_subseq dedup_loop_first
      image_image image_Un o_def)
    (simp add: resolve_ttl_def default_record_ttl_def split: option.split)

definition writers_ok :: "'p pdns \<Rightarrow> (nat \<Rightarrow> job) \<Rightarrow> 'p \<Rightarrow> 'p writers \<Rightarrow> bool" where
  "writers_ok pd jobs p0 s \<longleftrightarrow>
     ws_p s = foldl (append_alone pd) p0 (ws_patched s)
     \<and> (\<forall>t. ws_pc s t = WLocked \<longrightarrow> ws_held s (fst (jobs t)) = Some t)
     \<and> (\<forall>t rrs. ws_pc s t = WFetched rrs \<longrightarrow>
          ws_held s (fst (jobs t)) = Some t \<and> pd_list pd (fst (jobs t)) (ws_p s) = Some rrs)"

lemma writers_ok_step:
  assumes law: "\<And>z z' rr p. z \<in> fst ` range jobs \<Longrightarrow> z' \<in> fst ` range jobs \<Longrightarrow> z \<noteq> z' \<Longrightarrow>
      pd_list pd z' (snd (pd_update pd z rr p)) = pd_list pd z' p"
    and ok: "writers_ok pd jobs p0 s" and st: "write_step pd jobs s s'"
  shows "writers_ok pd jobs p0 s'"
  using st
proof (cases rule: write_step.cases)
  case (acquire t h)
  then have free: "ws_held s (fst (jobs t)) = None" and h: "h = (ws_held s)(fst (jobs t) \<mapsto> t)"
    by (auto simp: lock_zone_def split: option.splits)
  have "ws_held s (fst (jobs t')) = Some t' \<Longrightarrow> fst (jobs t') \<noteq> fst (jobs t)" for t'
    using free by auto
  with ok acquire h show ?thesis by (auto simp: writers_ok_def)
next
  case (fetch t rrs)
  with ok show ?thesis by (auto simp: writers_ok_def)
next
  case (fetch_fails t)
  have h: "ws_held s (fst (jobs t)) = Some t" using ok fetch_fails by (simp add: writers_ok_def)
  have "t' \<noteq> t \<Longrightarrow> ws_held s (fst (jobs t')) = Some t' \<Longrightarrow> fst (jobs t') \<noteq> fst (jobs t)" for t'
    using h by auto
  with ok fetch_fails show ?thesis by (auto simp: writers_ok_def unlock_zone_def)
next
  case (patch t rrs ok' p')
  have h: "ws_held s (fst (jobs t)) = Some t" and l: "pd_list pd (fst (jobs t)) (ws_p s) = Some rrs"
    using ok patch by (auto simp: writers_ok_def)
  have p': "p' = append_alone pd (ws_p s) (jobs t)" using l patch by (simp add: append_alone_def)
  have other: "t' \<noteq> t \<Longrightarrow> ws_held s (fst (jobs t')) = Some t' \<Longrightarrow> fst (jobs t') \<noteq> fst (jobs t)" for t'
    using h by auto
  have keep: "fst (jobs t') \<noteq> fst (jobs t) \<Longrightarrow> pd_list pd (fst (jobs t')) p' = pd_list pd (fst (jobs t')) (ws_p s)" for t'
    using law [of "fst (jobs t)" "fst (jobs t')"] patch(3) by (metis image_eqI rangeI snd_conv)
  from ok other keep patch p' show ?thesis
    by (auto simp: writers_ok_def unlock_zone_def split: if_splits)
qed

text \<open>C4: Concurrent appends lose no update.  If the writers name their zones so that a write to
  one named zone does not change the records of another (in particular canonically), every
  interleaving of their locking, fetching and patching leaves PowerDNS as if the calls had run
  one after the other, in the order of their patches.\<close>

theorem appends_serialize:
  assumes "\<forall>z z' rr p. z \<in> fst ` range jobs \<and> z' \<in> fst ` range jobs \<and> z \<noteq> z' \<longrightarrow>
      pd_list pd z' (snd (pd_update pd z rr p)) = pd_list pd z' p"
    and "write_reach pd jobs p0 s"
  shows "ws_p s = foldl (append_alone pd) p0 (ws_patched s)"
proof -
  from assms(2) have "writers_ok pd jobs p0 s"
  proof (induction rule: write_reach.induct)
    case start
    show ?case by (simp add: writers_ok_def)
  next
    case (move s s')
    with assms(1) show ?case by (intro writers_ok_step [of jobs pd p0 s s']) auto
  qed
  then show ?thesis by (simp add: writers_ok_def)
qed

text \<open>A PowerDNS for the witnesses: it knows a zone under every spelling of its name.\<close>

definition same_rrset :: "rrset \<Rightarrow> rrset \<Rightarrow> bool" where
  "same_rrset a b \<longleftrightarrow> rr_name a = rr_name b \<and> rr_type a = rr_type b"

definition spelling_pdns :: "(string \<Rightarrow> rrset list) pdns" where
  "spelling_pdns = \<lparr>pd_list = (\<lambda>z p. Some (p (normalize_zone_name z))),
     pd_list_one = (\<lambda>z n t p. Some (filter (\<lambda>r. rr_name r = n \<and> rr_type r = t) (p (normalize_zone_name z)))),
     pd_update = (\<lambda>z rr p. (True, p(normalize_zone_name z :=
       filter (\<lambda>r. \<not> same_rrset r rr) (p (normalize_zone_name z)) @ [rr]))),
     pd_delete = (\<lambda>z n t p. (True, p(normalize_zone_name z :=
       filter (\<lambda>r. \<not> (rr_name r = n \<and> rr_type r = t)) (p (normalize_zone_name z))))),
     pd_list_zones = (\<lambda>p. None), pd_get_zone = (\<lambda>z p. None),
     pd_create_zone = (\<lambda>r p. (None, p)), pd_delete_zone = (\<lambda>z p. (False, p)),
     pd_statistics = (\<lambda>p. None)\<rparr>"

definition sample_rrset :: "string \<Rightarrow> rrset" where
  "sample_rrset c = \<lparr>rr_name = ''w.a.b.'', rr_type = ''A'', rr_ttl = 60, rr_changetype = [],
     rr_records = [\<lparr>ri_name = [], ri_type = [], ri_content = c, ri_ttl = 0, ri_priority = 0,
       ri_disabled = False\<rparr>], rr_comments = None\<rparr>"

definition idle_writers :: "'p \<Rightarrow> 'p writers" where
  "idle_writers p = \<lparr>ws_p = p, ws_held = Map.empty, ws_pc = (\<lambda>_. WIdle), ws_patched = []\<rparr>"

lemma go_acquire:
  "write_reach pd jobs p0 s \<Longrightarrow> ws_pc s t = WIdle \<Longrightarrow> ws_held s (fst (jobs t)) = None \<Longrightarrow>
     write_reach pd jobs p0 (s\<lparr>ws_held := (ws_held s)(fst (jobs t) \<mapsto> t), ws_pc := (ws_pc s)(t := WLocked)\<rparr>)"
  by (rule write_reach.move, assumption, rule write_step.acquire) (simp_all add: lock_zone_def)

lemma go_fetch:
  "write_reach pd jobs p0 s \<Longrightarrow> ws_pc s t = WLocked \<Longrightarrow> pd_list pd (fst (jobs t)) (ws_p s) = Some rrs \<Longrightarrow>
     write_reach pd jobs p0 (s\<lparr>ws_pc := (ws_pc s)(t := WFetched rrs)\<rparr>)"
  by (rule write_reach.move, assumption, rule write_step.fetch)

lemma go_patch:
  "write_reach pd jobs p0 s \<Longrightarrow> ws_pc s t = WFetched rrs \<Longrightarrow>
     pd_update pd (fst (jobs t)) (merge_rrset rrs (snd (jobs t))) (ws_p s) = (ok, p') \<Longrightarrow>
     write_reach pd jobs p0 (s\<lparr>ws_p := p', ws_held := unlock_zone (fst (jobs t)) (ws_held s),
       ws_pc := (ws_pc s)(t := WDone ok), ws_patched := ws_patched s @ [jobs t]\<rparr>)"
  by (rule write_reach.move, assumption, rule write_step.patch)

lemma spelling_update: "pd_update spelling_pdns z rr p = (True, p(normalize_zone_name z :=
    filter (\<lambda>r. \<not> same_rrset r rr) (p (normalize_zone_name z)) @ [rr]))"
  by (simp add: spelling_pdns_def)

lemma spelling_list: "pd_list spelling_pdns z p = Some (p (normalize_zone_name z))"
  by (simp add: spelling_pdns_def)

theorem appends_serialize_witness:
  "\<exists>s :: (string \<Rightarrow> rrset list) writers. ws_patched s = [(''a.b.'', sample_rrset ''1.1.1.1'')]
     \<and> ws_p s = append_alone spelling_pdns (\<lambda>_. []) (''a.b.'', sample_rrset ''1.1.1.1'')"
proof -
  let ?j = "\<lambda>_::nat. (''a.b.'', sample_rrset ''1.1.1.1'')"
  have 0: "write_reach spelling_pdns ?j (\<lambda>_. []) (idle_writers (\<lambda>_. []))"
    unfolding idle_writers_def by (rule write_reach.start)
  have "\<exists>s. write_reach spelling_pdns ?j (\<lambda>_. []) s \<and> ws_patched s = [(''a.b.'', sample_rrset ''1.1.1.1'')]"
    by (rule exI, rule conjI, rule go_patch [OF go_fetch [OF go_acquire [OF 0, where t = 0], where t = 0], where t = 0])
      (auto simp: idle_writers_def spelling_list spelling_update)
  then obtain s where r: "write_reach spelling_pdns ?j (\<lambda>_. []) s"
    and l: "ws_patched s = [(''a.b.'', sample_rrset ''1.1.1.1'')]" by blast
  have "ws_p s = foldl (append_alone spelling_pdns) (\<lambda>_. []) (ws_patched s)"
    by (rule appends_serialize [OF _ r]) auto
  with l show ?thesis by (intro exI [of _ s]) simp
qed

lemma sample_merge_empty:
  "merge_rrset [] (sample_rrset c) = sample_rrset c"
proof -
  have "prepare_record_content ''A'' c 0 = (c, 0)"
    by (rule prepare_content_unchanged) (simp add: record_type_specs_def)
  then show ?thesis
    by (simp add: merge_rrset_def find_rrset_def sample_rrset_def prepare_record_def
        dedup_records_by_content_def resolve_ttl_def)
qed

text \<open>The lock keys on the identifier as spelled, so the spelling a DNS administrator chose
  decides which lock is taken: with two spellings of one zone there is an interleaving of two
  successful appends to one record set after which the first one's record is gone.\<close>

theorem alias_spelling_loses_update:
  "\<exists>jobs s. write_reach spelling_pdns jobs (\<lambda>_. []) s
     \<and> normalize_zone_name (fst (jobs 0)) = normalize_zone_name (fst (jobs 1))
     \<and> ws_pc s 0 = WDone True \<and> ws_pc s 1 = WDone True
     \<and> snd (jobs 0) = sample_rrset ''1.1.1.1'' \<and> snd (jobs 1) = sample_rrset ''2.2.2.2''
     \<and> map (map ri_content \<circ> rr_records) (ws_p s ''a.b.'') = [[''2.2.2.2'']]"
proof -
  let ?j = "\<lambda>t::nat. if t = 0 then (''A.b'', sample_rrset ''1.1.1.1'') else (''a.b.'', sample_rrset ''2.2.2.2'')"
  have n: "normalize_zone_name ''A.b'' = ''a.b.''" "normalize_zone_name ''a.b.'' = ''a.b.''"
    by (simp_all add: normalize_zone_name_def ensure_trailing_dot_def go_str)
  have 0: "write_reach spelling_pdns ?j (\<lambda>_. []) (idle_writers (\<lambda>_. []))"
    unfolding idle_writers_def by (rule write_reach.start)
  have "\<exists>s. write_reach spelling_pdns ?j (\<lambda>_. []) s
     \<and> ws_pc s 0 = WDone True \<and> ws_pc s 1 = WDone True
     \<and> map (map ri_content \<circ> rr_records) (ws_p s ''a.b.'') = [[''2.2.2.2'']]"
    by (rule exI, rule conjI, rule go_patch [OF go_patch [OF go_fetch [OF go_acquire
          [OF go_fetch [OF go_acquire [OF 0, where t = 0], where t = 0], where t = 1], where t = 1], where t = 0], where t = 1])
      (auto simp: idle_writers_def spelling_list spelling_update n sample_merge_empty same_rrset_def,
       auto simp: sample_rrset_def)
  then show ?thesis using n by (intro exI [of _ ?j]) auto
qed

text \<open>Authorization comes first and the audit trail tells the truth: a write that is refused,
  for the zone or for the lock, leaves PowerDNS and the log alone; a successful append adds one
  row, for its user and zone, whose after-image is the set that was sent; a failed one adds
  none.\<close>

theorem create_record_audit:
  "(case create_record pd sf user zone rr src s of
      (None, s') \<Rightarrow> authorize_zone (sf_query sf) (sv_grants s) user zone = None \<and> \<not> sf_lock sf
        \<and> (\<exists>existing. pd_list pd zone (sv_pdns s) = Some existing
            \<and> sv_pdns s' = snd (pd_update pd zone (merge_rrset existing rr) (sv_pdns s))
            \<and> (if sf_log sf then sv_log s' = sv_log s
               else \<exists>e. sv_log s' = sv_log s @ [e] \<and> ae_user_id e = user_id_of user
                 \<and> ae_zone_id e = (if zone = [] then None else Some zone)
                 \<and> ae_old e = rrset_snapshot (find_rrset rr existing)
                 \<and> ae_new e = rrset_snapshot (Some (merge_rrset existing rr))))
    | (Some err, s') \<Rightarrow> sv_log s' = sv_log s \<and> sv_grants s' = sv_grants s
        \<and> (sv_pdns s' = sv_pdns s \<or> err = StageFailed StagePatch))"
  by (auto simp: create_record_def log_activity_def Let_def split: option.splits prod.splits)

text \<open>Only DNS administrators create and delete zones, and a deleted zone takes its grants with
  it at once, under whatever spelling it was deleted: nobody keeps an access that a zone
  recreated under the same name would inherit.\<close>

theorem delete_zone_purges_grants:
  "(case delete_zone pd sf user zone src s of
      (None, s') \<Rightarrow> \<not> (\<exists>u. user = Some u \<and> \<not> can_manage_dns u)
        \<and> \<not> (has_grant (sv_grants s') uid (normalize_zone_name zone) \<and> \<not> sf_purge sf)
        \<and> (z = normalize_zone_name zone \<or> has_grant (sv_grants s') uid z = has_grant (sv_grants s) uid z)
    | (Some err, s') \<Rightarrow> sv_grants s' = sv_grants s \<and> sv_log s' = sv_log s)"
proof -
  have gone: "has_grant (purge_zone_group_grants f zone db) uid (normalize_zone_name zone) \<Longrightarrow> f" for f db
    by (auto simp: has_grant_iff purge_zone_group_grants_def split: if_splits)
  have kept: "z \<noteq> normalize_zone_name zone \<Longrightarrow>
      has_grant (purge_zone_group_grants f zone db) uid z = has_grant db uid z" for f db
    by (auto simp: has_grant_iff purge_zone_group_grants_def)
  show ?thesis
    using gone kept
    by (auto simp: delete_zone_def require_admin_def log_activity_def Let_def
        split: option.splits prod.splits bool.splits)
qed

end
