(* ===== verification/CsvSanitize.thy ===== *)
theory CsvSanitize
  imports TextCodec
begin

section \<open>Neutralising spreadsheet formulas in CSV cells\<close>

text \<open>
  Models \<^verbatim>\<open>internal/dnsops/csv_sanitize.go\<close>.  The export prefixes an apostrophe to
  every line of a cell a spreadsheet would evaluate, the import takes it off again.
\<close>

abbreviation apos_ch :: char where "apos_ch \<equiv> CHR 0x27"
abbreviation newline_ch :: char where "newline_ch \<equiv> CHR 0x0A"

definition csv_dangerous_prefixes :: string where
  "csv_dangerous_prefixes = ''=+-@''"

definition csv_line_dangerous :: "string \<Rightarrow> bool" where
  "csv_line_dangerous line =
     (case trim_left (\<lambda>c. c = CHR 0x20 \<or> c = CHR 0x09) line of
        [] \<Rightarrow> False
      | c # _ \<Rightarrow> c \<in> set csv_dangerous_prefixes)"

definition sanitize_line :: "string \<Rightarrow> string" where
  "sanitize_line line =
     (if has_prefix line [apos_ch] then apos_ch # line
      else if csv_line_dangerous line then apos_ch # line
      else line)"

definition sanitize_csv_field :: "string \<Rightarrow> string" where
  "sanitize_csv_field s =
     (if s = [] then s else join_with [newline_ch] (map sanitize_line (split_on newline_ch s)))"

definition restore_line :: "string \<Rightarrow> string" where
  "restore_line line =
     (if \<not> has_prefix line [apos_ch] then line
      else
        let rest = tl line in
        if has_prefix rest [apos_ch] then rest
        else if csv_line_dangerous rest then rest
        else line)"

definition restore_csv_field :: "string \<Rightarrow> string" where
  "restore_csv_field s =
     (if s = [] then s else join_with [newline_ch] (map restore_line (split_on newline_ch s)))"

lemma restore_sanitize_line: "restore_line (sanitize_line l) = l"
  by (auto simp: sanitize_line_def restore_line_def Let_def)

interpretation csv_line: text_codec sanitize_line restore_line "\<lambda>_. True"
  by unfold_locales (rule restore_sanitize_line)

lemma sanitize_line_newline: "newline_ch \<in> set (sanitize_line l) \<longleftrightarrow> newline_ch \<in> set l"
  by (auto simp: sanitize_line_def)

lemma sanitize_line_safe: "\<not> csv_line_dangerous (sanitize_line l)"
proof -
  have "\<not> csv_line_dangerous (apos_ch # l)"
    by (simp add: csv_line_dangerous_def trim_left_def csv_dangerous_prefixes_def)
  then show ?thesis by (simp add: sanitize_line_def)
qed

lemma lines_sanitize_csv_field:
  "s \<noteq> [] \<Longrightarrow>
     split_on newline_ch (sanitize_csv_field s) = map sanitize_line (split_on newline_ch s)"
  unfolding sanitize_csv_field_def
  using split_on_parts [of _ newline_ch s]
  by (auto intro!: split_on_join simp: sanitize_line_newline)

lemma sanitize_line_eq_Nil [simp]: "sanitize_line l = [] \<longleftrightarrow> l = []"
  by (auto simp: sanitize_line_def csv_line_dangerous_def trim_left_def)

lemma sanitize_csv_field_eq_Nil [simp]: "sanitize_csv_field s = [] \<longleftrightarrow> s = []"
proof
  assume "sanitize_csv_field s = []"
  show "s = []"
  proof (rule ccontr)
    assume s: "s \<noteq> []"
    with \<open>sanitize_csv_field s = []\<close> have "map sanitize_line (split_on newline_ch s) = [[]]"
      using lines_sanitize_csv_field [OF s] by (simp add: split_on_def)
    then have "split_on newline_ch s = [[]]" by auto
    then have "s = []" using join_split_on [of newline_ch s] by simp
    with s show False by simp
  qed
qed (simp add: sanitize_csv_field_def)

lemma restore_sanitize_csv_field: "restore_csv_field (sanitize_csv_field s) = s"
proof (cases "s = []")
  case False
  then show ?thesis
    using csv_line.map_dec_enc [of "split_on newline_ch s"]
    by (simp add: restore_csv_field_def lines_sanitize_csv_field del: map_map)
qed (simp add: restore_csv_field_def sanitize_csv_field_def)

interpretation csv_cell: text_codec sanitize_csv_field restore_csv_field "\<lambda>_. True"
  by unfold_locales (rule restore_sanitize_csv_field)

section \<open>Properties of the CSV cells\<close>

text \<open>The import restores every exported cell to the byte, also a multi-line cell and one that
  starts with apostrophes, so two different values never export to the same cell.\<close>

theorem csv_cell_roundtrip:
  "restore_csv_field (sanitize_csv_field s) = s
   \<and> (sanitize_csv_field s = sanitize_csv_field r \<longleftrightarrow> s = r)"
  using csv_cell.dec_enc csv_cell.enc_inject by simp

text \<open>No physical line of an exported cell has a formula trigger as its first character after
  spaces and tabs, and the number of lines is that of the original cell.\<close>

theorem csv_cell_safe:
  "list_all (\<lambda>l. \<not> csv_line_dangerous l) (split_on newline_ch (sanitize_csv_field s))
   \<and> length (split_on newline_ch (sanitize_csv_field s)) = length (split_on newline_ch s)"
proof (cases "s = []")
  case True
  then show ?thesis
    by (simp add: sanitize_csv_field_def split_on_def csv_line_dangerous_def trim_left_def)
next
  case False
  then show ?thesis
    by (auto simp: lines_sanitize_csv_field list_all_iff sanitize_line_safe)
qed

end
