(* ===== verification/GoCsv.thy ===== *)
theory GoCsv
  imports Strconv
begin

section \<open>Reading and writing CSV\<close>

text \<open>
  Go's \<^verbatim>\<open>encoding/csv\<close> as GoZone uses it: a \<^verbatim>\<open>Writer\<close> with the default comma and
  \<^verbatim>\<open>UseCRLF\<close> off, and \<^verbatim>\<open>Reader.ReadAll\<close> with the defaults (no comment character,
  strict quotes, every record as long as the first).  The reader works on lines, as the
  package does: a line ends with its line feed, a carriage return before it is dropped.
\<close>

abbreviation csv_quote :: char where "csv_quote \<equiv> CHR 0x22"
abbreviation csv_comma :: char where "csv_comma \<equiv> CHR 0x2C"
abbreviation csv_nl :: char where "csv_nl \<equiv> CHR 0x0A"
abbreviation csv_cr :: char where "csv_cr \<equiv> CHR 0x0D"

subsection \<open>The writer\<close>

definition field_needs_quotes :: "string \<Rightarrow> bool" where
  "field_needs_quotes f =
     (if f = [] then False
      else if f = [CHR 0x5C, CHR 0x2E] then True
      else csv_nl \<in> set f \<or> csv_cr \<in> set f \<or> csv_quote \<in> set f \<or> csv_comma \<in> set f \<or> is_space (hd f))"

definition csv_escape :: "string \<Rightarrow> string" where
  "csv_escape f = replace_char csv_quote [csv_quote, csv_quote] f"

definition csv_field :: "string \<Rightarrow> string" where
  "csv_field f = (if field_needs_quotes f then csv_quote # csv_escape f @ [csv_quote] else f)"

definition csv_row :: "string list \<Rightarrow> string" where
  "csv_row fs = join_with [csv_comma] (map csv_field fs) @ [csv_nl]"

subsection \<open>The reader\<close>

text \<open>\<^verbatim>\<open>readLine\<close> until the end of the input.\<close>

definition csv_lines :: "string \<Rightarrow> string list" where
  "csv_lines s =
     (let ps = split_on csv_nl s in
      map (\<lambda>p. trim_suffix p [csv_cr] @ [csv_nl]) (butlast ps)
      @ (if last ps = [] then [] else [trim_suffix (last ps) [csv_cr]]))"

text \<open>
  The fields of a record: \<open>q\<close> says whether the scan is inside a quoted field, \<open>cur\<close> is the
  field so far, then come the rest of the line and the lines after it.  \<^const>\<open>None\<close> is
  \<^verbatim>\<open>ErrBareQuote\<close> or \<^verbatim>\<open>ErrQuote\<close>.
\<close>

definition end_of_line :: "string \<Rightarrow> bool" where
  "end_of_line l \<longleftrightarrow> l = [] \<or> l = [csv_nl]"

definition opens_quote :: "string \<Rightarrow> bool" where
  "opens_quote l \<longleftrightarrow> l \<noteq> [] \<and> hd l = csv_quote"

definition after_quote :: "string \<Rightarrow> string" where
  "after_quote l = (if opens_quote l then tl l else l)"

lemma length_after_quote: "length (after_quote l) \<le> length l"
  by (simp add: after_quote_def)

function csv_scan ::
  "bool \<Rightarrow> string \<Rightarrow> string \<Rightarrow> string list \<Rightarrow> (string list \<times> string list) option" where
  "csv_scan False cur [] ls = Some ([cur], ls)"
| "csv_scan False cur (c # l) ls =
     (if end_of_line (c # l) then Some ([cur], ls)
      else if c = csv_comma then
        map_option (\<lambda>(fs, r). (cur # fs, r)) (csv_scan (opens_quote l) [] (after_quote l) ls)
      else if c = csv_quote then None
      else csv_scan False (cur @ [c]) l ls)"
| "csv_scan True cur [] [] = None"
| "csv_scan True cur [] (l # ls) = (if l = [] then None else csv_scan True cur l ls)"
| "csv_scan True cur (c # l) ls =
     (if c \<noteq> csv_quote then csv_scan True (cur @ [c]) l ls
      else if opens_quote l then csv_scan True (cur @ [csv_quote]) (tl l) ls
      else if l \<noteq> [] \<and> hd l = csv_comma then
        map_option (\<lambda>(fs, r). (cur # fs, r))
          (csv_scan (opens_quote (tl l)) [] (after_quote (tl l)) ls)
      else if end_of_line l then Some ([cur], ls) else None)"
  by pat_completeness auto
termination
  by (relation "measure (\<lambda>(q, cur, l, ls). length l + sum_list (map length ls) + length ls)")
    (auto simp: opens_quote_def less_Suc_eq_le intro: le_trans [OF length_after_quote])

definition csv_fields :: "string \<Rightarrow> string list \<Rightarrow> (string list \<times> string list) option" where
  "csv_fields l ls = csv_scan (opens_quote l) [] (after_quote l) ls"

lemma csv_scan_shorter: "csv_scan q cur l ls = Some (fs, r) \<Longrightarrow> length r \<le> length ls"
proof (induction q cur l ls arbitrary: fs r rule: csv_scan.induct)
  case (2 cur c l ls)
  then show ?case by (auto split: if_splits)
next
  case (4 cur l ls)
  then show ?case by (fastforce split: if_splits)
next
  case (5 cur c l ls)
  then show ?case by (auto split: if_splits)
qed auto

lemma csv_fields_shorter: "csv_fields l ls = Some (fs, r) \<Longrightarrow> length r \<le> length ls"
  by (auto simp: csv_fields_def dest: csv_scan_shorter)

text \<open>Empty lines between records are skipped.\<close>

function csv_records :: "string list \<Rightarrow> string list list option" where
  "csv_records [] = Some []"
| "csv_records (l # ls) =
     (if end_of_line l then csv_records ls
      else case csv_fields l ls of
        None \<Rightarrow> None
      | Some (fs, r) \<Rightarrow> map_option (\<lambda>rs. fs # rs) (csv_records r))"
  by pat_completeness auto
termination
  by (relation "measure length") (auto dest: csv_fields_shorter)

definition csv_read_all :: "string \<Rightarrow> string list list option" where
  "csv_read_all s =
     (case csv_records (csv_lines s) of
        None \<Rightarrow> None
      | Some rs \<Rightarrow> if list_all (\<lambda>r. length r = length (hd rs)) rs then Some rs else None)"


subsection \<open>Reading back what was written\<close>

text \<open>
  On a text without carriage returns the current line and the lines after it are a view of
  the text that remains (\<open>cur_line\<close>, \<open>rest_lines\<close>).
\<close>

definition lines_of :: "string \<Rightarrow> string list" where
  "lines_of s = (let ps = split_on csv_nl s in
     map (\<lambda>p. p @ [csv_nl]) (butlast ps) @ (if last ps = [] then [] else [last ps]))"

fun cur_line :: "string \<Rightarrow> string" where
  "cur_line [] = []"
| "cur_line (c # s) = (if c = csv_nl then [c] else c # cur_line s)"

fun rest_lines :: "string \<Rightarrow> string list" where
  "rest_lines [] = []"
| "rest_lines (c # s) = (if c = csv_nl then lines_of s else rest_lines s)"

lemma lines_of_Nil [simp]: "lines_of [] = []"
  by (simp add: lines_of_def split_on_def)

lemma lines_of_cur: "s \<noteq> [] \<Longrightarrow> lines_of s = cur_line s # rest_lines s"
proof (induction s)
  case (Cons c s)
  obtain p ps where ps: "split_by (\<lambda>x. x = csv_nl) s = p # ps"
    using split_by_Cons_ex by blast
  show ?case
  proof (cases "c = csv_nl")
    case True
    then show ?thesis using ps by (simp add: lines_of_def split_on_def Let_def)
  next
    case False
    show ?thesis
    proof (cases "s = []")
      case True
      with False show ?thesis by (simp add: lines_of_def split_on_def Let_def)
    next
      case s: False
      with Cons False have "lines_of s = cur_line s # rest_lines s" by simp
      moreover have "lines_of (c # s) = (c # hd (lines_of s)) # tl (lines_of s)"
        using False ps s split_by_eq_single_Nil [of "\<lambda>x. x = csv_nl" s]
        by (cases ps) (auto simp: lines_of_def split_on_def Let_def)
      ultimately show ?thesis using False by simp
    qed
  qed
qed simp

lemma csv_lines_no_cr:
  assumes "csv_cr \<notin> set s"
  shows "csv_lines s = lines_of s"
proof -
  have "trim_suffix p [csv_cr] = p" if "p \<in> set (split_on csv_nl s)" for p
  proof (rule trim_suffix_none)
    have "csv_cr \<notin> set p"
      using that split_by_subset [of p "\<lambda>x. x = csv_nl" s] assms by (auto simp: split_on_def)
    then show "\<not> has_suffix p [csv_cr]" by (metis has_suffix_singleton last_in_set)
  qed
  moreover have "last (split_on csv_nl s) \<in> set (split_on csv_nl s)" by simp
  ultimately show ?thesis
    unfolding csv_lines_def lines_of_def Let_def by (auto dest: in_set_butlastD)
qed

lemma cur_line_hd: "s \<noteq> [] \<Longrightarrow> cur_line s \<noteq> [] \<and> hd (cur_line s) = hd s"
  by (cases s) auto

lemma csv_escape_simps [simp]:
  "csv_escape [] = []"
  "csv_escape (c # s) = (if c = csv_quote then [csv_quote, csv_quote] else [c]) @ csv_escape s"
  by (auto simp: csv_escape_def)

lemma scan_quoted_field:
  "u = csv_comma # v \<or> u = csv_nl # v \<Longrightarrow>
   csv_scan True cur (cur_line (csv_escape f @ csv_quote # u)) (rest_lines (csv_escape f @ csv_quote # u))
     = csv_scan True (cur @ f) (csv_quote # cur_line u) (rest_lines u)"
proof (induction f arbitrary: cur)
  case (Cons c f)
  show ?case
  proof (cases "c = csv_nl")
    case True
    let ?t = "csv_escape f @ csv_quote # u"
    have "?t \<noteq> []" by simp
    with True Cons show ?thesis
      using cur_line_hd [of ?t] by (simp add: lines_of_cur)
  next
    case False
    with Cons show ?thesis by (simp add: opens_quote_def)
  qed
qed simp

lemma scan_plain_field:
  assumes "csv_nl \<notin> set f" "csv_quote \<notin> set f" "csv_comma \<notin> set f"
  shows "csv_scan False cur (f @ l) ls = csv_scan False (cur @ f) l ls"
  using assms by (induction f arbitrary: cur) (auto simp: end_of_line_def)

text \<open>One field and what follows it, a comma or the end of the row.\<close>

definition resume :: "string \<Rightarrow> string \<Rightarrow> (string list \<times> string list) option" where
  "resume f u =
     (if hd u = csv_comma then map_option (\<lambda>(fs, r). (f # fs, r)) (csv_fields (cur_line (tl u)) (rest_lines (tl u)))
      else Some ([f], rest_lines u))"

lemma cur_line_plain:
  "csv_nl \<notin> set f \<Longrightarrow> cur_line (f @ u) = f @ cur_line u \<and> rest_lines (f @ u) = rest_lines u"
  by (induction f) auto

lemma csv_field_read:
  assumes u: "u = csv_comma # v \<or> u = csv_nl # v"
  shows "csv_fields (cur_line (csv_field f @ u)) (rest_lines (csv_field f @ u)) = resume f u"
proof (cases "field_needs_quotes f")
  case True
  have "csv_fields (cur_line (csv_field f @ u)) (rest_lines (csv_field f @ u))
      = csv_scan True f (csv_quote # cur_line u) (rest_lines u)"
    using scan_quoted_field [OF u, of "[]" f] True
    by (simp add: csv_field_def csv_fields_def opens_quote_def after_quote_def)
  then show ?thesis
    using u by (auto simp: resume_def opens_quote_def csv_fields_def end_of_line_def)
next
  case False
  then have f: "csv_nl \<notin> set f" "csv_quote \<notin> set f" "csv_comma \<notin> set f"
    by (auto simp: field_needs_quotes_def split: if_splits)
  from u have "\<not> opens_quote (f @ cur_line u)"
    using f(2) by (cases f) (auto simp: opens_quote_def)
  then have "csv_fields (cur_line (csv_field f @ u)) (rest_lines (csv_field f @ u))
      = csv_scan False f (cur_line u) (rest_lines u)"
    using False f by (simp add: csv_field_def csv_fields_def after_quote_def cur_line_plain scan_plain_field)
  then show ?thesis
    using u by (auto simp: resume_def csv_fields_def end_of_line_def)
qed

lemma csv_row_read:
  assumes "fs \<noteq> []"
  shows "csv_fields (cur_line (csv_row fs @ t)) (rest_lines (csv_row fs @ t)) = Some (fs, lines_of t)"
  using assms
proof (induction fs)
  case (Cons f fs)
  show ?case
  proof (cases "fs = []")
    case True
    then show ?thesis
      using csv_field_read [of "csv_nl # t" t f] by (simp add: csv_row_def resume_def)
  next
    case False
    then have "csv_row (f # fs) @ t = csv_field f @ csv_comma # (csv_row fs @ t)"
      by (simp add: csv_row_def join_with_Cons)
    with False Cons.IH csv_field_read [of "csv_comma # (csv_row fs @ t)" "csv_row fs @ t" f]
    show ?thesis by (simp add: resume_def)
  qed
qed simp

lemma csv_row_line: "fs \<noteq> [] \<Longrightarrow> fs \<noteq> [[]] \<Longrightarrow> \<not> end_of_line (cur_line (csv_row fs @ t))"
proof (cases fs)
  case (Cons f fs')
  assume "fs \<noteq> [[]]"
  have "csv_field f = [] \<or> csv_field f \<noteq> [] \<and> hd (csv_field f) \<noteq> csv_nl"
    by (cases f) (auto simp: csv_field_def field_needs_quotes_def split: if_splits)
  moreover have "csv_field f = [] \<longleftrightarrow> f = []"
    by (auto simp: csv_field_def field_needs_quotes_def)
  ultimately have "csv_row fs \<noteq> [] \<and> hd (csv_row fs) \<noteq> csv_nl"
    using Cons \<open>fs \<noteq> [[]]\<close> by (cases fs'; cases "csv_field f") (auto simp: csv_row_def)
  then show ?thesis
    by (cases "csv_row fs") (auto simp: end_of_line_def)
qed simp

lemma csv_rows_read:
  "\<forall>fs\<in>set rows. fs \<noteq> [] \<and> fs \<noteq> [[]] \<Longrightarrow> csv_records (lines_of (concat (map csv_row rows))) = Some rows"
proof (induction rows)
  case (Cons fs rows)
  have "csv_row fs @ concat (map csv_row rows) \<noteq> []" by (simp add: csv_row_def)
  with Cons csv_row_read [of fs "concat (map csv_row rows)"] csv_row_line [of fs "concat (map csv_row rows)"]
  show ?case by (simp add: lines_of_cur)
qed simp

lemma set_csv_row: "c \<in> set (csv_row fs) \<Longrightarrow> c \<in> {csv_nl, csv_quote, csv_comma} \<or> (\<exists>f\<in>set fs. c \<in> set f)"
proof -
  have e: "set (csv_escape f) \<subseteq> set f" for f by (induction f) auto
  assume "c \<in> set (csv_row fs)"
  then show ?thesis
    using set_join_with [of "[csv_comma]" "map csv_field fs"] e
    by (auto simp: csv_row_def csv_field_def split: if_splits) blast+
qed

lemma csv_read_all_write:
  assumes "\<forall>fs\<in>set rows. length fs = n \<and> (\<forall>f\<in>set fs. csv_cr \<notin> set f)" "n > 1"
  shows "csv_read_all (concat (map csv_row rows)) = Some rows"
proof -
  have "csv_cr \<notin> set (concat (map csv_row rows))"
    using assms(1) set_csv_row by fastforce
  moreover have "\<forall>fs\<in>set rows. fs \<noteq> [] \<and> fs \<noteq> [[]]"
    using assms by force
  ultimately have "csv_records (csv_lines (concat (map csv_row rows))) = Some rows"
    using csv_rows_read by (simp add: csv_lines_no_cr)
  moreover have "list_all (\<lambda>r. length r = length (hd rows)) rows"
    using assms(1) by (cases rows) (auto simp: list_all_iff)
  ultimately show ?thesis by (simp add: csv_read_all_def)
qed

end
