(* ===== verification/ZoneExport.thy ===== *)
theory ZoneExport
  imports Service CsvSanitize GoCsv "HOL-Library.Product_Lexorder" "HOL-Library.Multiset"
begin

section \<open>Exporting a zone\<close>

text \<open>
  Models \<^verbatim>\<open>internal/dnsops/export.go\<close> and \<^verbatim>\<open>listZoneRRSets\<close> of
  \<^verbatim>\<open>internal/pdns/client.go\<close>, which splits the priority off the contents it lists: the order
  of the exported record sets, a BIND zone file, a CSV file, and the service operation that
  renders them.
\<close>

subsection \<open>Listing\<close>

definition listed_record :: "string \<Rightarrow> record_info \<Rightarrow> record_info" where
  "listed_record t r =
     (case split_priority t (ri_content r) of
        (p, c, ok) \<Rightarrow> if ok then r\<lparr>ri_priority := p, ri_content := c\<rparr> else r)"

definition listed_rrset :: "rrset \<Rightarrow> rrset" where
  "listed_rrset rr = rr\<lparr>rr_records := map (listed_record (rr_type rr)) (rr_records rr)\<rparr>"

subsection \<open>The order of the record sets\<close>

definition rrset_before :: "rrset \<Rightarrow> rrset \<Rightarrow> bool" where
  "rrset_before a b =
     (if rr_type a = ''SOA'' \<and> rr_type b \<noteq> ''SOA'' then True
      else if rr_type b = ''SOA'' \<and> rr_type a \<noteq> ''SOA'' then False
      else if rr_type a = ''NS'' \<and> rr_type b \<noteq> ''NS'' then True
      else if rr_type b = ''NS'' \<and> rr_type a \<noteq> ''NS'' then False
      else if rr_name a \<noteq> rr_name b then rr_name a < rr_name b
      else rr_type a < rr_type b)"

text \<open>\<^verbatim>\<open>sort.SliceStable\<close> with a comparator: equal elements keep their order.\<close>

fun insert_stable :: "('a \<Rightarrow> 'a \<Rightarrow> bool) \<Rightarrow> 'a \<Rightarrow> 'a list \<Rightarrow> 'a list" where
  "insert_stable lt x [] = [x]"
| "insert_stable lt x (y # ys) =
     (if lt y x then y # insert_stable lt x ys else x # y # ys)"

definition sort_stable :: "('a \<Rightarrow> 'a \<Rightarrow> bool) \<Rightarrow> 'a list \<Rightarrow> 'a list" where
  "sort_stable lt xs = foldr (insert_stable lt) xs []"

definition sort_rrsets :: "rrset list \<Rightarrow> rrset list" where
  "sort_rrsets = sort_stable rrset_before"

subsection \<open>BIND\<close>

definition relative_bind_name :: "string \<Rightarrow> string \<Rightarrow> string" where
  "relative_bind_name name origin =
     (let origin' = trim_suffix origin ''.'';
          name' = trim_suffix name ''.'';
          suf = CHR ''.'' # origin' in
      if name' = origin' then ''@''
      else if has_suffix name' suf then trim_suffix name' suf
      else if \<not> has_suffix name ''.'' then name @ ''.''
      else name)"

definition format_record_content :: "string \<Rightarrow> string \<Rightarrow> int \<Rightarrow> string" where
  "format_record_content rtype content priority =
     (if type_has_priority rtype then join_priority rtype priority content
      else if type_has_quoted_fields rtype then quote_content_fields content (type_quoted_indices rtype)
      else quote_content rtype content)"

fun find_soa_ttl :: "rrset list \<Rightarrow> int" where
  "find_soa_ttl [] = 3600"
| "find_soa_ttl (rr # rrs) = (if rr_type rr = ''SOA'' \<and> rr_ttl rr > 0 then rr_ttl rr else find_soa_ttl rrs)"

definition absolute_origin :: "string \<Rightarrow> string" where
  "absolute_origin name = (if \<not> has_suffix name ''.'' then name @ ''.'' else name)"

definition bind_record_line :: "string \<Rightarrow> int \<Rightarrow> rrset \<Rightarrow> record_info \<Rightarrow> string" where
  "bind_record_line origin default_ttl rr r =
     (let ttl = (if rr_ttl rr = 0 then default_ttl else rr_ttl rr) in
      relative_bind_name (rr_name rr) origin
      @ (if ttl \<noteq> default_ttl then '' '' @ dec_int ttl else [])
      @ '' IN '' @ rr_type rr @ '' ''
      @ format_record_content (rr_type rr) (ri_content r) (ri_priority r) @ [newline_ch])"

definition render_zone_file :: "zone \<Rightarrow> rrset list \<Rightarrow> string" where
  "render_zone_file z rrs =
     (let origin = absolute_origin (z_name z);
          sorted = sort_rrsets rrs;
          default_ttl = find_soa_ttl sorted in
      ''$ORIGIN '' @ origin @ [newline_ch] @ ''$TTL '' @ dec_int default_ttl @ [newline_ch, newline_ch]
      @ concat (map (\<lambda>rr. concat (map (bind_record_line origin default_ttl rr)
          (filter (\<lambda>r. \<not> ri_disabled r) (rr_records rr)))) sorted))"

subsection \<open>CSV\<close>

definition csv_header :: "string list" where
  "csv_header = [''name'', ''type'', ''content'', ''ttl'', ''priority'', ''disabled'', ''comment'']"

definition joined_comments :: "comment_patch option \<Rightarrow> string" where
  "joined_comments cp =
     (case cp of None \<Rightarrow> [] | Some p \<Rightarrow> join_with [newline_ch] (map cm_content (cp_items p)))"

definition csv_record_row :: "rrset \<Rightarrow> record_info \<Rightarrow> string list" where
  "csv_record_row rr r =
     [rr_name rr, rr_type rr, sanitize_csv_field (unquote_content (rr_type rr) (ri_content r)),
      dec_int (rr_ttl rr), dec_int (if type_has_priority (rr_type rr) then ri_priority r else 0),
      (if ri_disabled r then ''true'' else ''false''),
      sanitize_csv_field (joined_comments (rr_comments rr))]"

definition csv_rows :: "rrset list \<Rightarrow> string list list" where
  "csv_rows rrs = csv_header # concat (map (\<lambda>rr. map (csv_record_row rr) (rr_records rr)) rrs)"

definition render_zone_csv :: "zone \<Rightarrow> rrset list \<Rightarrow> string" where
  "render_zone_csv z rrs = concat (map csv_row (csv_rows rrs))"

subsection \<open>The service operation\<close>

datatype export_error = UnknownFormat string | ExportRefused service_error

definition export_zone ::
  "'p pdns \<Rightarrow> query_end \<Rightarrow> user option \<Rightarrow> string \<Rightarrow> string \<Rightarrow> 'p svc \<Rightarrow> export_error + string \<times> nat" where
  "export_zone pd q user zone_id format s =
     (if format \<noteq> ''bind'' \<and> format \<noteq> ''csv'' then Inl (UnknownFormat format)
      else case authorize_zone q (sv_grants s) user zone_id of
        Some e \<Rightarrow> Inl (ExportRefused e)
      | None \<Rightarrow> (case pd_get_zone pd zone_id (sv_pdns s) of
          None \<Rightarrow> Inl (ExportRefused Upstream)
        | Some z \<Rightarrow> (case pd_list pd zone_id (sv_pdns s) of
            None \<Rightarrow> Inl (ExportRefused Upstream)
          | Some records \<Rightarrow>
              if format = ''csv'' then
                Inr (render_zone_csv z records, sum_list (map (\<lambda>rr. length (rr_records rr)) records))
              else
                Inr (render_zone_file z records,
                  sum_list (map (\<lambda>rr. length (filter (\<lambda>r. \<not> ri_disabled r) (rr_records rr))) records)))))"

section \<open>Properties of the export\<close>

subsection \<open>The comparator\<close>

definition type_rank :: "string \<Rightarrow> nat" where
  "type_rank t = (if t = ''SOA'' then 0 else if t = ''NS'' then 1 else 2)"

definition rrset_key :: "rrset \<Rightarrow> nat \<times> string \<times> string" where
  "rrset_key rr = (type_rank (rr_type rr), rr_name rr, rr_type rr)"

lemma rrset_before_key: "rrset_before a b \<longleftrightarrow> rrset_key a < rrset_key b"
  by (auto simp: rrset_before_def rrset_key_def type_rank_def less_prod_def')

lemma insert_stable_insort:
  "(\<And>a b. lt a b \<longleftrightarrow> f a < (f b :: 'b::linorder)) \<Longrightarrow> insert_stable lt x xs = insort_key f x xs"
  by (induction xs) (auto simp: not_less)

lemma sort_stable_sort_key:
  assumes "\<And>a b. lt a b \<longleftrightarrow> f a < (f b :: 'b::linorder)"
  shows "sort_stable lt xs = sort_key f xs"
  using insert_stable_insort [of lt f, OF assms]
  by (induction xs) (simp_all add: sort_stable_def)

text \<open>The export sorts the record sets by one key, SOA before NS before the others, then name,
  then type: the comparator is a strict weak order, nothing is lost or duplicated, and record
  sets of one name and type keep their order.\<close>

theorem sort_rrsets_spec:
  "sort_rrsets rrs = sort_key (\<lambda>rr. (type_rank (rr_type rr), rr_name rr, rr_type rr)) rrs
   \<and> (rrset_before a b \<longleftrightarrow>
        (type_rank (rr_type a), rr_name a, rr_type a) < (type_rank (rr_type b), rr_name b, rr_type b))
   \<and> mset (sort_rrsets rrs) = mset rrs
   \<and> filter (\<lambda>rr. rr_name rr = n \<and> rr_type rr = t) (sort_rrsets rrs)
       = filter (\<lambda>rr. rr_name rr = n \<and> rr_type rr = t) rrs"
proof -
  have s: "sort_rrsets rrs = sort_key rrset_key rrs"
    unfolding sort_rrsets_def by (rule sort_stable_sort_key) (rule rrset_before_key)
  have "filter (\<lambda>rr. rrset_key rr = (type_rank t, n, t)) (sort_key rrset_key rrs)
      = filter (\<lambda>rr. rrset_key rr = (type_rank t, n, t)) rrs"
    by (rule sort_key_stable)
  moreover have "(rrset_key rr = (type_rank t, n, t)) \<longleftrightarrow> (rr_name rr = n \<and> rr_type rr = t)" for rr
    by (auto simp: rrset_key_def)
  ultimately have "filter (\<lambda>rr. rr_name rr = n \<and> rr_type rr = t) (sort_rrsets rrs)
      = filter (\<lambda>rr. rr_name rr = n \<and> rr_type rr = t) rrs"
    using s by simp
  with s rrset_before_key show ?thesis by (simp add: rrset_key_def [abs_def])
qed

end
