(* ===== verification/ZoneImport.thy ===== *)
theory ZoneImport
  imports ZoneExport
begin

section \<open>Importing a zone\<close>

text \<open>
  Models \<^verbatim>\<open>internal/handlers/import.go\<close>: the two parsers, which turn a BIND zone file or a
  CSV file into record sets and a list of what could not be read, and the handler, which
  refuses an upload with anything unread and otherwise replaces the record sets in one
  call.  The bytes of the upload are an argument, as is what fails around the handler.
\<close>

abbreviation cr_ch :: char where "cr_ch \<equiv> CHR 0x0D"

definition detect_format :: "string \<Rightarrow> string" where
  "detect_format filename = (if has_suffix (to_lower filename) ''.csv'' then ''csv'' else ''bind'')"

record bind_record =
  br_name :: string
  br_ttl :: int
  br_type :: string
  br_data :: string

datatype skip_reason =
  IncludeUnsupported | TooFewFields | TypeMissing | CellMissing | RecordInvalid validation_error

record skipped_line =
  sk_line :: string
  sk_reason :: skip_reason

definition validate_parsed_record :: "string \<Rightarrow> string \<Rightarrow> string \<Rightarrow> int \<Rightarrow> verdict" where
  "validate_parsed_record rtype name content priority =
     and_then (validate_record_type rtype)
       (and_then (validate_record_name name)
         (and_then (validate_record_content rtype content) (validate_record_priority rtype priority)))"

subsection \<open>Logical lines of a BIND file\<close>

record bind_line =
  bl_text :: string
  bl_inherits :: bool

fun replace_crlf :: "string \<Rightarrow> string" where
  "replace_crlf [] = []"
| "replace_crlf [c] = [c]"
| "replace_crlf (c # d # s) =
     (if c = cr_ch \<and> d = newline_ch then newline_ch # replace_crlf s else c # replace_crlf (d # s))"

text \<open>The quote-aware scan of one physical line: what is left of it, and the change of the
  depth of parentheses.\<close>

fun clean_line :: "bool \<Rightarrow> string \<Rightarrow> string \<times> int" where
  "clean_line q [] = ([], 0)"
| "clean_line q (c # s) =
     (if c = quote_ch then (case clean_line (\<not> q) s of (t, d) \<Rightarrow> (c # t, d))
      else if c = CHR '';'' \<and> \<not> q then ([], 0)
      else if c = CHR ''('' \<and> \<not> q then (case clean_line q s of (t, d) \<Rightarrow> (t, d + 1))
      else if c = CHR '')'' \<and> \<not> q then (case clean_line q s of (t, d) \<Rightarrow> (t, d - 1))
      else (case clean_line q s of (t, d) \<Rightarrow> (c # t, d)))"

definition flush_line :: "string \<Rightarrow> bool \<Rightarrow> bind_line list" where
  "flush_line current inherits =
     (let t = trim_space current in if t \<noteq> [] then [\<lparr>bl_text = t, bl_inherits = inherits\<rparr>] else [])"

definition leading_blank :: "string \<Rightarrow> bool" where
  "leading_blank raw \<longleftrightarrow> raw \<noteq> [] \<and> (hd raw = blank_ch \<or> hd raw = tab_ch)"

fun join_lines :: "int \<Rightarrow> string \<Rightarrow> bool \<Rightarrow> string list \<Rightarrow> bind_line list" where
  "join_lines depth current inherits [] = (if depth > 0 then flush_line current inherits else [])"
| "join_lines depth current inherits (raw # raws) =
     (case clean_line False (trim_space raw) of
        (cleaned, delta) \<Rightarrow>
          let line = trim_space cleaned in
          if line = [] \<and> depth = 0 then join_lines depth current inherits raws
          else
            let current' = (if depth = 0 then line else current @ '' '' @ line);
                inherits' = (if depth = 0 then leading_blank raw else inherits);
                depth' = max 0 (depth + delta)
            in if depth' = 0 then flush_line current' inherits' @ join_lines 0 [] False raws
               else join_lines depth' current' inherits' raws)"

definition normalize_bind_lines :: "string \<Rightarrow> bind_line list" where
  "normalize_bind_lines input = join_lines 0 [] False (split_on newline_ch (replace_crlf input))"

subsection \<open>One line\<close>

fun tokenize_bind :: "bool \<Rightarrow> string \<Rightarrow> string \<Rightarrow> string list" where
  "tokenize_bind q current [] = (if current \<noteq> [] then [current] else [])"
| "tokenize_bind q current (c # s) =
     (if c = quote_ch then tokenize_bind (\<not> q) (current @ [c]) s
      else if c = blank_ch \<or> c = tab_ch then
        (if q then tokenize_bind q (current @ [c]) s
         else if current \<noteq> [] then current # tokenize_bind q [] s
         else tokenize_bind q [] s)
      else tokenize_bind q (current @ [c]) s)"

definition tokenize_bind_line :: "string \<Rightarrow> string list" where
  "tokenize_bind_line line = tokenize_bind False [] line"

definition positive_number :: "string \<Rightarrow> int option" where
  "positive_number s = (case atoi s of Some n \<Rightarrow> if n > 0 then Some n else None | None \<Rightarrow> None)"

definition is_class :: "string \<Rightarrow> bool" where
  "is_class s \<longleftrightarrow> to_upper s \<in> {''IN'', ''CH'', ''HS''}"

definition resolve_bind_name :: "string \<Rightarrow> string \<Rightarrow> string" where
  "resolve_bind_name name origin =
     (if name = ''@'' then origin
      else if has_suffix name ''.'' then name
      else name @ ''.'' @ origin)"

definition parse_bind_line :: "string \<Rightarrow> string \<Rightarrow> int \<Rightarrow> skip_reason + bind_record" where
  "parse_bind_line line origin default_ttl =
     (case tokenize_bind_line line of
        [] \<Rightarrow> Inl TooFewFields
      | [_] \<Rightarrow> Inl TooFewFields
      | name # toks \<Rightarrow>
          let (ttl, toks1) = (case positive_number (hd toks) of
                Some n \<Rightarrow> (n, tl toks) | None \<Rightarrow> (0, toks));
              (ttl', toks2) =
                (if toks1 \<noteq> [] \<and> is_class (hd toks1) then (ttl, tl toks1)
                 else if ttl = 0 \<and> toks1 \<noteq> [] then
                   (case positive_number (hd toks1) of Some n \<Rightarrow> (n, tl toks1) | None \<Rightarrow> (ttl, toks1))
                 else (ttl, toks1))
          in case toks2 of
               [] \<Rightarrow> Inl TypeMissing
             | rtype # data \<Rightarrow>
                 Inr \<lparr>br_name = resolve_bind_name name origin,
                   br_ttl = (if ttl' = 0 then default_ttl else ttl'),
                   br_type = to_upper rtype, br_data = join_with '' '' data\<rparr>)"

definition resolve_field :: "string \<Rightarrow> string list \<Rightarrow> int \<Rightarrow> string list" where
  "resolve_field origin fs idx =
     (if idx \<ge> 0 \<and> idx < int (length fs)
      then fs[nat idx := resolve_bind_name (fs ! nat idx) origin] else fs)"

definition resolve_bind_rdata :: "string \<Rightarrow> string \<Rightarrow> string \<Rightarrow> string" where
  "resolve_bind_rdata rtype data origin =
     (if data = [] then data
      else let fs = str_fields data in
        if type_is_fqdn_target rtype then
          (if fs = [] then data
           else join_with '' '' (butlast fs @ [resolve_bind_name (last fs) origin]))
        else if type_has_fqdn_fields rtype then
          join_with '' '' (foldl (resolve_field origin) fs (type_fqdn_indices rtype))
        else data)"

subsection \<open>The BIND file\<close>

text \<open>\<open>owner\<close> is the owner of the previous record, as spelled.\<close>

definition effective_line :: "string \<Rightarrow> bind_line \<Rightarrow> string" where
  "effective_line owner bl = (if bl_inherits bl then owner @ '' '' @ bl_text bl else bl_text bl)"

definition next_owner :: "string \<Rightarrow> bind_line \<Rightarrow> string" where
  "next_owner owner bl =
     (if bl_inherits bl then owner
      else case str_fields (bl_text bl) of [] \<Rightarrow> owner | f # _ \<Rightarrow> f)"

definition bind_record_of :: "string \<Rightarrow> int \<Rightarrow> string \<Rightarrow> skip_reason + bind_record" where
  "bind_record_of origin default_ttl line =
     (case parse_bind_line line origin default_ttl of
        Inl e \<Rightarrow> Inl e
      | Inr r0 \<Rightarrow>
          let r = r0\<lparr>br_data := resolve_bind_rdata (br_type r0) (br_data r0) origin\<rparr> in
          (case split_priority (br_type r) (br_data r) of
             (prio, rest, _) \<Rightarrow>
               (case validate_parsed_record (br_type r) (br_name r) rest prio of
                  Some e \<Rightarrow> Inl (RecordInvalid e) | None \<Rightarrow> Inr r)))"

fun parse_bind_lines ::
  "string \<Rightarrow> int \<Rightarrow> string \<Rightarrow> bind_line list \<Rightarrow> bind_record list \<times> skipped_line list" where
  "parse_bind_lines origin default_ttl owner [] = ([], [])"
| "parse_bind_lines origin default_ttl owner (bl # bls) =
     (let line = bl_text bl; upper = to_upper line in
      if has_prefix upper ''$ORIGIN '' then
        parse_bind_lines (absolute_origin (trim_space (drop 8 line))) default_ttl owner bls
      else if has_prefix upper ''$TTL '' then
        parse_bind_lines origin
          (case positive_number (trim_space (drop 5 line)) of Some n \<Rightarrow> n | None \<Rightarrow> default_ttl) owner bls
      else if has_prefix upper ''$INCLUDE'' then
        (case parse_bind_lines origin default_ttl owner bls of
           (raw, sk) \<Rightarrow> (raw, \<lparr>sk_line = line, sk_reason = IncludeUnsupported\<rparr> # sk))
      else if bl_inherits bl \<and> owner = [] then parse_bind_lines origin default_ttl owner bls
      else
        let (raw, sk) = parse_bind_lines origin default_ttl (next_owner owner bl) bls in
        (case bind_record_of origin default_ttl (effective_line owner bl) of
           Inl e \<Rightarrow> (raw, \<lparr>sk_line = line, sk_reason = e\<rparr> # sk)
         | Inr r \<Rightarrow> (r # raw, sk)))"

text \<open>Keys in the order of their first occurrence.\<close>

fun first_keys :: "'k list \<Rightarrow> 'k list \<Rightarrow> 'k list" where
  "first_keys seen [] = []"
| "first_keys seen (k # ks) = (if k \<in> set seen then first_keys seen ks else k # first_keys (k # seen) ks)"

definition bind_key :: "bind_record \<Rightarrow> string \<times> string" where
  "bind_key r = (br_name r, br_type r)"

definition group_ttl :: "bind_record list \<Rightarrow> int" where
  "group_ttl recs = foldl (\<lambda>ttl r. if br_ttl r \<noteq> ttl then br_ttl r else ttl) (br_ttl (hd recs)) recs"

definition bare_record :: "string \<Rightarrow> bool \<Rightarrow> int \<Rightarrow> record_info" where
  "bare_record content disabled priority =
     \<lparr>ri_name = [], ri_type = [], ri_content = content, ri_ttl = 0, ri_priority = priority,
      ri_disabled = disabled\<rparr>"

definition bind_record_info :: "bind_record \<Rightarrow> record_info" where
  "bind_record_info r =
     (case split_priority (br_type r) (br_data r) of
        (prio, rest, _) \<Rightarrow> bare_record (fst (prepare_record_content (br_type r) rest prio)) False 0)"

definition bind_group :: "bind_record list \<Rightarrow> string \<times> string \<Rightarrow> rrset" where
  "bind_group recs k =
     \<lparr>rr_name = fst k, rr_type = snd k, rr_ttl = group_ttl recs, rr_changetype = [],
      rr_records = map bind_record_info recs, rr_comments = None\<rparr>"

definition group_bind_records :: "bind_record list \<Rightarrow> rrset list" where
  "group_bind_records raw = map (\<lambda>k. bind_group (filter (\<lambda>r. bind_key r = k) raw) k) (first_keys [] (map bind_key raw))"

definition parse_bind_zone :: "string \<Rightarrow> string \<Rightarrow> rrset list \<times> skipped_line list" where
  "parse_bind_zone data zone_id =
     (case parse_bind_lines (absolute_origin zone_id) 3600 [] (normalize_bind_lines data) of
        (raw, sk) \<Rightarrow> (group_bind_records raw, sk))"

subsection \<open>The CSV file\<close>

definition csv_headers :: "string list \<Rightarrow> string \<Rightarrow> nat option" where
  "csv_headers row =
     map_of (rev (zip (map (\<lambda>h. to_lower (trim_space h)) row) [0..<length row]))"

definition get_csv_field :: "string list \<Rightarrow> (string \<Rightarrow> nat option) \<Rightarrow> string \<Rightarrow> string" where
  "get_csv_field row headers name =
     (case headers name of
        Some i \<Rightarrow> if i < length row then trim_space (row ! i) else []
      | None \<Rightarrow> [])"

record csv_record =
  cs_name :: string
  cs_type :: string
  cs_ttl :: int
  cs_record :: record_info
  cs_comment :: string

datatype csv_outcome = CsvBlank | CsvSkip skipped_line | CsvRecord csv_record

definition parse_csv_row :: "(string \<Rightarrow> nat option) \<Rightarrow> string \<Rightarrow> string list \<Rightarrow> csv_outcome" where
  "parse_csv_row headers zone_id row =
     (if length row = 0 \<or> length row = 1 \<and> trim_space (row ! 0) = [] then CsvBlank
      else
        let name = get_csv_field row headers ''name'';
            rtype = to_upper (get_csv_field row headers ''type'');
            content = restore_csv_field (get_csv_field row headers ''content'');
            ttl = (case positive_number (get_csv_field row headers ''ttl'') of Some v \<Rightarrow> v | None \<Rightarrow> 3600);
            priority = (case atoi (get_csv_field row headers ''priority'') of Some v \<Rightarrow> v | None \<Rightarrow> 0);
            disabled = (get_csv_field row headers ''disabled'' = ''true'');
            skip = (\<lambda>e. CsvSkip \<lparr>sk_line = join_with '','' row, sk_reason = e\<rparr>)
        in if name = [] \<or> rtype = [] \<or> content = [] then skip CellMissing
           else (case validate_parsed_record rtype name content priority of
             Some e \<Rightarrow> skip (RecordInvalid e)
           | None \<Rightarrow>
               (case prepare_record_content rtype content priority of
                  (c, p) \<Rightarrow> CsvRecord \<lparr>cs_name = normalize_record_name name zone_id, cs_type = rtype,
                    cs_ttl = ttl, cs_record = bare_record c disabled p,
                    cs_comment = restore_csv_field (get_csv_field row headers ''comment'')\<rparr>)))"

definition append_if_missing :: "string list \<Rightarrow> string \<Rightarrow> string list" where
  "append_if_missing s v = (if v = [] then s else if v \<in> set s then s else s @ [v])"

definition parse_csv_comments :: "string list \<Rightarrow> comment list" where
  "parse_csv_comments cells =
     map (\<lambda>l. \<lparr>cm_content = l, cm_account = [], cm_modified_at = 0\<rparr>)
       (filter (\<lambda>l. l \<noteq> []) (map trim_space (concat (map (split_on newline_ch) cells))))"

definition csv_key :: "csv_record \<Rightarrow> string \<times> string" where
  "csv_key r = (cs_name r, cs_type r)"

definition csv_group :: "csv_record list \<Rightarrow> string \<times> string \<Rightarrow> rrset" where
  "csv_group recs k =
     (let items = parse_csv_comments (foldl append_if_missing [] (map cs_comment recs)) in
      \<lparr>rr_name = fst k, rr_type = snd k, rr_ttl = cs_ttl (hd recs), rr_changetype = [],
       rr_records = map cs_record recs,
       rr_comments = (if length items > 0 then Some \<lparr>cp_items = items, cp_clear = False\<rparr> else None)\<rparr>)"

definition csv_outcomes :: "string \<Rightarrow> string list list \<Rightarrow> csv_outcome list" where
  "csv_outcomes zone_id rows = map (parse_csv_row (csv_headers (hd rows)) zone_id) (tl rows)"

definition parse_csv_zone :: "string \<Rightarrow> string \<Rightarrow> (rrset list \<times> skipped_line list) option" where
  "parse_csv_zone data zone_id =
     (case csv_read_all data of
        None \<Rightarrow> None
      | Some rows \<Rightarrow>
          if length rows < 2 then Some ([], [])
          else
            let outs = csv_outcomes zone_id rows;
                recs = concat (map (\<lambda>out. case out of CsvRecord r \<Rightarrow> [r] | _ \<Rightarrow> []) outs);
                skips = concat (map (\<lambda>out. case out of CsvSkip s \<Rightarrow> [s] | _ \<Rightarrow> []) outs)
            in Some (map (\<lambda>k. csv_group (filter (\<lambda>r. csv_key r = k) recs) k) (first_keys [] (map csv_key recs)), skips))"

subsection \<open>The handler\<close>

datatype import_reply =
    ImportNoUpload | ImportNoFormat | ImportUnreadable | ImportParseError | ImportRejected nat
  | ImportEmpty | ImportFailed | ImportDone

record import_upload =
  iu_filename :: string
  iu_format :: string
  iu_data :: string

datatype import_call = ImportRead | ImportLock | ImportLog

text \<open>\<open>patch\<close> is \<^verbatim>\<open>CreateRecords\<close> of the client.  The size limit of the read is the limit of
  the request body.\<close>

definition import_details :: "rrset list \<Rightarrow> string \<Rightarrow> string" where
  "import_details rrs format =
     ''Imported '' @ dec_int (int (length rrs)) @ '' RRSets (''
     @ dec_int (int (sum_list (map (\<lambda>rr. length (rr_records rr)) rrs))) @ '' records) from ''
     @ to_upper format @ '' zone file''"

definition import_zone ::
  "(string \<Rightarrow> rrset list \<Rightarrow> 'p \<Rightarrow> bool \<times> 'p) \<Rightarrow> (import_call \<Rightarrow> bool) \<Rightarrow> user \<Rightarrow> string
    \<Rightarrow> import_upload option \<Rightarrow> 'p svc \<Rightarrow> import_reply \<times> 'p svc" where
  "import_zone patch fails user zone_id upload s =
     (case upload of None \<Rightarrow> (ImportNoUpload, s)
      | Some u \<Rightarrow>
          let format = (if iu_format u \<noteq> ''bind'' \<and> iu_format u \<noteq> ''csv''
                        then detect_format (iu_filename u) else iu_format u) in
          if format \<noteq> ''bind'' \<and> format \<noteq> ''csv'' then (ImportNoFormat, s)
          else if format = ''bind'' \<and> fails ImportRead then (ImportUnreadable, s)
          else case (if format = ''bind'' then Some (parse_bind_zone (take (10 * 2 ^ 20) (iu_data u)) zone_id)
                     else if fails ImportRead then None
                     else parse_csv_zone (iu_data u) zone_id) of
            None \<Rightarrow> (ImportParseError, s)
          | Some (rrs, skipped) \<Rightarrow>
              if skipped \<noteq> [] then (ImportRejected (length skipped), s)
              else if rrs = [] then (ImportEmpty, s)
              else if fails ImportLock then (ImportFailed, s)
              else case patch zone_id rrs (sv_pdns s) of
                (ok, p) \<Rightarrow>
                  if \<not> ok then (ImportFailed, s\<lparr>sv_pdns := p\<rparr>)
                  else (ImportDone, log_activity (fails ImportLog)
                    \<lparr>ae_user_id = u_id user, ae_zone_id = Some zone_id, ae_action = ''import_zone'',
                     ae_details = import_details rrs format,
                     ae_old_list = None, ae_old = None, ae_new = None\<rparr> (s\<lparr>sv_pdns := p\<rparr>)))"

end
