(* ===== verification/ZoneRoundTrip.thy ===== *)
theory ZoneRoundTrip
  imports ZoneImport
begin

section \<open>An exported zone reads back\<close>

text \<open>
  The importer undoes the exporter.  The first part holds what both formats share: texts
  that survive trimming, and the grouping of records by name and type.  Then come the CSV
  file and the BIND file, each with the conditions under which it reads back, and the
  contents for which it does not.
\<close>

subsection \<open>Trimmed texts\<close>

definition trimmed :: "string \<Rightarrow> bool" where
  "trimmed s \<longleftrightarrow> s = [] \<or> \<not> is_space (hd s) \<and> \<not> is_space (last s)"

lemma trim_space_trimmed: "trim_space s = s \<longleftrightarrow> trimmed s"
  using trim_space_noop [of s] trim_space_ends [of s] by (auto simp: trimmed_def)

lemma trimmed_field_tok: "field_tok t \<Longrightarrow> trimmed t"
  by (cases t) (auto simp: trimmed_def field_tok_def)

lemma is_space_newline [simp]: "is_space newline_ch"
  by (simp add: is_space_def ord_def)

lemma hd_join_with: "xs \<noteq> [] \<Longrightarrow> hd xs \<noteq> [] \<Longrightarrow> hd (join_with sep xs) = hd (hd xs)"
  by (cases xs; cases "tl xs") auto

lemma last_join_with':
  "xs \<noteq> [] \<Longrightarrow> last xs \<noteq> [] \<Longrightarrow> join_with sep xs \<noteq> [] \<and> last (join_with sep xs) = last (last xs)"
  by (induction sep xs rule: join_with.induct) auto

lemmas last_join_with = last_join_with' [THEN conjunct2]

lemma trimmed_join_with:
  assumes "xs \<noteq> []" "\<forall>x\<in>set xs. x \<noteq> [] \<and> trimmed x"
  shows "trimmed (join_with sep xs)"
proof -
  have "hd xs \<in> set xs" "last xs \<in> set xs" using assms(1) by auto
  with assms have "hd xs \<noteq> []" "last xs \<noteq> []" "trimmed (hd xs)" "trimmed (last xs)" by auto
  with assms(1) show ?thesis by (auto simp: trimmed_def hd_join_with last_join_with)
qed

lemma sanitize_line_last: "l \<noteq> [] \<Longrightarrow> last (sanitize_line l) = last l"
  by (simp add: sanitize_line_def)

lemma sanitize_line_hd: "l \<noteq> [] \<Longrightarrow> hd (sanitize_line l) = apos_ch \<or> hd (sanitize_line l) = hd l"
  by (simp add: sanitize_line_def)

lemma trimmed_sanitize_csv_field:
  assumes "trimmed s"
  shows "trimmed (sanitize_csv_field s)"
proof (cases "s = []")
  case False
  let ?ls = "split_on newline_ch s" and ?ms = "map sanitize_line (split_on newline_ch s)"
  have j: "join_with [newline_ch] ?ls = s" by simp
  from False assms have h: "\<not> is_space (hd s)" and l: "\<not> is_space (last s)" by (auto simp: trimmed_def)
  have hn: "hd ?ls \<noteq> []"
  proof
    assume "hd ?ls = []"
    with j False have "hd s = newline_ch"
      by (cases ?ls; cases "tl ?ls") auto
    with h show False by simp
  qed
  have ln: "last ?ls \<noteq> []"
  proof
    assume "last ?ls = []"
    then have "last s = newline_ch" using last_split_by [of "\<lambda>x. x = newline_ch" s] False by (simp add: split_on_def)
    with l show False by simp
  qed
  have "hd s = hd (hd ?ls)" using hd_join_with [of ?ls "[newline_ch]"] hn j by simp
  moreover have "last s = last (last ?ls)" using last_join_with [of ?ls "[newline_ch]"] ln j by simp
  moreover have "hd (sanitize_csv_field s) = hd (sanitize_line (hd ?ls))"
    using False hn hd_join_with [of ?ms "[newline_ch]"] by (simp add: sanitize_csv_field_def hd_map)
  moreover have "last (sanitize_csv_field s) = last (last ?ls)"
    using False ln last_join_with [of ?ms "[newline_ch]"]
    by (simp add: sanitize_csv_field_def last_map sanitize_line_last)
  moreover have "\<not> is_space apos_ch" by (simp add: is_space_def ord_def)
  ultimately show ?thesis
    using h l sanitize_line_hd [OF hn] by (auto simp: trimmed_def)
qed (simp add: sanitize_csv_field_def trimmed_def)

lemma restore_trimmed_cell: "trimmed s \<Longrightarrow> restore_csv_field (trim_space (sanitize_csv_field s)) = s"
  using trimmed_sanitize_csv_field [of s] by (simp add: trim_space_trimmed [symmetric] restore_sanitize_csv_field)

lemma set_sanitize_csv_field: "set (sanitize_csv_field s) \<subseteq> {apos_ch, newline_ch} \<union> set s"
proof -
  have "set (sanitize_line l) \<subseteq> {apos_ch} \<union> set l" for l by (auto simp: sanitize_line_def)
  moreover have "l \<in> set (split_on newline_ch s) \<Longrightarrow> set l \<subseteq> set s" for l
    by (simp add: split_on_def split_by_subset)
  ultimately show ?thesis
    using set_join_with [of "[newline_ch]" "map sanitize_line (split_on newline_ch s)"]
    unfolding sanitize_csv_field_def by (force split: if_splits)
qed

subsection \<open>Grouping\<close>

lemma first_keys_seen: "set ks \<subseteq> set seen \<Longrightarrow> first_keys seen (ks @ ks') = first_keys seen ks'"
  by (induction ks) auto

lemma first_keys_cong: "set seen = set seen' \<Longrightarrow> first_keys seen ks = first_keys seen' ks"
proof (induction ks arbitrary: seen seen')
  case (Cons k ks)
  from Cons.IH [of "k # seen" "k # seen'"] Cons.IH [OF Cons.prems] Cons.prems show ?case by simp
qed simp

lemma first_keys_groups:
  assumes "distinct (map key gs)" "\<forall>g\<in>set gs. items g \<noteq> [] \<and> (\<forall>x\<in>set (items g). kf x = key g)"
    "set seen \<inter> set (map key gs) = {}"
  shows "first_keys seen (map kf (concat (map items gs))) = map key gs"
  using assms
proof (induction gs arbitrary: seen)
  case (Cons g gs)
  from Cons.prems obtain x xs where x: "items g = x # xs" by (cases "items g") auto
  with Cons.prems have k: "kf x = key g" "set (map kf xs) \<subseteq> {key g}" by auto
  have "first_keys (key g # seen) (map kf (concat (map items gs))) = map key gs"
    using Cons.prems by (intro Cons.IH) auto
  moreover have "first_keys (key g # seen) (map kf xs @ map kf (concat (map items gs)))
      = first_keys (key g # seen) (map kf (concat (map items gs)))"
    using k by (intro first_keys_seen) auto
  ultimately show ?case using x k Cons.prems(3) by simp
qed simp

lemma filter_group:
  assumes "distinct (map key gs)" "\<forall>g\<in>set gs. \<forall>x\<in>set (items g). kf x = key g" "g \<in> set gs"
  shows "filter (\<lambda>x. kf x = key g) (concat (map items gs)) = items g"
  using assms
proof (induction gs)
  case (Cons h gs)
  show ?case
  proof (cases "g = h")
    case True
    with Cons.prems(1,2) have "kf x \<noteq> key g" if "g' \<in> set gs" "x \<in> set (items g')" for g' x
      using that by (metis distinct.simps(2) image_eqI list.set_intros(2) list.set_map list.simps(9))
    then have "filter (\<lambda>x. kf x = key g) (concat (map items gs)) = []"
      by (auto simp: filter_empty_conv)
    with True Cons.prems show ?thesis by (simp add: filter_True)
  next
    case False
    with Cons.prems have g: "g \<in> set gs" "key g \<in> key ` set gs" by auto
    with Cons.prems(1) have "key g \<noteq> key h" by (metis distinct.simps(2) list.map(2) set_map)
    with g(1) Cons show ?thesis by (auto simp: filter_empty_conv)
  qed
qed simp

lemma regroup:
  assumes "distinct (map key gs)" "\<forall>g\<in>set gs. items g \<noteq> [] \<and> (\<forall>x\<in>set (items g). kf x = key g)"
    "\<forall>g\<in>set gs. build (items g) (key g) = out g"
  shows "map (\<lambda>k. build (filter (\<lambda>x. kf x = k) (concat (map items gs))) k)
    (first_keys [] (map kf (concat (map items gs)))) = map out gs"
proof -
  have "first_keys [] (map kf (concat (map items gs))) = map key gs"
    using assms(1,2) by (intro first_keys_groups) auto
  with filter_group [of key gs items kf] assms show ?thesis by simp
qed


subsection \<open>The CSV file\<close>

text \<open>A text that survives the trimming of a cell and the line ends of the reader.\<close>

definition csv_text :: "string \<Rightarrow> bool" where
  "csv_text s \<longleftrightarrow> trim_space s = s \<and> cr_ch \<notin> set s"

definition csv_priority :: "string \<Rightarrow> record_info \<Rightarrow> int" where
  "csv_priority t r = (if type_has_priority t then ri_priority r else 0)"

definition csv_exportable_record :: "string \<Rightarrow> record_info \<Rightarrow> bool" where
  "csv_exportable_record t r =
     (let c = unquote_content t (ri_content r) in
      c \<noteq> [] \<and> csv_text c \<and> validate_record_content t c = None
      \<and> validate_record_priority t (csv_priority t r) = None)"

definition csv_exportable_comments :: "comment_patch option \<Rightarrow> bool" where
  "csv_exportable_comments cp =
     (case cp of None \<Rightarrow> True
      | Some p \<Rightarrow> list_all (\<lambda>c. cm_content c \<noteq> [] \<and> csv_text (cm_content c) \<and> newline_ch \<notin> set (cm_content c))
          (cp_items p))"

definition csv_exportable :: "string \<Rightarrow> rrset \<Rightarrow> bool" where
  "csv_exportable zone_id rr \<longleftrightarrow>
     rr_type rr \<in> set record_type_whitelist
     \<and> rr_name rr \<noteq> [] \<and> csv_text (rr_name rr) \<and> validate_record_name (rr_name rr) = None
     \<and> normalize_record_name (rr_name rr) zone_id = rr_name rr
     \<and> 0 < rr_ttl rr \<and> int64 (rr_ttl rr) \<and> rr_records rr \<noteq> []
     \<and> list_all (csv_exportable_record (rr_type rr)) (rr_records rr)
     \<and> csv_exportable_comments (rr_comments rr)"

text \<open>What the import submits for an exported record set: the listed contents, prepared as every
  write prepares them, and the texts of the comments.\<close>

definition resubmitted_record :: "string \<Rightarrow> record_info \<Rightarrow> record_info" where
  "resubmitted_record t r =
     (case prepare_record_content t (unquote_content t (ri_content r)) (csv_priority t r) of
        (c, p) \<Rightarrow> bare_record c (ri_disabled r) p)"

definition resubmitted_comments :: "comment_patch option \<Rightarrow> comment_patch option" where
  "resubmitted_comments cp =
     (case cp of None \<Rightarrow> None
      | Some p \<Rightarrow> if cp_items p = [] then None
          else Some \<lparr>cp_items = map (\<lambda>c. \<lparr>cm_content = cm_content c, cm_account = [], cm_modified_at = 0\<rparr>)
            (cp_items p), cp_clear = False\<rparr>)"

definition resubmitted :: "rrset \<Rightarrow> rrset" where
  "resubmitted rr =
     \<lparr>rr_name = rr_name rr, rr_type = rr_type rr, rr_ttl = rr_ttl rr, rr_changetype = [],
      rr_records = map (resubmitted_record (rr_type rr)) (rr_records rr),
      rr_comments = resubmitted_comments (rr_comments rr)\<rparr>"

lemma csv_headers_eval:
  "csv_headers csv_header ''name'' = Some 0" "csv_headers csv_header ''type'' = Some 1"
  "csv_headers csv_header ''content'' = Some 2" "csv_headers csv_header ''ttl'' = Some 3"
  "csv_headers csv_header ''priority'' = Some 4" "csv_headers csv_header ''disabled'' = Some 5"
  "csv_headers csv_header ''comment'' = Some 6"
  by (simp_all add: csv_headers_def csv_header_def upt_conv_Cons go_str)

lemma whitelist_type:
  "t \<in> set record_type_whitelist \<Longrightarrow> to_upper t = t \<and> t \<noteq> [] \<and> trim_space t = t \<and> cr_ch \<notin> set t"
proof -
  have "list_all (\<lambda>t. to_upper t = t \<and> t \<noteq> [] \<and> trim_space t = t \<and> cr_ch \<notin> set t) record_type_whitelist"
    by code_simp
  then show "t \<in> set record_type_whitelist \<Longrightarrow> to_upper t = t \<and> t \<noteq> [] \<and> trim_space t = t \<and> cr_ch \<notin> set t"
    by (auto simp: list_all_iff)
qed

lemma trim_dec_int [simp]: "trim_space (dec_int i) = dec_int i"
  using trimmed_field_tok [OF dec_int_field_tok] by (simp add: trim_space_trimmed)

lemma csv_priority_int64:
  "validate_record_priority t (csv_priority t r) = None \<Longrightarrow> to_upper t = t \<Longrightarrow> int64 (csv_priority t r)"
  by (auto simp: validate_record_priority_def csv_priority_def type_has_priority_eq int64_def Let_def
      split: if_splits)

lemma trim_flag [simp]: "trim_space ''true'' = ''true''" "trim_space ''false'' = ''false''"
  by (simp_all add: go_str)

lemma csv_comments_text:
  assumes "csv_exportable_comments cp"
  shows "trimmed (joined_comments cp)" "cr_ch \<notin> set (joined_comments cp)"
proof -
  have t: "trimmed (joined_comments cp) \<and> cr_ch \<notin> set (joined_comments cp)"
  proof (cases "\<exists>p. cp = Some p \<and> cp_items p \<noteq> []")
    case True
    then obtain p where p: "cp = Some p" "cp_items p \<noteq> []" by blast
    let ?cs = "map cm_content (cp_items p)"
    have c: "\<forall>x\<in>set ?cs. x \<noteq> [] \<and> trimmed x" "\<forall>x\<in>set ?cs. cr_ch \<notin> set x"
      using assms p(1) by (auto simp: csv_exportable_comments_def list_all_iff csv_text_def trim_space_trimmed)
    moreover have "cr_ch \<noteq> newline_ch" by simp
    ultimately show ?thesis
      using p set_join_with [of "[newline_ch]" ?cs] trimmed_join_with [of ?cs "[newline_ch]"]
      by (auto simp: joined_comments_def)
  next
    case False
    then show ?thesis
      by (auto simp: joined_comments_def trimmed_def split: option.splits)
  qed
  then show "trimmed (joined_comments cp)" "cr_ch \<notin> set (joined_comments cp)" by auto
qed

lemma csv_row_outcome:
  assumes "csv_exportable zone_id rr" "r \<in> set (rr_records rr)"
  shows "parse_csv_row (csv_headers csv_header) zone_id (csv_record_row rr r)
    = CsvRecord \<lparr>cs_name = rr_name rr, cs_type = rr_type rr, cs_ttl = rr_ttl rr,
        cs_record = resubmitted_record (rr_type rr) r, cs_comment = joined_comments (rr_comments rr)\<rparr>"
proof -
  let ?t = "rr_type rr" and ?c = "unquote_content (rr_type rr) (ri_content r)"
  from assms(1) have t: "to_upper ?t = ?t" "?t \<noteq> []" "trim_space ?t = ?t" "validate_record_type ?t = None"
    using whitelist_type [of ?t] by (auto simp: csv_exportable_def validate_record_type_upper)
  from assms have r: "?c \<noteq> []" "trimmed ?c" "validate_record_content ?t ?c = None"
    "validate_record_priority ?t (csv_priority ?t r) = None"
    by (auto simp: csv_exportable_def list_all_iff csv_exportable_record_def csv_text_def trim_space_trimmed Let_def)
  from assms(1) have n: "rr_name rr \<noteq> []" "trim_space (rr_name rr) = rr_name rr"
    "validate_record_name (rr_name rr) = None" "normalize_record_name (rr_name rr) zone_id = rr_name rr"
    "int64 (rr_ttl rr)" "0 < rr_ttl rr" "csv_exportable_comments (rr_comments rr)"
    by (auto simp: csv_exportable_def csv_text_def)
  let ?f = "get_csv_field (csv_record_row rr r) (csv_headers csv_header)"
  have f: "?f ''name'' = rr_name rr" "?f ''type'' = ?t" "restore_csv_field (?f ''content'') = ?c"
    "?f ''ttl'' = dec_int (rr_ttl rr)" "?f ''priority'' = dec_int (csv_priority ?t r)"
    "(?f ''disabled'' = ''true'') = ri_disabled r"
    "restore_csv_field (?f ''comment'') = joined_comments (rr_comments rr)"
    using t(3) n(2,7) r(2)
    by (simp_all add: get_csv_field_def csv_headers_eval csv_record_row_def restore_trimmed_cell
        csv_comments_text csv_priority_def)
  have v: "validate_parsed_record ?t (rr_name rr) ?c (csv_priority ?t r) = None"
    using t(4) n(3) r(3,4) by (simp add: validate_parsed_record_def)
  have l: "length (csv_record_row rr r) = 7" by (simp add: csv_record_row_def)
  show ?thesis
    unfolding parse_csv_row_def Let_def f t(1)
    using t(2) n(1,4-6) r(1) v l csv_priority_int64 [OF r(4) t(1)]
    by (simp add: positive_number_def resubmitted_record_def split: prod.split)
qed


definition csv_record_of :: "rrset \<Rightarrow> record_info \<Rightarrow> csv_record" where
  "csv_record_of rr r =
     \<lparr>cs_name = rr_name rr, cs_type = rr_type rr, cs_ttl = rr_ttl rr,
      cs_record = resubmitted_record (rr_type rr) r, cs_comment = joined_comments (rr_comments rr)\<rparr>"

definition rr_key :: "rrset \<Rightarrow> string \<times> string" where
  "rr_key rr = (rr_name rr, rr_type rr)"

lemma dec_int_no_cr: "cr_ch \<notin> set (dec_int i)"
  using dec_int_field_tok [of i] by (auto simp: field_tok_def is_space_def ord_def)

lemma csv_row_cells:
  assumes "csv_exportable zone_id rr" "r \<in> set (rr_records rr)"
  shows "\<forall>f\<in>set (csv_record_row rr r). cr_ch \<notin> set f"
proof -
  have s: "cr_ch \<notin> set c \<Longrightarrow> cr_ch \<notin> set (sanitize_csv_field c)" for c
    using set_sanitize_csv_field [of c] by auto
  have "cr_ch \<notin> set (unquote_content (rr_type rr) (ri_content r))" "cr_ch \<notin> set (rr_name rr)"
    "cr_ch \<notin> set (rr_type rr)" "cr_ch \<notin> set (joined_comments (rr_comments rr))"
    using assms whitelist_type csv_comments_text(2)
    by (auto simp: csv_exportable_def list_all_iff csv_exportable_record_def csv_text_def Let_def)
  then show ?thesis by (simp add: csv_record_row_def s dec_int_no_cr)
qed

lemma foldl_append_same:
  "v \<noteq> [] \<Longrightarrow> foldl append_if_missing [v] (replicate n v) = [v]"
  by (induction n) (simp_all add: append_if_missing_def)

lemma collect_comments:
  assumes "rs \<noteq> []" "\<forall>r\<in>set rs. cs_comment r = v"
  shows "foldl append_if_missing [] (map cs_comment rs) = (if v = [] then [] else [v])"
proof -
  have "map cs_comment rs = replicate (length rs) v"
    using assms(2) by (induction rs) auto
  moreover obtain n where "length rs = Suc n" using assms(1) by (cases rs) auto
  moreover have "foldl append_if_missing [] (replicate m []) = []" for m
    by (induction m) (simp_all add: append_if_missing_def)
  ultimately show ?thesis
    by (cases "v = []") (simp_all add: append_if_missing_def [of "[]"] foldl_append_same)
qed

lemma parse_joined_comments:
  assumes "csv_exportable_comments cp"
  shows "(let v = joined_comments cp; items = parse_csv_comments (if v = [] then [] else [v]) in
    if length items > 0 then Some \<lparr>cp_items = items, cp_clear = False\<rparr> else None) = resubmitted_comments cp"
proof (cases "\<exists>p. cp = Some p \<and> cp_items p \<noteq> []")
  case True
  then obtain p where p: "cp = Some p" "cp_items p \<noteq> []" by blast
  let ?cs = "map cm_content (cp_items p)"
  have c: "\<forall>x\<in>set ?cs. x \<noteq> [] \<and> trim_space x = x \<and> newline_ch \<notin> set x"
    using assms p(1) by (auto simp: csv_exportable_comments_def list_all_iff csv_text_def)
  then have "split_on newline_ch (joined_comments cp) = ?cs"
    using p by (auto simp: joined_comments_def intro!: split_on_join)
  moreover have "joined_comments cp \<noteq> []"
    using p c by (cases "cp_items p") (auto simp: joined_comments_def join_with_eq_Nil)
  moreover have "filter (\<lambda>l. l \<noteq> []) (map trim_space ?cs) = ?cs"
    using c by (auto simp: filter_id_conv intro: map_idI)
  ultimately show ?thesis
    using p by (simp add: parse_csv_comments_def resubmitted_comments_def comp_def)
next
  case False
  then show ?thesis
    by (auto simp: joined_comments_def resubmitted_comments_def parse_csv_comments_def split: option.splits)
qed

lemma csv_group_resubmitted:
  assumes "csv_exportable zone_id rr"
  shows "csv_group (map (csv_record_of rr) (rr_records rr)) (rr_key rr) = resubmitted rr"
proof -
  have ne: "map (csv_record_of rr) (rr_records rr) \<noteq> []" and c: "csv_exportable_comments (rr_comments rr)"
    using assms by (auto simp: csv_exportable_def)
  then have h: "cs_ttl (hd (map (csv_record_of rr) (rr_records rr))) = rr_ttl rr"
    by (simp add: hd_map csv_record_of_def)
  have "\<forall>r\<in>set (map (csv_record_of rr) (rr_records rr)). cs_comment r = joined_comments (rr_comments rr)"
    by (simp add: csv_record_of_def)
  note k = collect_comments [OF ne this]
  have "map cs_record (map (csv_record_of rr) (rr_records rr))
      = map (resubmitted_record (rr_type rr)) (rr_records rr)"
    by (simp add: csv_record_of_def)
  then show ?thesis
    using parse_joined_comments [OF c] h by (simp only: csv_group_def Let_def k resubmitted_def) (simp add: rr_key_def)
qed



subsection \<open>Valid names\<close>

definition name_char :: "char \<Rightarrow> bool" where
  "name_char c \<longleftrightarrow> is_word_char c \<or> c = CHR ''-'' \<or> c = CHR ''*'' \<or> c = CHR ''.'' \<or> c = CHR ''@''"

lemma dns_label_chars: "dns_label l \<Longrightarrow> l \<noteq> [] \<and> last l \<noteq> CHR ''.'' \<and> l \<noteq> ''@'' \<and> (\<forall>c\<in>set l. name_char c)"
  by (auto simp: dns_label_def name_char_def list_all_iff is_word_char_def go_str)

lemma set_split_by: "c \<in> set s \<Longrightarrow> \<not> P c \<Longrightarrow> \<exists>l\<in>set (split_by P s). c \<in> set l"
proof (induction s)
  case (Cons x s)
  obtain y ys where "split_by P s = y # ys" using split_by_Cons_ex by blast
  with Cons show ?case by auto
qed simp

lemma valid_name:
  assumes "validate_record_name n = None" "n \<noteq> ''@''"
  shows "list_all dns_label (split_on CHR ''.'' (trim_suffix n ''.''))" "trim_suffix n ''.'' \<noteq> []"
  using assms
  by (auto simp: validate_record_name_def validate_dns_name_def Let_def check_dns_labels_None split: if_splits)

lemma valid_name_chars:
  assumes "validate_record_name n = None"
  shows "n \<noteq> [] \<and> (\<forall>c\<in>set n. name_char c)"
proof (cases "n = ''@''")
  case False
  have "name_char c" if "c \<in> set (trim_suffix n ''.'')" for c
    using set_split_by [OF that, of "\<lambda>x. x = CHR ''.''"] valid_name(1) [OF assms False] dns_label_chars
    by (cases "c = CHR ''.''") (auto simp: name_char_def list_all_iff split_on_def)
  moreover have "set n \<subseteq> insert CHR ''.'' (set (trim_suffix n ''.''))"
    by (rule trim_suffix_cases [of n "''.''"]) (metis set_append set_simps empty_set insert_is_Un sup_commute subset_refl, auto)
  ultimately show ?thesis
    using assms by (auto simp: name_char_def validate_record_name_def)
qed (simp add: name_char_def)

lemma name_char_plain:
  "name_char c \<Longrightarrow> \<not> is_space c \<and> c \<noteq> quote_ch \<and> c \<noteq> CHR '';'' \<and> c \<noteq> CHR ''('' \<and> c \<noteq> CHR '')''
    \<and> upper_char c \<noteq> CHR ''$''"
proof -
  have "upper_char c \<noteq> CHR ''$''" if "c \<noteq> CHR ''$''"
  proof (cases "is_lower c")
    case True
    then have "ord (upper_char c) = ord c - 32" "97 \<le> ord c"
      by (simp_all add: upper_char_def is_lower_def less_imp_diff_less)
    then have "ord (upper_char c) \<noteq> ord CHR ''$''" by (simp add: ord_def [of "CHR ''$''"])
    then show ?thesis by auto
  qed (use that in \<open>simp add: upper_char_def\<close>)
  moreover assume "name_char c"
  then have "\<not> is_space c \<and> c \<noteq> quote_ch \<and> c \<noteq> CHR '';'' \<and> c \<noteq> CHR ''('' \<and> c \<noteq> CHR '')'' \<and> c \<noteq> CHR ''$''"
    by (auto simp: name_char_def is_word_char_def is_alnum_def is_digit_def is_upper_def is_lower_def
        is_space_def ord_def)
  ultimately show ?thesis by blast
qed

lemma resolve_relative:
  assumes "validate_record_name name = None" and "has_suffix name ''.''" and "has_suffix origin ''.''"
  shows "resolve_bind_name (relative_bind_name name origin) origin = name"
proof -
  obtain m z where m: "name = m @ ''.''" and z: "origin = z @ ''.''"
    using assms(2,3) by (auto elim!: has_suffixE)
  have n: "name \<noteq> ''@''" using m by auto
  then have labels: "list_all dns_label (split_on CHR ''.'' m)"
    using valid_name(1) [OF assms(1)] m by simp
  consider "m = z" | a where "m = a @ CHR ''.'' # z" | "m \<noteq> z" "\<not> has_suffix m (CHR ''.'' # z)"
    by (auto simp: has_suffix_def suffix_def)
  then show ?thesis
  proof cases
    case (2 a)
    then have "split_on CHR ''.'' m = split_on CHR ''.'' a @ split_on CHR ''.'' z"
      by (simp add: split_on_def split_by_append)
    with labels have "dns_label (last (split_on CHR ''.'' a))" "list_all dns_label (split_on CHR ''.'' a)"
      by (auto simp: list_all_iff)
    then have "last (split_on CHR ''.'' a) \<noteq> []" "\<not> has_suffix a ''.''" "a \<noteq> ''@''"
      using last_split_by [of "\<lambda>x. x = CHR ''.''" a] dns_label_chars [of "last (split_on CHR ''.'' a)"]
      by (auto simp: has_suffix_singleton split_on_def)
    moreover have "trim_suffix name ''.'' = m" "trim_suffix origin ''.'' = z"
      unfolding m z by (rule trim_suffix_append)+
    then have "relative_bind_name name origin = a"
      using 2 by (simp add: relative_bind_name_def Let_def)
    ultimately show ?thesis using m z 2 by (simp add: resolve_bind_name_def)
  qed (use m z n assms(2) in \<open>auto simp: relative_bind_name_def resolve_bind_name_def Let_def\<close>)
qed


text \<open>The names of a BIND export are resolved back to what they were: for every valid absolute
  name and every origin, also one the name does not lie in, importing the relative form gives
  the name.\<close>

theorem relative_name_roundtrip:
  assumes "validate_record_name name = None" and "has_suffix name ''.''" and "has_suffix origin ''.''"
  shows "resolve_bind_name (relative_bind_name name origin) origin = name"
  using assms by (rule resolve_relative)

theorem relative_name_roundtrip_witness:
  "relative_bind_name ''*.a.b.'' ''a.b.'' = ''*''
   \<and> resolve_bind_name (relative_bind_name ''*.a.b.'' ''a.b.'') ''a.b.'' = ''*.a.b.''"
proof
  show "resolve_bind_name (relative_bind_name ''*.a.b.'' ''a.b.'') ''a.b.'' = ''*.a.b.''"
    by (rule relative_name_roundtrip) (simp_all add: validate_record_name_def validate_dns_name_def
        dns_label_def is_word_char_def go_str)
qed (simp add: relative_bind_name_def go_str)

subsection \<open>The BIND file\<close>

text \<open>
  A rendered line is the name, the time to live unless it is the default, the class, the
  type, all free of quotes, parentheses and comments, and the content.  \<open>bind_text\<close> is
  what the content must be for the line to be read as it is written: no comment and no
  parenthesis outside the quotes, where quotes simply alternate, single blanks between
  its words, and no line end.
\<close>

definition bind_text :: "string \<Rightarrow> bool" where
  "bind_text f \<longleftrightarrow> f \<noteq> [] \<and> trim_space f = f \<and> newline_ch \<notin> set f \<and> cr_ch \<notin> set f
     \<and> clean_line False f = (f, 0) \<and> join_with '' '' (tokenize_bind_line f) = f"

definition plain_char :: "char \<Rightarrow> bool" where
  "plain_char c \<longleftrightarrow> \<not> is_space c \<and> c \<noteq> quote_ch \<and> c \<noteq> CHR '';'' \<and> c \<noteq> CHR ''('' \<and> c \<noteq> CHR '')''"

definition plain_tok :: "string \<Rightarrow> bool" where
  "plain_tok t \<longleftrightarrow> t \<noteq> [] \<and> list_all plain_char t"

lemma plain_char_ends: "\<not> plain_char newline_ch" "\<not> plain_char cr_ch"
  by (simp_all add: plain_char_def is_space_def ord_def)

lemma clean_line_plain:
  "list_all (\<lambda>c. plain_char c \<or> c = blank_ch) t \<Longrightarrow>
     clean_line False (t @ s) = (case clean_line False s of (u, d) \<Rightarrow> (t @ u, d))"
  by (induction t) (auto simp: plain_char_def split: prod.splits)

lemma tokenize_plain: "list_all plain_char t \<Longrightarrow> tokenize_bind False cur (t @ s) = tokenize_bind False (cur @ t) s"
  by (induction t arbitrary: cur) (auto simp: plain_char_def is_space_def ord_def)

lemma tokenize_tok: "plain_tok t \<Longrightarrow> tokenize_bind False [] (t @ blank_ch # s) = t # tokenize_bind False [] s"
  using tokenize_plain [of t "[]"] by (simp add: plain_tok_def)

lemma name_char_plain_char: "name_char c \<Longrightarrow> plain_char c"
  using name_char_plain by (simp add: plain_char_def)

lemma dec_int_plain: "plain_tok (dec_int i)"
proof -
  have "list_all plain_char (dec_nat n)" for n
    using dec_nat_digits [of n]
    by (auto simp: list_all_iff plain_char_def is_digit_def is_space_def ord_def)
  moreover have "plain_char CHR ''-''" by (simp add: plain_char_def is_space_def ord_def)
  ultimately show ?thesis by (auto simp: plain_tok_def dec_int_def)
qed

lemma whitelist_plain: "t \<in> set record_type_whitelist \<Longrightarrow> plain_tok t"
proof -
  have "list_all plain_tok record_type_whitelist" by code_simp
  then show "t \<in> set record_type_whitelist \<Longrightarrow> plain_tok t" by (auto simp: list_all_iff)
qed

lemma class_plain: "plain_tok ''IN''"
  by (simp add: plain_tok_def plain_char_def is_space_def ord_def)

lemma relative_name_plain:
  assumes "validate_record_name name = None" "has_suffix name ''.''" "has_suffix origin ''.''"
  shows "plain_tok (relative_bind_name name origin)"
    "\<forall>c\<in>set (relative_bind_name name origin). upper_char c \<noteq> CHR ''$''"
proof -
  have "relative_bind_name name origin \<noteq> []"
  proof
    assume r: "relative_bind_name name origin = []"
    have "resolve_bind_name [] origin \<noteq> name"
    proof
      assume "resolve_bind_name [] origin = name"
      then have n: "name = CHR ''.'' # origin" by (simp add: resolve_bind_name_def has_suffix_def)
      obtain z where "origin = z @ ''.''" using assms(3) by (auto elim: has_suffixE)
      with n have "trim_suffix name ''.'' = CHR ''.'' # z"
        using trim_suffix_append [of "CHR ''.'' # z" "''.''"] by simp
      then have "[] \<in> set (split_on CHR ''.'' (trim_suffix name ''.''))" by (simp add: split_on_def)
      moreover have "name \<noteq> ''@''" using n by simp
      ultimately show False
        using valid_name(1) [OF assms(1)] dns_label_chars [of "[]"] by (auto simp: list_all_iff)
    qed
    then show False
      using resolve_relative [OF assms] r by simp
  qed
  moreover have "\<forall>c\<in>set (relative_bind_name name origin). name_char c"
  proof -
    have "set (relative_bind_name name origin) \<subseteq> insert CHR ''@'' (set name)"
      using assms(2) by (auto simp: relative_bind_name_def Let_def trim_suffix_def dest!: in_set_takeD)
    with valid_name_chars [OF assms(1)] show ?thesis by (auto simp: name_char_def)
  qed
  ultimately show "plain_tok (relative_bind_name name origin)"
    "\<forall>c\<in>set (relative_bind_name name origin). upper_char c \<noteq> CHR ''$''"
    using name_char_plain name_char_plain_char by (auto simp: plain_tok_def list_all_iff)
qed


text \<open>The lines of a file whose lines end with a line feed.\<close>

lemma split_on_unlines:
  "\<forall>l\<in>set ls. newline_ch \<notin> set l \<Longrightarrow>
     split_on newline_ch (concat (map (\<lambda>l. l @ [newline_ch]) ls)) = ls @ [[]]"
proof (induction ls)
  case (Cons l ls)
  have "split_on newline_ch (l @ newline_ch # concat (map (\<lambda>l. l @ [newline_ch]) ls))
      = l # split_on newline_ch (concat (map (\<lambda>l. l @ [newline_ch]) ls))"
    using Cons.prems unfolding split_on_def by (intro split_by_append_sep) auto
  with Cons show ?case by simp
qed (simp add: split_on_def)

lemma replace_crlf_id: "cr_ch \<notin> set s \<Longrightarrow> replace_crlf s = s"
  by (induction s rule: replace_crlf.induct) auto

definition one_line :: "string \<Rightarrow> bool" where
  "one_line l \<longleftrightarrow> l \<noteq> [] \<and> trimmed l \<and> clean_line False l = (l, 0)"

lemma join_one_line:
  assumes "one_line l"
  shows "join_lines 0 [] inh (l # ls) = \<lparr>bl_text = l, bl_inherits = False\<rparr> # join_lines 0 [] False ls"
proof -
  from assms have "trim_space l = l" "l \<noteq> []" "clean_line False l = (l, 0)"
    by (simp_all add: one_line_def trim_space_trimmed)
  moreover have "\<not> leading_blank l"
    using assms by (auto simp: leading_blank_def one_line_def trimmed_def is_space_def ord_def)
  ultimately show ?thesis by (simp add: flush_line_def Let_def)
qed

lemma join_one_lines:
  "\<forall>l\<in>set ls. one_line l \<Longrightarrow>
     join_lines 0 [] False (ls @ [[]]) = map (\<lambda>l. \<lparr>bl_text = l, bl_inherits = False\<rparr>) ls"
proof (induction ls)
  case Nil
  show ?case by (simp add: trim_space_def trim_left_def trim_right_def)
next
  case (Cons l ls)
  then show ?case by (simp add: join_one_line del: join_lines.simps)
qed

subsubsection \<open>A record line\<close>

definition record_line :: "string \<Rightarrow> int \<Rightarrow> rrset \<Rightarrow> record_info \<Rightarrow> string" where
  "record_line origin default_ttl rr r = butlast (bind_record_line origin default_ttl rr r)"

definition wire_text :: "rrset \<Rightarrow> record_info \<Rightarrow> string" where
  "wire_text rr r = format_record_content (rr_type rr) (ri_content r) (ri_priority r)"

definition bind_exportable_record :: "string \<Rightarrow> rrset \<Rightarrow> record_info \<Rightarrow> bool" where
  "bind_exportable_record origin rr r =
     (let f = wire_text rr r in
      bind_text f \<and> resolve_bind_rdata (rr_type rr) f origin = f
      \<and> (case split_priority (rr_type rr) f of (p, c, _) \<Rightarrow>
           validate_record_content (rr_type rr) c = None \<and> validate_record_priority (rr_type rr) p = None))"

definition bind_exportable :: "string \<Rightarrow> rrset \<Rightarrow> bool" where
  "bind_exportable origin rr \<longleftrightarrow>
     rr_type rr \<in> set record_type_whitelist
     \<and> validate_record_name (rr_name rr) = None \<and> has_suffix (rr_name rr) ''.''
     \<and> 0 < rr_ttl rr \<and> int64 (rr_ttl rr)
     \<and> list_all (\<lambda>r. ri_disabled r \<or> bind_exportable_record origin rr r) (rr_records rr)"

lemma clean_line_blank: "clean_line False (blank_ch # s) = (case clean_line False s of (u, d) \<Rightarrow> (blank_ch # u, d))"
  by simp

lemma clean_line_tok: "plain_tok t \<Longrightarrow> clean_line False (t @ s) = (case clean_line False s of (u, d) \<Rightarrow> (t @ u, d))"
  using clean_line_plain [of t s] by (simp add: plain_tok_def list_all_iff)

lemma clean_tok: "plain_tok t \<Longrightarrow> clean_line False s = (s, 0) \<Longrightarrow> clean_line False (t @ s) = (t @ s, 0)"
  by (simp add: clean_line_tok)

lemma clean_blank: "clean_line False s = (s, 0) \<Longrightarrow> clean_line False (blank_ch # s) = (blank_ch # s, 0)"
  by (simp add: clean_line_blank)

lemma clean_if:
  "plain_tok b \<Longrightarrow> clean_line False s = (s, 0)
    \<Longrightarrow> clean_line False ((if P then [] else blank_ch # b) @ s) = ((if P then [] else blank_ch # b) @ s, 0)"
  by (simp add: clean_tok clean_blank del: clean_line.simps)

lemma record_line_eq:
  "record_line origin d rr r = relative_bind_name (rr_name rr) origin
     @ (if rr_ttl rr = 0 \<or> rr_ttl rr = d then [] else blank_ch # dec_int (rr_ttl rr))
     @ blank_ch # ''IN'' @ blank_ch # rr_type rr @ blank_ch # wire_text rr r"
  by (simp add: record_line_def bind_record_line_def wire_text_def Let_def butlast_append)

lemma record_line_ok:
  assumes "bind_exportable origin rr" "has_suffix origin ''.''" "bind_exportable_record origin rr r"
  shows "one_line (record_line origin d rr r)" "newline_ch \<notin> set (record_line origin d rr r)"
    "cr_ch \<notin> set (record_line origin d rr r)" "upper_char (hd (record_line origin d rr r)) \<noteq> CHR ''$''"
proof -
  let ?n = "relative_bind_name (rr_name rr) origin"
  have n: "plain_tok ?n" "\<forall>c\<in>set ?n. upper_char c \<noteq> CHR ''$''"
    using assms(1,2) relative_name_plain by (auto simp: bind_exportable_def)
  have t: "plain_tok (rr_type rr)" using assms(1) whitelist_plain by (simp add: bind_exportable_def)
  have f: "bind_text (wire_text rr r)" using assms(3) by (simp add: bind_exportable_record_def Let_def)
  then have w: "wire_text rr r \<noteq> []" "trimmed (wire_text rr r)" "clean_line False (wire_text rr r) = (wire_text rr r, 0)"
    "newline_ch \<notin> set (wire_text rr r)" "cr_ch \<notin> set (wire_text rr r)"
    by (simp_all add: bind_text_def trim_space_trimmed)
  obtain x xs where x: "?n = x # xs" using n(1) by (cases ?n) (auto simp: plain_tok_def)
  with n have u: "\<not> is_space x" "upper_char x \<noteq> CHR ''$''" by (auto simp: plain_tok_def plain_char_def)
  have h: "hd (record_line origin d rr r) = x" "record_line origin d rr r \<noteq> []"
    using x by (simp_all add: record_line_eq)
  have l: "last (record_line origin d rr r) = last (wire_text rr r)"
    using w(1) by (simp add: record_line_eq)
  have c: "clean_line False (record_line origin d rr r) = (record_line origin d rr r, 0)"
    unfolding record_line_eq
    by (rule clean_tok [OF n(1) clean_if [OF dec_int_plain clean_blank [OF clean_tok [OF class_plain
      clean_blank [OF clean_tok [OF t clean_blank [OF w(3)]]]]]]])
  have "trimmed (record_line origin d rr r)"
    unfolding trimmed_def h(1) l using u(1) w(1,2) by (simp add: trimmed_def)
  with c h show "one_line (record_line origin d rr r)" "upper_char (hd (record_line origin d rr r)) \<noteq> CHR ''$''"
    using u(2) by (simp_all only: one_line_def simp_thms)
  have p: "plain_tok u \<Longrightarrow> newline_ch \<notin> set u \<and> cr_ch \<notin> set u" for u
    using plain_char_ends by (auto simp only: plain_tok_def list_all_iff)
  from p [OF n(1)] p [OF t] p [OF dec_int_plain] w(4,5)
  show "newline_ch \<notin> set (record_line origin d rr r)" "cr_ch \<notin> set (record_line origin d rr r)"
    by (auto simp: record_line_eq)
qed


lemma tokenize_class:
  "tokenize_bind False [] (CHR ''I'' # CHR ''N'' # blank_ch # s) = ''IN'' # tokenize_bind False [] s"
  using tokenize_tok [OF class_plain, of s] by simp

lemma tokenize_blank: "tokenize_bind False [] (blank_ch # s) = tokenize_bind False [] s"
  by simp

lemma positive_number_dec_int: "0 < i \<Longrightarrow> int64 i \<Longrightarrow> positive_number (dec_int i) = Some i"
  by (simp add: positive_number_def)

lemma class_not_number: "positive_number ''IN'' = None" "is_class ''IN''"
  by (simp_all add: positive_number_def is_class_def go_str)

lemma record_line_tokens:
  assumes "plain_tok (relative_bind_name (rr_name rr) origin)" "plain_tok (rr_type rr)"
  shows "tokenize_bind_line (record_line origin d rr r) =
    relative_bind_name (rr_name rr) origin #
    (if rr_ttl rr = 0 \<or> rr_ttl rr = d then [] else [dec_int (rr_ttl rr)])
    @ ''IN'' # rr_type rr # tokenize_bind_line (wire_text rr r)"
  using assms dec_int_plain [of "rr_ttl rr"]
  by (simp add: tokenize_bind_line_def record_line_eq tokenize_tok tokenize_class del: tokenize_bind.simps)

definition imported_bind_record :: "string \<Rightarrow> rrset \<Rightarrow> record_info \<Rightarrow> bind_record" where
  "imported_bind_record origin rr r =
     \<lparr>br_name = rr_name rr, br_ttl = rr_ttl rr, br_type = rr_type rr, br_data = wire_text rr r\<rparr>"

lemma record_line_parsed:
  assumes "bind_exportable origin rr" "has_suffix origin ''.''" "bind_exportable_record origin rr r" "0 < d"
  shows "bind_record_of origin d (record_line origin d rr r) = Inr (imported_bind_record origin rr r)"
proof -
  let ?n = "relative_bind_name (rr_name rr) origin" and ?f = "wire_text rr r"
  have n: "plain_tok ?n" "resolve_bind_name ?n origin = rr_name rr"
    using assms(1,2) relative_name_plain resolve_relative by (auto simp: bind_exportable_def)
  have t: "plain_tok (rr_type rr)" "to_upper (rr_type rr) = rr_type rr" "validate_record_type (rr_type rr) = None"
    using assms(1) whitelist_plain whitelist_type by (simp_all add: bind_exportable_def validate_record_type_upper)
  have v: "validate_record_name (rr_name rr) = None" "0 < rr_ttl rr" "int64 (rr_ttl rr)"
    using assms(1) by (simp_all add: bind_exportable_def)
  have f: "join_with '' '' (tokenize_bind_line ?f) = ?f" "resolve_bind_rdata (rr_type rr) ?f origin = ?f"
    "case split_priority (rr_type rr) ?f of (p, c, _) \<Rightarrow>
       validate_record_content (rr_type rr) c = None \<and> validate_record_priority (rr_type rr) p = None"
    using assms(3) by (auto simp: bind_exportable_record_def bind_text_def Let_def)
  have "parse_bind_line (record_line origin d rr r) origin d = Inr (imported_bind_record origin rr r)"
    using n t(2) v(2,3) f(1) assms(4)
    by (simp add: parse_bind_line_def record_line_tokens [OF n(1) t(1)] positive_number_dec_int
        class_not_number Let_def imported_bind_record_def)
  then show ?thesis
    using t(3) v(1) f(2,3)
    by (auto simp: bind_record_of_def imported_bind_record_def validate_parsed_record_def and_then_def Let_def
        split: prod.splits)
qed


subsubsection \<open>The directives and the whole file\<close>

lemma upper_prefix_hd:
  "l \<noteq> [] \<Longrightarrow> upper_char (hd l) \<noteq> c \<Longrightarrow> \<not> has_prefix (to_upper l) (c # p)"
  by (cases l) (auto simp: has_prefix_def to_upper_def)

lemma parse_record_line:
  assumes "bind_exportable origin rr" "has_suffix origin ''.''" "bind_exportable_record origin rr r" "0 < d"
  shows "\<exists>owner'. parse_bind_lines origin d owner (\<lparr>bl_text = record_line origin d rr r, bl_inherits = False\<rparr> # bls)
    = (case parse_bind_lines origin d owner' bls of (raw, sk) \<Rightarrow> (imported_bind_record origin rr r # raw, sk))"
proof -
  have "record_line origin d rr r \<noteq> []" using record_line_ok(1) [OF assms(1-3)] by (simp add: one_line_def)
  note upper_prefix_hd [OF this record_line_ok(4) [OF assms(1-3)]]
  then show ?thesis
    using record_line_parsed [OF assms]
    by (intro exI [of _ "next_owner owner \<lparr>bl_text = record_line origin d rr r, bl_inherits = False\<rparr>"])
      (simp add: effective_line_def split: prod.split)
qed

lemma parse_record_lines:
  assumes "has_suffix origin ''.''" "0 < d"
    "\<forall>(rr, r)\<in>set prs. bind_exportable origin rr \<and> bind_exportable_record origin rr r"
  shows "parse_bind_lines origin d owner
      (map (\<lambda>(rr, r). \<lparr>bl_text = record_line origin d rr r, bl_inherits = False\<rparr>) prs)
    = (map (\<lambda>(rr, r). imported_bind_record origin rr r) prs, [])"
  using assms(3)
proof (induction prs arbitrary: owner)
  case (Cons p prs)
  obtain rr r where p: "p = (rr, r)" by (cases p)
  with Cons.prems parse_record_line [OF _ assms(1) _ assms(2), of rr r owner
      "map (\<lambda>(rr, r). \<lparr>bl_text = record_line origin d rr r, bl_inherits = False\<rparr>) prs"]
  obtain owner' where "parse_bind_lines origin d owner
      (map (\<lambda>(rr, r). \<lparr>bl_text = record_line origin d rr r, bl_inherits = False\<rparr>) (p # prs))
    = (case parse_bind_lines origin d owner'
        (map (\<lambda>(rr, r). \<lparr>bl_text = record_line origin d rr r, bl_inherits = False\<rparr>) prs) of
        (raw, sk) \<Rightarrow> (imported_bind_record origin rr r # raw, sk))"
    by (auto simp del: parse_bind_lines.simps)
  with Cons p show ?case by simp
qed simp

lemma parse_directives:
  assumes "trim_space origin = origin" "has_suffix origin ''.''" "0 < d" "int64 d"
  shows "parse_bind_lines o0 d0 owner (\<lparr>bl_text = ''$ORIGIN '' @ origin, bl_inherits = False\<rparr>
      # \<lparr>bl_text = ''$TTL '' @ dec_int d, bl_inherits = False\<rparr> # bls)
    = parse_bind_lines origin d owner bls"
proof -
  have "has_prefix (to_upper (''$ORIGIN '' @ origin)) ''$ORIGIN ''"
    "\<not> has_prefix (to_upper (''$TTL '' @ dec_int d)) ''$ORIGIN ''"
    "has_prefix (to_upper (''$TTL '' @ dec_int d)) ''$TTL ''"
    by (simp_all add: to_upper_def has_prefix_def upper_char_def is_lower_def ord_def)
  then show ?thesis
    using assms by (simp add: absolute_origin_def positive_number_dec_int)
qed

definition bind_resubmitted :: "string \<Rightarrow> rrset \<Rightarrow> rrset" where
  "bind_resubmitted origin rr =
     \<lparr>rr_name = rr_name rr, rr_type = rr_type rr, rr_ttl = rr_ttl rr, rr_changetype = [],
      rr_records = map (\<lambda>r. bind_record_info (imported_bind_record origin rr r))
        (filter (\<lambda>r. \<not> ri_disabled r) (rr_records rr)), rr_comments = None\<rparr>"

lemma group_ttl_same: "rs \<noteq> [] \<Longrightarrow> \<forall>r\<in>set rs. br_ttl r = t \<Longrightarrow> group_ttl rs = t"
proof -
  have "\<forall>r\<in>set rs. br_ttl r = t \<Longrightarrow> foldl (\<lambda>ttl r. if br_ttl r \<noteq> ttl then br_ttl r else ttl) t rs = t" for rs
    by (induction rs) auto
  then show "rs \<noteq> [] \<Longrightarrow> \<forall>r\<in>set rs. br_ttl r = t \<Longrightarrow> group_ttl rs = t" by (simp add: group_ttl_def)
qed

lemma find_soa_ttl_bounds:
  "\<forall>rr\<in>set rrs. int64 (rr_ttl rr) \<Longrightarrow> 0 < find_soa_ttl rrs \<and> int64 (find_soa_ttl rrs)"
  by (induction rrs) (auto simp: int64_def)

lemma bind_regroup:
  assumes "distinct (map rr_key rrs)"
    "\<forall>rr\<in>set rrs. filter (\<lambda>r. \<not> ri_disabled r) (rr_records rr) \<noteq> []"
  shows "group_bind_records (concat (map (\<lambda>rr. map (imported_bind_record origin rr)
      (filter (\<lambda>r. \<not> ri_disabled r) (rr_records rr))) rrs)) = map (bind_resubmitted origin) rrs"
  unfolding group_bind_records_def
proof (rule regroup [where key = rr_key])
  show "\<forall>rr\<in>set rrs. map (imported_bind_record origin rr) (filter (\<lambda>r. \<not> ri_disabled r) (rr_records rr)) \<noteq> []
      \<and> (\<forall>x\<in>set (map (imported_bind_record origin rr) (filter (\<lambda>r. \<not> ri_disabled r) (rr_records rr))).
          bind_key x = rr_key rr)"
    using assms(2) by (auto simp: bind_key_def rr_key_def imported_bind_record_def)
  show "\<forall>rr\<in>set rrs. bind_group (map (imported_bind_record origin rr)
      (filter (\<lambda>r. \<not> ri_disabled r) (rr_records rr))) (rr_key rr) = bind_resubmitted origin rr"
    using assms(2) group_ttl_same
    by (auto simp: bind_group_def bind_resubmitted_def rr_key_def imported_bind_record_def)
qed (rule assms(1))


definition enabled_records :: "rrset \<Rightarrow> record_info list" where
  "enabled_records rr = filter (\<lambda>r. \<not> ri_disabled r) (rr_records rr)"

definition file_lines :: "string \<Rightarrow> int \<Rightarrow> (rrset \<times> record_info) list \<Rightarrow> string list" where
  "file_lines origin d prs =
     [''$ORIGIN '' @ origin, ''$TTL '' @ dec_int d, []] @ map (\<lambda>(rr, r). record_line origin d rr r) prs"

lemma record_line_snoc: "bind_record_line origin d rr r = record_line origin d rr r @ [newline_ch]"
  by (simp add: record_line_def bind_record_line_def Let_def butlast_append)

lemma concat_map_concat:
  "concat (map f (concat (map g xs))) = concat (map (\<lambda>x. concat (map f (g x))) xs)"
  by (induction xs) auto

lemma concat_filter_empty:
  "(\<And>x. f x = [] \<longleftrightarrow> \<not> P x) \<Longrightarrow> concat (map f (filter P xs)) = concat (map f xs)"
  by (induction xs) auto

lemma render_zone_file_lines:
  "render_zone_file z rrs =
     (let origin = absolute_origin (z_name z); sorted = sort_rrsets rrs; d = find_soa_ttl sorted in
      concat (map (\<lambda>l. l @ [newline_ch])
        (file_lines origin d (concat (map (\<lambda>rr. map (Pair rr) (enabled_records rr)) sorted)))))"
  by (simp add: render_zone_file_def file_lines_def Let_def record_line_snoc [abs_def] comp_def
      enabled_records_def concat_map_concat)

lemma directive_lines:
  assumes "validate_record_name origin = None" "has_suffix origin ''.''"
  shows "one_line (''$ORIGIN '' @ origin)" "one_line (''$TTL '' @ dec_int d)"
    "newline_ch \<notin> set origin" "cr_ch \<notin> set origin" "trim_space origin = origin"
proof -
  have o: "plain_tok origin"
    using valid_name_chars [OF assms(1)] name_char_plain_char by (auto simp: plain_tok_def list_all_iff)
  have p: "plain_tok ''$ORIGIN''" "plain_tok ''$TTL''"
    by (simp_all add: plain_tok_def plain_char_def is_space_def ord_def)
  have c: "clean_line False (t @ blank_ch # u) = (t @ blank_ch # u, 0)" if "plain_tok t" "plain_tok u" for t u
    using clean_tok [OF that(1) clean_blank [OF clean_tok [OF that(2), of "[]"]]] by simp
  have l: "one_line (t @ blank_ch # u)" if "plain_tok t" "plain_tok u" for t u
    using c [OF that] that by (cases t; cases u rule: rev_cases) (auto simp: one_line_def trimmed_def plain_tok_def plain_char_def)
  from l [OF p(1) o] l [OF p(2) dec_int_plain]
  show "one_line (''$ORIGIN '' @ origin)" "one_line (''$TTL '' @ dec_int d)" by simp_all
  show "newline_ch \<notin> set origin" "cr_ch \<notin> set origin"
    using o plain_char_ends by (auto simp only: plain_tok_def list_all_iff)
  have "field_tok origin" using o by (auto simp: plain_tok_def field_tok_def plain_char_def list_all_iff)
  then show "trim_space origin = origin" by (simp add: trim_space_trimmed trimmed_field_tok)
qed

lemma dec_int_one_line: "newline_ch \<notin> set (dec_int i)" "cr_ch \<notin> set (dec_int i)"
  using dec_int_plain [of i] plain_char_ends by (auto simp only: plain_tok_def list_all_iff)

lemma join_empty_line: "join_lines 0 [] inh ([] # ls) = join_lines 0 [] inh ls"
  by (simp add: trim_space_def trim_left_def trim_right_def)

lemma normalize_file:
  assumes "validate_record_name origin = None" "has_suffix origin ''.''"
    "\<forall>(rr, r)\<in>set prs. bind_exportable origin rr \<and> bind_exportable_record origin rr r"
  shows "normalize_bind_lines (concat (map (\<lambda>l. l @ [newline_ch]) (file_lines origin d prs)))
    = map (\<lambda>l. \<lparr>bl_text = l, bl_inherits = False\<rparr>)
        ((''$ORIGIN '' @ origin) # (''$TTL '' @ dec_int d) # map (\<lambda>(rr, r). record_line origin d rr r) prs)"
proof -
  note o = directive_lines [OF assms(1,2)]
  have r: "\<forall>l\<in>set (map (\<lambda>(rr, r). record_line origin d rr r) prs).
      one_line l \<and> newline_ch \<notin> set l \<and> cr_ch \<notin> set l"
    using assms(2,3) record_line_ok by fastforce
  have nl: "\<forall>l\<in>set (file_lines origin d prs). newline_ch \<notin> set l \<and> cr_ch \<notin> set l"
    using r o(3,4) dec_int_one_line by (auto simp: file_lines_def)
  then have "cr_ch \<notin> set (concat (map (\<lambda>l. l @ [newline_ch]) (file_lines origin d prs)))" by auto
  then have "normalize_bind_lines (concat (map (\<lambda>l. l @ [newline_ch]) (file_lines origin d prs)))
      = join_lines 0 [] False (file_lines origin d prs @ [[]])"
    using nl by (simp add: normalize_bind_lines_def replace_crlf_id split_on_unlines)
  also have "\<dots> = \<lparr>bl_text = ''$ORIGIN '' @ origin, bl_inherits = False\<rparr>
      # \<lparr>bl_text = ''$TTL '' @ dec_int d, bl_inherits = False\<rparr>
      # join_lines 0 [] False (map (\<lambda>(rr, r). record_line origin d rr r) prs @ [[]])"
    using o(1) o(2) [of d]
    by (simp only: file_lines_def append_Cons append_Nil join_one_line join_empty_line)
  also have "join_lines 0 [] False (map (\<lambda>(rr, r). record_line origin d rr r) prs @ [[]])
      = map (\<lambda>l. \<lparr>bl_text = l, bl_inherits = False\<rparr>) (map (\<lambda>(rr, r). record_line origin d rr r) prs)"
    using r by (intro join_one_lines) blast
  finally show ?thesis by simp
qed




subsection \<open>A sample zone\<close>

definition sample_zone :: zone where
  "sample_zone = \<lparr>z_id = ''a.b.'', z_name = ''a.b.'', z_kind = ''Native'', z_serial = 1\<rparr>"

definition sample_rrset :: "string \<Rightarrow> string \<Rightarrow> record_info \<Rightarrow> rrset" where
  "sample_rrset name t r =
     \<lparr>rr_name = name, rr_type = t, rr_ttl = 60, rr_changetype = [], rr_records = [r],
      rr_comments = Some \<lparr>cp_items = [\<lparr>cm_content = ''=1+1'', cm_account = [], cm_modified_at = 0\<rparr>],
        cp_clear = False\<rparr>\<rparr>"

definition sample_rrsets :: "rrset list" where
  "sample_rrsets =
     [sample_rrset ''*.a.b.'' ''A'' (bare_record ''192.0.2.1'' False 0),
      sample_rrset ''a.b.'' ''MX'' (bare_record ''mx.a.b.'' False 10),
      sample_rrset ''a.b.'' ''NS'' (bare_record ''ns.c.d.'' False 0),
      sample_rrset ''t.a.b.'' ''TXT'' (bare_record (quote_content ''TXT'' ''(x; y)'') False 0)]"



subsection \<open>What does not read back\<close>

definition txt_rrset :: "string \<Rightarrow> rrset" where
  "txt_rrset c = sample_rrset ''t.a.b.'' ''TXT'' (bare_record c False 0)"

text \<open>The CSV import trims the cell before it undoes the escaping, and refuses an empty one: a TXT
  text with a leading blank comes back without it, and a zone with an empty TXT string cannot be
  imported from its own export, although both are valid contents.\<close>

theorem csv_export_is_lossy:
  "validate_record_content ''TXT'' (quote_content ''TXT'' '' x'') = None
   \<and> (case parse_csv_zone (render_zone_csv sample_zone [txt_rrset (quote_content ''TXT'' '' x'')]) ''a.b.'' of
        Some ([rr], []) \<Rightarrow> map ri_content (rr_records rr) = [quote_content ''TXT'' ''x''] | _ \<Rightarrow> False)
   \<and> validate_record_content ''TXT'' [quote_ch, quote_ch] = None
   \<and> map_option (\<lambda>(rrs, sk). (rrs, map sk_reason sk))
       (parse_csv_zone (render_zone_csv sample_zone [txt_rrset [quote_ch, quote_ch]]) ''a.b.'')
       = Some ([], [CellMissing])"
  by code_simp

text \<open>The BIND import toggles on every quote, also an escaped one.  A valid TXT content with escaped
  quotes can be read back as another text without a complaint (its parenthesis is gone and its
  blanks are joined), and a semicolon after an escaped quote makes the whole export
  unreadable.\<close>

theorem bind_export_is_lossy:
  "(let c = quote_content ''TXT'' (CHR ''a'' # quote_ch # ''y  (b'' @ quote_ch # ''c'');
        c' = quote_content ''TXT'' (CHR ''a'' # quote_ch # ''y b'' @ quote_ch # ''c'') in
      validate_record_content ''TXT'' c = None
      \<and> (case parse_bind_zone (render_zone_file sample_zone [txt_rrset c]) ''a.b.'' of
           ([rr], []) \<Rightarrow> map ri_content (rr_records rr) = [c'] | _ \<Rightarrow> False))
   \<and> (let c = quote_content ''TXT'' (''say '' @ quote_ch # ''x;'' @ [quote_ch]) in
      validate_record_content ''TXT'' c = None
      \<and> (case parse_bind_zone (render_zone_file sample_zone [txt_rrset c]) ''a.b.'' of
           (rrs, sk) \<Rightarrow> rrs = [] \<and> map sk_reason sk = [RecordInvalid TxtUnclosed]))"
  by code_simp

text \<open>How the importer reads directives and owners: an \<^verbatim>\<open>$ORIGIN\<close> without a trailing dot is
  taken for absolute, a record that inherits its owner takes the owner's spelling under the
  new origin and so another name, and an unreadable \<^verbatim>\<open>$TTL\<close> and a record without any owner are
  passed over in silence.\<close>

theorem bind_directives_read:
  "map (\<lambda>rr. (rr_name rr, rr_ttl rr)) (fst (parse_bind_zone
      (''$TTL 1h'' @ newline_ch # '' IN A 192.0.2.1'' @ newline_ch # ''www IN A 192.0.2.2'' @ newline_ch
       # ''$ORIGIN sub'' @ newline_ch # '' IN A 192.0.2.3'' @ newline_ch # []) ''a.b.''))
     = [(''www.a.b.'', 3600), (''www.sub.'', 3600)]
   \<and> snd (parse_bind_zone
      (''$TTL 1h'' @ newline_ch # '' IN A 192.0.2.1'' @ newline_ch # ''www IN A 192.0.2.2'' @ newline_ch
       # ''$ORIGIN sub'' @ newline_ch # '' IN A 192.0.2.3'' @ newline_ch # []) ''a.b.'') = []"
  by code_simp

end
