(* ===== verification/Cache.thy ===== *)
theory Cache
  imports Models "HOL-Library.AList"
begin

section \<open>The cache with expiry\<close>

text \<open>
  Models \<^verbatim>\<open>internal/cache/cache.go\<close>.  The Go map is an association list, so that
  \<^verbatim>\<open>Len\<close> and the sweep compute; the clock is an argument of the operations that read it.
  \<^verbatim>\<open>Get\<close> takes the lock twice: \<open>cache_peek\<close> is the read section and
  \<open>cache_evict\<close> the write section, with its second look at the entry.  The
  ticker of \<^verbatim>\<open>runSweep\<close> decides only when \<open>cache_sweep\<close> runs.
\<close>

record 'v cache_entry =
  ce_value :: 'v
  ce_expiry :: time

record 'v cache =
  c_items :: "(string \<times> 'v cache_entry) list"
  c_ttl :: int

definition cache_new :: "int \<Rightarrow> 'v cache" where
  "cache_new ttl = \<lparr>c_items = [], c_ttl = ttl\<rparr>"

definition expired :: "time \<Rightarrow> 'v cache_entry \<Rightarrow> bool" where
  "expired now e \<longleftrightarrow> now > ce_expiry e"

definition cache_peek :: "time \<Rightarrow> string \<Rightarrow> 'v cache \<Rightarrow> 'v option" where
  "cache_peek now key c =
     (case map_of (c_items c) key of
        None \<Rightarrow> None
      | Some e \<Rightarrow> if \<not> expired now e then Some (ce_value e) else None)"

definition cache_delete :: "string \<Rightarrow> 'v cache \<Rightarrow> 'v cache" where
  "cache_delete key c = c\<lparr>c_items := AList.delete key (c_items c)\<rparr>"

definition cache_evict :: "time \<Rightarrow> string \<Rightarrow> 'v cache \<Rightarrow> 'v cache" where
  "cache_evict now key c =
     (case map_of (c_items c) key of
        None \<Rightarrow> c
      | Some e \<Rightarrow> if expired now e then cache_delete key c else c)"

definition cache_get :: "time \<Rightarrow> string \<Rightarrow> 'v cache \<Rightarrow> 'v option \<times> 'v cache" where
  "cache_get now key c =
     (case map_of (c_items c) key of
        None \<Rightarrow> (None, c)
      | Some e \<Rightarrow>
          if \<not> expired now e then (Some (ce_value e), c) else (None, cache_evict now key c))"

definition cache_set :: "time \<Rightarrow> string \<Rightarrow> 'v \<Rightarrow> 'v cache \<Rightarrow> 'v cache" where
  "cache_set now key v c =
     c\<lparr>c_items := AList.update key \<lparr>ce_value = v, ce_expiry = now + c_ttl c\<rparr> (c_items c)\<rparr>"

definition cache_clear :: "'v cache \<Rightarrow> 'v cache" where
  "cache_clear c = c\<lparr>c_items := []\<rparr>"

definition cache_len :: "time \<Rightarrow> 'v cache \<Rightarrow> nat" where
  "cache_len now c = length (filter (\<lambda>(k, e). \<not> expired now e) (c_items c))"

definition cache_sweep :: "time \<Rightarrow> 'v cache \<Rightarrow> 'v cache" where
  "cache_sweep now c = c\<lparr>c_items := filter (\<lambda>(k, e). \<not> expired now e) (c_items c)\<rparr>"

definition sweep_interval :: "int \<Rightarrow> int" where
  "sweep_interval ttl = (if ttl < 60 * 10 ^ 9 then 60 * 10 ^ 9 else ttl)"

text \<open>The map has one entry per key.\<close>

definition cache_wf :: "'v cache \<Rightarrow> bool" where
  "cache_wf c \<longleftrightarrow> distinct (map fst (c_items c))"

subsection \<open>What a reader sees\<close>

text \<open>
  The contract of the cache is over \<open>view now c\<close>, the map a reader at time
  \<open>now\<close> sees.  The locale states it for any store with these operations; a client that
  tracks a property of the stored values needs nothing else.
\<close>

locale ttl_store =
  fixes view :: "time \<Rightarrow> 'c \<Rightarrow> string \<rightharpoonup> 'v"
    and inv :: "'c \<Rightarrow> bool"
    and put :: "time \<Rightarrow> string \<Rightarrow> 'v \<Rightarrow> 'c \<Rightarrow> 'c"
    and drop_key :: "string \<Rightarrow> 'c \<Rightarrow> 'c"
    and evict :: "time \<Rightarrow> string \<Rightarrow> 'c \<Rightarrow> 'c"
    and sweep :: "time \<Rightarrow> 'c \<Rightarrow> 'c"
    and wipe :: "'c \<Rightarrow> 'c"
  assumes inv_put: "inv c \<Longrightarrow> inv (put t k v c)"
    and inv_drop: "inv c \<Longrightarrow> inv (drop_key k c)"
    and inv_evict: "inv c \<Longrightarrow> inv (evict t k c)"
    and inv_sweep: "inv c \<Longrightarrow> inv (sweep t c)"
    and inv_wipe: "inv (wipe c)"
    and put_other: "inv c \<Longrightarrow> k' \<noteq> k \<Longrightarrow> view t' (put t k v c) k' = view t' c k'"
    and put_same: "inv c \<Longrightarrow> view t' (put t k v c) k = Some w \<Longrightarrow> w = v"
    and drop_view: "inv c \<Longrightarrow> view t (drop_key k c) = (view t c)(k := None)"
    and evict_view: "inv c \<Longrightarrow> view t' (evict t k c) \<subseteq>\<^sub>m view t' c"
    and sweep_view: "inv c \<Longrightarrow> view t' (sweep t c) \<subseteq>\<^sub>m view t' c"
    and wipe_view: "view t (wipe c) = Map.empty"
begin

definition holds_only :: "(string \<Rightarrow> 'v \<Rightarrow> bool) \<Rightarrow> 'c \<Rightarrow> bool" where
  "holds_only Q c \<longleftrightarrow> inv c \<and> (\<forall>t k v. view t c k = Some v \<longrightarrow> Q k v)"

lemma holds_only_put: "holds_only Q c \<Longrightarrow> Q k v \<Longrightarrow> holds_only Q (put t k v c)"
  unfolding holds_only_def by (metis inv_put put_other put_same)

lemma holds_only_drop: "holds_only Q c \<Longrightarrow> holds_only Q (drop_key k c)"
  unfolding holds_only_def by (auto simp: inv_drop drop_view split: if_splits)

lemma holds_only_evict: "holds_only Q c \<Longrightarrow> holds_only Q (evict t k c)"
  unfolding holds_only_def using evict_view inv_evict by (metis domI map_le_def)

lemma holds_only_sweep: "holds_only Q c \<Longrightarrow> holds_only Q (sweep t c)"
  unfolding holds_only_def using sweep_view inv_sweep by (metis domI map_le_def)

lemma holds_only_wipe: "holds_only Q (wipe c)"
  unfolding holds_only_def by (simp add: wipe_view inv_wipe)

lemma holds_only_mono: "holds_only Q c \<Longrightarrow> (\<And>k v. Q k v \<Longrightarrow> R k v) \<Longrightarrow> holds_only R c"
  unfolding holds_only_def by blast

lemma holds_onlyD: "holds_only Q c \<Longrightarrow> view t c k = Some v \<Longrightarrow> Q k v"
  unfolding holds_only_def by blast

end

subsection \<open>The model meets the contract\<close>

abbreviation cache_view :: "time \<Rightarrow> 'v cache \<Rightarrow> string \<rightharpoonup> 'v" where
  "cache_view now c \<equiv> \<lambda>key. cache_peek now key c"

lemma wf_set: "cache_wf c \<Longrightarrow> cache_wf (cache_set t k v c)"
  by (simp add: cache_wf_def cache_set_def distinct_update)

lemma wf_delete: "cache_wf c \<Longrightarrow> cache_wf (cache_delete k c)"
  by (simp add: cache_wf_def cache_delete_def distinct_delete)

lemma wf_sweep: "cache_wf c \<Longrightarrow> cache_wf (cache_sweep t c)"
  by (simp add: cache_wf_def cache_sweep_def distinct_map_filter)

lemma wf_clear: "cache_wf (cache_clear c)"
  by (simp add: cache_wf_def cache_clear_def)

lemma wf_new: "cache_wf (cache_new ttl)"
  by (simp add: cache_wf_def cache_new_def)

lemma wf_evict: "cache_wf c \<Longrightarrow> cache_wf (cache_evict t k c)"
  by (auto simp: cache_evict_def wf_delete split: option.splits)

lemma peek_set:
  "cache_peek t' k' (cache_set t k v c) =
     (if k' = k then (if t' \<le> t + c_ttl c then Some v else None) else cache_peek t' k' c)"
  by (auto simp: cache_peek_def cache_set_def update_conv expired_def)

lemma peek_delete: "cache_peek t k' (cache_delete k c) = (if k' = k then None else cache_peek t k' c)"
  by (auto simp: cache_peek_def cache_delete_def delete_conv)

lemma peek_evict: "cache_peek t' k' (cache_evict t k c) =
  (if k' = k \<and> (\<exists>e. map_of (c_items c) k = Some e \<and> expired t e) then None else cache_peek t' k' c)"
  by (auto simp: cache_evict_def peek_delete split: option.splits)

lemma map_of_filter_expired:
  "distinct (map fst xs) \<Longrightarrow> map_of (filter (\<lambda>(k, e). \<not> expired t e) xs) k =
     (case map_of xs k of None \<Rightarrow> None | Some e \<Rightarrow> if expired t e then None else Some e)"
proof (induction xs)
  case (Cons x xs)
  then show ?case
    by (cases x) (auto split: option.splits simp: map_of_eq_None_iff image_iff dest: map_of_SomeD)
qed simp

lemma peek_sweep:
  "cache_wf c \<Longrightarrow> cache_peek t' k (cache_sweep t c) =
     (if \<exists>e. map_of (c_items c) k = Some e \<and> expired t e then None else cache_peek t' k c)"
  by (cases "map_of (c_items c) k")
    (simp_all add: cache_peek_def cache_sweep_def map_of_filter_expired cache_wf_def)

interpretation ttl: ttl_store cache_view cache_wf cache_set cache_delete cache_evict cache_sweep cache_clear
  by unfold_locales
    (auto simp: wf_set wf_delete wf_evict wf_sweep wf_clear peek_set peek_delete peek_evict
      peek_sweep map_le_def fun_eq_iff dom_def split: if_splits,
     simp_all add: cache_peek_def cache_clear_def)

lemma expired_mono: "expired t e \<Longrightarrow> t \<le> t' \<Longrightarrow> expired t' e"
  by (simp add: expired_def)

lemma peek_expired: "map_of (c_items c) k = Some e \<Longrightarrow> expired t e \<Longrightarrow> cache_peek t k c = None"
  by (simp add: cache_peek_def)

lemma dom_cache_view:
  assumes "cache_wf c"
  shows "dom (cache_view t c) = fst ` set (filter (\<lambda>(k, e). \<not> expired t e) (c_items c))"
proof -
  have "cache_peek t k c = map_option ce_value
      (map_of (filter (\<lambda>(k, e). \<not> expired t e) (c_items c)) k)" for k
    using assms by (cases "map_of (c_items c) k")
      (simp_all add: cache_peek_def map_of_filter_expired cache_wf_def)
  then have "dom (cache_view t c) = dom (map_of (filter (\<lambda>(k, e). \<not> expired t e) (c_items c)))"
    by (auto simp: dom_def)
  then show ?thesis by (simp add: dom_map_of_conv_image_fst)
qed

lemma cache_len_card: "cache_wf c \<Longrightarrow> cache_len t c = card (dom (cache_view t c))"
proof -
  assume wf: "cache_wf c"
  let ?xs = "filter (\<lambda>(k, e). \<not> expired t e) (c_items c)"
  have "distinct (map fst ?xs)" using wf by (simp add: cache_wf_def distinct_map_filter)
  from distinct_card [OF this] show ?thesis
    by (simp add: dom_cache_view [OF wf] cache_len_def)
qed

lemma holds_only_new: "ttl.holds_only Q (cache_new ttl)"
  by (simp add: ttl.holds_only_def wf_new) (simp add: cache_peek_def cache_new_def)

lemma holds_only_get: "ttl.holds_only Q c \<Longrightarrow> ttl.holds_only Q (snd (cache_get t k c))"
  by (auto simp: cache_get_def ttl.holds_only_evict split: option.split)

lemma cache_get_peek: "fst (cache_get t k c) = cache_peek t k c"
  by (simp add: cache_get_def cache_peek_def split: option.split)

text \<open>C31: A read returns what a reader may see and nothing else: the value last set for the key
  while it has not expired, never an expired one.  The eviction on the read path and the
  background sweep, run at the present time, change no reader's view from then on, and the
  length counts the keys a reader sees.\<close>

theorem cache_reads:
  assumes "cache_wf c" and "t \<le> t'"
  shows "fst (cache_get t k c) = cache_peek t k c
    \<and> cache_peek t' k' (snd (cache_get t k c)) = cache_peek t' k' c
    \<and> cache_peek t' k' (cache_sweep t c) = cache_peek t' k' c
    \<and> cache_peek t' k' (cache_set t k v c) =
        (if k' = k then (if t' \<le> t + c_ttl c then Some v else None) else cache_peek t' k' c)
    \<and> cache_len t c = card (dom (cache_view t c))"
proof -
  have e: "cache_peek t' j c = None" if "map_of (c_items c) j = Some x" "expired t x" for j x
    using that assms(2) by (simp add: cache_peek_def expired_mono)
  note cache_get_peek [of t k c]
  moreover have "cache_peek t' k' (snd (cache_get t k c)) = cache_peek t' k' c"
    using e by (auto simp: cache_get_def peek_evict split: option.split)
  moreover have "cache_peek t' k' (cache_sweep t c) = cache_peek t' k' c"
    using e by (auto simp: peek_sweep [OF assms(1)])
  ultimately show ?thesis using assms(1) by (simp add: peek_set cache_len_card)
qed

theorem cache_reads_witness:
  "cache_peek 8 ''zones'' (cache_set 3 ''zones'' (7::nat) (cache_new 5)) = Some 7
   \<and> cache_peek 9 ''zones'' (cache_set 3 ''zones'' (7::nat) (cache_new 5)) = None"
  using cache_reads [OF wf_new, of 3 8 "''zones''" 5 "''zones''" "7::nat"]
    cache_reads [OF wf_new, of 3 9 "''zones''" 5 "''zones''" "7::nat"]
  by (simp add: cache_new_def)

end
