(* ===== verification/CachedClient.thy ===== *)
theory CachedClient
  imports Cache
begin

section \<open>The caching PowerDNS client\<close>

text \<open>
  Models \<^verbatim>\<open>internal/pdns/cached.go\<close> and \<^verbatim>\<open>singleflight.go\<close> as threads that take
  atomic steps: each lock section, each atomic load and each call to PowerDNS is one step.
  PowerDNS itself is a version number, raised by every mutation it applies, and the parameter
  \<open>body\<close>, its answer to a cached question at a version.  A reply carries the version it
  was taken at, and \<open>cc_floor\<close> remembers, for each generation and invalidation class, the
  newest mutation whose invalidation had completed; both are there for the statements only.
  The generation counter is a natural number (the code has 64 bits).
\<close>

subsection \<open>Keys, mutations and flights\<close>

datatype cache_key = KZones | KZonesInfo | KServer | KStats | KTSIG

definition key_string :: "cache_key \<Rightarrow> string" where
  "key_string k =
     (case k of KZones \<Rightarrow> ''zones'' | KZonesInfo \<Rightarrow> ''zones-info'' | KServer \<Rightarrow> ''server''
      | KStats \<Rightarrow> ''stats'' | KTSIG \<Rightarrow> ''tsigkeys'')"

text \<open>Time to live per cache, in nanoseconds.\<close>

definition key_ttl :: "cache_key \<Rightarrow> int" where
  "key_ttl k =
     (case k of KZones \<Rightarrow> 60 | KZonesInfo \<Rightarrow> 60 | KServer \<Rightarrow> 300 | KStats \<Rightarrow> 30
      | KTSIG \<Rightarrow> 300) * 10 ^ 9"

definition sf_key :: "cache_key \<Rightarrow> nat \<Rightarrow> string" where
  "sf_key k gen = key_string k @ '':'' @ dec_nat gen"

datatype inv_class = ZoneClass | TSIGClass

text \<open>The invalidation that clears a cache after a mutation, if any does.\<close>

definition key_class :: "cache_key \<Rightarrow> inv_class option" where
  "key_class k =
     (case k of KZones \<Rightarrow> Some ZoneClass | KZonesInfo \<Rightarrow> Some ZoneClass | KServer \<Rightarrow> None
      | KStats \<Rightarrow> Some ZoneClass | KTSIG \<Rightarrow> Some TSIGClass)"

text \<open>The mutating methods; \<open>MPatchRecords\<close> carries the number of record sets.\<close>

datatype mutation =
    MCreateZone | MDeleteZone | MCreateRecords | MUpdateRecord | MDeleteRecord
  | MPatchRecords nat | MRectifyZone | MNotifySlaves | MSetMetadata | MDeleteMetadata
  | MCreateTSIGKey | MUpdateTSIGKey | MDeleteTSIGKey
  | MCreateCryptokey | MToggleCryptokey | MDeleteCryptokey

definition sends_nothing :: "mutation \<Rightarrow> bool" where
  "sends_nothing m \<longleftrightarrow> m = MPatchRecords 0"

definition mutation_class :: "mutation \<Rightarrow> inv_class option" where
  "mutation_class m =
     (case m of MNotifySlaves \<Rightarrow> None
      | MCreateTSIGKey \<Rightarrow> Some TSIGClass | MUpdateTSIGKey \<Rightarrow> Some TSIGClass
      | MDeleteTSIGKey \<Rightarrow> Some TSIGClass
      | _ \<Rightarrow> Some ZoneClass)"

subsection \<open>State\<close>

record 'v reply =
  rp_body :: 'v
  rp_seen :: nat

datatype 'v outcome = Answer "'v reply" | Failure

record 'v flight =
  fl_key :: cache_key
  fl_gen :: nat
  fl_result :: "'v outcome option"

text \<open>Where a thread is in \<^verbatim>\<open>readThrough\<close> and \<^verbatim>\<open>Do\<close>, or in a mutation.  The first number
  of a reader is the newest completed mutation when it began.\<close>

datatype 'v thread =
    Idle
  | Started cache_key nat
  | Missed cache_key nat
  | Loaded cache_key nat nat
  | Waiting cache_key nat nat nat
  | Leading cache_key nat nat nat
  | Fetched cache_key nat nat nat "'v outcome"
  | Stored cache_key nat nat nat "'v outcome"
  | Closed cache_key nat nat nat "'v outcome"
  | Replied cache_key nat "'v outcome"
  | Mutating mutation
  | Applied mutation nat
  | Mutated mutation bool

record 'v cc =
  cc_caches :: "cache_key \<Rightarrow> 'v reply cache"
  cc_gen :: nat
  cc_inflight :: "string \<rightharpoonup> nat"
  cc_calls :: "'v flight list"
  cc_threads :: "nat \<Rightarrow> 'v thread"
  cc_ver :: nat
  cc_now :: time
  cc_floor :: "nat \<Rightarrow> inv_class \<Rightarrow> nat"

definition cc_init :: "'v cc" where
  "cc_init = \<lparr>cc_caches = (\<lambda>k. cache_new (key_ttl k)), cc_gen = 0, cc_inflight = Map.empty,
     cc_calls = [], cc_threads = (\<lambda>_. Idle), cc_ver = 0, cc_now = 0, cc_floor = (\<lambda>_ _. 0)\<rparr>"

definition floor_at :: "'v cc \<Rightarrow> nat \<Rightarrow> cache_key \<Rightarrow> nat" where
  "floor_at s g k = (case key_class k of None \<Rightarrow> 0 | Some cl \<Rightarrow> cc_floor s g cl)"

definition set_thread :: "nat \<Rightarrow> 'v thread \<Rightarrow> 'v cc \<Rightarrow> 'v cc" where
  "set_thread t p s = s\<lparr>cc_threads := (cc_threads s)(t := p)\<rparr>"

subsection \<open>Lock sections\<close>

definition store_if_unchanged :: "cache_key \<Rightarrow> nat \<Rightarrow> 'v reply \<Rightarrow> 'v cc \<Rightarrow> 'v cc" where
  "store_if_unchanged k gen v s =
     (if cc_gen s = gen
      then s\<lparr>cc_caches := (cc_caches s)(k := cache_set (cc_now s) (key_string k) v (cc_caches s k))\<rparr>
      else s)"

text \<open>The common body of the three invalidations: the bump and the clears under one lock.
  \<open>upd\<close> gives the new floors.\<close>

definition invalidate ::
  "cache_key list \<Rightarrow> ((inv_class \<Rightarrow> nat) \<Rightarrow> inv_class \<Rightarrow> nat) \<Rightarrow> 'v cc \<Rightarrow> 'v cc" where
  "invalidate ks upd s =
     s\<lparr>cc_gen := Suc (cc_gen s),
       cc_caches := (\<lambda>k. if k \<in> set ks then cache_clear (cc_caches s k) else cc_caches s k),
       cc_floor := (cc_floor s)(Suc (cc_gen s) := upd (cc_floor s (cc_gen s)))\<rparr>"

definition raise_floor :: "inv_class \<Rightarrow> nat \<Rightarrow> (inv_class \<Rightarrow> nat) \<Rightarrow> inv_class \<Rightarrow> nat" where
  "raise_floor cl v f = f(cl := max (f cl) v)"

definition invalidate_zones :: "nat \<Rightarrow> 'v cc \<Rightarrow> 'v cc" where
  "invalidate_zones v = invalidate [KZones, KZonesInfo, KStats] (raise_floor ZoneClass v)"

definition invalidate_tsig :: "nat \<Rightarrow> 'v cc \<Rightarrow> 'v cc" where
  "invalidate_tsig v = invalidate [KTSIG] (raise_floor TSIGClass v)"

definition invalidate_zone_cache :: "'v cc \<Rightarrow> 'v cc" where
  "invalidate_zone_cache = invalidate [KZones, KZonesInfo] (\<lambda>f. f)"

subsection \<open>Steps\<close>

datatype action =
    Tick nat | Sweep cache_key | ClearZones
  | StartRead nat cache_key | DirectRead nat cache_key
  | Lookup nat | LoadGen nat | Join nat | Fetch nat bool | Store nat | Close nat
  | Deregister nat | Wake nat
  | StartMutation nat mutation | Apply nat bool bool | Invalidate nat

text \<open>The steps of \<^verbatim>\<open>readThrough\<close>: cache lookup, load of the generation, entry to the flight,
  the leader's fetch (it may fail or panic), its store, and the three steps of \<^verbatim>\<open>Do\<close> after
  that; a follower waits until its call has a result.\<close>

definition read_step ::
  "(cache_key \<Rightarrow> nat \<Rightarrow> 'v) \<Rightarrow> action \<Rightarrow> 'v cc \<Rightarrow> 'v cc option" where
  "read_step body a s =
     (case a of
        Lookup t \<Rightarrow>
          (case cc_threads s t of
             Started k f \<Rightarrow>
               (case cache_get (cc_now s) (key_string k) (cc_caches s k) of
                  (r, c) \<Rightarrow>
                    Some (set_thread t
                      (case r of Some v \<Rightarrow> Replied k f (Answer v) | None \<Rightarrow> Missed k f)
                      (s\<lparr>cc_caches := (cc_caches s)(k := c)\<rparr>)))
           | _ \<Rightarrow> None)
      | LoadGen t \<Rightarrow>
          (case cc_threads s t of
             Missed k f \<Rightarrow> Some (set_thread t (Loaded k f (cc_gen s)) s)
           | _ \<Rightarrow> None)
      | Join t \<Rightarrow>
          (case cc_threads s t of
             Loaded k f g \<Rightarrow>
               (case cc_inflight s (sf_key k g) of
                  Some c \<Rightarrow> Some (set_thread t (Waiting k f g c) s)
                | None \<Rightarrow>
                    let c = length (cc_calls s) in
                    Some (set_thread t (Leading k f g c)
                      (s\<lparr>cc_calls := cc_calls s @ [\<lparr>fl_key = k, fl_gen = g, fl_result = None\<rparr>],
                         cc_inflight := (cc_inflight s)(sf_key k g \<mapsto> c)\<rparr>)))
           | _ \<Rightarrow> None)
      | Fetch t ok \<Rightarrow>
          (case cc_threads s t of
             Leading k f g c \<Rightarrow>
               Some (set_thread t (Fetched k f g c
                 (if ok then Answer \<lparr>rp_body = body k (cc_ver s), rp_seen = cc_ver s\<rparr>
                  else Failure)) s)
           | _ \<Rightarrow> None)
      | Store t \<Rightarrow>
          (case cc_threads s t of
             Fetched k f g c r \<Rightarrow>
               Some (set_thread t (Stored k f g c r)
                 (case r of Answer v \<Rightarrow> store_if_unchanged k g v s | Failure \<Rightarrow> s))
           | _ \<Rightarrow> None)
      | Close t \<Rightarrow>
          (case cc_threads s t of
             Stored k f g c r \<Rightarrow>
               Some (set_thread t (Closed k f g c r)
                 (s\<lparr>cc_calls := (cc_calls s)[c := (cc_calls s ! c)\<lparr>fl_result := Some r\<rparr>]\<rparr>))
           | _ \<Rightarrow> None)
      | Deregister t \<Rightarrow>
          (case cc_threads s t of
             Closed k f g c r \<Rightarrow>
               Some (set_thread t (Replied k f r)
                 (s\<lparr>cc_inflight := (cc_inflight s)(sf_key k g := None)\<rparr>))
           | _ \<Rightarrow> None)
      | Wake t \<Rightarrow>
          (case cc_threads s t of
             Waiting k f g c \<Rightarrow>
               (case fl_result (cc_calls s ! c) of
                  Some r \<Rightarrow> Some (set_thread t (Replied k f r) s)
                | None \<Rightarrow> None)
           | _ \<Rightarrow> None)
      | _ \<Rightarrow> None)"

text \<open>A mutation calls PowerDNS, which may apply it or not and may answer an error either way,
  and invalidates after a success only.\<close>

definition mutation_step :: "action \<Rightarrow> 'v cc \<Rightarrow> 'v cc option" where
  "mutation_step a s =
     (case a of
        Apply t applied ok \<Rightarrow>
          (case cc_threads s t of
             Mutating m \<Rightarrow>
               if sends_nothing m then Some (set_thread t (Mutated m True) s)
               else if ok \<and> \<not> applied then None
               else
                 let s' = (if applied then s\<lparr>cc_ver := Suc (cc_ver s)\<rparr> else s) in
                 Some (set_thread t (if ok then Applied m (cc_ver s') else Mutated m False) s')
           | _ \<Rightarrow> None)
      | Invalidate t \<Rightarrow>
          (case cc_threads s t of
             Applied m v \<Rightarrow>
               Some (set_thread t (Mutated m True)
                 (case mutation_class m of
                    None \<Rightarrow> s
                  | Some ZoneClass \<Rightarrow> invalidate_zones v s
                  | Some TSIGClass \<Rightarrow> invalidate_tsig v s))
           | _ \<Rightarrow> None)
      | _ \<Rightarrow> None)"

definition cc_step ::
  "(cache_key \<Rightarrow> nat \<Rightarrow> 'v) \<Rightarrow> action \<Rightarrow> 'v cc \<Rightarrow> 'v cc option" where
  "cc_step body a s =
     (case a of
        Tick d \<Rightarrow> Some (s\<lparr>cc_now := cc_now s + int d\<rparr>)
      | Sweep k \<Rightarrow> Some (s\<lparr>cc_caches := (cc_caches s)(k := cache_sweep (cc_now s) (cc_caches s k))\<rparr>)
      | ClearZones \<Rightarrow> Some (invalidate_zone_cache s)
      | StartRead t k \<Rightarrow>
          (if cc_threads s t = Idle
           then Some (set_thread t (Started k (floor_at s (cc_gen s) k)) s) else None)
      | DirectRead t k \<Rightarrow>
          (if cc_threads s t = Idle
           then Some (set_thread t (Replied k (floor_at s (cc_gen s) k)
                  (Answer \<lparr>rp_body = body k (cc_ver s), rp_seen = cc_ver s\<rparr>)) s) else None)
      | StartMutation t m \<Rightarrow>
          (if cc_threads s t = Idle then Some (set_thread t (Mutating m) s) else None)
      | Apply t applied ok \<Rightarrow> mutation_step a s
      | Invalidate t \<Rightarrow> mutation_step a s
      | _ \<Rightarrow> read_step body a s)"

fun cc_run :: "(cache_key \<Rightarrow> nat \<Rightarrow> 'v) \<Rightarrow> action list \<Rightarrow> 'v cc \<Rightarrow> 'v cc option" where
  "cc_run body [] s = Some s"
| "cc_run body (a # as) s =
     (case cc_step body a s of None \<Rightarrow> None | Some s' \<Rightarrow> cc_run body as s')"

inductive cc_reachable :: "(cache_key \<Rightarrow> nat \<Rightarrow> 'v) \<Rightarrow> 'v cc \<Rightarrow> bool" for body where
  init: "cc_reachable body cc_init"
| step: "cc_reachable body s \<Longrightarrow> cc_step body a s = Some s' \<Longrightarrow> cc_reachable body s'"

subsection \<open>Keys\<close>

lemma dec_nat_inject: "dec_nat m = dec_nat n \<longleftrightarrow> m = n"
  by (metis digits_val_dec_nat)

lemma key_string_no_colon: "CHR '':'' \<notin> set (key_string k)"
  by (cases k) (simp_all add: key_string_def)

lemma key_string_inject: "key_string k = key_string k' \<longleftrightarrow> k = k'"
  by (cases k; cases k') (simp_all add: key_string_def)

lemma sf_key_inject [simp]: "sf_key k g = sf_key k' g' \<longleftrightarrow> k = k' \<and> g = g'"
proof
  assume "sf_key k g = sf_key k' g'"
  then have "cut_at CHR '':'' (sf_key k g) = cut_at CHR '':'' (sf_key k' g')" by simp
  then show "k = k' \<and> g = g'"
    using key_string_no_colon
    by (simp add: sf_key_def cut_at_append key_string_inject dec_nat_inject)
qed simp

subsection \<open>The invariant\<close>

text \<open>A reply fit for key \<open>k\<close>: it is the answer to that question at a version not older
  than \<open>f\<close>.\<close>

definition fit :: "(cache_key \<Rightarrow> nat \<Rightarrow> 'v) \<Rightarrow> cache_key \<Rightarrow> nat \<Rightarrow> 'v reply \<Rightarrow> bool" where
  "fit body k f r \<longleftrightarrow> f \<le> rp_seen r \<and> rp_body r = body k (rp_seen r)"

definition fit_outcome :: "(cache_key \<Rightarrow> nat \<Rightarrow> 'v) \<Rightarrow> cache_key \<Rightarrow> nat \<Rightarrow> 'v outcome \<Rightarrow> bool" where
  "fit_outcome body k f r \<longleftrightarrow> (case r of Answer v \<Rightarrow> fit body k f v | Failure \<Rightarrow> True)"

lemma fit_mono: "fit body k f r \<Longrightarrow> f' \<le> f \<Longrightarrow> fit body k f' r"
  by (simp add: fit_def)

lemma fit_outcome_mono: "fit_outcome body k f r \<Longrightarrow> f' \<le> f \<Longrightarrow> fit_outcome body k f' r"
  by (auto simp: fit_outcome_def fit_def split: outcome.splits)

lemma fit_outcome_simps [simp]:
  "fit_outcome body k f Failure" "fit_outcome body k f (Answer v) = fit body k f v"
  by (simp_all add: fit_outcome_def)

text \<open>A reader with floor \<open>f\<close> and generation \<open>g\<close>, and its flight.\<close>

definition loaded_ok :: "'v cc \<Rightarrow> cache_key \<Rightarrow> nat \<Rightarrow> nat \<Rightarrow> bool" where
  "loaded_ok s k f g \<longleftrightarrow> g \<le> cc_gen s \<and> f \<le> floor_at s g k"

definition call_ok :: "'v cc \<Rightarrow> cache_key \<Rightarrow> nat \<Rightarrow> nat \<Rightarrow> bool" where
  "call_ok s k g c \<longleftrightarrow>
     c < length (cc_calls s) \<and> fl_key (cc_calls s ! c) = k \<and> fl_gen (cc_calls s ! c) = g"

definition thread_ok :: "(cache_key \<Rightarrow> nat \<Rightarrow> 'v) \<Rightarrow> 'v cc \<Rightarrow> 'v thread \<Rightarrow> bool" where
  "thread_ok body s p \<longleftrightarrow>
     (case p of
        Started k f \<Rightarrow> f \<le> floor_at s (cc_gen s) k
      | Missed k f \<Rightarrow> f \<le> floor_at s (cc_gen s) k
      | Loaded k f g \<Rightarrow> loaded_ok s k f g
      | Waiting k f g c \<Rightarrow> loaded_ok s k f g \<and> call_ok s k g c
      | Leading k f g c \<Rightarrow> loaded_ok s k f g \<and> call_ok s k g c
      | Fetched k f g c r \<Rightarrow> loaded_ok s k f g \<and> call_ok s k g c \<and> fit_outcome body k (floor_at s g k) r
      | Stored k f g c r \<Rightarrow> loaded_ok s k f g \<and> call_ok s k g c \<and> fit_outcome body k (floor_at s g k) r
      | Closed k f g c r \<Rightarrow> loaded_ok s k f g \<and> call_ok s k g c \<and> fit_outcome body k (floor_at s g k) r
      | Replied k f r \<Rightarrow> fit_outcome body k f r
      | Applied m v \<Rightarrow> v \<le> cc_ver s
      | _ \<Rightarrow> True)"

definition flight_ok :: "(cache_key \<Rightarrow> nat \<Rightarrow> 'v) \<Rightarrow> 'v cc \<Rightarrow> 'v flight \<Rightarrow> bool" where
  "flight_ok body s c \<longleftrightarrow> fl_gen c \<le> cc_gen s \<and>
     (case fl_result c of None \<Rightarrow> True
      | Some r \<Rightarrow> fit_outcome body (fl_key c) (floor_at s (fl_gen c) (fl_key c)) r)"

definition floors_ok :: "'v cc \<Rightarrow> bool" where
  "floors_ok s \<longleftrightarrow>
     (\<forall>g g' k. g \<le> g' \<longrightarrow> g' \<le> cc_gen s \<longrightarrow> floor_at s g k \<le> floor_at s g' k)
     \<and> (\<forall>k. floor_at s (cc_gen s) k \<le> cc_ver s)"

definition caches_ok :: "(cache_key \<Rightarrow> nat \<Rightarrow> 'v) \<Rightarrow> 'v cc \<Rightarrow> bool" where
  "caches_ok body s \<longleftrightarrow>
     (\<forall>k. ttl.holds_only (\<lambda>_. fit body k (floor_at s (cc_gen s) k)) (cc_caches s k))"

definition cc_inv :: "(cache_key \<Rightarrow> nat \<Rightarrow> 'v) \<Rightarrow> 'v cc \<Rightarrow> bool" where
  "cc_inv body s \<longleftrightarrow>
     floors_ok s \<and> caches_ok body s
     \<and> (\<forall>c\<in>set (cc_calls s). flight_ok body s c)
     \<and> (\<forall>k g c. cc_inflight s (sf_key k g) = Some c \<longrightarrow> call_ok s k g c)
     \<and> (\<forall>t. thread_ok body s (cc_threads s t))"

lemma cc_inv_init: "cc_inv body cc_init"
  by (auto simp: cc_inv_def cc_init_def floors_ok_def caches_ok_def floor_at_def thread_ok_def
      holds_only_new split: option.splits)

text \<open>What a step that adds nothing but one thread's position has to show.\<close>

lemma set_thread_simps [simp]:
  "cc_caches (set_thread t p s) = cc_caches s" "cc_gen (set_thread t p s) = cc_gen s"
  "cc_inflight (set_thread t p s) = cc_inflight s" "cc_calls (set_thread t p s) = cc_calls s"
  "cc_threads (set_thread t p s) = (cc_threads s)(t := p)" "cc_ver (set_thread t p s) = cc_ver s"
  "cc_now (set_thread t p s) = cc_now s" "cc_floor (set_thread t p s) = cc_floor s"
  by (simp_all add: set_thread_def)

lemma floor_at_cong: "cc_floor s' = cc_floor s \<Longrightarrow> floor_at s' = floor_at s"
  by (intro ext) (simp add: floor_at_def split: option.split)

definition grows :: "'v cc \<Rightarrow> 'v cc \<Rightarrow> bool" where
  "grows s s' \<longleftrightarrow> cc_gen s \<le> cc_gen s' \<and> cc_ver s \<le> cc_ver s'
     \<and> (\<forall>g k. g \<le> cc_gen s \<longrightarrow> floor_at s' g k = floor_at s g k)
     \<and> (\<forall>k. floor_at s (cc_gen s) k \<le> floor_at s' (cc_gen s') k)
     \<and> length (cc_calls s) \<le> length (cc_calls s')
     \<and> (\<forall>c<length (cc_calls s). fl_key (cc_calls s' ! c) = fl_key (cc_calls s ! c)
          \<and> fl_gen (cc_calls s' ! c) = fl_gen (cc_calls s ! c))"

lemma grows_loaded: "grows s s' \<Longrightarrow> loaded_ok s k f g \<Longrightarrow> loaded_ok s' k f g"
  by (auto simp: grows_def loaded_ok_def)

lemma grows_call: "grows s s' \<Longrightarrow> call_ok s k g c \<Longrightarrow> call_ok s' k g c"
  by (auto simp: grows_def call_ok_def)

lemma grows_thread: "grows s s' \<Longrightarrow> thread_ok body s p \<Longrightarrow> thread_ok body s' p"
  using grows_loaded [of s s'] grows_call [of s s']
  by (auto simp: thread_ok_def grows_def loaded_ok_def split: thread.splits intro: order_trans)

lemma grows_flight: "grows s s' \<Longrightarrow> flight_ok body s c \<Longrightarrow> flight_ok body s' c"
  by (auto simp: flight_ok_def grows_def split: option.splits)

lemma cc_inv_grows:
  assumes inv: "cc_inv body s" and g: "grows s s'" and "floors_ok s'" and "caches_ok body s'"
    and calls: "\<And>c. c \<in> set (cc_calls s') \<Longrightarrow> c \<in> set (cc_calls s) \<or> flight_ok body s' c"
    and infl: "\<And>k g c. cc_inflight s' (sf_key k g) = Some c \<Longrightarrow>
      cc_inflight s (sf_key k g) = Some c \<or> call_ok s' k g c"
    and thr: "\<And>t. cc_threads s' t = cc_threads s t \<or> thread_ok body s' (cc_threads s' t)"
  shows "cc_inv body s'"
  unfolding cc_inv_def
proof (intro conjI ballI allI impI)
  fix c assume "c \<in> set (cc_calls s')"
  with calls inv grows_flight [OF g] show "flight_ok body s' c" unfolding cc_inv_def by blast
next
  fix k n c assume "cc_inflight s' (sf_key k n) = Some c"
  with infl inv grows_call [OF g] show "call_ok s' k n c" unfolding cc_inv_def by blast
next
  fix t
  from thr [of t] inv grows_thread [OF g] show "thread_ok body s' (cc_threads s' t)"
    unfolding cc_inv_def by metis
qed (use assms in auto)

text \<open>A step that leaves generation, floors and calls alone, and puts only fit replies in caches.\<close>

lemma cc_inv_quiet:
  assumes "cc_inv body s" "cc_gen s' = cc_gen s" "cc_floor s' = cc_floor s" "cc_ver s \<le> cc_ver s'"
    "cc_calls s' = cc_calls s" "\<And>k g c. cc_inflight s' (sf_key k g) = Some c \<Longrightarrow> cc_inflight s (sf_key k g) = Some c"
    "caches_ok body s'" "\<And>t. cc_threads s' t = cc_threads s t \<or> thread_ok body s' (cc_threads s' t)"
  shows "cc_inv body s'"
proof (rule cc_inv_grows [OF assms(1)])
  have f: "floor_at s' = floor_at s" using assms(3) by (rule floor_at_cong)
  show "grows s s'" using assms f by (simp add: grows_def)
  show "floors_ok s'" using assms(1,2,4) f unfolding cc_inv_def floors_ok_def
    by (metis order_trans)
qed (use assms in auto)

lemma caches_ok_upd:
  assumes "caches_ok body s" "cc_gen s' = cc_gen s" "cc_floor s' = cc_floor s"
    "cc_caches s' = (cc_caches s)(k := c)"
    "ttl.holds_only (\<lambda>_. fit body k (floor_at s (cc_gen s) k)) c"
  shows "caches_ok body s'"
  using assms floor_at_cong [OF assms(3)] by (simp add: caches_ok_def)

lemma caches_ok_same:
  "caches_ok body s \<Longrightarrow> cc_gen s' = cc_gen s \<Longrightarrow> cc_floor s' = cc_floor s \<Longrightarrow>
     cc_caches s' = cc_caches s \<Longrightarrow> caches_ok body s'"
  using floor_at_cong [of s' s] by (simp add: caches_ok_def)

lemma thread_ok_cong:
  "cc_gen s' = cc_gen s \<Longrightarrow> cc_floor s' = cc_floor s \<Longrightarrow> cc_calls s' = cc_calls s \<Longrightarrow>
     cc_ver s' = cc_ver s \<Longrightarrow> thread_ok body s' p = thread_ok body s p"
  using floor_at_cong [of s' s]
  by (simp add: thread_ok_def loaded_ok_def call_ok_def split: thread.splits)

lemma invD:
  assumes "cc_inv body s"
  shows "thread_ok body s (cc_threads s t)" "caches_ok body s" "floors_ok s"
    "cc_inflight s (sf_key k g) = Some c \<Longrightarrow> call_ok s k g c"
    "c' \<in> set (cc_calls s) \<Longrightarrow> flight_ok body s c'"
  using assms by (simp_all add: cc_inv_def)

lemma cc_inv_thread:
  assumes "cc_inv body s" "thread_ok body s p"
  shows "cc_inv body (set_thread t p s)"
proof (rule cc_inv_quiet [OF assms(1)])
  show "caches_ok body (set_thread t p s)"
    by (rule caches_ok_same [OF invD(2) [OF assms(1)]]) simp_all
  show "cc_threads (set_thread t p s) t' = cc_threads s t'
    \<or> thread_ok body (set_thread t p s) (cc_threads (set_thread t p s) t')" for t'
    using assms(2) thread_ok_cong [of "set_thread t p s" s body p] by simp
qed simp_all

lemma store_ok:
  assumes "cc_inv body s" "loaded_ok s k f g" "fit body k (floor_at s g k) v"
  shows "caches_ok body (store_if_unchanged k g v s)"
proof (cases "cc_gen s = g")
  case True
  have "ttl.holds_only (\<lambda>_. fit body k (floor_at s (cc_gen s) k)) (cc_caches s k)"
    using invD(2) [OF assms(1)] by (simp add: caches_ok_def)
  then have "ttl.holds_only (\<lambda>_. fit body k (floor_at s (cc_gen s) k))
      (cache_set (cc_now s) (key_string k) v (cc_caches s k))"
    by (rule ttl.holds_only_put) (use assms True in simp)
  from caches_ok_upd [OF invD(2) [OF assms(1)] _ _ _ this, of "store_if_unchanged k g v s"] True
  show ?thesis by (simp add: store_if_unchanged_def)
next
  case False
  with assms show ?thesis by (simp add: store_if_unchanged_def invD)
qed

lemma store_simps [simp]:
  "cc_gen (store_if_unchanged k g v s) = cc_gen s"
  "cc_floor (store_if_unchanged k g v s) = cc_floor s"
  "cc_calls (store_if_unchanged k g v s) = cc_calls s"
  "cc_inflight (store_if_unchanged k g v s) = cc_inflight s"
  "cc_threads (store_if_unchanged k g v s) = cc_threads s"
  "cc_ver (store_if_unchanged k g v s) = cc_ver s"
  by (simp_all add: store_if_unchanged_def)

lemma cc_inv_store:
  assumes "cc_inv body s" "loaded_ok s k f g" "fit body k (floor_at s g k) v"
  shows "cc_inv body (store_if_unchanged k g v s)"
  by (rule cc_inv_quiet [OF assms(1)]) (simp_all add: store_ok [OF assms])

lemma cc_inv_caches:
  assumes "cc_inv body s" "ttl.holds_only (\<lambda>_. fit body k (floor_at s (cc_gen s) k)) c"
  shows "cc_inv body (s\<lparr>cc_caches := (cc_caches s)(k := c)\<rparr>)"
  by (rule cc_inv_quiet [OF assms(1)])
    (use caches_ok_upd [OF invD(2) [OF assms(1)] _ _ _ assms(2)] in simp_all)

lemma cache_holds:
  "cc_inv body s \<Longrightarrow> ttl.holds_only (\<lambda>_. fit body k (floor_at s (cc_gen s) k)) (cc_caches s k)"
  by (drule invD(2)) (simp add: caches_ok_def)

text \<open>A new flight, and the result of one.\<close>

lemma cc_inv_new_flight:
  assumes "cc_inv body s" "loaded_ok s k f g"
  shows "cc_inv body (set_thread t (Leading k f g (length (cc_calls s)))
    (s\<lparr>cc_calls := cc_calls s @ [\<lparr>fl_key = k, fl_gen = g, fl_result = None\<rparr>],
       cc_inflight := (cc_inflight s)(sf_key k g \<mapsto> length (cc_calls s))\<rparr>))" (is "cc_inv body ?s'")
proof (rule cc_inv_grows [OF assms(1)])
  have f: "floor_at ?s' = floor_at s" by (rule floor_at_cong) simp
  then show "grows s ?s'" by (simp add: grows_def nth_append)
  show "floors_ok ?s'" using invD(3) [OF assms(1)] f by (simp add: floors_ok_def)
  show "caches_ok body ?s'" by (rule caches_ok_same [OF invD(2) [OF assms(1)]]) simp_all
  show "c \<in> set (cc_calls s) \<or> flight_ok body ?s' c" if "c \<in> set (cc_calls ?s')" for c
    using that assms(2) by (auto simp: flight_ok_def loaded_ok_def)
  show "cc_inflight s (sf_key k' g') = Some c \<or> call_ok ?s' k' g' c"
    if "cc_inflight ?s' (sf_key k' g') = Some c" for k' g' c
    using that by (auto simp: call_ok_def split: if_splits)
  show "cc_threads ?s' t' = cc_threads s t' \<or> thread_ok body ?s' (cc_threads ?s' t')" for t'
    using assms(2) f by (simp add: thread_ok_def loaded_ok_def call_ok_def)
qed

lemma cc_inv_result:
  assumes "cc_inv body s" "loaded_ok s k f g" "call_ok s k g c" "fit_outcome body k (floor_at s g k) r"
  shows "cc_inv body (s\<lparr>cc_calls := (cc_calls s)[c := (cc_calls s ! c)\<lparr>fl_result := Some r\<rparr>]\<rparr>)"
    (is "cc_inv body ?s'")
proof (rule cc_inv_grows [OF assms(1)])
  have f: "floor_at ?s' = floor_at s" by (rule floor_at_cong) simp
  then show "grows s ?s'" using assms(3) by (auto simp: grows_def call_ok_def nth_list_update)
  show "floors_ok ?s'" using invD(3) [OF assms(1)] f by (simp add: floors_ok_def)
  show "caches_ok body ?s'" by (rule caches_ok_same [OF invD(2) [OF assms(1)]]) simp_all
  show "c' \<in> set (cc_calls s) \<or> flight_ok body ?s' c'" if "c' \<in> set (cc_calls ?s')" for c'
  proof (cases "c' \<in> set (cc_calls s)")
    case False
    with that have "c' = (cc_calls s ! c)\<lparr>fl_result := Some r\<rparr>"
      using set_update_subset_insert by fastforce
    with assms f show ?thesis by (auto simp: flight_ok_def call_ok_def loaded_ok_def)
  qed simp
qed simp_all

text \<open>An invalidation: the generation rises, the named caches are emptied and the floors of the
  others stay.\<close>

lemma cc_inv_invalidate:
  assumes inv: "cc_inv body s"
    and up: "\<And>cl. cc_floor s (cc_gen s) cl \<le> upd (cc_floor s (cc_gen s)) cl"
    and ver: "\<And>cl. upd (cc_floor s (cc_gen s)) cl \<le> max (cc_floor s (cc_gen s) cl) (cc_ver s)"
    and kept: "\<And>k cl. k \<notin> set ks \<Longrightarrow> key_class k = Some cl \<Longrightarrow>
      upd (cc_floor s (cc_gen s)) cl = cc_floor s (cc_gen s) cl"
  shows "cc_inv body (invalidate ks upd s)" (is "cc_inv body ?s'")
proof (rule cc_inv_grows [OF inv])
  have old: "g \<le> cc_gen s \<Longrightarrow> floor_at ?s' g k = floor_at s g k" for g k
    by (simp add: floor_at_def invalidate_def split: option.split)
  have new: "floor_at s (cc_gen s) k \<le> floor_at ?s' (Suc (cc_gen s)) k" for k
    using up by (simp add: floor_at_def invalidate_def split: option.split)
  have top: "floor_at ?s' (Suc (cc_gen s)) k \<le> cc_ver s" for k
  proof (cases "key_class k")
    case (Some cl)
    then have "cc_floor s (cc_gen s) cl \<le> cc_ver s"
      using invD(3) [OF inv] by (auto simp: floors_ok_def floor_at_def split: option.splits)
    with ver [of cl] Some show ?thesis by (simp add: floor_at_def invalidate_def)
  qed (simp add: floor_at_def)
  have gen: "cc_gen ?s' = Suc (cc_gen s)" and cv: "cc_ver ?s' = cc_ver s" by (simp_all add: invalidate_def)
  show "grows s ?s'" using old new by (simp add: grows_def) (simp add: invalidate_def)
  show "floors_ok ?s'"
    unfolding floors_ok_def gen cv
  proof (intro conjI allI impI)
    fix g g' k assume g: "g \<le> g'" "g' \<le> Suc (cc_gen s)"
    have mono: "g \<le> h \<Longrightarrow> h \<le> cc_gen s \<Longrightarrow> floor_at s g k \<le> floor_at s h k" for h
      using invD(3) [OF inv] unfolding floors_ok_def by blast
    show "floor_at ?s' g k \<le> floor_at ?s' g' k"
    proof (cases "g \<le> cc_gen s \<and> g' = Suc (cc_gen s)")
      case True
      with mono [of "cc_gen s"] old [of g k] new [of k] show ?thesis by simp
    next
      case False
      with g have "g = g' \<or> g' \<le> cc_gen s" by linarith
      with mono [of g'] old g(1) show ?thesis by auto
    qed
  qed (use top in auto)
  show "caches_ok body ?s'"
    unfolding caches_ok_def gen
  proof
    fix k
    show "ttl.holds_only (\<lambda>_. fit body k (floor_at ?s' (Suc (cc_gen s)) k)) (cc_caches ?s' k)"
    proof (cases "k \<in> set ks")
      case True
      then show ?thesis by (simp add: invalidate_def ttl.holds_only_wipe)
    next
      case False
      with kept have "floor_at ?s' (Suc (cc_gen s)) k = floor_at s (cc_gen s) k"
        by (simp add: floor_at_def invalidate_def split: option.split)
      with False cache_holds [OF inv, of k] show ?thesis by (simp add: invalidate_def)
    qed
  qed
qed (simp_all add: invalidate_def)

lemma cc_inv_invalidations:
  assumes "cc_inv body s"
  shows "v \<le> cc_ver s \<Longrightarrow> cc_inv body (invalidate_zones v s)"
    and "v \<le> cc_ver s \<Longrightarrow> cc_inv body (invalidate_tsig v s)"
    and "cc_inv body (invalidate_zone_cache s)"
proof -
  show "cc_inv body (invalidate_zones v s)" if "v \<le> cc_ver s"
    unfolding invalidate_zones_def
  proof (rule cc_inv_invalidate [OF assms])
    fix k cl assume "k \<notin> set [KZones, KZonesInfo, KStats]" "key_class k = Some cl"
    then show "raise_floor ZoneClass v (cc_floor s (cc_gen s)) cl = cc_floor s (cc_gen s) cl"
      by (cases k) (auto simp: key_class_def raise_floor_def)
  qed (use that in \<open>auto simp: raise_floor_def\<close>)
  show "cc_inv body (invalidate_tsig v s)" if "v \<le> cc_ver s"
    unfolding invalidate_tsig_def
  proof (rule cc_inv_invalidate [OF assms])
    fix k cl assume "k \<notin> set [KTSIG]" "key_class k = Some cl"
    then show "raise_floor TSIGClass v (cc_floor s (cc_gen s)) cl = cc_floor s (cc_gen s) cl"
      by (cases k) (auto simp: key_class_def raise_floor_def)
  qed (use that in \<open>auto simp: raise_floor_def\<close>)
  show "cc_inv body (invalidate_zone_cache s)"
    unfolding invalidate_zone_cache_def by (rule cc_inv_invalidate [OF assms]) auto
qed

lemma cc_inv_read_step:
  assumes inv: "cc_inv body s" and st: "read_step body a s = Some s'"
  shows "cc_inv body s'"
proof -
  note th = invD(1) [OF inv]
  have fl: "f \<le> floor_at s (cc_gen s) k \<Longrightarrow> fit body k (floor_at s (cc_gen s) k) v \<Longrightarrow> fit body k f v" for f k v
    by (rule fit_mono)
  show ?thesis
  proof (cases a)
    case (Lookup t)
    with st obtain k f where t: "cc_threads s t = Started k f"
      by (auto simp: read_step_def split: thread.splits)
    obtain r c where g: "cache_get (cc_now s) (key_string k) (cc_caches s k) = (r, c)" by fastforce
    let ?s = "s\<lparr>cc_caches := (cc_caches s)(k := c)\<rparr>"
    have c: "cc_inv body ?s"
      using cc_inv_caches [OF inv holds_only_get [OF cache_holds [OF inv]]] g by (metis snd_conv)
    have "thread_ok body ?s (case r of Some v \<Rightarrow> Replied k f (Answer v) | None \<Rightarrow> Missed k f)"
      using th [of t] t cache_get_peek [of "cc_now s" "key_string k" "cc_caches s k"] g
        ttl.holds_onlyD [OF cache_holds [OF inv, of k], of "cc_now s" "key_string k"]
        floor_at_cong [of ?s s]
      by (auto simp: thread_ok_def split: option.split intro: fit_mono)
    from cc_inv_thread [OF c this, of t] st Lookup t g show ?thesis
      by (simp add: read_step_def)
  next
    case (LoadGen t)
    with st th [of t] cc_inv_thread [OF inv] show ?thesis
      by (auto simp: read_step_def thread_ok_def loaded_ok_def split: thread.splits)
  next
    case (Join t)
    with st obtain k f g where t: "cc_threads s t = Loaded k f g"
      by (auto simp: read_step_def split: thread.splits)
    then have l: "loaded_ok s k f g" using th [of t] by (simp add: thread_ok_def)
    show ?thesis
    proof (cases "cc_inflight s (sf_key k g)")
      case None
      with st Join t cc_inv_new_flight [OF inv l, of t] show ?thesis
        by (simp add: read_step_def Let_def)
    next
      case (Some c)
      with l invD(4) [OF inv Some] have "thread_ok body s (Waiting k f g c)" by (simp add: thread_ok_def)
      from cc_inv_thread [OF inv this, of t] st Join t Some show ?thesis by (simp add: read_step_def)
    qed
  next
    case (Fetch t ok)
    with st obtain k f g c where t: "cc_threads s t = Leading k f g c"
      by (auto simp: read_step_def split: thread.splits)
    have "floor_at s g k \<le> cc_ver s"
      using th [of t] t invD(3) [OF inv] unfolding floors_ok_def
      by (auto simp: thread_ok_def loaded_ok_def) (meson le_refl order_trans)
    with th [of t] t have "thread_ok body s (Fetched k f g c
        (if ok then Answer \<lparr>rp_body = body k (cc_ver s), rp_seen = cc_ver s\<rparr> else Failure))"
      by (simp add: thread_ok_def fit_def)
    from cc_inv_thread [OF inv this, of t] st Fetch t show ?thesis by (simp add: read_step_def)
  next
    case (Store t)
    with st obtain k f g c r where t: "cc_threads s t = Fetched k f g c r"
      by (auto simp: read_step_def split: thread.splits)
    let ?s = "case r of Answer v \<Rightarrow> store_if_unchanged k g v s | Failure \<Rightarrow> s"
    from th [of t] t have ok: "loaded_ok s k f g" "fit_outcome body k (floor_at s g k) r"
      and p: "thread_ok body s (Stored k f g c r)" by (simp_all add: thread_ok_def)
    have i: "cc_inv body ?s" using ok inv by (cases r) (simp_all add: cc_inv_store)
    have "thread_ok body ?s (Stored k f g c r)"
      using p thread_ok_cong [of ?s s body] by (cases r) simp_all
    from cc_inv_thread [OF i this, of t] st Store t show ?thesis by (simp add: read_step_def)
  next
    case (Close t)
    with st obtain k f g c r where t: "cc_threads s t = Stored k f g c r"
      by (auto simp: read_step_def split: thread.splits)
    let ?s = "s\<lparr>cc_calls := (cc_calls s)[c := (cc_calls s ! c)\<lparr>fl_result := Some r\<rparr>]\<rparr>"
    from th [of t] t have ok: "loaded_ok s k f g" "call_ok s k g c" "fit_outcome body k (floor_at s g k) r"
      by (simp_all add: thread_ok_def)
    from cc_inv_result [OF inv ok] have i: "cc_inv body ?s" .
    have "thread_ok body ?s (Closed k f g c r)"
      using ok floor_at_cong [of ?s s] by (simp add: thread_ok_def loaded_ok_def call_ok_def)
    from cc_inv_thread [OF i this, of t] st Close t show ?thesis by (simp add: read_step_def)
  next
    case (Deregister t)
    with st obtain k f g c r where t: "cc_threads s t = Closed k f g c r"
      by (auto simp: read_step_def split: thread.splits)
    let ?s = "s\<lparr>cc_inflight := (cc_inflight s)(sf_key k g := None)\<rparr>"
    have i: "cc_inv body ?s"
      by (rule cc_inv_quiet [OF inv])
        (auto split: if_splits intro: caches_ok_same [OF invD(2) [OF inv]])
    from th [of t] t have "thread_ok body ?s (Replied k f r)"
      by (auto simp: thread_ok_def loaded_ok_def intro: fit_outcome_mono)
    from cc_inv_thread [OF i this, of t] st Deregister t show ?thesis by (simp add: read_step_def)
  next
    case (Wake t)
    with st obtain k f g c r where t: "cc_threads s t = Waiting k f g c"
      and r: "fl_result (cc_calls s ! c) = Some r"
      by (auto simp: read_step_def split: thread.splits option.splits)
    from th [of t] t have ok: "loaded_ok s k f g" "call_ok s k g c" by (simp_all add: thread_ok_def)
    then have "flight_ok body s (cc_calls s ! c)" using invD(5) [OF inv] by (simp add: call_ok_def)
    with ok r have "thread_ok body s (Replied k f r)"
      by (auto simp: thread_ok_def loaded_ok_def call_ok_def flight_ok_def intro: fit_outcome_mono)
    from cc_inv_thread [OF inv this, of t] st Wake t r show ?thesis by (simp add: read_step_def)
  qed (use st in \<open>auto simp: read_step_def\<close>)
qed

lemma cc_inv_mutation_step:
  assumes inv: "cc_inv body s" and st: "mutation_step a s = Some s'"
  shows "cc_inv body s'"
proof (cases a)
  case (Apply t applied ok)
  with st obtain m where t: "cc_threads s t = Mutating m"
    by (auto simp: mutation_step_def split: thread.splits)
  let ?s = "if applied then s\<lparr>cc_ver := Suc (cc_ver s)\<rparr> else s"
  have i: "cc_inv body ?s"
    by (rule cc_inv_quiet [OF inv])
      (auto intro: caches_ok_same [OF invD(2) [OF inv]] split: if_splits)
  have "thread_ok body ?s (if ok then Applied m (cc_ver ?s) else Mutated m False)"
    by (simp add: thread_ok_def)
  from cc_inv_thread [OF i this, of t] cc_inv_thread [OF inv, of "Mutated m True" t] st Apply t
  show ?thesis by (auto simp: mutation_step_def thread_ok_def Let_def split: if_splits)
next
  case (Invalidate t)
  with st obtain m v where t: "cc_threads s t = Applied m v"
    by (auto simp: mutation_step_def split: thread.splits)
  then have v: "v \<le> cc_ver s" using invD(1) [OF inv, of t] by (simp add: thread_ok_def)
  let ?s = "case mutation_class m of None \<Rightarrow> s | Some ZoneClass \<Rightarrow> invalidate_zones v s
    | Some TSIGClass \<Rightarrow> invalidate_tsig v s"
  have "cc_inv body ?s"
    using inv cc_inv_invalidations [OF inv] v by (auto split: option.split inv_class.split)
  from cc_inv_thread [OF this, of "Mutated m True" t] st Invalidate t show ?thesis
    by (simp add: mutation_step_def thread_ok_def)
qed (use st in \<open>auto simp: mutation_step_def\<close>)

lemma cc_inv_step:
  assumes inv: "cc_inv body s" and st: "cc_step body a s = Some s'"
  shows "cc_inv body s'"
proof (cases a)
  case (Tick d)
  have "cc_inv body (s\<lparr>cc_now := cc_now s + int d\<rparr>)"
    by (rule cc_inv_quiet [OF inv]) (auto intro: caches_ok_same [OF invD(2) [OF inv]])
  with st Tick show ?thesis by (simp add: cc_step_def)
next
  case (Sweep k)
  from cc_inv_caches [OF inv ttl.holds_only_sweep [OF cache_holds [OF inv, of k]], of "cc_now s"] st Sweep
  show ?thesis by (simp add: cc_step_def)
next
  case ClearZones
  with st cc_inv_invalidations(3) [OF inv] show ?thesis by (simp add: cc_step_def)
next
  case (StartRead t k)
  with st cc_inv_thread [OF inv] show ?thesis by (auto simp: cc_step_def thread_ok_def split: if_splits)
next
  case (DirectRead t k)
  have "floor_at s (cc_gen s) k \<le> cc_ver s" using invD(3) [OF inv] by (simp add: floors_ok_def)
  with DirectRead st cc_inv_thread [OF inv] show ?thesis
    by (auto simp: cc_step_def thread_ok_def fit_def split: if_splits)
next
  case (StartMutation t m)
  with st cc_inv_thread [OF inv] show ?thesis by (auto simp: cc_step_def thread_ok_def split: if_splits)
qed (use st cc_inv_read_step [OF inv] cc_inv_mutation_step [OF inv] in \<open>auto simp: cc_step_def\<close>)

lemma cc_inv_reachable: "cc_reachable body s \<Longrightarrow> cc_inv body s"
  by (induction rule: cc_reachable.induct) (auto intro: cc_inv_init cc_inv_step)

lemma cc_run_reachable: "cc_reachable body s \<Longrightarrow> cc_run body as s = Some s' \<Longrightarrow> cc_reachable body s'"
proof (induction "as" arbitrary: s)
  case (Cons a as)
  then show ?case by (auto split: option.splits intro: cc_reachable.step)
qed simp

text \<open>C1: No stale read.  In every interleaving of readers, followers, expiry, sweeps and
  mutations, a finished read, whether a hit, the leader of a flight or a follower, carries
  PowerDNS's answer to the question asked, taken at a version not older than any mutation
  that had returned to its caller, for a class that concerns the cache, when the read began.\<close>

theorem no_stale_read:
  assumes "cc_reachable body s" and "cc_threads s t = Replied k f (Answer r)"
  shows "f \<le> rp_seen r \<and> rp_body r = body k (rp_seen r)"
  using invD(1) [OF cc_inv_reachable [OF assms(1)], of t] assms(2)
  by (simp add: thread_ok_def fit_def)

definition stale_trace :: "action list" where
  "stale_trace =
     [StartRead 0 KZones, Lookup 0, LoadGen 0, Join 0, Fetch 0 True,
      StartMutation 1 MCreateZone, Apply 1 True True, Invalidate 1, Store 0,
      StartRead 2 KZones, Lookup 2, LoadGen 2, Join 2, Fetch 2 True, Store 2, Close 2, Deregister 2]"

theorem no_stale_read_witness:
  "\<exists>s r. cc_run (\<lambda>_ v. v) stale_trace cc_init = Some s \<and> cc_threads s 2 = Replied KZones 1 (Answer r)
     \<and> 1 \<le> rp_seen r"
proof -
  obtain s where s: "cc_run (\<lambda>_ v. v) stale_trace cc_init = Some s"
    and t: "cc_threads s 2 = Replied KZones 1 (Answer \<lparr>rp_body = 1, rp_seen = 1\<rparr>)"
    by (simp add: stale_trace_def cc_init_def cc_step_def read_step_def mutation_step_def
        set_thread_def floor_at_def key_class_def cache_get_def cache_new_def sends_nothing_def
        mutation_class_def invalidate_zones_def invalidate_def raise_floor_def
        store_if_unchanged_def cache_clear_def)
  with no_stale_read [OF cc_run_reachable [OF cc_reachable.init s] t] show ?thesis by blast
qed

subsection \<open>One fetch per flight, and no follower is left waiting\<close>

definition leads :: "'v thread \<Rightarrow> (cache_key \<times> nat \<times> nat) option" where
  "leads p = (case p of Leading k f g c \<Rightarrow> Some (k, g, c) | Fetched k f g c r \<Rightarrow> Some (k, g, c)
     | Stored k f g c r \<Rightarrow> Some (k, g, c) | Closed k f g c r \<Rightarrow> Some (k, g, c) | _ \<Rightarrow> None)"

definition pending :: "'v thread \<Rightarrow> nat option" where
  "pending p = (case p of Leading k f g c \<Rightarrow> Some c | Fetched k f g c r \<Rightarrow> Some c
     | Stored k f g c r \<Rightarrow> Some c | _ \<Rightarrow> None)"

definition flights_ok :: "'v cc \<Rightarrow> bool" where
  "flights_ok s \<longleftrightarrow>
     (\<forall>t k g c. leads (cc_threads s t) = Some (k, g, c) \<longrightarrow>
        cc_inflight s (sf_key k g) = Some c \<and> c < length (cc_calls s))
     \<and> (\<forall>t t' k k' g g' c. leads (cc_threads s t) = Some (k, g, c) \<longrightarrow>
          leads (cc_threads s t') = Some (k', g', c) \<longrightarrow> t = t')
     \<and> (\<forall>c<length (cc_calls s). fl_result (cc_calls s ! c) = None \<longrightarrow>
          (\<exists>t. pending (cc_threads s t) = Some c))"

lemma flights_okI:
  assumes "\<And>t k g c. leads (cc_threads s t) = Some (k, g, c) \<Longrightarrow>
      cc_inflight s (sf_key k g) = Some c \<and> c < length (cc_calls s)"
    and "\<And>t t' k k' g g' c. leads (cc_threads s t) = Some (k, g, c) \<Longrightarrow>
      leads (cc_threads s t') = Some (k', g', c) \<Longrightarrow> t = t'"
    and "\<And>c. c < length (cc_calls s) \<Longrightarrow> fl_result (cc_calls s ! c) = None \<Longrightarrow>
      \<exists>t. pending (cc_threads s t) = Some c"
  shows "flights_ok s"
  unfolding flights_ok_def using assms by blast

lemma flights_okD:
  assumes "flights_ok s"
  shows "leads (cc_threads s t) = Some (k, g, c) \<Longrightarrow> cc_inflight s (sf_key k g) = Some c"
    and "leads (cc_threads s t) = Some (k, g, c) \<Longrightarrow> c < length (cc_calls s)"
    and "leads (cc_threads s t) = Some (k, g, c) \<Longrightarrow> leads (cc_threads s t') = Some (k', g', c) \<Longrightarrow> t = t'"
    and "c < length (cc_calls s) \<Longrightarrow> fl_result (cc_calls s ! c) = None \<Longrightarrow>
      \<exists>t. pending (cc_threads s t) = Some c"
  using assms unfolding flights_ok_def by blast+

lemma flights_frame:
  assumes "flights_ok s" "cc_inflight s' = cc_inflight s" "cc_calls s' = cc_calls s"
    "\<And>t. leads (cc_threads s' t) = leads (cc_threads s t) \<and> pending (cc_threads s' t) = pending (cc_threads s t)"
  shows "flights_ok s'"
  using assms unfolding flights_ok_def by simp

lemma flights_set_thread:
  assumes "flights_ok s" "cc_inflight s' = cc_inflight s" "cc_calls s' = cc_calls s"
    "cc_threads s' = (cc_threads s)(t := p)"
    "leads p = leads (cc_threads s t)" "pending p = pending (cc_threads s t)"
  shows "flights_ok s'"
  by (rule flights_frame [OF assms(1)]) (use assms in auto)

lemma leads_simps [simp]:
  "leads (Leading k f g c) = Some (k, g, c)" "leads (Fetched k f g c r) = Some (k, g, c)"
  "leads (Stored k f g c r) = Some (k, g, c)" "leads (Closed k f g c r) = Some (k, g, c)"
  "leads (Replied k f r) = None" "leads (Waiting k f g c) = None" "leads (Loaded k f g) = None"
  "leads (Missed k f) = None" "leads (Started k f) = None" "leads Idle = None"
  "leads (Mutating m) = None" "leads (Applied m v) = None" "leads (Mutated m b) = None"
  by (simp_all add: leads_def)

lemma pending_simps [simp]:
  "pending (Leading k f g c) = Some c" "pending (Fetched k f g c r) = Some c"
  "pending (Stored k f g c r) = Some c" "pending (Closed k f g c r) = None"
  "pending (Replied k f r) = None" "pending (Waiting k f g c) = None" "pending (Loaded k f g) = None"
  "pending (Missed k f) = None" "pending (Started k f) = None" "pending Idle = None"
  "pending (Mutating m) = None" "pending (Applied m v) = None" "pending (Mutated m b) = None"
  by (simp_all add: pending_def)

lemma pendingD: "pending p = Some c \<Longrightarrow> \<exists>k g. leads p = Some (k, g, c)"
  by (cases p) auto

lemma flights_new:
  assumes fl: "flights_ok s" and t: "cc_threads s t = Loaded k f g" and n: "cc_inflight s (sf_key k g) = None"
  shows "flights_ok (set_thread t (Leading k f g (length (cc_calls s)))
    (s\<lparr>cc_calls := cc_calls s @ [\<lparr>fl_key = k, fl_gen = g, fl_result = None\<rparr>],
       cc_inflight := (cc_inflight s)(sf_key k g \<mapsto> length (cc_calls s))\<rparr>))" (is "flights_ok ?s'")
proof (rule flights_okI)
  fix t' k' g' c assume l: "leads (cc_threads ?s' t') = Some (k', g', c)"
  show "cc_inflight ?s' (sf_key k' g') = Some c \<and> c < length (cc_calls ?s')"
  proof (cases "t' = t")
    case False
    with l have l': "leads (cc_threads s t') = Some (k', g', c)" by simp
    with flights_okD(1,2) [OF fl l'] n show ?thesis by auto
  qed (use l in auto)
next
  fix t1 t2 k1 k2 g1 g2 c
  assume "leads (cc_threads ?s' t1) = Some (k1, g1, c)" "leads (cc_threads ?s' t2) = Some (k2, g2, c)"
  then show "t1 = t2"
    using flights_okD(2,3) [OF fl] by (auto split: if_splits)
next
  fix c assume c: "c < length (cc_calls ?s')" "fl_result (cc_calls ?s' ! c) = None"
  show "\<exists>t'. pending (cc_threads ?s' t') = Some c"
  proof (cases "c = length (cc_calls s)")
    case False
    with c obtain t' where "pending (cc_threads s t') = Some c"
      using flights_okD(4) [OF fl, of c] by (auto simp: nth_append)
    moreover from this t have "t' \<noteq> t" by auto
    ultimately show ?thesis by auto
  qed auto
qed

lemma flights_close:
  assumes fl: "flights_ok s" and t: "cc_threads s t = Stored k f g c r"
  shows "flights_ok (set_thread t (Closed k f g c r)
    (s\<lparr>cc_calls := (cc_calls s)[c := (cc_calls s ! c)\<lparr>fl_result := Some r\<rparr>]\<rparr>))" (is "flights_ok ?s'")
proof (rule flights_okI)
  have same: "leads (cc_threads ?s' t') = leads (cc_threads s t')" for t' using t by simp
  show "cc_inflight ?s' (sf_key k' g') = Some c' \<and> c' < length (cc_calls ?s')"
    if "leads (cc_threads ?s' t') = Some (k', g', c')" for t' k' g' c'
    using that flights_okD(1,2) [OF fl, of t'] unfolding same by simp
  show "t1 = t2" if "leads (cc_threads ?s' t1) = Some (k1, g1, c')"
    "leads (cc_threads ?s' t2) = Some (k2, g2, c')" for t1 t2 k1 k2 g1 g2 c'
    using that flights_okD(3) [OF fl] unfolding same by blast
  fix c' assume c: "c' < length (cc_calls ?s')" "fl_result (cc_calls ?s' ! c') = None"
  then have "c' \<noteq> c" by auto
  with c obtain t' where "pending (cc_threads s t') = Some c'"
    using flights_okD(4) [OF fl, of c'] by (auto simp: nth_list_update)
  moreover from this t \<open>c' \<noteq> c\<close> have "t' \<noteq> t" by auto
  ultimately show "\<exists>t'. pending (cc_threads ?s' t') = Some c'" by auto
qed

lemma flights_deregister:
  assumes fl: "flights_ok s" and t: "cc_threads s t = Closed k f g c r"
  shows "flights_ok (set_thread t (Replied k f r)
    (s\<lparr>cc_inflight := (cc_inflight s)(sf_key k g := None)\<rparr>))" (is "flights_ok ?s'")
proof (rule flights_okI)
  have other: "t' \<noteq> t \<and> leads (cc_threads s t') = Some (k', g', c')"
    if "leads (cc_threads ?s' t') = Some (k', g', c')" for t' k' g' c'
    using that by (auto split: if_splits)
  have lt: "leads (cc_threads s t) = Some (k, g, c)" using t by simp
  show "cc_inflight ?s' (sf_key k' g') = Some c' \<and> c' < length (cc_calls ?s')"
    if "leads (cc_threads ?s' t') = Some (k', g', c')" for t' k' g' c'
  proof -
    note o = other [OF that]
    then have "(k', g') \<noteq> (k, g)"
      using flights_okD(1) [OF fl, of t'] flights_okD(1) [OF fl lt] flights_okD(3) [OF fl, of t'] lt by auto
    with flights_okD(1,2) [OF fl, of t' k' g' c'] o show ?thesis by auto
  qed
  show "t1 = t2" if "leads (cc_threads ?s' t1) = Some (k1, g1, c')"
    "leads (cc_threads ?s' t2) = Some (k2, g2, c')" for t1 t2 k1 k2 g1 g2 c'
    using other [OF that(1)] other [OF that(2)] flights_okD(3) [OF fl] by blast
  fix c' assume c: "c' < length (cc_calls ?s')" "fl_result (cc_calls ?s' ! c') = None"
  then obtain t' where "pending (cc_threads s t') = Some c'"
    using flights_okD(4) [OF fl, of c'] by auto
  moreover from this t have "t' \<noteq> t" by auto
  ultimately show "\<exists>t'. pending (cc_threads ?s' t') = Some c'" by auto
qed

lemma flights_read_step:
  assumes fl: "flights_ok s" and st: "read_step body a s = Some s'"
  shows "flights_ok s'"
proof -
  note frame = flights_set_thread [OF fl]
  show ?thesis
    using st
    by (cases a; simp add: read_step_def Let_def split: thread.splits option.splits prod.splits outcome.splits)
      (auto intro!: frame flights_new [OF fl] flights_close [OF fl] flights_deregister [OF fl]
        split: option.splits)
qed

lemma invalidation_simps [simp]:
  "cc_inflight (invalidate ks u s) = cc_inflight s" "cc_calls (invalidate ks u s) = cc_calls s"
  "cc_threads (invalidate ks u s) = cc_threads s"
  by (simp_all add: invalidate_def)

lemma flights_step:
  assumes fl: "flights_ok s" and st: "cc_step body a s = Some s'"
  shows "flights_ok s'"
proof -
  note frame = flights_set_thread [OF fl]
  show ?thesis
  proof (cases "read_step body a s = Some s'")
    case True
    with fl show ?thesis by (rule flights_read_step)
  next
    case False
    with st show ?thesis
      by (cases a; simp add: cc_step_def mutation_step_def invalidate_zone_cache_def
          invalidate_zones_def invalidate_tsig_def Let_def split: thread.splits option.splits if_splits inv_class.splits)
        (auto intro!: frame flights_frame [OF fl] split: option.splits inv_class.splits)
  qed
qed

lemma flights_reachable: "cc_reachable body s \<Longrightarrow> flights_ok s"
proof (induction rule: cc_reachable.induct)
  case init
  show ?case by (simp add: flights_ok_def cc_init_def)
qed (rule flights_step)

text \<open>Concurrent misses are coalesced: at most one thread is fetching for a cache key and a
  generation, and any thread that would wait for it waits for that very fetch.\<close>

theorem single_flight_unique:
  assumes "cc_reachable body s" and "leads (cc_threads s t) = Some (k, g, c)"
    and "leads (cc_threads s t') = Some (k, g, c')"
  shows "t = t' \<and> cc_inflight s (sf_key k g) = Some c"
proof -
  note fl = flights_reachable [OF assms(1)]
  from flights_okD(1) [OF fl assms(2)] flights_okD(1) [OF fl assms(3)] have "c = c'" by simp
  with flights_okD(3) [OF fl assms(2)] assms(3) flights_okD(1) [OF fl assms(2)] show ?thesis by simp
qed

definition flight_trace :: "action list" where
  "flight_trace =
     [StartRead 0 KStats, Lookup 0, LoadGen 0, Join 0, StartRead 1 KStats, Lookup 1, LoadGen 1, Join 1]"

lemmas trace_simps = cc_init_def cc_step_def read_step_def mutation_step_def set_thread_def
  floor_at_def key_class_def cache_get_def cache_new_def

lemma flight_trace_run:
  "\<exists>s. cc_run (\<lambda>_ v. v) flight_trace cc_init = Some s \<and> cc_threads s 0 = Leading KStats 0 0 0
     \<and> cc_threads s 1 = Waiting KStats 0 0 0"
  by (simp add: flight_trace_def trace_simps)

theorem single_flight_unique_witness:
  "\<exists>s. cc_run (\<lambda>_ v. v) flight_trace cc_init = Some s \<and> cc_inflight s (sf_key KStats 0) = Some 0"
proof -
  obtain s where s: "cc_run (\<lambda>_ v. v) flight_trace cc_init = Some s"
    and t: "leads (cc_threads s 0) = Some (KStats, 0, 0)"
    using flight_trace_run by (metis leads_simps(1))
  from single_flight_unique [OF cc_run_reachable [OF cc_reachable.init s] t t] s show ?thesis by blast
qed

lemma leader_can_finish:
  assumes "pending (cc_threads s t) = Some c" "c < length (cc_calls s)"
  shows "\<exists>as s' r. length as \<le> 3 \<and> cc_run body as s = Some s' \<and> c < length (cc_calls s')
    \<and> fl_result (cc_calls s' ! c) = Some r \<and> (\<forall>t'. t' \<noteq> t \<longrightarrow> cc_threads s' t' = cc_threads s t')"
proof -
  have closing: "\<exists>s' r. cc_run body [Close t] u = Some s' \<and> c < length (cc_calls s')
      \<and> fl_result (cc_calls s' ! c) = Some r \<and> (\<forall>t'. t' \<noteq> t \<longrightarrow> cc_threads s' t' = cc_threads u t')"
    if "cc_threads u t = Stored k f g c x" "c < length (cc_calls u)" for u k f g x
    using that by (simp add: cc_step_def read_step_def)
  have storing: "\<exists>s' r. cc_run body [Store t, Close t] u = Some s' \<and> c < length (cc_calls s')
      \<and> fl_result (cc_calls s' ! c) = Some r \<and> (\<forall>t'. t' \<noteq> t \<longrightarrow> cc_threads s' t' = cc_threads u t')"
    if "cc_threads u t = Fetched k f g c x" "c < length (cc_calls u)" for u k f g x
    using that by (cases x) (simp_all add: cc_step_def read_step_def)
  show ?thesis
  proof (cases "cc_threads s t")
    case (Leading k f g c')
    then obtain u where u: "cc_step body (Fetch t False) s = Some u"
      "cc_threads u t = Fetched k f g c Failure" "c < length (cc_calls u)"
      "\<forall>t'. t' \<noteq> t \<longrightarrow> cc_threads u t' = cc_threads s t'"
      using assms by (simp add: cc_step_def read_step_def)
    from storing [OF u(2,3)] u(1,4) show ?thesis
      by (intro exI [of _ "[Fetch t False, Store t, Close t]"]) auto
  next
    case (Fetched k f g c' x)
    with assms storing [of s k f g x] show ?thesis
      by (intro exI [of _ "[Store t, Close t]"]) auto
  next
    case (Stored k f g c' x)
    with assms closing [of s k f g x] show ?thesis by (intro exI [of _ "[Close t]"]) auto
  qed (use assms in auto)
qed

lemma cc_run_append:
  "cc_run body (as @ bs) s = (case cc_run body as s of None \<Rightarrow> None | Some s' \<Rightarrow> cc_run body bs s')"
  by (induction "as" arbitrary: s) (auto split: option.splits)

text \<open>C39: No follower hangs: whatever has happened, a waiting reader's flight is finished or has a
  leader that can finish it, with an answer, an error or a recovered panic, and at most four
  steps bring the reader to its reply.\<close>

theorem follower_is_released:
  assumes "cc_reachable body s" and "cc_threads s t = Waiting k f g c"
  shows "\<exists>as s' r. length as \<le> 4 \<and> cc_run body as s = Some s' \<and> cc_threads s' t = Replied k f r"
proof -
  note fl = flights_reachable [OF assms(1)]
  have c: "c < length (cc_calls s)"
    using invD(1) [OF cc_inv_reachable [OF assms(1)], of t] assms(2) by (simp add: thread_ok_def call_ok_def)
  have wake: "\<exists>s'. cc_run body [Wake t] u = Some s' \<and> cc_threads s' t = Replied k f r"
    if "cc_threads u t = Waiting k f g c" "fl_result (cc_calls u ! c) = Some r" for u r
    using that by (simp add: cc_step_def read_step_def)
  show ?thesis
  proof (cases "fl_result (cc_calls s ! c)")
    case (Some r)
    from wake [OF assms(2) Some] show ?thesis by (intro exI [of _ "[Wake t]"]) auto
  next
    case None
    then obtain t' where p: "pending (cc_threads s t') = Some c"
      using flights_okD(4) [OF fl c] by blast
    with assms(2) have "t \<noteq> t'" by auto
    with leader_can_finish [OF p c, of body] obtain as u r where u: "length as \<le> 3"
      "cc_run body as s = Some u" "fl_result (cc_calls u ! c) = Some r" "cc_threads u t = cc_threads s t"
      by blast
    from wake [OF _ u(3)] u assms(2) show ?thesis
      by (intro exI [of _ "as @ [Wake t]"]) (auto simp: cc_run_append simp del: cc_run.simps(2))
  qed
qed

theorem follower_is_released_witness:
  "\<exists>s as s' r. cc_run (\<lambda>_ v. v) flight_trace cc_init = Some s \<and> cc_run (\<lambda>_ v. v) as s = Some s'
     \<and> cc_threads s' 1 = Replied KStats 0 r"
proof -
  obtain s where s: "cc_run (\<lambda>_ v. v) flight_trace cc_init = Some s"
    and t: "cc_threads s 1 = Waiting KStats 0 0 0" using flight_trace_run by blast
  from follower_is_released [OF cc_run_reachable [OF cc_reachable.init s] t] s show ?thesis by blast
qed

end
