(* ===== verification/Accounts.thy ===== *)
theory Accounts
  imports Models Validators
begin

section \<open>User accounts\<close>

text \<open>
  Models the account tables and their operations: lockout, manual lock, administrators and
  purges of \<^verbatim>\<open>internal/database/database.go\<close>, \<^verbatim>\<open>password_history.go\<close> and \<^verbatim>\<open>seed.go\<close>, the
  account handlers of \<^verbatim>\<open>internal/handlers/users.go\<close>, \<^verbatim>\<open>change_password.go\<close> and
  \<^verbatim>\<open>password.go\<close>, and the recovery commands of \<^verbatim>\<open>cmd/user.go\<close>.  A table is the list of its
  rows in the order of their ids.  A handler runs its statements on the tables it began with
  and keeps the result only if every statement that aborts the transaction and the commit
  succeed; which calls fail is the argument \<open>fl\<close>.  The bcrypt library is a parameter.
\<close>

subsection \<open>Tables\<close>

record account =
  ac_id :: int
  ac_username :: string
  ac_email :: string
  ac_hash :: string
  ac_first_name :: string
  ac_last_name :: string
  ac_role :: string
  ac_enabled :: bool
  ac_failed :: int
  ac_locked_until :: "time option"
  ac_manual_until :: "time option"
  ac_tokens_after :: time
  ac_version :: int
  ac_must_change :: bool
  ac_changed_at :: time

record history_row =
  hr_id :: int
  hr_user :: int
  hr_hash :: string

record attempt_row =
  at_username :: string
  at_user :: "int option"
  at_ip :: string
  at_success :: bool
  at_time :: time

record log_row =
  lg_user :: "int option"
  lg_action :: string
  lg_details :: string
  lg_time :: time

record account_db =
  adb_users :: "account list"
  adb_next_user :: int
  adb_history :: "history_row list"
  adb_next_history :: int
  adb_attempts :: "attempt_row list"
  adb_log :: "log_row list"

definition find_account :: "int \<Rightarrow> account_db \<Rightarrow> account option" where
  "find_account uid db = find (\<lambda>a. ac_id a = uid) (adb_users db)"

text \<open>\<^verbatim>\<open>UPDATE users SET \<dots> WHERE id = ?\<close>\<close>

definition update_account :: "int \<Rightarrow> (account \<Rightarrow> account) \<Rightarrow> account_db \<Rightarrow> account_db" where
  "update_account uid f db =
     db\<lparr>adb_users := map (\<lambda>a. if ac_id a = uid then f a else a) (adb_users db)\<rparr>"

text \<open>\<^verbatim>\<open>DELETE FROM users WHERE id = ?\<close>: the history cascades, the logs keep their rows with a
  null user.\<close>

definition delete_account :: "int \<Rightarrow> account_db \<Rightarrow> account_db" where
  "delete_account uid db =
     db\<lparr>adb_users := filter (\<lambda>a. ac_id a \<noteq> uid) (adb_users db),
       adb_history := filter (\<lambda>h. hr_user h \<noteq> uid) (adb_history db),
       adb_attempts := map (\<lambda>t. if at_user t = Some uid then t\<lparr>at_user := None\<rparr> else t) (adb_attempts db),
       adb_log := map (\<lambda>l. if lg_user l = Some uid then l\<lparr>lg_user := None\<rparr> else l) (adb_log db)\<rparr>"

text \<open>\<^verbatim>\<open>INSERT INTO users\<close> under the unique indexes on the lower-cased user name and address;
  \<^const>\<open>None\<close> is a violation.\<close>

definition insert_account :: "account \<Rightarrow> account_db \<Rightarrow> (int \<times> account_db) option" where
  "insert_account a db =
     (if list_ex (\<lambda>b. to_lower (ac_username b) = to_lower (ac_username a)
          \<or> to_lower (ac_email b) = to_lower (ac_email a)) (adb_users db)
      then None
      else Some (adb_next_user db,
        db\<lparr>adb_users := adb_users db @ [a\<lparr>ac_id := adb_next_user db\<rparr>],
          adb_next_user := adb_next_user db + 1\<rparr>))"

text \<open>\<^verbatim>\<open>LogActivity\<close>: the row refers to its user, and the insert fails when the user is gone.\<close>

definition add_log :: "bool \<Rightarrow> time \<Rightarrow> int option \<Rightarrow> string \<Rightarrow> string \<Rightarrow> account_db \<Rightarrow> account_db option" where
  "add_log fails now uid action details db =
     (if fails \<or> (case uid of None \<Rightarrow> False | Some u \<Rightarrow> find_account u db = None) then None
      else Some (db\<lparr>adb_log := adb_log db @
        [\<lparr>lg_user = uid, lg_action = action, lg_details = details, lg_time = now\<rparr>]\<rparr>))"

text \<open>The best-effort form: a failure is logged and ignored.\<close>

definition add_log_try :: "bool \<Rightarrow> time \<Rightarrow> int option \<Rightarrow> string \<Rightarrow> string \<Rightarrow> account_db \<Rightarrow> account_db" where
  "add_log_try fails now uid action details db =
     (case add_log fails now uid action details db of None \<Rightarrow> db | Some db' \<Rightarrow> db')"

subsection \<open>Lockout\<close>

text \<open>Both callers log a failure of this insert and go on.\<close>

definition record_login_attempt ::
  "bool \<Rightarrow> time \<Rightarrow> string \<Rightarrow> string \<Rightarrow> int \<Rightarrow> bool \<Rightarrow> account_db \<Rightarrow> account_db" where
  "record_login_attempt fails now username ip uid success db =
     (if fails \<or> uid > 0 \<and> find_account uid db = None then db
      else db\<lparr>adb_attempts := adb_attempts db @ [\<lparr>at_username = username,
        at_user = (if uid > 0 then Some uid else None), at_ip = ip, at_success = success, at_time = now\<rparr>]\<rparr>)"

text \<open>The new count and whether it reached the threshold; \<^const>\<open>None\<close> when the row is gone.\<close>

definition increment_failed_logins ::
  "time \<Rightarrow> int \<Rightarrow> int \<Rightarrow> time \<Rightarrow> account_db \<Rightarrow> (int \<times> bool \<times> account_db) option" where
  "increment_failed_logins now uid threshold lock_for db =
     (let db' = update_account uid (\<lambda>a. a\<lparr>ac_failed := ac_failed a + 1,
            ac_locked_until := (if ac_failed a + 1 \<ge> threshold then Some (now + lock_for)
                                else ac_locked_until a)\<rparr>) db
      in case find_account uid db' of
           None \<Rightarrow> None
         | Some a \<Rightarrow> Some (ac_failed a, ac_failed a \<ge> threshold, db'))"

definition reset_failed_logins :: "int \<Rightarrow> account_db \<Rightarrow> account_db" where
  "reset_failed_logins uid = update_account uid (\<lambda>a. a\<lparr>ac_failed := 0, ac_locked_until := None\<rparr>)"

definition user_lock_status :: "time \<Rightarrow> int \<Rightarrow> account_db \<Rightarrow> bool" where
  "user_lock_status now uid db =
     (case find_account uid db of
        None \<Rightarrow> False
      | Some a \<Rightarrow> (case ac_locked_until a of None \<Rightarrow> False | Some t \<Rightarrow> t > now))"

definition manually_locked :: "time \<Rightarrow> int \<Rightarrow> account_db \<Rightarrow> bool" where
  "manually_locked now uid db =
     (case find_account uid db of
        None \<Rightarrow> False
      | Some a \<Rightarrow> (case ac_manual_until a of None \<Rightarrow> False | Some t \<Rightarrow> t > now))"

text \<open>\<^const>\<open>None\<close> refuses a duration that is not positive.\<close>

definition admin_lock_user :: "time \<Rightarrow> int \<Rightarrow> time \<Rightarrow> account_db \<Rightarrow> account_db option" where
  "admin_lock_user now uid lock_for db =
     (if lock_for \<le> 0 then None
      else Some (update_account uid (\<lambda>a. a\<lparr>ac_locked_until := Some (now + lock_for),
        ac_manual_until := Some (now + lock_for), ac_failed := 0,
        ac_tokens_after := now div second * second,
        ac_version := ac_version a + 1\<rparr>) db))"

definition admin_unlock_user :: "int \<Rightarrow> account_db \<Rightarrow> account_db" where
  "admin_unlock_user uid =
     update_account uid (\<lambda>a. a\<lparr>ac_failed := 0, ac_locked_until := None, ac_manual_until := None\<rparr>)"

definition enabled_admin :: "account \<Rightarrow> bool" where
  "enabled_admin a \<longleftrightarrow> ac_role a = ''admin'' \<and> ac_enabled a"

definition count_enabled_admins :: "account_db \<Rightarrow> nat" where
  "count_enabled_admins db = length (filter enabled_admin (adb_users db))"

definition is_last_enabled_admin :: "int \<Rightarrow> account_db \<Rightarrow> bool" where
  "is_last_enabled_admin uid db =
     (case find_account uid db of
        None \<Rightarrow> False
      | Some a \<Rightarrow> enabled_admin a \<and> count_enabled_admins db \<le> 1)"

subsection \<open>Purges\<close>

text \<open>One batched statement deletes at most \<open>batch\<close> of the rows older than the cutoff, in the
  order of their ids; the loop ends at the first short batch, at a failed statement, or when
  the context is done.  Statement \<open>i\<close> fails if \<open>fails i\<close>; the context is done after it
  if \<open>done i\<close>.\<close>

fun delete_oldest :: "nat \<Rightarrow> time \<Rightarrow> log_row list \<Rightarrow> log_row list" where
  "delete_oldest n cutoff [] = []"
| "delete_oldest 0 cutoff rows = rows"
| "delete_oldest (Suc n) cutoff (l # rows) =
     (if lg_time l < cutoff then delete_oldest n cutoff rows
      else l # delete_oldest (Suc n) cutoff rows)"

lemma delete_oldest_length: "length (delete_oldest n cutoff rows) \<le> length rows"
  by (induction n cutoff rows rule: delete_oldest.induct) auto

datatype purge_end = PurgeDone | PurgeFailed | PurgeCancelled

function purge_batches ::
  "(nat \<Rightarrow> bool) \<Rightarrow> (nat \<Rightarrow> bool) \<Rightarrow> nat \<Rightarrow> time \<Rightarrow> nat \<Rightarrow> nat \<Rightarrow> log_row list
    \<Rightarrow> purge_end \<times> nat \<times> log_row list" where
  "purge_batches fails stop batch cutoff i deleted rows =
     (if fails i then (PurgeFailed, deleted, rows)
      else
        let rows' = delete_oldest (Suc batch) cutoff rows;
            n = length rows - length rows' in
        if n < Suc batch then (PurgeDone, deleted + n, rows')
        else if stop i then (PurgeCancelled, deleted + n, rows')
        else purge_batches fails stop batch cutoff (Suc i) (deleted + n) rows')"
  by auto

termination
proof (relation "measure (\<lambda>(_, _, _, _, _, _, rows). length rows)")
  show "wf (measure (\<lambda>(_, _, _, _, _, _, rows). length rows))" by simp
next
  fix fails stop :: "nat \<Rightarrow> bool" and batch i deleted :: nat and cutoff :: time
    and rows rows' :: "log_row list" and n
  assume "\<not> fails i" "rows' = delete_oldest (Suc batch) cutoff rows" "n = length rows - length rows'"
    "\<not> n < Suc batch" "\<not> stop i"
  then show "((fails, stop, batch, cutoff, Suc i, deleted + n, rows'), fails, stop, batch, cutoff, i, deleted, rows)
      \<in> measure (\<lambda>(_, _, _, _, _, _, rows). length rows)"
    by simp
qed

text \<open>The batch size is positive here: the source replaces any other by 1000.\<close>

abbreviation day :: time where "day \<equiv> 24 * 60 * minute"

definition purge_activity_logs ::
  "(nat \<Rightarrow> bool) \<Rightarrow> (nat \<Rightarrow> bool) \<Rightarrow> time \<Rightarrow> int \<Rightarrow> int \<Rightarrow> account_db
    \<Rightarrow> purge_end \<times> nat \<times> account_db" where
  "purge_activity_logs fails stop now retention_days batch_size db =
     (if retention_days \<le> 0 then (PurgeDone, 0, db)
      else
        let batch = (if batch_size \<le> 0 then 1000 else nat batch_size) in
        case purge_batches fails stop (batch - 1) (now - retention_days * day) 0 0 (adb_log db) of
          (e, n, rows) \<Rightarrow> (e, n, db\<lparr>adb_log := rows\<rparr>))"

definition purge_login_attempts :: "time \<Rightarrow> int \<Rightarrow> account_db \<Rightarrow> nat \<times> account_db" where
  "purge_login_attempts now retention_hours db =
     (if retention_hours \<le> 0 then (0, db)
      else
        let keep = filter (\<lambda>t. \<not> at_time t < now - retention_hours * (60 * minute)) (adb_attempts db)
        in (length (adb_attempts db) - length keep, db\<lparr>adb_attempts := keep\<rparr>))"

subsection \<open>Password history\<close>

record bcrypt =
  bc_generate :: "string \<Rightarrow> string option"
  bc_matches :: "string \<Rightarrow> string \<Rightarrow> bool"

text \<open>\<^verbatim>\<open>ORDER BY id DESC LIMIT ?\<close>\<close>

definition recent_hashes :: "int \<Rightarrow> int \<Rightarrow> account_db \<Rightarrow> string list" where
  "recent_hashes uid limit db =
     take (nat limit) (rev (map hr_hash (filter (\<lambda>h. hr_user h = uid) (adb_history db))))"

text \<open>\<^const>\<open>None\<close> when the account row cannot be read.\<close>

definition password_history_reused ::
  "bcrypt \<Rightarrow> int \<Rightarrow> string \<Rightarrow> int \<Rightarrow> account_db \<Rightarrow> bool option" where
  "password_history_reused bc uid password limit db =
     (if limit \<le> 0 then Some False
      else case find_account uid db of
        None \<Rightarrow> None
      | Some a \<Rightarrow> Some (foldl (\<lambda>reused h. if bc_matches bc h password then True else reused)
          (bc_matches bc (ac_hash a) password) (recent_hashes uid limit db)))"

text \<open>The insert fails its foreign key when the account is gone.\<close>

definition record_password :: "int \<Rightarrow> string \<Rightarrow> account_db \<Rightarrow> account_db option" where
  "record_password uid hash db =
     (if find_account uid db = None then None
      else Some (db\<lparr>adb_history := adb_history db @
          [\<lparr>hr_id = adb_next_history db, hr_user = uid, hr_hash = hash\<rparr>],
        adb_next_history := adb_next_history db + 1\<rparr>))"

definition prune_password_history :: "int \<Rightarrow> int \<Rightarrow> account_db \<Rightarrow> account_db" where
  "prune_password_history uid limit db =
     (if limit \<le> 0 then db
      else
        let keep = take (nat limit) (rev (map hr_id (filter (\<lambda>h. hr_user h = uid) (adb_history db))))
        in db\<lparr>adb_history := filter (\<lambda>h. \<not> (hr_user h = uid \<and> hr_id h \<notin> set keep)) (adb_history db)\<rparr>)"

subsection \<open>Handlers\<close>

text \<open>The calls of a handler that may fail, \<^term>\<open>CallPrimary\<close> being the write the handler is for.\<close>

datatype db_call =
    CallRead | CallBegin | CallTarget | CallCount | CallPrimary | CallHistory | CallPassword
  | CallRecord | CallPrune | CallLog | CallCommit

type_synonym calls = "db_call \<Rightarrow> bool"

datatype account_error =
    FieldInvalid validation_error | HashFailed | DuplicateUser | OwnStatusChange
  | LastAdminChange | LastAdminDelete | PasswordReused | PasswordBlank | PasswordMismatch
  | WrongCurrentPassword | InvalidUserId | OwnLock

text \<open>\<^verbatim>\<open>http.Redirect\<close>, \<^verbatim>\<open>renderError\<close> (400), a 404 page and
  \<^verbatim>\<open>renderInternalError\<close> (500).\<close>

datatype page = SeeOther string | ErrorPage account_error | NotFoundPage | ServerErrorPage

record password_config =
  pc_policy :: password_policy
  pc_history :: int
  pc_max_age_days :: int

record user_form =
  uf_username :: string
  uf_email :: string
  uf_password :: string
  uf_first_name :: string
  uf_last_name :: string
  uf_role :: string
  uf_flag :: string

definition form_flag :: "string \<Rightarrow> bool" where
  "form_flag s = (let t = trim_space s in t = ''1'' \<or> t = ''on'' \<or> t = ''true'')"

definition commit_page :: "calls \<Rightarrow> string \<Rightarrow> account_db \<Rightarrow> account_db \<Rightarrow> page \<times> account_db" where
  "commit_page fl target db' db = (if fl CallCommit then (ServerErrorPage, db) else (SeeOther target, db'))"

definition rotated_row :: "string \<Rightarrow> time \<Rightarrow> bool \<Rightarrow> account \<Rightarrow> account" where
  "rotated_row h now must a =
     a\<lparr>ac_hash := h, ac_changed_at := now, ac_must_change := must,
       ac_tokens_after := now div second * second, ac_version := ac_version a + 1\<rparr>"

text \<open>The part the three password writers share: reuse check, hash, update, history.\<close>

definition rotate_password ::
  "bcrypt \<Rightarrow> calls \<Rightarrow> int \<Rightarrow> time \<Rightarrow> int \<Rightarrow> string \<Rightarrow> bool \<Rightarrow> account_db \<Rightarrow> page + account_db" where
  "rotate_password bc fl hist now uid password must db =
     (case (if hist > 0
            then if fl CallHistory then None else password_history_reused bc uid password hist db
            else Some False) of
        None \<Rightarrow> Inl ServerErrorPage
      | Some reused \<Rightarrow>
          if reused then Inl (ErrorPage PasswordReused)
          else (case bc_generate bc password of
            None \<Rightarrow> Inl (ErrorPage HashFailed)
          | Some h \<Rightarrow>
              if fl CallPassword then Inl ServerErrorPage
              else
                let db1 = update_account uid (rotated_row h now must) db in
                if hist > 0 then
                  (case (if fl CallRecord then None else record_password uid h db1) of
                     None \<Rightarrow> Inl ServerErrorPage
                   | Some db2 \<Rightarrow>
                       if fl CallPrune then Inl ServerErrorPage
                       else Inr (prune_password_history uid hist db2))
                else Inr db1))"

lemma rotate_password_InrE:
  assumes "rotate_password bc fl hist now uid password must db = Inr db'"
  obtains h where "bc_generate bc password = Some h"
    "hist > 0 \<Longrightarrow> password_history_reused bc uid password hist db = Some False"
    "hist \<le> 0 \<Longrightarrow> db' = update_account uid (rotated_row h now must) db"
    "hist > 0 \<Longrightarrow> \<exists>d2. record_password uid h (update_account uid (rotated_row h now must) db) = Some d2
       \<and> db' = prune_password_history uid hist d2"
proof -
  from assms obtain h where "bc_generate bc password = Some h"
    by (auto simp: rotate_password_def split: if_splits option.splits)
  with assms show thesis
    by (intro that [of h]) (auto simp: rotate_password_def Let_def split: if_splits option.splits)
qed

definition new_account :: "user_form \<Rightarrow> string \<Rightarrow> time \<Rightarrow> account" where
  "new_account f h now =
     \<lparr>ac_id = 0, ac_username = to_lower (trim_space (uf_username f)),
      ac_email = to_lower (trim_space (uf_email f)), ac_hash = h,
      ac_first_name = trim_space (uf_first_name f), ac_last_name = trim_space (uf_last_name f),
      ac_role = trim_space (uf_role f), ac_enabled = True, ac_failed = 0, ac_locked_until = None,
      ac_manual_until = None, ac_tokens_after = 0, ac_version = 0,
      ac_must_change = form_flag (uf_flag f), ac_changed_at = now\<rparr>"

definition create_user_tx ::
  "password_config \<Rightarrow> calls \<Rightarrow> time \<Rightarrow> int \<Rightarrow> user_form \<Rightarrow> string \<Rightarrow> account_db \<Rightarrow> page \<times> account_db" where
  "create_user_tx pc fl now admin f h db =
     (if fl CallBegin \<or> fl CallPrimary then (ServerErrorPage, db)
      else case insert_account (new_account f h now) db of
        None \<Rightarrow> (ErrorPage DuplicateUser, db)
      | Some (uid, db1) \<Rightarrow>
          (case add_log (fl CallLog) now (Some admin) ''create_user''
              (''Created user '' @ to_lower (trim_space (uf_username f)) @ '' (id: '' @ dec_int uid @ '')'') db1 of
             None \<Rightarrow> (ServerErrorPage, db)
           | Some db2 \<Rightarrow>
               if pc_history pc > 0 then
                 (case (if fl CallRecord then None else record_password uid h db2) of
                    None \<Rightarrow> (ServerErrorPage, db)
                  | Some db3 \<Rightarrow> commit_page fl ''/users'' db3 db)
               else commit_page fl ''/users'' db2 db))"

definition create_user ::
  "(nat \<Rightarrow> rune_class) \<Rightarrow> bcrypt \<Rightarrow> password_config \<Rightarrow> calls \<Rightarrow> time \<Rightarrow> int \<Rightarrow> user_form \<Rightarrow> account_db
    \<Rightarrow> page \<times> account_db" where
  "create_user classify bc pc fl now admin f db =
     (let username = to_lower (trim_space (uf_username f));
          email = to_lower (trim_space (uf_email f)) in
      if username = [] \<or> email = [] \<or> uf_password f = [] then (SeeOther ''/users/new'', db)
      else (case validate_username username of Some e \<Rightarrow> (ErrorPage (FieldInvalid e), db)
      | None \<Rightarrow> (case validate_email email of Some e \<Rightarrow> (ErrorPage (FieldInvalid e), db)
      | None \<Rightarrow> (case validate_password classify (uf_password f) (pc_policy pc) of
          Some e \<Rightarrow> (ErrorPage (FieldInvalid e), db)
      | None \<Rightarrow> (case validate_role (trim_space (uf_role f)) of Some e \<Rightarrow> (ErrorPage (FieldInvalid e), db)
      | None \<Rightarrow> (case bc_generate bc (uf_password f) of None \<Rightarrow> (ErrorPage HashFailed, db)
      | Some h \<Rightarrow> create_user_tx pc fl now admin f h db))))))"

text \<open>The profile update; an account seen enabled and now disabled loses its sessions.\<close>

definition edited_row :: "time \<Rightarrow> user_form \<Rightarrow> bool \<Rightarrow> account \<Rightarrow> account" where
  "edited_row now f was_enabled a =
     (let enabled = form_flag (uf_flag f);
          revoke = was_enabled \<and> \<not> enabled in
      a\<lparr>ac_email := to_lower (trim_space (uf_email f)), ac_first_name := trim_space (uf_first_name f),
        ac_last_name := trim_space (uf_last_name f), ac_role := trim_space (uf_role f),
        ac_enabled := enabled,
        ac_tokens_after := (if revoke then now div second * second else ac_tokens_after a),
        ac_version := (if revoke then ac_version a + 1 else ac_version a)\<rparr>)"

text \<open>The transaction of an update, for the target as it was fetched before.\<close>

definition update_user_tx ::
  "bcrypt \<Rightarrow> password_config \<Rightarrow> calls \<Rightarrow> time \<Rightarrow> int \<Rightarrow> int \<Rightarrow> user_form \<Rightarrow> account \<Rightarrow> account_db
    \<Rightarrow> page \<times> account_db" where
  "update_user_tx bc pc fl now admin uid f target db =
     (let email = to_lower (trim_space (uf_email f));
          guarded = enabled_admin target
            \<and> (trim_space (uf_role f) \<noteq> ''admin'' \<or> \<not> form_flag (uf_flag f)) in
      if fl CallBegin then (ServerErrorPage, db)
      else if guarded \<and> fl CallCount then (ServerErrorPage, db)
      else if guarded \<and> count_enabled_admins db \<le> 1 then (ErrorPage LastAdminChange, db)
      else if fl CallPrimary \<or> find_account uid db \<noteq> None
          \<and> list_ex (\<lambda>b. ac_id b \<noteq> uid \<and> to_lower (ac_email b) = to_lower email) (adb_users db)
      then (ServerErrorPage, db)
      else
        let db1 = update_account uid (edited_row now f (ac_enabled target)) db in
        case (if uf_password f = [] then Inr db1
              else rotate_password bc fl (pc_history pc) now uid (uf_password f) True db1) of
          Inl p \<Rightarrow> (p, db)
        | Inr db2 \<Rightarrow>
            (case add_log (fl CallLog) now (Some admin) ''update_user''
                (''Updated user '' @ dec_int uid) db2 of
               None \<Rightarrow> (ServerErrorPage, db)
             | Some db3 \<Rightarrow> commit_page fl ''/users'' db3 db))"

text \<open>\<open>seen\<close> is the database at the moment the target was fetched.\<close>

definition update_user ::
  "(nat \<Rightarrow> rune_class) \<Rightarrow> bcrypt \<Rightarrow> password_config \<Rightarrow> calls \<Rightarrow> time \<Rightarrow> int \<Rightarrow> int \<Rightarrow> user_form
    \<Rightarrow> account_db \<Rightarrow> account_db \<Rightarrow> page \<times> account_db" where
  "update_user classify bc pc fl now admin uid f seen db =
     (case validate_role (trim_space (uf_role f)) of Some e \<Rightarrow> (ErrorPage (FieldInvalid e), db)
      | None \<Rightarrow> (case validate_email (to_lower (trim_space (uf_email f))) of
          Some e \<Rightarrow> (ErrorPage (FieldInvalid e), db)
      | None \<Rightarrow> (case (if uf_password f = [] then None
                  else validate_password classify (uf_password f) (pc_policy pc)) of
          Some e \<Rightarrow> (ErrorPage (FieldInvalid e), db)
      | None \<Rightarrow> (case (if fl CallRead then None else find_account uid seen) of
          None \<Rightarrow> (NotFoundPage, db)
      | Some target \<Rightarrow>
          if uid = admin \<and> (trim_space (uf_role f) \<noteq> ac_role target
              \<or> form_flag (uf_flag f) \<noteq> ac_enabled target)
          then (ErrorPage OwnStatusChange, db)
          else update_user_tx bc pc fl now admin uid f target db))))"

definition delete_user :: "calls \<Rightarrow> time \<Rightarrow> int \<Rightarrow> int \<Rightarrow> account_db \<Rightarrow> page \<times> account_db" where
  "delete_user fl now admin uid db =
     (if uid = admin then (SeeOther ''/users'', db)
      else if fl CallBegin then (ServerErrorPage, db)
      else case (if fl CallTarget then None else find_account uid db) of
        None \<Rightarrow> (NotFoundPage, db)
      | Some target \<Rightarrow>
          if enabled_admin target \<and> fl CallCount then (ServerErrorPage, db)
          else if enabled_admin target \<and> count_enabled_admins db \<le> 1 then (ErrorPage LastAdminDelete, db)
          else if fl CallPrimary then (ServerErrorPage, db)
          else (case add_log (fl CallLog) now (Some admin) ''delete_user''
              (''Deleted user '' @ dec_int uid) (delete_account uid db) of
            None \<Rightarrow> (ServerErrorPage, db)
          | Some db' \<Rightarrow> commit_page fl ''/users'' db' db))"

text \<open>The identifiers of the form, parsed, positive, each once.\<close>

fun bulk_ids :: "int list \<Rightarrow> string list \<Rightarrow> int list" where
  "bulk_ids seen [] = []"
| "bulk_ids seen (s # ss) =
     (case atoi (trim_space s) of
        None \<Rightarrow> bulk_ids seen ss
      | Some i \<Rightarrow>
          if i \<le> 0 \<or> i \<in> set seen then bulk_ids seen ss
          else i # bulk_ids (i # seen) ss)"

text \<open>The loop of the batch: the calls of each round fail on their own; \<^const>\<open>None\<close> aborts.\<close>

fun bulk_delete_loop ::
  "(int \<Rightarrow> calls) \<Rightarrow> time \<Rightarrow> int \<Rightarrow> int list \<Rightarrow> account_db \<Rightarrow> (nat \<times> int list \<times> account_db) option" where
  "bulk_delete_loop fl now admin [] db = Some (0, [], db)"
| "bulk_delete_loop fl now admin (uid # ids) db =
     (let skip = map_option (\<lambda>(n, failed, db'). (n, uid # failed, db')) (bulk_delete_loop fl now admin ids db) in
      if uid = admin then skip
      else if fl uid CallTarget then None
      else case find_account uid db of
        None \<Rightarrow> skip
      | Some target \<Rightarrow>
          if enabled_admin target \<and> fl uid CallCount then None
          else if enabled_admin target \<and> count_enabled_admins db \<le> 1 then skip
          else if fl uid CallPrimary then None
          else (case add_log (fl uid CallLog) now (Some admin) ''delete_user''
              (''Deleted user '' @ dec_int uid) (delete_account uid db) of
            None \<Rightarrow> None
          | Some db1 \<Rightarrow> map_option (\<lambda>(n, failed, db'). (Suc n, failed, db'))
              (bulk_delete_loop fl now admin ids db1)))"

datatype bulk_reply = BulkInvalid | BulkFailed | BulkDone nat "int list"

definition bulk_delete_users ::
  "(int \<Rightarrow> calls) \<Rightarrow> calls \<Rightarrow> time \<Rightarrow> int \<Rightarrow> string list \<Rightarrow> account_db \<Rightarrow> bulk_reply \<times> account_db" where
  "bulk_delete_users flr fl now admin form db =
     (let ids = bulk_ids [] form in
      if ids = [] then (BulkInvalid, db)
      else if fl CallBegin then (BulkFailed, db)
      else case bulk_delete_loop flr now admin ids db of
        None \<Rightarrow> (BulkFailed, db)
      | Some (n, failed, db') \<Rightarrow>
          if fl CallCommit then (BulkFailed, db) else (BulkDone n failed, db'))"

definition manual_lock_horizon :: time where
  "manual_lock_horizon = 100 * 365 * day"

definition lock_user :: "calls \<Rightarrow> time \<Rightarrow> int \<Rightarrow> int \<Rightarrow> account_db \<Rightarrow> page \<times> account_db" where
  "lock_user fl now admin uid db =
     (if uid \<le> 0 then (ErrorPage InvalidUserId, db)
      else if admin = uid then (ErrorPage OwnLock, db)
      else if fl CallTarget \<or> find_account uid db = None then (NotFoundPage, db)
      else case (if fl CallPrimary then None else admin_lock_user now uid manual_lock_horizon db) of
        None \<Rightarrow> (ServerErrorPage, db)
      | Some db' \<Rightarrow> (SeeOther ''/users'',
          add_log_try (fl CallLog) now (Some admin) ''lock_user'' (''Locked user id='' @ dec_int uid) db'))"

definition unlock_user :: "calls \<Rightarrow> time \<Rightarrow> int \<Rightarrow> int \<Rightarrow> account_db \<Rightarrow> page \<times> account_db" where
  "unlock_user fl now admin uid db =
     (if uid \<le> 0 then (ErrorPage InvalidUserId, db)
      else case (if fl CallTarget then None else find_account uid db) of
        None \<Rightarrow> (NotFoundPage, db)
      | Some target \<Rightarrow>
          if fl CallPrimary then (ServerErrorPage, db)
          else (SeeOther ''/users'', add_log_try (fl CallLog) now (Some admin) ''unlock_user''
            (''Unlocked user '' @ ac_username target @ '' (id='' @ dec_int uid @ '')'')
            (admin_unlock_user uid db)))"

text \<open>\<open>user\<close> is the session's user.  The new token carries the bumped version; issuing it may
  fail (\<open>token\<close>) after the commit.\<close>

definition change_password ::
  "(nat \<Rightarrow> rune_class) \<Rightarrow> bcrypt \<Rightarrow> password_config \<Rightarrow> calls \<Rightarrow> bool \<Rightarrow> time \<Rightarrow> user option
    \<Rightarrow> string \<Rightarrow> string \<Rightarrow> string \<Rightarrow> account_db \<Rightarrow> page \<times> int option \<times> account_db" where
  "change_password classify bc pc fl token now user current new_password confirm db =
     (case user of None \<Rightarrow> (SeeOther ''/login'', None, db)
      | Some u \<Rightarrow>
          if new_password = [] then (ErrorPage PasswordBlank, None, db)
          else if new_password \<noteq> confirm then (ErrorPage PasswordMismatch, None, db)
          else (case validate_password classify new_password (pc_policy pc) of
            Some e \<Rightarrow> (ErrorPage (FieldInvalid e), None, db)
          | None \<Rightarrow>
              if fl CallBegin then (ServerErrorPage, None, db)
              else (case (if fl CallTarget then None else find_account (u_id u) db) of
                None \<Rightarrow> (ServerErrorPage, None, db)
              | Some a \<Rightarrow>
                  if \<not> bc_matches bc (ac_hash a) current then (ErrorPage WrongCurrentPassword, None, db)
                  else (case rotate_password bc fl (pc_history pc) now (u_id u) new_password False db of
                    Inl p \<Rightarrow> (p, None, db)
                  | Inr db1 \<Rightarrow>
                      (case add_log (fl CallLog) now (Some (u_id u)) ''change_password''
                          ''User changed their own password'' db1 of
                         None \<Rightarrow> (ServerErrorPage, None, db)
                       | Some db2 \<Rightarrow>
                           if fl CallCommit then (ServerErrorPage, None, db)
                           else if token then (ServerErrorPage, None, db2)
                           else (SeeOther ''/dashboard'', Some (u_credential_version u + 1), db2))))))"

definition password_expired :: "int \<Rightarrow> time \<Rightarrow> time option \<Rightarrow> bool" where
  "password_expired max_age_days now changed_at =
     (case changed_at of None \<Rightarrow> False
      | Some t \<Rightarrow> max_age_days > 0 \<and> now - t > max_age_days * day)"

definition password_expiry_warn_days :: "int \<Rightarrow> int \<Rightarrow> time \<Rightarrow> time option \<Rightarrow> int" where
  "password_expiry_warn_days max_age_days warn_days now changed_at =
     (case changed_at of None \<Rightarrow> 0
      | Some t \<Rightarrow>
          if max_age_days \<le> 0 \<or> warn_days \<le> 0 then 0
          else
            let age_days = (if now \<ge> t then (now - t) div day else - ((t - now) div day));
                remaining = max_age_days - age_days in
            if remaining \<le> 0 \<or> remaining > warn_days then 0 else remaining)"

subsection \<open>Recovery commands\<close>

definition resolve_user :: "string \<Rightarrow> account_db \<Rightarrow> account option" where
  "resolve_user ident db =
     (case atoi ident of
        Some i \<Rightarrow> if i > 0 then find_account i db
          else find (\<lambda>a. to_lower (ac_username a) = to_lower (trim_space ident)) (adb_users db)
      | None \<Rightarrow> find (\<lambda>a. to_lower (ac_username a) = to_lower (trim_space ident)) (adb_users db))"

datatype cli_result = CliOk | CliNotFound | CliReused | CliHash | CliFailed

text \<open>The identity of the operator is the argument \<open>who\<close>; \<^verbatim>\<open>%q\<close> of a user name, which
  the validators keep free of quotes, is the name in quotes.\<close>

definition unlock_user_cli :: "calls \<Rightarrow> time \<Rightarrow> string \<Rightarrow> string \<Rightarrow> account_db \<Rightarrow> cli_result \<times> account_db" where
  "unlock_user_cli fl now who ident db =
     (if fl CallBegin then (CliFailed, db)
      else if fl CallTarget then (CliFailed, db)
      else case resolve_user ident db of
        None \<Rightarrow> (CliNotFound, db)
      | Some a \<Rightarrow>
          if fl CallPrimary then (CliFailed, db)
          else (CliOk, add_log_try (fl CallLog) now None ''unlock_user_cli''
            (''Unlocked user id='' @ dec_int (ac_id a) @ '' username='' @ CHR 0x22 # ac_username a
              @ CHR 0x22 # '' by CLI operator '' @ who)
            (admin_unlock_user (ac_id a) db)))"

definition reset_user_password ::
  "bcrypt \<Rightarrow> password_config \<Rightarrow> calls \<Rightarrow> time \<Rightarrow> string \<Rightarrow> string \<Rightarrow> string \<Rightarrow> account_db
    \<Rightarrow> cli_result \<times> account_db" where
  "reset_user_password bc pc fl now who ident password db =
     (if fl CallBegin \<or> fl CallTarget then (CliFailed, db)
      else case resolve_user ident db of
        None \<Rightarrow> (CliNotFound, db)
      | Some a \<Rightarrow>
          (case rotate_password bc fl (pc_history pc) now (ac_id a) password True db of
             Inl p \<Rightarrow> (if p = ErrorPage PasswordReused then CliReused
                       else if p = ErrorPage HashFailed then CliHash else CliFailed, db)
           | Inr db1 \<Rightarrow>
               let db2 = add_log_try (fl CallLog) now None ''reset_password_cli''
                     (''Reset password for user id='' @ dec_int (ac_id a) @ '' username='' @ CHR 0x22 #
                       ac_username a @ CHR 0x22 # '' by CLI operator '' @ who) db1 in
               if fl CallCommit then (CliFailed, db) else (CliOk, db2)))"

subsection \<open>The first administrator\<close>

record admin_config =
  sc_require_secret_key :: bool
  sc_username :: string
  sc_email :: string
  sc_password :: string
  sc_first_name :: string
  sc_last_name :: string

definition default_admin_password :: string where "default_admin_password = ''admin''"

datatype seed_result = SeedOk | SeedRefused | SeedFailed

text \<open>\<open>counted\<close> is the database when the users were counted.\<close>

definition seed_admin_user ::
  "bcrypt \<Rightarrow> admin_config \<Rightarrow> calls \<Rightarrow> time \<Rightarrow> account_db \<Rightarrow> account_db \<Rightarrow> seed_result \<times> account_db" where
  "seed_admin_user bc cfg fl now counted db =
     (if sc_require_secret_key cfg \<and> sc_password cfg = default_admin_password then (SeedRefused, db)
      else if fl CallCount then (SeedFailed, db)
      else if adb_users counted \<noteq> [] then (SeedOk, db)
      else case bc_generate bc (sc_password cfg) of None \<Rightarrow> (SeedFailed, db)
      | Some h \<Rightarrow>
          if fl CallBegin \<or> fl CallPrimary then (SeedFailed, db)
          else (case insert_account \<lparr>ac_id = 0, ac_username = to_lower (trim_space (sc_username cfg)),
                ac_email = to_lower (trim_space (sc_email cfg)), ac_hash = h,
                ac_first_name = sc_first_name cfg, ac_last_name = sc_last_name cfg,
                ac_role = ''admin'', ac_enabled = True, ac_failed = 0, ac_locked_until = None,
                ac_manual_until = None, ac_tokens_after = 0, ac_version = 0,
                ac_must_change = False, ac_changed_at = now\<rparr> db of
            None \<Rightarrow> (if fl CallCommit then SeedFailed else SeedOk, db)
          | Some (uid, db1) \<Rightarrow>
              if fl CallRead then (SeedFailed, db)
              else (case (if fl CallRecord then None else record_password uid h db1) of
                None \<Rightarrow> (SeedFailed, db)
              | Some db2 \<Rightarrow> if fl CallCommit then (SeedFailed, db) else (SeedOk, db2))))"

end
