(* ===== verification/Sessions.thy ===== *)
theory Sessions
  imports Models
begin

section \<open>Session lifetimes\<close>

text \<open>
  Models \<^verbatim>\<open>internal/database/sessions.go\<close> and \<^verbatim>\<open>internal/middleware/session_tracker.go\<close>.
  The table of sessions is a map shared by all instances; a tracker is one instance's policy
  and cache.  Whether a database call fails is an argument, one flag per call.  A zero
  \<^verbatim>\<open>time.Time\<close> for \<^verbatim>\<open>iat\<close> is \<^const>\<open>None\<close>.  The lock of a tracker covers a whole
  \<^verbatim>\<open>Touch\<close>, so an operation on an instance is one step.
\<close>


subsection \<open>The table\<close>

record session_row =
  sr_first_seen :: time
  sr_last_seen :: time
  sr_expires_at :: time

type_synonym sessions = "string \<rightharpoonup> session_row"

text \<open>\<^const>\<open>None\<close> is an error of the database.\<close>

definition session_get :: "bool \<Rightarrow> string \<Rightarrow> sessions \<Rightarrow> session_row option option" where
  "session_get fails sid db = (if fails then None else Some (db sid))"

definition session_insert ::
  "bool \<Rightarrow> string \<Rightarrow> time \<Rightarrow> time \<Rightarrow> time \<Rightarrow> sessions \<Rightarrow> bool \<times> sessions" where
  "session_insert fails sid first last_at expires db =
     (if fails then (False, db)
      else (True, case db sid of Some r \<Rightarrow> db
        | None \<Rightarrow> db(sid \<mapsto> \<lparr>sr_first_seen = first, sr_last_seen = last_at, sr_expires_at = expires\<rparr>)))"

text \<open>The first component: an error, or whether a row matched.\<close>

definition session_touch ::
  "bool \<Rightarrow> string \<Rightarrow> time \<Rightarrow> time \<Rightarrow> sessions \<Rightarrow> bool option \<times> sessions" where
  "session_touch fails sid last_at expires db =
     (if fails then (None, db)
      else case db sid of
        None \<Rightarrow> (Some False, db)
      | Some r \<Rightarrow> (Some True, db(sid \<mapsto> r\<lparr>sr_last_seen := last_at, sr_expires_at := expires\<rparr>)))"

definition session_delete :: "bool \<Rightarrow> string \<Rightarrow> sessions \<Rightarrow> sessions" where
  "session_delete fails sid db = (if fails then db else db(sid := None))"

definition session_purge_expired :: "bool \<Rightarrow> time \<Rightarrow> sessions \<Rightarrow> sessions" where
  "session_purge_expired fails now db =
     (if fails then db
      else (\<lambda>sid. case db sid of None \<Rightarrow> None
        | Some r \<Rightarrow> if sr_expires_at r \<le> now then None else Some r))"

subsection \<open>Policy\<close>

record session_policy =
  sp_idle :: int
  sp_absolute :: int
  sp_access_ttl :: int

definition refresh_threshold :: "session_policy \<Rightarrow> int" where
  "refresh_threshold p =
     (if sp_access_ttl p \<le> 0 then 0
      else
        let th = sp_access_ttl p div 10;
            th = (if th > 5 * minute then 5 * minute else th) in
        if th < 30 * second then 30 * second else th)"

definition session_write_interval :: int where
  "session_write_interval = minute"

definition session_purge_tick_window :: "session_policy \<Rightarrow> int" where
  "session_purge_tick_window p =
     (let w = sp_idle p;
          w = (if sp_absolute p > w then sp_absolute p else w);
          w = (if sp_access_ttl p > w then sp_access_ttl p else w);
          w = (if w \<le> 0 then 30 * minute else w)
      in 2 * w)"

definition expires_at :: "session_policy \<Rightarrow> time \<Rightarrow> time" where
  "expires_at p last_seen =
     (let w = sp_idle p;
          w = (if sp_absolute p > w then sp_absolute p else w);
          w = (if sp_access_ttl p > w then sp_access_ttl p else w);
          w = (if w \<le> 0 then 30 * minute else w)
      in last_seen + 2 * w)"

definition seed_time :: "time option \<Rightarrow> time \<Rightarrow> time" where
  "seed_time iat now = (case iat of None \<Rightarrow> now | Some t \<Rightarrow> if t > now then now else t)"

subsection \<open>The tracker\<close>

record track_entry =
  te_first_seen :: time
  te_last_seen :: time
  te_last_written :: time

type_synonym track_cache = "string \<rightharpoonup> track_entry"

record tracker =
  tr_has_db :: bool
  tr_policy :: session_policy
  tr_cache :: track_cache

record db_faults =
  df_get :: bool
  df_insert :: bool
  df_touch :: bool
  df_delete :: bool

datatype load_result = LoadDenied | LoadFailedOpen | Loaded track_entry

definition load_or_seed ::
  "session_policy \<Rightarrow> db_faults \<Rightarrow> string \<Rightarrow> time option \<Rightarrow> time \<Rightarrow> track_cache \<Rightarrow> sessions
    \<Rightarrow> load_result \<times> track_cache \<times> sessions" where
  "load_or_seed p fl sid iat now cache db =
     (case session_get (df_get fl) sid db of
        None \<Rightarrow>
          (LoadFailedOpen,
           cache(sid \<mapsto> \<lparr>te_first_seen = seed_time iat now, te_last_seen = now, te_last_written = now\<rparr>),
           db)
      | Some None \<Rightarrow>
          let first = seed_time iat now in
          if sp_idle p > 0 \<and> now - first > sp_idle p then (LoadDenied, cache, db)
          else
            let e = \<lparr>te_first_seen = first, te_last_seen = now, te_last_written = now\<rparr> in
            (Loaded e, cache(sid \<mapsto> e),
             snd (session_insert (df_insert fl) sid first now (expires_at p now) db))
      | Some (Some r) \<Rightarrow>
          let e = \<lparr>te_first_seen = sr_first_seen r, te_last_seen = sr_last_seen r,
                    te_last_written = sr_last_seen r\<rparr> in
          (Loaded e, cache(sid \<mapsto> e), db))"

text \<open>\<^verbatim>\<open>Touch\<close> after the entry is at hand.\<close>

definition touch_entry ::
  "session_policy \<Rightarrow> db_faults \<Rightarrow> string \<Rightarrow> time \<Rightarrow> track_entry \<Rightarrow> track_cache \<Rightarrow> sessions
    \<Rightarrow> bool \<times> track_cache \<times> sessions" where
  "touch_entry p fl sid now e cache db =
     (if sp_idle p > 0 \<and> now - te_last_seen e > sp_idle p
      then (False, cache(sid := None), session_delete (df_delete fl) sid db)
      else
        let e' = e\<lparr>te_last_seen := now\<rparr> in
        if now - te_last_written e' \<ge> session_write_interval then
          (case session_touch (df_touch fl) sid now (expires_at p now) db of
             (None, db') \<Rightarrow> (True, cache(sid \<mapsto> e'), db')
           | (Some False, db') \<Rightarrow> (False, cache(sid := None), db')
           | (Some True, db') \<Rightarrow> (True, cache(sid \<mapsto> e'\<lparr>te_last_written := now\<rparr>), db'))
        else (True, cache(sid \<mapsto> e'), db))"

definition touch ::
  "db_faults \<Rightarrow> string \<Rightarrow> time option \<Rightarrow> time \<Rightarrow> tracker \<Rightarrow> sessions \<Rightarrow> bool \<times> tracker \<times> sessions" where
  "touch fl sid iat now tr db =
     (if \<not> tr_has_db tr \<or> sid = [] then (True, tr, db)
      else if sp_idle (tr_policy tr) \<le> 0 \<and> sp_absolute (tr_policy tr) \<le> 0 then (True, tr, db)
      else
        case tr_cache tr sid of
          Some e \<Rightarrow>
            (case touch_entry (tr_policy tr) fl sid now e (tr_cache tr) db of
               (ok, c, db') \<Rightarrow> (ok, tr\<lparr>tr_cache := c\<rparr>, db'))
        | None \<Rightarrow>
            (case load_or_seed (tr_policy tr) fl sid iat now (tr_cache tr) db of
               (LoadDenied, c, db') \<Rightarrow> (False, tr\<lparr>tr_cache := c\<rparr>, db')
             | (LoadFailedOpen, c, db') \<Rightarrow> (True, tr\<lparr>tr_cache := c\<rparr>, db')
             | (Loaded e, c, db') \<Rightarrow>
                 (case touch_entry (tr_policy tr) fl sid now e c db' of
                    (ok, c', db'') \<Rightarrow> (ok, tr\<lparr>tr_cache := c'\<rparr>, db''))))"

definition first_seen ::
  "bool \<Rightarrow> string \<Rightarrow> time option \<Rightarrow> time \<Rightarrow> tracker \<Rightarrow> sessions \<Rightarrow> time" where
  "first_seen fails sid iat now tr db =
     (if \<not> tr_has_db tr then seed_time iat now
      else case tr_cache tr sid of
        Some e \<Rightarrow> te_first_seen e
      | None \<Rightarrow>
          (case session_get fails sid db of
             Some (Some r) \<Rightarrow> sr_first_seen r
           | _ \<Rightarrow> seed_time iat now))"

definition remember ::
  "bool \<Rightarrow> string \<Rightarrow> time \<Rightarrow> time \<Rightarrow> tracker \<Rightarrow> sessions \<Rightarrow> tracker \<times> sessions" where
  "remember fails sid first last_at tr db =
     (if \<not> tr_has_db tr \<or> sid = [] then (tr, db)
      else
        case session_touch fails sid last_at (expires_at (tr_policy tr) last_at) db of
          (updated, db') \<Rightarrow>
            (if updated = Some True
             then (tr\<lparr>tr_cache := (tr_cache tr)(sid \<mapsto>
                     \<lparr>te_first_seen = first, te_last_seen = last_at, te_last_written = last_at\<rparr>)\<rparr>, db')
             else (tr\<lparr>tr_cache := (tr_cache tr)(sid := None)\<rparr>, db')))"

text \<open>One tick of \<^verbatim>\<open>cleanup\<close>; the clock is read twice.\<close>

definition cleanup_tick ::
  "bool \<Rightarrow> time \<Rightarrow> time \<Rightarrow> tracker \<Rightarrow> sessions \<Rightarrow> tracker \<times> sessions" where
  "cleanup_tick fails now1 now2 tr db =
     (if \<not> tr_has_db tr then (tr, db)
      else
        let cutoff = now1 - session_purge_tick_window (tr_policy tr) in
        (tr\<lparr>tr_cache := (\<lambda>sid. case tr_cache tr sid of None \<Rightarrow> None
             | Some e \<Rightarrow> if te_last_seen e < cutoff then None else Some e)\<rparr>,
         session_purge_expired fails now2 db))"

subsection \<open>A cluster\<close>

text \<open>Instances are numbered and share the table.  Every action carries the time it happens at.\<close>

datatype cluster_action =
    CTouch nat string "time option" db_faults
  | CRemember nat string time bool
  | CCleanup nat bool

record cluster =
  cl_trackers :: "nat \<Rightarrow> tracker"
  cl_db :: sessions

definition cluster_step :: "time \<Rightarrow> cluster_action \<Rightarrow> cluster \<Rightarrow> bool \<times> cluster" where
  "cluster_step now a c =
     (case a of
        CTouch i sid iat fl \<Rightarrow>
          (case touch fl sid iat now (cl_trackers c i) (cl_db c) of
             (ok, tr, db) \<Rightarrow> (ok, c\<lparr>cl_trackers := (cl_trackers c)(i := tr), cl_db := db\<rparr>))
      | CRemember i sid first fails \<Rightarrow>
          (case remember fails sid first now (cl_trackers c i) (cl_db c) of
             (tr, db) \<Rightarrow> (True, c\<lparr>cl_trackers := (cl_trackers c)(i := tr), cl_db := db\<rparr>))
      | CCleanup i fails \<Rightarrow>
          (case cleanup_tick fails now now (cl_trackers c i) (cl_db c) of
             (tr, db) \<Rightarrow> (True, c\<lparr>cl_trackers := (cl_trackers c)(i := tr), cl_db := db\<rparr>)))"

fun cluster_run :: "(time \<times> cluster_action) list \<Rightarrow> cluster \<Rightarrow> cluster" where
  "cluster_run [] c = c"
| "cluster_run ((now, a) # as) c = cluster_run as (snd (cluster_step now a c))"

section \<open>Properties of session lifetimes\<close>

definition healthy :: "db_faults \<Rightarrow> bool" where
  "healthy fl \<longleftrightarrow> \<not> df_get fl \<and> \<not> df_insert fl \<and> \<not> df_touch fl \<and> \<not> df_delete fl"

text \<open>A token too old to seed a session.\<close>

definition stale :: "session_policy \<Rightarrow> time option \<Rightarrow> time \<Rightarrow> bool" where
  "stale p iat now \<longleftrightarrow> now - seed_time iat now > sp_idle p"

definition enforced_by :: "session_policy \<Rightarrow> cluster \<Rightarrow> bool" where
  "enforced_by p c \<longleftrightarrow> sp_idle p > 0 \<and> (\<forall>i. tr_has_db (cl_trackers c i) \<and> tr_policy (cl_trackers c i) = p)"

text \<open>Nothing was written to the table or remembered as written after \<open>T\<close>.\<close>

definition rows_by :: "time \<Rightarrow> sessions \<Rightarrow> bool" where
  "rows_by T db \<longleftrightarrow> (\<forall>sid r. db sid = Some r \<longrightarrow> sr_last_seen r \<le> T)"

definition cache_by :: "time \<Rightarrow> track_cache \<Rightarrow> bool" where
  "cache_by T c \<longleftrightarrow> (\<forall>sid e. c sid = Some e \<longrightarrow> te_last_written e \<le> T)"

definition written_by :: "time \<Rightarrow> cluster \<Rightarrow> bool" where
  "written_by T c \<longleftrightarrow> rows_by T (cl_db c) \<and> (\<forall>i. cache_by T (tr_cache (cl_trackers c i)))"

text \<open>The session has no row, and no instance remembers a write for it after \<open>T\<close>.\<close>

definition gone :: "string \<Rightarrow> time \<Rightarrow> cluster \<Rightarrow> bool" where
  "gone sid T c \<longleftrightarrow> cl_db c sid = None
     \<and> (\<forall>i e. tr_cache (cl_trackers c i) sid = Some e \<longrightarrow> te_last_written e \<le> T)"

lemmas session_ops = session_get_def session_insert_def session_touch_def session_delete_def
  session_purge_expired_def

lemmas tracker_ops = touch_def touch_entry_def load_or_seed_def remember_def cleanup_tick_def Let_def

lemma by_upd [simp]:
  "cache_by T c \<Longrightarrow> cache_by T (c(sid := None))"
  "cache_by T c \<Longrightarrow> te_last_written e \<le> T \<Longrightarrow> cache_by T (c(sid \<mapsto> e))"
  "rows_by T db \<Longrightarrow> rows_by T (db(sid := None))"
  "rows_by T db \<Longrightarrow> sr_last_seen r \<le> T \<Longrightarrow> rows_by T (db(sid \<mapsto> r))"
  by (auto simp: cache_by_def rows_by_def)

lemma by_lookup:
  "cache_by T c \<Longrightarrow> c sid = Some e \<Longrightarrow> te_last_written e \<le> T"
  "rows_by T db \<Longrightarrow> db sid = Some r \<Longrightarrow> sr_last_seen r \<le> T"
  by (auto simp: cache_by_def rows_by_def)

lemma touch_entry_written:
  assumes "touch_entry p fl sid now e c db = (ok, c', db')"
    and "te_last_written e \<le> T" "now \<le> T" "cache_by T c" "rows_by T db"
  shows "cache_by T c' \<and> rows_by T db'"
  using assms
  by (auto simp: touch_entry_def Let_def session_ops split: if_splits option.splits)

lemma load_written:
  assumes "load_or_seed p fl sid iat now c db = (l, c', db')" "now \<le> T" "cache_by T c" "rows_by T db"
  shows "cache_by T c' \<and> rows_by T db' \<and> (\<forall>e. l = Loaded e \<longrightarrow> te_last_written e \<le> T)"
  using assms
  by (auto simp: load_or_seed_def Let_def session_ops by_lookup split: if_splits option.splits)

lemma touch_written:
  assumes "touch fl sid iat now tr db = (ok, tr', db')" "now \<le> T" "cache_by T (tr_cache tr)" "rows_by T db"
  shows "cache_by T (tr_cache tr') \<and> rows_by T db'"
proof (cases "tr_cache tr sid")
  case (Some e)
  with assms touch_entry_written [OF _ by_lookup(1) [OF assms(3) Some] assms(2-4)] show ?thesis
    by (auto simp: touch_def split: if_splits prod.splits)
next
  case None
  obtain l c d where l: "load_or_seed (tr_policy tr) fl sid iat now (tr_cache tr) db = (l, c, d)"
    by (metis prod_cases3)
  note lw = load_written [OF l assms(2-4)]
  show ?thesis
  proof (cases l)
    case (Loaded e)
    with assms None l lw show ?thesis
      by (auto simp: touch_def split: if_splits prod.splits dest: touch_entry_written)
  qed (use assms None l lw in \<open>auto simp: touch_def split: if_splits\<close>)
qed

lemma touch_static: "touch fl sid iat now tr db = (ok, tr', db') \<Longrightarrow>
  tr_policy tr' = tr_policy tr \<and> tr_has_db tr' = tr_has_db tr"
  by (auto simp: touch_def split: if_splits option.splits prod.splits load_result.splits)

lemma cluster_step_enforced: "enforced_by p c \<Longrightarrow> enforced_by p (snd (cluster_step now a c))"
  by (cases a) (auto simp: enforced_by_def cluster_step_def remember_def cleanup_tick_def Let_def
      dest!: touch_static split: prod.splits if_splits)

lemma cluster_step_written:
  assumes "written_by T c" "now \<le> T"
  shows "written_by T (snd (cluster_step now a c))"
proof (cases a)
  case (CTouch i sid iat fl)
  with assms show ?thesis
    by (auto simp: written_by_def cluster_step_def split: prod.splits dest: touch_written)
next
  case (CRemember i sid first fails)
  with assms show ?thesis
    by (auto simp: written_by_def cluster_step_def remember_def session_touch_def
        split: if_splits option.splits prod.splits)
next
  case (CCleanup i fails)
  with assms show ?thesis
    by (auto simp: written_by_def cluster_step_def cleanup_tick_def Let_def session_purge_expired_def
        cache_by_def rows_by_def split: if_splits option.splits)
qed

lemma touch_other: "touch fl sid iat now tr db = (ok, tr', db') \<Longrightarrow> s \<noteq> sid \<Longrightarrow>
  tr_cache tr' s = tr_cache tr s \<and> db' s = db s"
  by (auto simp: tracker_ops session_ops split: if_splits option.splits prod.splits load_result.splits bool.splits)

lemma touch_gone:
  assumes "touch fl sid iat now tr db = (ok, tr', db')" "db sid = None"
    and "\<And>e. tr_cache tr sid = Some e \<Longrightarrow> te_last_written e \<le> T"
    and "tr_has_db tr" "sid \<noteq> []" "sp_idle (tr_policy tr) > 0" "stale (tr_policy tr) iat now" "\<not> df_get fl"
  shows "db' sid = None \<and> (\<forall>e. tr_cache tr' sid = Some e \<longrightarrow> te_last_written e \<le> T)
    \<and> (ok \<longrightarrow> df_touch fl \<or> now < T + session_write_interval)"
  using assms
  by (auto simp: tracker_ops session_ops stale_def split: if_splits option.splits)

text \<open>What the tokens of a denied session do afterwards: only stale ones are presented, and the
  table can be read.\<close>

definition replays :: "session_policy \<Rightarrow> string \<Rightarrow> time \<Rightarrow> time \<times> cluster_action \<Rightarrow> bool" where
  "replays p sid T ta =
     (case ta of (now, a) \<Rightarrow>
        (case a of CTouch i s iat fl \<Rightarrow> s = sid \<longrightarrow> stale p iat now \<and> \<not> df_get fl | _ \<Rightarrow> True))"

lemma cluster_step_gone:
  assumes "gone sid T c" "enforced_by p c" "sid \<noteq> []" "replays p sid T (now, a)"
  shows "gone sid T (snd (cluster_step now a c))"
proof (cases a)
  case (CTouch i s iat fl)
  obtain ok tr db where t: "touch fl s iat now (cl_trackers c i) (cl_db c) = (ok, tr, db)"
    by (metis prod_cases3)
  show ?thesis
  proof (cases "s = sid")
    case True
    have "db sid = None \<and> (\<forall>e. tr_cache tr sid = Some e \<longrightarrow> te_last_written e \<le> T)"
      using touch_gone [OF t [unfolded True]] assms CTouch True
      by (auto simp: gone_def enforced_by_def replays_def)
    with assms(1) t CTouch show ?thesis by (auto simp: gone_def cluster_step_def)
  next
    case False
    with touch_other [OF t, of sid] assms(1) t CTouch show ?thesis
      by (auto simp: gone_def cluster_step_def)
  qed
next
  case (CRemember i s first fails)
  with assms(1) show ?thesis
    by (auto simp: gone_def cluster_step_def remember_def session_touch_def
        split: if_splits option.splits prod.splits)
next
  case (CCleanup i fails)
  with assms(1) show ?thesis
    by (auto simp: gone_def cluster_step_def cleanup_tick_def Let_def session_purge_expired_def
        split: if_splits option.splits)
qed

lemma cluster_run_enforced: "enforced_by p c \<Longrightarrow> enforced_by p (cluster_run as c)"
  by (induction "as" c rule: cluster_run.induct) (auto simp: cluster_step_enforced)

lemma cluster_run_written:
  "written_by T c \<Longrightarrow> \<forall>(t, a)\<in>set as. t \<le> T \<Longrightarrow> written_by T (cluster_run as c)"
  by (induction "as" c rule: cluster_run.induct) (auto simp: cluster_step_written)

lemma cluster_run_gone:
  "gone sid T c \<Longrightarrow> enforced_by p c \<Longrightarrow> sid \<noteq> [] \<Longrightarrow> list_all (replays p sid T) as \<Longrightarrow>
     gone sid T (cluster_run as c)"
  by (induction "as" c rule: cluster_run.induct) (auto simp: cluster_step_gone cluster_step_enforced)

lemma touch_denied:
  assumes "touch fl sid iat now tr db = (False, tr', db')" "healthy fl"
  shows "sid \<noteq> [] \<and> db' sid = None \<and> tr_cache tr' sid = None"
  using assms
  by (auto simp: tracker_ops session_ops healthy_def split: if_splits option.splits)

definition empty_cluster :: "session_policy \<Rightarrow> cluster" where
  "empty_cluster p = \<lparr>cl_trackers = (\<lambda>_. \<lparr>tr_has_db = True, tr_policy = p, tr_cache = Map.empty\<rparr>),
     cl_db = Map.empty\<rparr>"



lemma touch_row_change:
  assumes "touch fl sid iat now tr db = (ok, tr', db')" "db' sid \<noteq> db sid" "sp_idle (tr_policy tr) > 0"
  shows "(\<exists>r r'. db sid = Some r \<and> db' sid = Some r' \<and> sr_first_seen r' = sr_first_seen r \<and> sr_last_seen r' = now)
    \<or> (\<exists>r. db sid = None \<and> db' sid = Some r \<and> sr_first_seen r = seed_time iat now \<and> \<not> stale (tr_policy tr) iat now)
    \<or> (\<not> ok \<and> db' sid = None)"
  using assms
  by (auto simp: tracker_ops session_ops stale_def session_write_interval_def
      split: if_splits option.splits)

text \<open>Rows change in few ways.  No operation moves the first sighting of a session that has a
  row, so the absolute cap keeps its anchor; a row appears only at a touch whose token is
  recent enough; and a row that goes had been idle too long for the instance that touched it, or
  had reached its expiry.\<close>

theorem session_row_changes:
  assumes "enforced_by p c" and "cluster_step now a c = (ok, c')" and "cl_db c' sid \<noteq> cl_db c sid"
  shows "(\<exists>r r'. cl_db c sid = Some r \<and> cl_db c' sid = Some r' \<and> sr_first_seen r' = sr_first_seen r
        \<and> sr_last_seen r' = now)
    \<or> (\<exists>i iat fl r. a = CTouch i sid iat fl \<and> cl_db c sid = None \<and> cl_db c' sid = Some r
        \<and> sr_first_seen r = seed_time iat now \<and> \<not> stale p iat now)
    \<or> (\<exists>i iat fl. a = CTouch i sid iat fl \<and> \<not> ok \<and> cl_db c' sid = None)
    \<or> (\<exists>i fl r. a = CCleanup i fl \<and> cl_db c sid = Some r \<and> sr_expires_at r \<le> now \<and> cl_db c' sid = None)"
proof (cases a)
  case (CTouch i s iat fl)
  obtain tr db where t: "touch fl s iat now (cl_trackers c i) (cl_db c) = (ok, tr, db)"
    and c': "cl_db c' = db"
    using assms(2) CTouch by (auto simp: cluster_step_def split: prod.splits)
  have s: "s = sid" using touch_other [OF t, of sid] assms(3) c' by auto
  from touch_row_change [OF t] s assms(1,3) c' CTouch show ?thesis
    unfolding enforced_by_def by auto
next
  case (CRemember i s first fails)
  with assms show ?thesis
    by (auto simp: cluster_step_def remember_def session_touch_def split: if_splits option.splits prod.splits)
next
  case (CCleanup i fails)
  with assms show ?thesis
    by (auto simp: cluster_step_def cleanup_tick_def Let_def session_purge_expired_def
        split: if_splits option.splits)
qed

theorem session_row_changes_witness:
  "\<exists>ok c'. cluster_step 7 (CTouch 0 ''s'' (Some 5) \<lparr>df_get = False, df_insert = False,
      df_touch = False, df_delete = False\<rparr>)
      (empty_cluster \<lparr>sp_idle = 30, sp_absolute = 0, sp_access_ttl = 0\<rparr>) = (ok, c')
    \<and> (\<exists>r. cl_db c' ''s'' = Some r \<and> sr_first_seen r = 5)"
proof -
  let ?p = "\<lparr>sp_idle = 30, sp_absolute = 0, sp_access_ttl = 0\<rparr>"
  let ?f = "\<lparr>df_get = False, df_insert = False, df_touch = False, df_delete = False\<rparr>"
  obtain ok c' where s: "cluster_step 7 (CTouch 0 ''s'' (Some 5) ?f) (empty_cluster ?p) = (ok, c')"
    and n: "cl_db c' ''s'' \<noteq> cl_db (empty_cluster ?p) ''s''" and "ok"
    by (simp add: cluster_step_def empty_cluster_def tracker_ops session_ops seed_time_def
        session_write_interval_def)
  have e: "enforced_by ?p (empty_cluster ?p)" by (simp add: enforced_by_def empty_cluster_def)
  from session_row_changes [OF e s n] s \<open>ok\<close> show ?thesis
    by (auto simp: empty_cluster_def seed_time_def)
qed

text \<open>The row always outlives the idle window.\<close>

lemma expires_window: "expires_at p t = t + session_purge_tick_window p"
  by (simp add: expires_at_def session_purge_tick_window_def Let_def)

lemma window_idle: "sp_idle p > 0 \<Longrightarrow> session_purge_tick_window p \<ge> 2 * sp_idle p"
  by (simp add: session_purge_tick_window_def Let_def)

text \<open>The idle check trusts the instance's own memory.  When the cached last activity is older
  than the idle window the session is denied and its row deleted for the whole cluster, whatever
  the row says: activity another instance has just written there is not looked at, contrary
  to the comment that instances differ by one write interval at most.\<close>

theorem idle_denial_ignores_row:
  assumes "tr_has_db tr" and "sid \<noteq> []" and "sp_idle (tr_policy tr) > 0" and "\<not> df_delete fl"
    and "tr_cache tr sid = Some e" and "now - te_last_seen e > sp_idle (tr_policy tr)"
  shows "touch fl sid iat now tr db = (False, tr\<lparr>tr_cache := (tr_cache tr)(sid := None)\<rparr>, db(sid := None))"
  using assms by (simp add: touch_def touch_entry_def session_delete_def)

theorem idle_denial_ignores_row_witness:
  "\<exists>c. cluster_run
       [(0, CTouch 0 ''s'' (Some 0) \<lparr>df_get = False, df_insert = False, df_touch = False, df_delete = False\<rparr>),
        (20 * minute, CTouch 1 ''s'' (Some 0) \<lparr>df_get = False, df_insert = False, df_touch = False, df_delete = False\<rparr>),
        (40 * minute, CTouch 1 ''s'' (Some 0) \<lparr>df_get = False, df_insert = False, df_touch = False, df_delete = False\<rparr>)]
       (empty_cluster \<lparr>sp_idle = 30 * minute, sp_absolute = 0, sp_access_ttl = 0\<rparr>) = c
     \<and> map_option sr_last_seen (cl_db c ''s'') = Some (40 * minute)
     \<and> fst (touch \<lparr>df_get = False, df_insert = False, df_touch = False, df_delete = False\<rparr> ''s''
             (Some 0) (41 * minute) (cl_trackers c 0) (cl_db c)) = False"
proof -
  let ?f = "\<lparr>df_get = False, df_insert = False, df_touch = False, df_delete = False\<rparr>"
  let ?p = "\<lparr>sp_idle = 30 * minute, sp_absolute = 0, sp_access_ttl = 0\<rparr>"
  let ?c = "cluster_run [(0, CTouch 0 ''s'' (Some 0) ?f), (20 * minute, CTouch 1 ''s'' (Some 0) ?f),
    (40 * minute, CTouch 1 ''s'' (Some 0) ?f)] (empty_cluster ?p)"
  have r: "map_option sr_last_seen (cl_db ?c ''s'') = Some (40 * minute)"
    and e: "tr_cache (cl_trackers ?c 0) ''s'' = Some \<lparr>te_first_seen = 0, te_last_seen = 0, te_last_written = 0\<rparr>"
    and t: "tr_has_db (cl_trackers ?c 0)" "tr_policy (cl_trackers ?c 0) = ?p"
    by (simp_all add: cluster_step_def empty_cluster_def tracker_ops session_ops seed_time_def
        session_write_interval_def expires_at_def)
  have "touch ?f ''s'' (Some 0) (41 * minute) (cl_trackers ?c 0) (cl_db ?c) =
     (False, (cl_trackers ?c 0)\<lparr>tr_cache := (tr_cache (cl_trackers ?c 0))(''s'' := None)\<rparr>, (cl_db ?c)(''s'' := None))"
    by (rule idle_denial_ignores_row [OF t(1) _ _ _ e]; (unfold t(2))?) simp_all
  with r show ?thesis by simp
qed

end
