(* ===== verification/AuthMw.thy ===== *)
theory AuthMw
  imports Authz Sessions "HOL-Library.AList"
begin

section \<open>Authentication middleware\<close>

text \<open>
  Models \<^verbatim>\<open>internal/middleware/auth.go\<close> and \<^verbatim>\<open>api_key_tracker.go\<close>, with
  the revocation table of \<^verbatim>\<open>internal/database/database.go\<close>.  The JWT library and the hash
  are parameters: \<open>jwt\<close> reads a token string, with the library's verdict on signature and
  time claims under the server's secret.  A refreshed token is represented by its claims; its
  id is fresh or generating it fails.  Every handler takes the time and the faults of its
  database calls.
\<close>

subsection \<open>Tokens\<close>

record claims =
  cl_id :: string
  cl_user_id :: int
  cl_provider :: string
  cl_sid :: string
  cl_cvv :: int
  cl_issued_at :: "time option"
  cl_expires_at :: "time option"

record jwt_token =
  jt_method :: string
  jt_verified :: bool
  jt_claims :: claims

definition parse_token :: "(string \<Rightarrow> jwt_token option) \<Rightarrow> string \<Rightarrow> claims option" where
  "parse_token jwt s =
     (case jwt s of
        None \<Rightarrow> None
      | Some t \<Rightarrow>
          if jt_method t \<noteq> ''HS256'' then None
          else if \<not> jt_verified t then None
          else Some (jt_claims t))"

text \<open>Token times are whole seconds, as the library stores them.\<close>

definition whole_seconds :: "time \<Rightarrow> time" where
  "whole_seconds t = t div second * second"

definition generate_session_token ::
  "string option \<Rightarrow> time \<Rightarrow> user \<Rightarrow> int \<Rightarrow> string \<Rightarrow> string \<Rightarrow> claims option" where
  "generate_session_token jti now u duration provider sid =
     (case jti of
        None \<Rightarrow> None
      | Some j \<Rightarrow> Some \<lparr>cl_id = j, cl_user_id = u_id u, cl_provider = provider, cl_sid = sid,
          cl_cvv = u_credential_version u, cl_issued_at = Some (whole_seconds now),
          cl_expires_at = Some (whole_seconds (now + duration))\<rparr>)"

subsection \<open>Database\<close>

record auth_db =
  ad_revoked :: "string \<rightharpoonup> time"
  ad_users :: "int \<rightharpoonup> user"

definition revoke_token :: "bool \<Rightarrow> string \<Rightarrow> time \<Rightarrow> auth_db \<Rightarrow> auth_db" where
  "revoke_token fails jti expires ad =
     (if fails then ad
      else case ad_revoked ad jti of Some _ \<Rightarrow> ad
        | None \<Rightarrow> ad\<lparr>ad_revoked := (ad_revoked ad)(jti \<mapsto> expires)\<rparr>)"

definition is_token_revoked :: "bool \<Rightarrow> string \<Rightarrow> auth_db \<Rightarrow> bool option" where
  "is_token_revoked fails jti ad = (if fails then None else Some (ad_revoked ad jti \<noteq> None))"

definition cleanup_revoked_tokens :: "time \<Rightarrow> auth_db \<Rightarrow> auth_db" where
  "cleanup_revoked_tokens now ad =
     ad\<lparr>ad_revoked := (\<lambda>j. case ad_revoked ad j of None \<Rightarrow> None
        | Some e \<Rightarrow> if e \<le> now then None else Some e)\<rparr>"

definition load_user :: "bool \<Rightarrow> int \<Rightarrow> auth_db \<Rightarrow> user option" where
  "load_user fails uid ad = (if fails then None else ad_users ad uid)"

subsection \<open>The session policy\<close>

record policy_faults =
  pf_touch :: db_faults
  pf_first_seen :: bool
  pf_revoke :: bool
  pf_remember :: bool

record auth_state =
  as_tracker :: "tracker option"
  as_sessions :: sessions
  as_db :: auth_db

datatype policy_result = PolicyDenied | PolicyPass "claims option" | PolicyPanic

text \<open>Expiry of the revocation of a token that has none: a hundred calendar years, which are 36524
  or 36525 days; the model takes the larger.\<close>

definition far_future :: "time \<Rightarrow> time" where
  "far_future now = now + 36525 * 24 * 60 * minute"

definition revoke_on_policy_denial :: "bool \<Rightarrow> time \<Rightarrow> claims \<Rightarrow> auth_db \<Rightarrow> auth_db" where
  "revoke_on_policy_denial fails now cl ad =
     revoke_token fails (cl_id cl)
       (case cl_expires_at cl of Some e \<Rightarrow> e | None \<Rightarrow> far_future now) ad"

text \<open>The part of \<^verbatim>\<open>applySessionPolicy\<close> after the two checks.\<close>

definition refresh_session ::
  "policy_faults \<Rightarrow> string option \<Rightarrow> time \<Rightarrow> int \<Rightarrow> claims \<Rightarrow> user \<Rightarrow> tracker \<Rightarrow> string \<Rightarrow> time
    \<Rightarrow> auth_state \<Rightarrow> policy_result \<times> auth_state" where
  "refresh_session pf jti now access_ttl cl u tr sid first s =
     (case cl_expires_at cl of
        None \<Rightarrow> (PolicyPass None, s)
      | Some e \<Rightarrow>
          if access_ttl \<le> 0 then (PolicyPass None, s)
          else if e - now \<ge> refresh_threshold (tr_policy tr) then (PolicyPass None, s)
          else case generate_session_token jti now u access_ttl (cl_provider cl) sid of
            None \<Rightarrow> (PolicyPass None, s)
          | Some cl' \<Rightarrow>
              (case remember (pf_remember pf) sid first now tr (as_sessions s) of
                 (tr', db') \<Rightarrow>
                   (PolicyPass (Some cl'),
                    s\<lparr>as_tracker := Some tr', as_sessions := db',
                      as_db := revoke_token (pf_revoke pf) (cl_id cl) e (as_db s)\<rparr>)))"

definition apply_session_policy ::
  "policy_faults \<Rightarrow> string option \<Rightarrow> time \<Rightarrow> int \<Rightarrow> claims \<Rightarrow> user \<Rightarrow> auth_state
    \<Rightarrow> policy_result \<times> auth_state" where
  "apply_session_policy pf jti now access_ttl cl u s =
     (case as_tracker s of
        None \<Rightarrow> (PolicyPass None, s)
      | Some tr \<Rightarrow>
          let sid = (if cl_sid cl = [] then cl_id cl else cl_sid cl) in
          case cl_issued_at cl of
            None \<Rightarrow> (PolicyPanic, s)
          | Some iat \<Rightarrow>
              (case touch (pf_touch pf) sid (Some iat) now tr (as_sessions s) of
                 (allowed, tr', db') \<Rightarrow>
                   let s' = s\<lparr>as_tracker := Some tr', as_sessions := db'\<rparr>;
                       denied = (PolicyDenied,
                         s'\<lparr>as_db := revoke_on_policy_denial (pf_revoke pf) now cl (as_db s')\<rparr>) in
                   if \<not> allowed then denied
                   else if sp_absolute (tr_policy tr') \<le> 0 then (PolicyPass None, s')
                   else
                     let first = first_seen (pf_first_seen pf) sid (Some iat) now tr' db' in
                     if now - first \<ge> sp_absolute (tr_policy tr') then denied
                     else refresh_session pf jti now access_ttl cl u tr' sid first s'))"

subsection \<open>Session authentication\<close>

text \<open>The answer: to the login page, clearing the cookie or not; to the change-password page;
  admission, perhaps with a refreshed token; or a panic.\<close>

datatype auth_result = ToLogin bool | ToChangePassword | Admit user "claims option" | Panic

record auth_faults =
  af_revoked :: bool
  af_user :: bool
  af_policy :: policy_faults

definition must_change_allowed_path :: "string \<Rightarrow> bool" where
  "must_change_allowed_path p \<longleftrightarrow> p = ''/change-password'' \<or> p = ''/logout''"

definition session_token :: "request \<Rightarrow> string" where
  "session_token r =
     (let token = (case rq_cookie r of Some v \<Rightarrow> v | None \<Rightarrow> []) in
      if token = [] \<and> has_prefix (rq_authorization r) ''Bearer ''
      then trim_prefix (rq_authorization r) ''Bearer '' else token)"

text \<open>The checks on the user's row, in order; \<^const>\<open>None\<close> lets the request continue.\<close>

definition user_checks :: "time \<Rightarrow> claims \<Rightarrow> user \<Rightarrow> string \<Rightarrow> auth_result option" where
  "user_checks now cl u path =
     (if cl_cvv cl < u_credential_version u then Some (ToLogin True)
      else if now < u_manual_lock_until u then Some (ToLogin True)
      else if (case cl_issued_at cl of None \<Rightarrow> False
               | Some iat \<Rightarrow> iat < whole_seconds (u_tokens_valid_after u))
      then Some (ToLogin True)
      else
        let sso = (cl_provider cl \<noteq> [] \<and> cl_provider cl \<noteq> ''local'') in
        if u_must_change_password u \<and> \<not> sso \<and> \<not> must_change_allowed_path path
        then Some ToChangePassword else None)"

definition auth_with_policy ::
  "(string \<Rightarrow> jwt_token option) \<Rightarrow> auth_faults \<Rightarrow> string option \<Rightarrow> time \<Rightarrow> int \<Rightarrow> request \<Rightarrow> auth_state
    \<Rightarrow> auth_result \<times> auth_state" where
  "auth_with_policy jwt af jti now access_ttl r s =
     (let token = session_token r in
      if token = [] then (ToLogin False, s)
      else case parse_token jwt token of
        None \<Rightarrow> (ToLogin True, s)
      | Some cl \<Rightarrow>
          if cl_id cl = [] then (ToLogin False, s)
          else case is_token_revoked (af_revoked af) (cl_id cl) (as_db s) of
            None \<Rightarrow> (ToLogin False, s)
          | Some True \<Rightarrow> (ToLogin True, s)
          | Some False \<Rightarrow>
              (case load_user (af_user af) (cl_user_id cl) (as_db s) of
                 None \<Rightarrow> (ToLogin False, s)
               | Some u \<Rightarrow>
                   if \<not> u_enabled u then (ToLogin False, s)
                   else case user_checks now cl u (rq_path r) of
                     Some res \<Rightarrow> (res, s)
                   | None \<Rightarrow>
                       (case apply_session_policy (af_policy af) jti now access_ttl cl u s of
                          (PolicyDenied, s') \<Rightarrow> (ToLogin True, s')
                        | (PolicyPanic, s') \<Rightarrow> (Panic, s')
                        | (PolicyPass c, s') \<Rightarrow> (Admit u c, s'))))"

definition auth ::
  "(string \<Rightarrow> jwt_token option) \<Rightarrow> auth_faults \<Rightarrow> time \<Rightarrow> request \<Rightarrow> auth_db \<Rightarrow> auth_result" where
  "auth jwt af now r ad =
     fst (auth_with_policy jwt af None now 0 r \<lparr>as_tracker = None, as_sessions = Map.empty, as_db = ad\<rparr>)"

subsection \<open>API keys\<close>

record api_key_row =
  ak_user_id :: int
  ak_scope :: string
  ak_created_at :: "time option"
  ak_expires_at :: "time option"
  ak_credential_version :: int

datatype api_key_result = ApiError nat string | ApiAdmit user api_key_scope

record api_faults =
  kf_key :: bool
  kf_user :: bool
  kf_lock :: bool

definition is_manual_lock :: "bool \<Rightarrow> time \<Rightarrow> int \<Rightarrow> auth_db \<Rightarrow> bool option" where
  "is_manual_lock fails now uid ad =
     (if fails then None
      else Some (case ad_users ad uid of None \<Rightarrow> False | Some u \<Rightarrow> u_manual_lock_until u > now))"

definition presented_key :: "request \<Rightarrow> string" where
  "presented_key r =
     (if rq_api_key r = [] then trim_prefix (rq_authorization r) ''Bearer '' else rq_api_key r)"

definition api_key_auth ::
  "(string \<Rightarrow> string) \<Rightarrow> api_key_surface \<Rightarrow> api_faults \<Rightarrow> time \<Rightarrow> (string \<rightharpoonup> api_key_row) \<Rightarrow> auth_db
    \<Rightarrow> request \<Rightarrow> api_key_result" where
  "api_key_auth hash surface kf now keys ad r =
     (let key = presented_key r in
      if key = [] then ApiError 401 ''UNAUTHORIZED''
      else case (if kf_key kf then None else keys (hash key)) of
        None \<Rightarrow> ApiError 401 ''UNAUTHORIZED''
      | Some k \<Rightarrow>
          if (case ak_expires_at k of None \<Rightarrow> False | Some e \<Rightarrow> e < now)
          then ApiError 401 ''API_KEY_EXPIRED''
          else case load_user (kf_user kf) (ak_user_id k) ad of
            None \<Rightarrow> ApiError 401 ''UNAUTHORIZED''
          | Some u \<Rightarrow>
              if \<not> u_enabled u then ApiError 401 ''UNAUTHORIZED''
              else if is_manual_lock (kf_lock kf) now (ak_user_id k) ad \<noteq> Some False
              then ApiError 401 ''UNAUTHORIZED''
              else if ak_credential_version k < u_credential_version u
              then ApiError 401 ''API_KEY_INVALIDATED''
              else if (case ak_created_at k of None \<Rightarrow> False | Some c \<Rightarrow> c < u_tokens_valid_after u)
              then ApiError 401 ''API_KEY_INVALIDATED''
              else case parse_api_key_scope (ak_scope k) of
                None \<Rightarrow> ApiError 401 ''UNAUTHORIZED''
              | Some scope \<Rightarrow>
                  if scope_surface scope \<noteq> surface then ApiError 403 ''API_KEY_SCOPE_MISMATCH''
                  else ApiAdmit u scope)"

text \<open>The chain of the \<^verbatim>\<open>/api/v1\<close> mount: the key, then the scope against the method.\<close>

definition api_chain ::
  "(string \<Rightarrow> string) \<Rightarrow> api_faults \<Rightarrow> time \<Rightarrow> (string \<rightharpoonup> api_key_row) \<Rightarrow> auth_db \<Rightarrow> request \<Rightarrow> gate_result" where
  "api_chain hash kf now keys ad r =
     (case api_key_auth hash SurfaceAPI kf now keys ad r of
        ApiError code _ \<Rightarrow> Status code
      | ApiAdmit u scope \<Rightarrow> require_write_scope (r\<lparr>rq_user := Some u, rq_scope := Some scope\<rparr>))"

text \<open>The coarsened writes of \<^verbatim>\<open>last_used_at\<close>: the map of the last write per key, and the
  column.  A failed write takes its own mark back.\<close>

type_synonym used_marks = "(string \<times> time) list"

definition api_key_write_interval :: int where
  "api_key_write_interval = minute"

definition api_key_tracker_max :: nat where
  "api_key_tracker_max = 4096"

definition compact_marks :: "time \<Rightarrow> used_marks \<Rightarrow> used_marks" where
  "compact_marks now m = filter (\<lambda>(k, t). now - t < api_key_write_interval) m"

definition touch_key ::
  "bool \<Rightarrow> time \<Rightarrow> string \<Rightarrow> used_marks \<times> (string \<rightharpoonup> time) \<Rightarrow> used_marks \<times> (string \<rightharpoonup> time)" where
  "touch_key fails now k st =
     (case st of (m, col) \<Rightarrow>
        if (case map_of m k of None \<Rightarrow> False | Some t \<Rightarrow> now - t < api_key_write_interval) then (m, col)
        else
          let m1 = AList.update k now m;
              m2 = (if length m1 > api_key_tracker_max then compact_marks now m1 else m1) in
          if fails then ((if map_of m2 k = Some now then AList.delete k m2 else m2), col)
          else (m2, col(k \<mapsto> now)))"

section \<open>Properties of authentication\<close>

definition token_of :: "(string \<Rightarrow> jwt_token option) \<Rightarrow> request \<Rightarrow> claims \<Rightarrow> bool" where
  "token_of jwt r cl \<longleftrightarrow>
     (\<exists>t. jwt (session_token r) = Some t \<and> jt_method t = ''HS256'' \<and> jt_verified t \<and> jt_claims t = cl)
     \<and> session_token r \<noteq> []"

lemma parse_token_Some: "parse_token jwt s = Some cl \<longleftrightarrow>
  (\<exists>t. jwt s = Some t \<and> jt_method t = ''HS256'' \<and> jt_verified t \<and> jt_claims t = cl)"
  by (auto simp: parse_token_def split: option.splits)

lemma user_checks_None:
  "user_checks now cl u path = None \<longleftrightarrow>
     u_credential_version u \<le> cl_cvv cl \<and> u_manual_lock_until u \<le> now
     \<and> (case cl_issued_at cl of None \<Rightarrow> True | Some iat \<Rightarrow> whole_seconds (u_tokens_valid_after u) \<le> iat)
     \<and> (u_must_change_password u \<longrightarrow> cl_provider cl \<notin> {[], ''local''} \<or> must_change_allowed_path path)"
  by (auto simp: user_checks_def Let_def not_less split: option.splits)

lemma user_checks_not_Admit: "user_checks now cl u path \<noteq> Some (Admit u' c)"
  by (auto simp: user_checks_def Let_def)

definition admissible :: "time \<Rightarrow> request \<Rightarrow> auth_db \<Rightarrow> claims \<Rightarrow> user \<Rightarrow> bool" where
  "admissible now r ad cl u \<longleftrightarrow>
     cl_id cl \<noteq> [] \<and> ad_revoked ad (cl_id cl) = None
     \<and> ad_users ad (cl_user_id cl) = Some u \<and> u_enabled u
     \<and> user_checks now cl u (rq_path r) = None"

lemma auth_Admit:
  "auth_with_policy jwt af jti now ttl r s = (Admit u c, s') \<longleftrightarrow>
     (\<exists>cl. token_of jwt r cl \<and> admissible now r (as_db s) cl u \<and> \<not> af_revoked af \<and> \<not> af_user af
        \<and> apply_session_policy (af_policy af) jti now ttl cl u s = (PolicyPass c, s'))"
  (is "?l \<longleftrightarrow> ?r")
proof
  assume ?l
  then show ?r
    using user_checks_not_Admit
    by (auto simp: auth_with_policy_def Let_def parse_token_Some token_of_def admissible_def
        is_token_revoked_def load_user_def split: option.splits if_splits bool.splits policy_result.splits prod.splits)
next
  assume ?r
  then show ?l
    by (auto simp: auth_with_policy_def Let_def token_of_def admissible_def
        is_token_revoked_def load_user_def parse_token_def)
qed


lemma touch_tracker:
  "touch fl sid iat now tr db = (ok, tr', db') \<Longrightarrow> tr_policy tr' = tr_policy tr \<and> tr_has_db tr' = tr_has_db tr"
  by (rule touch_static)

definition session_of :: "claims \<Rightarrow> string" where
  "session_of cl = (if cl_sid cl = [] then cl_id cl else cl_sid cl)"

lemma policy_pass:
  assumes "apply_session_policy pf jti now ttl cl u s = (PolicyPass c, s')" and "as_tracker s = Some tr"
  obtains iat tr1 db1 where "cl_issued_at cl = Some iat"
    "touch (pf_touch pf) (session_of cl) (Some iat) now tr (as_sessions s) = (True, tr1, db1)"
    "sp_absolute (tr_policy tr) > 0 \<Longrightarrow>
       now - first_seen (pf_first_seen pf) (session_of cl) (Some iat) now tr1 db1 < sp_absolute (tr_policy tr)"
    "c \<noteq> None \<Longrightarrow> refresh_session pf jti now ttl cl u tr1 (session_of cl)
         (first_seen (pf_first_seen pf) (session_of cl) (Some iat) now tr1 db1)
         (s\<lparr>as_tracker := Some tr1, as_sessions := db1\<rparr>) = (PolicyPass c, s')"
proof -
  from assms obtain iat where iat: "cl_issued_at cl = Some iat"
    by (auto simp: apply_session_policy_def Let_def split: option.splits)
  obtain ok tr1 db1 where t: "touch (pf_touch pf) (session_of cl) (Some iat) now tr (as_sessions s) = (ok, tr1, db1)"
    by (metis prod_cases3)
  note p = touch_static [OF t]
  from assms iat t have ok
    by (simp add: apply_session_policy_def Let_def session_of_def split: if_splits)
  show thesis
    by (rule that [OF iat])
      (use assms iat t p \<open>ok\<close> in \<open>auto simp: apply_session_policy_def Let_def session_of_def split: if_splits\<close>)
qed

text \<open>A user, a token and a request for the witnesses.\<close>

definition sample_user :: user where
  "sample_user = \<lparr>u_id = 1, u_username = ''alice'', u_role = ''user'', u_enabled = True,
     u_locked_until = None, u_must_change_password = False, u_tokens_valid_after = 0,
     u_credential_version = 3, u_manual_lock_until = 0\<rparr>"

definition sample_claims :: claims where
  "sample_claims = \<lparr>cl_id = ''j1'', cl_user_id = 1, cl_provider = [], cl_sid = ''s1'', cl_cvv = 3,
     cl_issued_at = Some 0, cl_expires_at = Some (60 * minute)\<rparr>"

definition sample_request :: request where
  "sample_request = \<lparr>rq_method = ''GET'', rq_path = ''/zones'', rq_accept = [], rq_zone_id = [],
     rq_cookie = Some ''t'', rq_authorization = [], rq_api_key = [], rq_user = None, rq_scope = None\<rparr>"

definition sample_jwt :: "claims \<Rightarrow> string \<Rightarrow> jwt_token option" where
  "sample_jwt cl s = Some \<lparr>jt_method = ''HS256'', jt_verified = True, jt_claims = cl\<rparr>"

definition sample_db :: auth_db where
  "sample_db = \<lparr>ad_revoked = Map.empty, ad_users = [1 \<mapsto> sample_user]\<rparr>"

definition no_faults :: auth_faults where
  "no_faults = \<lparr>af_revoked = False, af_user = False, af_policy = \<lparr>pf_touch = \<lparr>df_get = False,
     df_insert = False, df_touch = False, df_delete = False\<rparr>, pf_first_seen = False,
     pf_revoke = False, pf_remember = False\<rparr>\<rparr>"

lemmas sample_defs = sample_user_def sample_claims_def sample_request_def sample_jwt_def
  sample_db_def no_faults_def

lemma sample_token [simp]: "token_of (sample_jwt cl) sample_request cl"
  by (simp add: token_of_def sample_jwt_def sample_request_def session_token_def)

lemma sample_admissible: "admissible (59 * minute) sample_request sample_db sample_claims sample_user"
  by (simp add: admissible_def sample_defs user_checks_None whole_seconds_def)

text \<open>The absolute cap holds on every admission: with a cap, an admitted session is younger than
  it, measured from the first sighting the tracker has.  A refreshed token keeps the user, the
  provider and the session of the old one, carries the user's present credential version, and
  supersedes the old one, whose id is revoked unless that query fails.\<close>

theorem policy_admission:
  assumes "auth_with_policy jwt af jti now ttl r s = (Admit u c, s')"
    and "as_tracker s = Some tr" and "sp_absolute (tr_policy tr) > 0"
  shows "\<exists>cl tr1 db1. token_of jwt r cl
    \<and> now - first_seen (pf_first_seen (af_policy af)) (session_of cl)
        (cl_issued_at cl) now tr1 db1 < sp_absolute (tr_policy tr)
    \<and> list_all (\<lambda>cl'. cl_user_id cl' = u_id u \<and> cl_provider cl' = cl_provider cl
          \<and> cl_sid cl' = (session_of cl)
          \<and> cl_cvv cl' = u_credential_version u
          \<and> (pf_revoke (af_policy af) \<or> ad_revoked (as_db s') (cl_id cl) \<noteq> None)) (case c of None \<Rightarrow> [] | Some x \<Rightarrow> [x])"
proof -
  from assms(1) obtain cl where t: "token_of jwt r cl"
    and p: "apply_session_policy (af_policy af) jti now ttl cl u s = (PolicyPass c, s')"
    by (auto simp: auth_Admit)
  obtain iat tr1 db1 where q: "cl_issued_at cl = Some iat"
    "now - first_seen (pf_first_seen (af_policy af)) (session_of cl) (Some iat) now tr1 db1 < sp_absolute (tr_policy tr)"
    and rf: "c \<noteq> None \<Longrightarrow> refresh_session (af_policy af) jti now ttl cl u tr1 (session_of cl)
         (first_seen (pf_first_seen (af_policy af)) (session_of cl) (Some iat) now tr1 db1)
         (s\<lparr>as_tracker := Some tr1, as_sessions := db1\<rparr>) = (PolicyPass c, s')"
    using policy_pass [OF p assms(2)] assms(3) by metis
  have "list_all (\<lambda>cl'. cl_user_id cl' = u_id u \<and> cl_provider cl' = cl_provider cl
          \<and> cl_sid cl' = (session_of cl) \<and> cl_cvv cl' = u_credential_version u
          \<and> (pf_revoke (af_policy af) \<or> ad_revoked (as_db s') (cl_id cl) \<noteq> None)) (case c of None \<Rightarrow> [] | Some x \<Rightarrow> [x])"
  proof (cases c)
    case (Some x)
    with rf show ?thesis
      by (auto simp: refresh_session_def generate_session_token_def revoke_token_def
          split: option.splits if_splits prod.splits)
  qed simp
  with t q show ?thesis by fastforce
qed

theorem policy_admission_witness:
  "\<exists>s' cl'. auth_with_policy (sample_jwt sample_claims) no_faults (Some ''j2'') (59 * minute) (60 * minute)
       sample_request \<lparr>as_tracker = Some \<lparr>tr_has_db = True, tr_policy = \<lparr>sp_idle = 0,
         sp_absolute = 600 * minute, sp_access_ttl = 60 * minute\<rparr>, tr_cache = Map.empty\<rparr>,
         as_sessions = Map.empty, as_db = sample_db\<rparr> = (Admit sample_user (Some cl'), s')
     \<and> cl_sid cl' = ''s1'' \<and> ad_revoked (as_db s') ''j1'' \<noteq> None"
proof -
  let ?tr = "\<lparr>tr_has_db = True, tr_policy = \<lparr>sp_idle = 0, sp_absolute = 600 * minute,
    sp_access_ttl = 60 * minute\<rparr>, tr_cache = Map.empty\<rparr>"
  let ?s = "\<lparr>as_tracker = Some ?tr, as_sessions = Map.empty, as_db = sample_db\<rparr>"
  obtain cl' s' where p: "apply_session_policy (af_policy no_faults) (Some ''j2'') (59 * minute) (60 * minute)
      sample_claims sample_user ?s = (PolicyPass (Some cl'), s')"
    by (simp add: apply_session_policy_def sample_claims_def no_faults_def tracker_ops session_ops
        seed_time_def session_write_interval_def first_seen_def refresh_session_def
        refresh_threshold_def generate_session_token_def)
  have f: "\<not> af_revoked no_faults" "\<not> af_user no_faults" "\<not> pf_revoke (af_policy no_faults)"
    by (simp_all add: no_faults_def)
  have a: "auth_with_policy (sample_jwt sample_claims) no_faults (Some ''j2'') (59 * minute) (60 * minute)
      sample_request ?s = (Admit sample_user (Some cl'), s')"
    unfolding auth_Admit using sample_admissible p f by (intro exI [of _ sample_claims]) simp
  have u: "cl = sample_claims" if "token_of (sample_jwt sample_claims) sample_request cl" for cl
    using that by (simp add: token_of_def sample_jwt_def)
  from policy_admission [OF a] obtain cl where "token_of (sample_jwt sample_claims) sample_request cl"
    "cl_sid cl' = session_of cl" "ad_revoked (as_db s') (cl_id cl) \<noteq> None" using f by auto
  with u a show ?thesis by (fastforce simp: session_of_def sample_claims_def)
qed

text \<open>A revoked token stays out until it has expired: whatever the session policy does, and
  however often the revocations are cleaned up before the token's expiry, a request with it is
  sent to the login page.\<close>

theorem revoked_token_stays_out:
  assumes "token_of jwt r cl" and "cl_id cl \<noteq> []" and "cl_expires_at cl = Some e"
    and "ad_revoked ad (cl_id cl) = None"
    and "as_db s = fold cleanup_revoked_tokens ts (revoke_token False (cl_id cl) e ad)"
    and "\<forall>t\<in>set ts. t < e"
  shows "auth_with_policy jwt af jti now ttl r s = (ToLogin (\<not> af_revoked af), s)"
proof -
  have keep: "ad_revoked (fold cleanup_revoked_tokens us x) (cl_id cl) = Some e"
    if "ad_revoked x (cl_id cl) = Some e" "\<forall>t\<in>set us. t < e" for us x
    using that by (induction us arbitrary: x) (auto simp: cleanup_revoked_tokens_def)
  have "ad_revoked (as_db s) (cl_id cl) = Some e"
    unfolding assms(5) by (rule keep) (use assms in \<open>auto simp: revoke_token_def\<close>)
  with assms(1,2) show ?thesis
    by (auto simp: auth_with_policy_def token_of_def parse_token_def is_token_revoked_def)
qed

theorem revoked_token_stays_out_witness:
  "\<exists>s. auth_with_policy (sample_jwt sample_claims) no_faults None (59 * minute) 0 sample_request s
     = (ToLogin True, s)"
proof -
  let ?s = "\<lparr>as_tracker = None, as_sessions = Map.empty,
    as_db = fold cleanup_revoked_tokens [30 * minute] (revoke_token False (cl_id sample_claims) (60 * minute) sample_db)\<rparr>"
  have "auth_with_policy (sample_jwt sample_claims) no_faults None (59 * minute) 0 sample_request ?s
      = (ToLogin (\<not> af_revoked no_faults), ?s)"
    by (rule revoked_token_stays_out [OF sample_token, where ts = "[30 * minute]" and ad = sample_db])
      (simp_all add: sample_claims_def sample_db_def del: set_simps, auto)
  then show ?thesis by (auto simp: no_faults_def)
qed

text \<open>With a session tracker, a verified token that carries no issue time, which the middleware
  accepts otherwise, panics the request instead of being refused.\<close>

theorem missing_iat_panics:
  assumes "token_of jwt r cl" and "admissible now r (as_db s) cl u" and "cl_issued_at cl = None"
    and "\<not> af_revoked af" and "\<not> af_user af" and "as_tracker s = Some tr"
  shows "auth_with_policy jwt af jti now ttl r s = (Panic, s)
    \<and> auth jwt af now r (as_db s) = Admit u None"
proof -
  have "auth jwt af now r (as_db s) = Admit u None"
    unfolding auth_def auth_with_policy_def Let_def
    using assms by (auto simp: token_of_def admissible_def is_token_revoked_def load_user_def
        parse_token_def apply_session_policy_def)
  with assms show ?thesis
    by (auto simp: auth_with_policy_def token_of_def admissible_def is_token_revoked_def
        load_user_def parse_token_def apply_session_policy_def)
qed

theorem missing_iat_panics_witness:
  "\<exists>s. fst (auth_with_policy (sample_jwt (sample_claims\<lparr>cl_issued_at := None\<rparr>)) no_faults None
     (59 * minute) 0 sample_request s) = Panic"
proof -
  let ?cl = "sample_claims\<lparr>cl_issued_at := None\<rparr>"
  let ?tr = "\<lparr>tr_has_db = True, tr_policy = \<lparr>sp_idle = 1, sp_absolute = 0, sp_access_ttl = 0\<rparr>,
    tr_cache = Map.empty\<rparr>"
  let ?s = "\<lparr>as_tracker = Some ?tr, as_sessions = Map.empty, as_db = sample_db\<rparr>"
  have "admissible (59 * minute) sample_request (as_db ?s) ?cl sample_user"
    by (simp add: admissible_def sample_defs user_checks_None)
  from missing_iat_panics [OF sample_token this, of no_faults ?tr None 0]
  show ?thesis by (intro exI [of _ ?s]) (simp add: no_faults_def)
qed

lemma api_key_admission:
  "api_key_auth hash surface kf now keys ad r = ApiAdmit u scope \<longleftrightarrow>
      presented_key r \<noteq> [] \<and> \<not> kf_key kf \<and> \<not> kf_user kf \<and> \<not> kf_lock kf
      \<and> (\<exists>k. keys (hash (presented_key r)) = Some k
          \<and> list_all (\<lambda>e. now \<le> e) (case ak_expires_at k of None \<Rightarrow> [] | Some e \<Rightarrow> [e])
          \<and> ad_users ad (ak_user_id k) = Some u \<and> u_enabled u \<and> u_manual_lock_until u \<le> now
          \<and> u_credential_version u \<le> ak_credential_version k
          \<and> list_all (\<lambda>c. u_tokens_valid_after u \<le> c) (case ak_created_at k of None \<Rightarrow> [] | Some c \<Rightarrow> [c])
          \<and> parse_api_key_scope (ak_scope k) = Some scope \<and> scope_surface scope = surface)"
  by (auto simp: api_key_auth_def Let_def load_user_def is_manual_lock_def not_less
      split: option.splits if_splits)

text \<open>C5: An API key is admitted exactly on its own surface and while everything behind it is valid:
  a stored row that has not expired, an enabled owner without a manual lock, a credential
  version and a creation time not older than the last rotation, and a readable scope of that
  surface; and through the REST chain a write needs the write scope.\<close>

theorem api_key_admits_exactly:
  "(api_key_auth hash surface kf now keys ad r = ApiAdmit u scope \<longleftrightarrow>
      presented_key r \<noteq> [] \<and> \<not> kf_key kf \<and> \<not> kf_user kf \<and> \<not> kf_lock kf
      \<and> (\<exists>k. keys (hash (presented_key r)) = Some k
          \<and> list_all (\<lambda>e. now \<le> e) (case ak_expires_at k of None \<Rightarrow> [] | Some e \<Rightarrow> [e])
          \<and> ad_users ad (ak_user_id k) = Some u \<and> u_enabled u \<and> u_manual_lock_until u \<le> now
          \<and> u_credential_version u \<le> ak_credential_version k
          \<and> list_all (\<lambda>c. u_tokens_valid_after u \<le> c) (case ak_created_at k of None \<Rightarrow> [] | Some c \<Rightarrow> [c])
          \<and> parse_api_key_scope (ak_scope k) = Some scope \<and> scope_surface scope = surface))
   \<and> \<not> (\<exists>r'. api_chain hash kf now keys ad r = Next r' \<and> rq_method r \<notin> {''GET'', ''HEAD'', ''OPTIONS''}
         \<and> rq_scope r' \<noteq> Some ScopeAPIWrite)"
proof (intro conjI)
  show "api_key_auth hash surface kf now keys ad r = ApiAdmit u scope \<longleftrightarrow>
      presented_key r \<noteq> [] \<and> \<not> kf_key kf \<and> \<not> kf_user kf \<and> \<not> kf_lock kf
      \<and> (\<exists>k. keys (hash (presented_key r)) = Some k
          \<and> list_all (\<lambda>e. now \<le> e) (case ak_expires_at k of None \<Rightarrow> [] | Some e \<Rightarrow> [e])
          \<and> ad_users ad (ak_user_id k) = Some u \<and> u_enabled u \<and> u_manual_lock_until u \<le> now
          \<and> u_credential_version u \<le> ak_credential_version k
          \<and> list_all (\<lambda>c. u_tokens_valid_after u \<le> c) (case ak_created_at k of None \<Rightarrow> [] | Some c \<Rightarrow> [c])
          \<and> parse_api_key_scope (ak_scope k) = Some scope \<and> scope_surface scope = surface)"
    by (rule api_key_admission)
  show "\<not> (\<exists>r'. api_chain hash kf now keys ad r = Next r' \<and> rq_method r \<notin> {''GET'', ''HEAD'', ''OPTIONS''}
         \<and> rq_scope r' \<noteq> Some ScopeAPIWrite)"
    by (auto simp: api_chain_def require_write_scope_def api_key_auth_def Let_def scope_can_write_def
        scope_surface_def split: option.splits if_splits api_key_result.splits)
qed

end
