(* ===== verification/Login.thy ===== *)
theory Login
  imports Accounts AuthMw
begin

section \<open>Password login\<close>

text \<open>
  Models \<^verbatim>\<open>Login\<close> and \<^verbatim>\<open>recordFailedAttempt\<close> of \<^verbatim>\<open>internal/handlers/auth.go\<close>.
  A login makes several queries, and other requests may run between them: the database each
  query sees, and the clock it compares with, are arguments (\<open>login_views\<close>), as is the database
  its writes apply to.  The compares against the dummy hash only take time.
\<close>

record login_config =
  lc_local_disabled :: bool
  lc_max_attempts :: int
  lc_lockout :: time
  lc_session :: time
  lc_password :: password_config

record login_views =
  lv_lookup :: account_db
  lv_manual :: "time \<times> account_db"
  lv_lock :: "time \<times> account_db"
  lv_recheck :: account_db

datatype login_call =
    LoginLookup | LoginManual | LoginLock | LoginRecheck | LoginReset | LoginLog | LoginAttempt
  | LoginExpire

datatype login_reply = LoginDenied string | LoginError | LoginOk claims string

definition user_of_account :: "account \<Rightarrow> user" where
  "user_of_account a = \<lparr>u_id = ac_id a, u_username = ac_username a, u_role = ac_role a,
     u_enabled = ac_enabled a, u_locked_until = ac_locked_until a,
     u_must_change_password = ac_must_change a, u_tokens_valid_after = ac_tokens_after a,
     u_credential_version = ac_version a,
     u_manual_lock_until = (case ac_manual_until a of None \<Rightarrow> 0 | Some t \<Rightarrow> t)\<rparr>"

text \<open>The exemption of the last administrator is decided before the increment, in the same
  transaction.\<close>

definition record_failed_attempt ::
  "calls \<Rightarrow> time \<Rightarrow> string \<Rightarrow> int \<Rightarrow> string \<Rightarrow> int \<Rightarrow> time \<Rightarrow> account_db \<Rightarrow> account_db" where
  "record_failed_attempt fl now username uid ip max_attempts lockout db =
     (let db0 = record_login_attempt (fl CallLog) now username ip uid False db in
      if max_attempts \<le> 0 \<or> uid \<le> 0 then db0
      else if fl CallBegin \<or> fl CallCount then db0
      else
        let final = is_last_enabled_admin uid db0 in
        case (if fl CallPrimary then None else increment_failed_logins now uid max_attempts lockout db0) of
          None \<Rightarrow> db0
        | Some (n, locked, db1) \<Rightarrow>
            if locked \<and> final then
              (if fl CallTarget \<or> fl CallCommit then db0
               else update_account uid (\<lambda>a. a\<lparr>ac_failed := max_attempts - 1, ac_locked_until := None\<rparr>) db1)
            else if fl CallCommit then db0 else db1)"

definition login_expires :: "login_config \<Rightarrow> time \<Rightarrow> account \<Rightarrow> bool" where
  "login_expires cfg now a \<longleftrightarrow> \<not> ac_must_change a
     \<and> password_expired (pc_max_age_days (lc_password cfg)) now (Some (ac_changed_at a))"

text \<open>What a successful login writes, each write on its own and best effort.\<close>

definition login_records ::
  "login_config \<Rightarrow> (login_call \<Rightarrow> bool) \<Rightarrow> time \<Rightarrow> string \<Rightarrow> string \<Rightarrow> account \<Rightarrow> account_db \<Rightarrow> account_db" where
  "login_records cfg lf now username ip a db =
     (let db1 = (if lc_max_attempts cfg > 0 \<and> \<not> lf LoginReset
                 then reset_failed_logins (ac_id a) db else db);
          db2 = add_log_try (lf LoginLog) now (Some (ac_id a)) ''login''
            (''User '' @ ac_username a @ '' logged in'') db1;
          db3 = record_login_attempt (lf LoginAttempt) now username ip (ac_id a) True db2
      in if login_expires cfg now a \<and> \<not> lf LoginExpire
         then update_account (ac_id a) (\<lambda>x. x\<lparr>ac_must_change := True\<rparr>) db3 else db3)"

definition login ::
  "bcrypt \<Rightarrow> login_config \<Rightarrow> (login_call \<Rightarrow> bool) \<Rightarrow> calls \<Rightarrow> string option \<Rightarrow> string \<Rightarrow> login_views
    \<Rightarrow> time \<Rightarrow> string \<Rightarrow> string \<Rightarrow> string \<Rightarrow> account_db \<Rightarrow> login_reply \<times> account_db" where
  "login bc cfg lf fl jti sid v now form_user password ip db =
     (let username = to_lower (trim_space form_user);
          denied = LoginDenied ''invalid_credentials'';
          failed = (\<lambda>uid. record_failed_attempt fl now username uid ip (lc_max_attempts cfg) (lc_lockout cfg) db) in
      if lc_local_disabled cfg then (LoginDenied ''local_login_disabled'', db)
      else if lf LoginLookup then (LoginError, db)
      else (case find (\<lambda>a. to_lower (ac_username a) = username \<and> ac_enabled a) (adb_users (lv_lookup v)) of
        None \<Rightarrow> (denied, failed 0)
      | Some a \<Rightarrow>
          if lf LoginManual \<or> manually_locked (fst (lv_manual v)) (ac_id a) (snd (lv_manual v))
          then (denied, db)
          else if lc_max_attempts cfg > 0 \<and> lf LoginLock then (denied, db)
          else if lc_max_attempts cfg > 0 \<and> user_lock_status (fst (lv_lock v)) (ac_id a) (snd (lv_lock v))
          then (denied, failed (ac_id a))
          else if \<not> bc_matches bc (ac_hash a) password then (denied, failed (ac_id a))
          else (case (if lf LoginRecheck then None else find_account (ac_id a) (lv_recheck v)) of
            None \<Rightarrow> (denied, db)
          | Some b \<Rightarrow>
              if ac_version b \<noteq> ac_version a then (denied, db)
              else (case generate_session_token jti now (user_of_account a) (lc_session cfg) [] sid of
                None \<Rightarrow> (LoginError, db)
              | Some token \<Rightarrow>
                  (LoginOk token (if ac_must_change a \<or> login_expires cfg now a
                     then ''/change-password'' else ''/dashboard''),
                   login_records cfg lf now username ip a db)))))"

end
