(* ===== verification/AccountLaws.thy ===== *)
theory AccountLaws
  imports Login
begin

section \<open>Laws of the accounts\<close>

text \<open>
  What every account operation keeps: identities are unique, an enabled administrator remains,
  and a change of the credentials is visible in the credential version.  An operation here is
  a handler or a command run on its own, with any pattern of failing calls; the logins among
  them may have read any earlier or later state.
\<close>

datatype account_op =
    OpCreate calls time int user_form
  | OpUpdate calls time int int user_form
  | OpDelete calls time int int
  | OpBulk "int \<Rightarrow> calls" calls time int "string list"
  | OpLock calls time int int
  | OpUnlock calls time int int
  | OpChange calls bool time "user option" string string string
  | OpLogin login_config "login_call \<Rightarrow> bool" calls "string option" string login_views time string string string
  | OpUnlockCli calls time string string
  | OpResetCli calls time string string string

definition account_step ::
  "(nat \<Rightarrow> rune_class) \<Rightarrow> bcrypt \<Rightarrow> password_config \<Rightarrow> account_op \<Rightarrow> account_db \<Rightarrow> account_db" where
  "account_step classify bc pc op db =
     (case op of
        OpCreate fl now admin f \<Rightarrow> snd (create_user classify bc pc fl now admin f db)
      | OpUpdate fl now admin uid f \<Rightarrow> snd (update_user classify bc pc fl now admin uid f db db)
      | OpDelete fl now admin uid \<Rightarrow> snd (delete_user fl now admin uid db)
      | OpBulk flr fl now admin form \<Rightarrow> snd (bulk_delete_users flr fl now admin form db)
      | OpLock fl now admin uid \<Rightarrow> snd (lock_user fl now admin uid db)
      | OpUnlock fl now admin uid \<Rightarrow> snd (unlock_user fl now admin uid db)
      | OpChange fl token now user current new confirm \<Rightarrow>
          snd (snd (change_password classify bc pc fl token now user current new confirm db))
      | OpLogin cfg lf fl jti sid v now u pw ip \<Rightarrow> snd (login bc cfg lf fl jti sid v now u pw ip db)
      | OpUnlockCli fl now who ident \<Rightarrow> snd (unlock_user_cli fl now who ident db)
      | OpResetCli fl now who ident pw \<Rightarrow> snd (reset_user_password bc pc fl now who ident pw db))"

definition account_run ::
  "(nat \<Rightarrow> rune_class) \<Rightarrow> bcrypt \<Rightarrow> password_config \<Rightarrow> account_op list \<Rightarrow> account_db \<Rightarrow> account_db" where
  "account_run classify bc pc ops db = foldl (\<lambda>d op. account_step classify bc pc op d) db ops"

definition accounts_ok :: "account_db \<Rightarrow> bool" where
  "accounts_ok db \<longleftrightarrow> distinct (map ac_id (adb_users db))
     \<and> (\<forall>a\<in>set (adb_users db). ac_id a < adb_next_user db)
     \<and> distinct (map (to_lower \<circ> ac_username) (adb_users db))
     \<and> distinct (map (to_lower \<circ> ac_email) (adb_users db))"

subsection \<open>What identity and office depend on\<close>

definition core :: "account \<Rightarrow> int \<times> string \<times> string \<times> string \<times> bool" where
  "core a = (ac_id a, to_lower (ac_username a), to_lower (ac_email a), ac_role a, ac_enabled a)"

definition cores :: "account_db \<Rightarrow> (int \<times> string \<times> string \<times> string \<times> bool) list \<times> int" where
  "cores db = (map core (adb_users db), adb_next_user db)"

lemma accounts_ok_cores: "cores db' = cores db \<Longrightarrow> accounts_ok db' = accounts_ok db"
proof -
  have "accounts_ok d \<longleftrightarrow> distinct (map fst (fst (cores d))) \<and> (\<forall>c\<in>set (fst (cores d)). fst c < snd (cores d))
      \<and> distinct (map (\<lambda>c. fst (snd c)) (fst (cores d))) \<and> distinct (map (\<lambda>c. fst (snd (snd c))) (fst (cores d)))" for d
    by (simp add: accounts_ok_def cores_def core_def o_def)
  then show "cores db' = cores db \<Longrightarrow> accounts_ok db' = accounts_ok db" by presburger
qed

lemma count_enabled_admins_cores: "cores db' = cores db \<Longrightarrow> count_enabled_admins db' = count_enabled_admins db"
proof -
  have "count_enabled_admins d = length (filter (\<lambda>c. fst (snd (snd (snd c))) = ''admin'' \<and> snd (snd (snd (snd c))))
      (fst (cores d)))" for d
    by (simp add: count_enabled_admins_def cores_def core_def filter_map o_def enabled_admin_def [abs_def])
  then show "cores db' = cores db \<Longrightarrow> count_enabled_admins db' = count_enabled_admins db" by presburger
qed

subsection \<open>The contract of the row updates\<close>

text \<open>Most operations change rows in one of five ways.  A relation of databases that ignores the
  logs and the history, composes, and follows from a relation of rows holds for all of them.\<close>

locale row_contract =
  fixes keep :: "account \<Rightarrow> account \<Rightarrow> bool" and R :: "account_db \<Rightarrow> account_db \<Rightarrow> bool"
  assumes R_trans: "R d1 d2 \<Longrightarrow> R d2 d3 \<Longrightarrow> R d1 d3"
    and R_same: "adb_users d' = adb_users d \<Longrightarrow> adb_next_user d' = adb_next_user d \<Longrightarrow> R d d'"
    and R_update: "(\<And>a. keep a (f a)) \<Longrightarrow> R d (update_account uid f d)"
    and keep_counter: "keep a (a\<lparr>ac_failed := n, ac_locked_until := l\<rparr>)"
    and keep_manual: "keep a (a\<lparr>ac_locked_until := l, ac_manual_until := m, ac_failed := n,
        ac_tokens_after := t, ac_version := ac_version a + 1\<rparr>)"
    and keep_unlock: "keep a (a\<lparr>ac_failed := 0, ac_locked_until := None, ac_manual_until := None\<rparr>)"
    and keep_rotate: "keep a (a\<lparr>ac_hash := h, ac_changed_at := t, ac_must_change := b,
        ac_tokens_after := t', ac_version := ac_version a + 1\<rparr>)"
    and keep_must: "keep a (a\<lparr>ac_must_change := True\<rparr>)"
begin

lemma R_refl: "R d d"
  by (rule R_same) simp_all

lemma R_attempt: "R d (record_login_attempt fails now u ip uid ok d)"
  by (rule R_same) (simp_all add: record_login_attempt_def)

lemma R_log: "add_log fails now who act det d = Some d' \<Longrightarrow> R d d'"
  by (rule R_same) (auto simp: add_log_def split: if_splits)

lemma R_log_try: "R d (add_log_try fails now who act det d)"
  by (auto simp: add_log_try_def R_refl dest: R_log split: option.split)

lemma R_record: "record_password uid h d = Some d' \<Longrightarrow> R d d'"
  by (rule R_same) (auto simp: record_password_def split: if_splits)

lemma R_prune: "R d (prune_password_history uid n d)"
  by (rule R_same) (simp_all add: prune_password_history_def Let_def)

lemma R_increment: "increment_failed_logins now uid m dur d = Some (n, l, d') \<Longrightarrow> R d d'"
  by (auto simp: increment_failed_logins_def Let_def intro!: R_update keep_counter split: option.splits)

lemma R_reset: "R d (reset_failed_logins uid d)"
  by (simp add: reset_failed_logins_def R_update keep_counter)

lemma R_admin_unlock: "R d (admin_unlock_user uid d)"
  by (simp add: admin_unlock_user_def R_update keep_unlock)

lemma R_admin_lock: "admin_lock_user now uid dur d = Some d' \<Longrightarrow> R d d'"
  by (auto simp: admin_lock_user_def intro!: R_update keep_manual split: if_splits)

lemma R_rotate:
  assumes "rotate_password bc fl hist now uid pw must d = Inr d'"
  shows "R d d'"
proof -
  obtain h where
    "hist \<le> 0 \<Longrightarrow> d' = update_account uid (rotated_row h now must) d"
    "hist > 0 \<Longrightarrow> \<exists>d2. record_password uid h (update_account uid (rotated_row h now must) d) = Some d2
       \<and> d' = prune_password_history uid hist d2"
    using assms by (rule rotate_password_InrE) blast
  moreover have "R d (update_account uid (rotated_row h now must) d)"
    by (rule R_update) (simp add: rotated_row_def keep_rotate)
  ultimately show ?thesis by (metis R_record R_prune R_trans linorder_not_less)
qed

lemma R_failed: "R d (record_failed_attempt fl now u uid ip m dur d)"
proof -
  let ?d0 = "record_login_attempt (fl CallLog) now u ip uid False d"
  have "record_failed_attempt fl now u uid ip m dur d = ?d0
      \<or> (\<exists>n l d1. increment_failed_logins now uid m dur ?d0 = Some (n, l, d1)
          \<and> (record_failed_attempt fl now u uid ip m dur d = d1 \<or>
             record_failed_attempt fl now u uid ip m dur d =
               update_account uid (\<lambda>a. a\<lparr>ac_failed := m - 1, ac_locked_until := None\<rparr>) d1))"
    by (auto simp: record_failed_attempt_def Let_def split: option.split if_splits)
  then show ?thesis
    by (elim disjE exE conjE) (simp_all, (metis R_attempt R_increment R_trans R_update keep_counter)+)
qed

lemma R_login_records: "R d (login_records cfg lf now u ip a d)"
proof -
  let ?d1 = "if lc_max_attempts cfg > 0 \<and> \<not> lf LoginReset then reset_failed_logins (ac_id a) d else d"
  let ?d2 = "\<lambda>d. record_login_attempt (lf LoginAttempt) now u ip (ac_id a) True
      (add_log_try (lf LoginLog) now (Some (ac_id a)) (''login'') (''User '' @ ac_username a @ '' logged in'') d)"
  have 1: "R d ?d1" by (simp add: R_reset R_refl)
  have 2: "R d (?d2 ?d1)" by (rule R_trans [OF R_trans [OF 1 R_log_try] R_attempt])
  have 3: "R (?d2 ?d1) (update_account (ac_id a) (\<lambda>x. x\<lparr>ac_must_change := True\<rparr>) (?d2 ?d1))"
    by (rule R_update) (rule keep_must)
  show ?thesis
    using 2 R_trans [OF 2 3] by (simp add: login_records_def Let_def)
qed

lemma R_login: "R d (snd (login bc cfg lf fl jti sid v now u pw ip d))"
  by (simp only: login_def Let_def snd_conv R_refl R_failed R_login_records simp_thms
      split: if_split option.split)

lemma R_lock: "R d (snd (lock_user fl now admin uid d))"
  by (auto simp: lock_user_def R_refl intro: R_trans [OF R_admin_lock R_log_try] split: option.split)

lemma R_unlock: "R d (snd (unlock_user fl now admin uid d))"
  by (auto simp: unlock_user_def R_refl intro: R_trans [OF R_admin_unlock R_log_try] split: option.split)

lemma R_change: "R d (snd (snd (change_password classify bc pc fl token now user cur new conf d)))"
  by (auto simp: change_password_def R_refl intro: R_trans [OF R_rotate R_log] split: option.split sum.split)

lemma R_unlock_cli: "R d (snd (unlock_user_cli fl now who ident d))"
  by (auto simp: unlock_user_cli_def R_refl intro: R_trans [OF R_admin_unlock R_log_try] split: option.split)

lemma R_reset_cli: "R d (snd (reset_user_password bc pc fl now who ident pw d))"
  by (auto simp: reset_user_password_def Let_def R_refl intro: R_trans [OF R_rotate R_log_try]
      split: option.split sum.split)

lemmas R_operations = R_login R_lock R_unlock R_change R_unlock_cli R_reset_cli

end

interpretation office: row_contract "\<lambda>a b. core b = core a" "\<lambda>d d'. cores d' = cores d"
  by unfold_locales (auto simp: cores_def core_def update_account_def)

subsection \<open>An administrator remains\<close>

definition in_office :: "account_db \<Rightarrow> bool" where
  "in_office db \<longleftrightarrow> accounts_ok db \<and> count_enabled_admins db > 0"

lemma in_office_cores: "cores db' = cores db \<Longrightarrow> in_office db' = in_office db"
  using accounts_ok_cores [of db' db] count_enabled_admins_cores [of db' db] by (simp add: in_office_def)

lemma in_office_log: "add_log fails now who act det d = Some d' \<Longrightarrow> in_office d \<Longrightarrow> in_office d'"
  using in_office_cores [OF office.R_log] by blast

lemma in_office_record: "record_password uid h d = Some d' \<Longrightarrow> in_office d \<Longrightarrow> in_office d'"
  using in_office_cores [OF office.R_record] by blast

lemma insert_in_office:
  assumes "insert_account a d = Some (uid, d')" "in_office d"
  shows "in_office d'"
proof -
  have fresh: "to_lower (ac_username b) \<noteq> to_lower (ac_username a)" "to_lower (ac_email b) \<noteq> to_lower (ac_email a)"
    if "b \<in> set (adb_users d)" for b
    using assms(1) that by (auto simp: insert_account_def list_ex_iff split: if_splits)
  have ids: "b \<in> set (adb_users d) \<Longrightarrow> ac_id b < adb_next_user d" for b
    using assms(2) by (simp add: in_office_def accounts_ok_def)
  have "d' = d\<lparr>adb_users := adb_users d @ [a\<lparr>ac_id := adb_next_user d\<rparr>], adb_next_user := adb_next_user d + 1\<rparr>"
    using assms(1) by (auto simp: insert_account_def split: if_splits)
  with assms(2) show ?thesis
    using fresh ids by (force simp: in_office_def accounts_ok_def count_enabled_admins_def)
qed

lemma create_user_cases:
  "snd (create_user classify bc pc fl now admin f d) = d \<or>
   (\<exists>h. bc_generate bc (uf_password f) = Some h \<and>
      create_user classify bc pc fl now admin f d = create_user_tx pc fl now admin f h d)"
  by (auto simp: create_user_def Let_def split: option.split)

lemma create_user_tx_cases:
  "snd (create_user_tx pc fl now admin f h d) = d \<or>
   (\<exists>uid d1 d2 det. insert_account (new_account f h now) d = Some (uid, d1)
      \<and> add_log (fl CallLog) now (Some admin) ''create_user'' det d1 = Some d2
      \<and> (snd (create_user_tx pc fl now admin f h d) = d2
         \<or> record_password uid h d2 = Some (snd (create_user_tx pc fl now admin f h d))))"
  by (auto simp: create_user_tx_def commit_page_def split: option.split prod.split if_splits)

lemma create_in_office:
  assumes "in_office d"
  shows "in_office (snd (create_user classify bc pc fl now admin f d))"
proof -
  have "in_office (snd (create_user_tx pc fl now admin f h d))" for h
    using create_user_tx_cases [of pc fl now admin f h d] assms insert_in_office in_office_log in_office_record
    by metis
  then show ?thesis using create_user_cases [of classify bc pc fl now admin f d] assms by metis
qed

lemma count_delete:
  assumes "accounts_ok d" "find_account uid d = Some a"
  shows "count_enabled_admins d = count_enabled_admins (delete_account uid d) + (if enabled_admin a then 1 else 0)"
proof -
  have "distinct (map ac_id us) \<Longrightarrow> find (\<lambda>a. ac_id a = uid) us = Some a \<Longrightarrow>
      length (filter enabled_admin us) = length (filter enabled_admin (filter (\<lambda>a. ac_id a \<noteq> uid) us))
        + (if enabled_admin a then 1 else 0)" for us
  proof (induction us)
    case (Cons b us)
    show ?case
    proof (cases "ac_id b = uid")
      case True
      with Cons.prems have "filter (\<lambda>a. ac_id a \<noteq> uid) us = us"
        by (auto intro!: filter_True simp: image_iff)
      with True Cons.prems show ?thesis by simp
    qed (use Cons in auto)
  qed simp
  with assms show ?thesis
    by (simp add: accounts_ok_def find_account_def count_enabled_admins_def delete_account_def)
qed

lemma delete_in_office:
  assumes "in_office d" "find_account uid d = Some a" "\<not> (enabled_admin a \<and> count_enabled_admins d \<le> 1)"
  shows "in_office (delete_account uid d)"
proof -
  have "accounts_ok (delete_account uid d)"
    using assms(1) by (auto simp: in_office_def accounts_ok_def delete_account_def distinct_map_filter)
  then show ?thesis
    using count_delete [of d uid a] assms by (auto simp: in_office_def split: if_splits)
qed

lemma delete_logged_in_office:
  "add_log fails now who act det (delete_account uid d) = Some d' \<Longrightarrow> in_office d \<Longrightarrow>
     find_account uid d = Some a \<Longrightarrow> \<not> (enabled_admin a \<and> count_enabled_admins d \<le> 1) \<Longrightarrow> in_office d'"
  by (rule in_office_log, assumption, rule delete_in_office)

lemma delete_user_in_office: "in_office d \<Longrightarrow> in_office (snd (delete_user fl now admin uid d))"
  by (auto simp: delete_user_def commit_page_def elim: delete_logged_in_office split: option.split)

lemma bulk_loop_in_office:
  "in_office d \<Longrightarrow> bulk_delete_loop fl now admin ids d = Some (n, failed, d') \<Longrightarrow> in_office d'"
proof (induction ids arbitrary: d n failed d')
  case (Cons uid ids)
  show ?case
  proof (cases "\<exists>a. find_account uid d = Some a \<and> \<not> (enabled_admin a \<and> count_enabled_admins d \<le> 1) \<and> uid \<noteq> admin")
    case True
    with Cons.prems have "in_office (delete_account uid d)" by (auto intro: delete_in_office)
    with True Cons show ?thesis
      by (auto simp: Let_def dest: in_office_log split: if_splits option.splits)
  next
    case False
    with Cons show ?thesis by (auto simp: Let_def split: if_splits option.splits)
  qed
qed simp

lemma bulk_in_office: "in_office d \<Longrightarrow> in_office (snd (bulk_delete_users flr fl now admin form d))"
  by (auto simp: bulk_delete_users_def Let_def dest: bulk_loop_in_office split: option.split prod.split)

lemma update_in_office_core:
  assumes d: "in_office d" and t: "find_account uid d = Some t"
    and f: "\<And>a. ac_id (f a) = ac_id a \<and> ac_username (f a) = ac_username a \<and> ac_email (f a) = email
      \<and> ac_role (f a) = role \<and> ac_enabled (f a) = enabled"
    and unique: "\<not> list_ex (\<lambda>b. ac_id b \<noteq> uid \<and> to_lower (ac_email b) = to_lower email) (adb_users d)"
    and guard: "\<not> (enabled_admin t \<and> (role \<noteq> ''admin'' \<or> \<not> enabled) \<and> count_enabled_admins d \<le> 1)"
  shows "in_office (update_account uid f d)"
proof -
  let ?g = "\<lambda>a. if ac_id a = uid then f a else a"
  have ids: "map ac_id (map ?g us) = map ac_id us" for us using f by (induction us) auto
  have names: "map (to_lower \<circ> ac_username) (map ?g us) = map (to_lower \<circ> ac_username) us" for us
    using f by (induction us) auto
  have mails: "distinct (map ac_id us) \<Longrightarrow> distinct (map (to_lower \<circ> ac_email) us) \<Longrightarrow>
      \<not> list_ex (\<lambda>b. ac_id b \<noteq> uid \<and> to_lower (ac_email b) = to_lower email) us \<Longrightarrow>
      distinct (map (to_lower \<circ> ac_email) (map ?g us))" for us
    using f by (induction us) (auto simp: list_ex_iff image_iff)
  have count: "distinct (map ac_id us) \<Longrightarrow> find (\<lambda>a. ac_id a = uid) us = Some t \<Longrightarrow>
      length (filter enabled_admin (map ?g us)) + (if enabled_admin t then 1 else 0)
      = length (filter enabled_admin us) + (if role = ''admin'' \<and> enabled then 1 else 0)" for us
  proof (induction us)
    case (Cons b us)
    show ?case
    proof (cases "ac_id b = uid")
      case True
      with Cons.prems have "map ?g us = us" by (auto intro!: map_idI simp: image_iff)
      with True Cons.prems show ?thesis using f by (auto simp: enabled_admin_def)
    qed (use Cons in auto)
  qed simp
  have c: "count_enabled_admins (update_account uid f d) + (if enabled_admin t then 1 else 0)
      = count_enabled_admins d + (if role = ''admin'' \<and> enabled then 1 else 0)"
    using count [of "adb_users d"] d t
    by (simp add: in_office_def accounts_ok_def find_account_def update_account_def count_enabled_admins_def)
  have u: "adb_users (update_account uid f d) = map ?g (adb_users d)"
      "adb_next_user (update_account uid f d) = adb_next_user d"
    by (simp_all add: update_account_def)
  have "accounts_ok (update_account uid f d)"
    unfolding accounts_ok_def u ids names
    using d mails [of "adb_users d"] unique f by (auto simp: in_office_def accounts_ok_def)
  with c d guard show ?thesis by (auto simp: in_office_def split: if_splits)
qed

lemma rotate_in_office: "rotate_password bc fl hist now uid pw must d = Inr d' \<Longrightarrow> in_office d \<Longrightarrow> in_office d'"
  using in_office_cores [OF office.R_rotate] by blast

lemma edited_in_office:
  assumes "in_office d" "find_account uid d = Some t"
    and "\<not> list_ex (\<lambda>b. ac_id b \<noteq> uid \<and> to_lower (ac_email b) = to_lower (to_lower (trim_space (uf_email f))))
        (adb_users d)"
    and "\<not> (ac_role t = ''admin'' \<and> ac_enabled t \<and> (trim_space (uf_role f) \<noteq> ''admin'' \<or> \<not> form_flag (uf_flag f))
        \<and> count_enabled_admins d \<le> 1)"
  shows "in_office (update_account uid (edited_row now f b) d)"
  by (rule update_in_office_core [where t = t and email = "to_lower (trim_space (uf_email f))"
        and role = "trim_space (uf_role f)" and enabled = "form_flag (uf_flag f)"])
    (use assms in \<open>simp_all add: edited_row_def Let_def enabled_admin_def\<close>)

lemma update_user_cases:
  "snd (update_user classify bc pc fl now admin uid f seen d) = d \<or>
   (\<exists>t. find_account uid seen = Some t \<and>
      update_user classify bc pc fl now admin uid f seen d = update_user_tx bc pc fl now admin uid f t d)"
  by (auto simp: update_user_def split: option.split)

lemma update_user_tx_E:
  assumes "find_account uid d = Some a"
  obtains (same) "snd (update_user_tx bc pc fl now admin uid f t d) = d"
  | (changed) d2 det where
    "\<not> (enabled_admin t \<and> (trim_space (uf_role f) \<noteq> ''admin'' \<or> \<not> form_flag (uf_flag f))
        \<and> count_enabled_admins d \<le> 1)"
    "\<not> list_ex (\<lambda>b. ac_id b \<noteq> uid \<and> to_lower (ac_email b) = to_lower (to_lower (trim_space (uf_email f))))
        (adb_users d)"
    "d2 = update_account uid (edited_row now f (ac_enabled t)) d \<or>
       rotate_password bc fl (pc_history pc) now uid (uf_password f) True
         (update_account uid (edited_row now f (ac_enabled t)) d) = Inr d2"
    "add_log (fl CallLog) now (Some admin) ''update_user'' det d2
       = Some (snd (update_user_tx bc pc fl now admin uid f t d))"
proof -
  let ?r = "if uf_password f = [] then Inr (update_account uid (edited_row now f (ac_enabled t)) d)
      else rotate_password bc fl (pc_history pc) now uid (uf_password f) True
        (update_account uid (edited_row now f (ac_enabled t)) d)"
  show thesis
  proof (cases "snd (update_user_tx bc pc fl now admin uid f t d) = d")
    case False
    then obtain d2 where d2: "?r = Inr d2"
      by (cases ?r) (auto simp: update_user_tx_def Let_def)
    show thesis
      by (rule changed [of d2]) (use False d2 assms in
        \<open>auto simp: update_user_tx_def Let_def commit_page_def split: if_splits option.splits\<close>)
  qed (rule same)
qed

lemma update_user_in_office:
  assumes d: "in_office d"
  shows "in_office (snd (update_user classify bc pc fl now admin uid f d d))"
proof -
  have "in_office (snd (update_user_tx bc pc fl now admin uid f t d))" if t: "find_account uid d = Some t" for t
    using t
  proof (cases rule: update_user_tx_E [of _ _ _ bc pc fl now admin f t])
    case (changed d2 det)
    then have "in_office (update_account uid (edited_row now f (ac_enabled t)) d)"
      by (intro edited_in_office [OF d t]) (auto simp: enabled_admin_def)
    with changed(3,4) show ?thesis using in_office_log rotate_in_office by metis
  qed (use d in simp)
  then show ?thesis using update_user_cases [of classify bc pc fl now admin uid f d d] d by metis
qed

lemma step_in_office: "in_office d \<Longrightarrow> in_office (account_step classify bc pc op d)"
  using office.R_operations [THEN in_office_cores]
  by (cases op) (simp_all add: account_step_def create_in_office update_user_in_office
      delete_user_in_office bulk_in_office)

lemma run_in_office: "in_office d \<Longrightarrow> in_office (account_run classify bc pc ops d)"
  by (induction ops arbitrary: d) (simp_all add: account_run_def step_in_office)

text \<open>Accounts for the witnesses: an administrator and an operator.\<close>

definition sample_account :: "int \<Rightarrow> string \<Rightarrow> string \<Rightarrow> account" where
  "sample_account i name role = \<lparr>ac_id = i, ac_username = name, ac_email = name @ ''@x.y'',
     ac_hash = name, ac_first_name = [], ac_last_name = [], ac_role = role, ac_enabled = True,
     ac_failed = 0, ac_locked_until = None, ac_manual_until = None, ac_tokens_after = 0,
     ac_version = 0, ac_must_change = False, ac_changed_at = 0\<rparr>"

definition sample_accounts :: account_db where
  "sample_accounts = \<lparr>adb_users = [sample_account 1 ''root'' ''admin'', sample_account 2 ''ops'' ''operator''],
     adb_next_user = 3, adb_history = [], adb_next_history = 1, adb_attempts = [], adb_log = []\<rparr>"

definition plain_bcrypt :: bcrypt where
  "plain_bcrypt = \<lparr>bc_generate = Some, bc_matches = (=)\<rparr>"

definition sample_pc :: password_config where
  "sample_pc = \<lparr>pc_policy = \<lparr>min_length = 0, require_uppercase = False, require_lowercase = False,
     require_digit = False, require_special = False, max_length = 0\<rparr>, pc_history = 2, pc_max_age_days = 0\<rparr>"

lemma sample_in_office: "in_office sample_accounts"
  by (simp add: in_office_def accounts_ok_def sample_accounts_def sample_account_def
      count_enabled_admins_def enabled_admin_def go_str)

text \<open>C11: An enabled administrator remains.  If there is one and identities are unique, both stay
  so after any sequence of account operations run one after the other (creations, edits,
  single and bulk deletions, locks, password changes, logins, recovery commands), whoever
  makes them and whichever of their database calls fail.\<close>

theorem an_admin_remains:
  assumes "accounts_ok db" "count_enabled_admins db > 0"
  shows "accounts_ok (account_run classify bc pc ops db)
    \<and> count_enabled_admins (account_run classify bc pc ops db) > 0"
  using run_in_office [of db] assms by (simp add: in_office_def)

theorem an_admin_remains_witness:
  "count_enabled_admins (account_run ascii_class plain_bcrypt sample_pc
     [OpDelete (\<lambda>_. False) 0 2 1, OpBulk (\<lambda>_ _. False) (\<lambda>_. False) 0 2 [''1'']] sample_accounts) > 0"
  using an_admin_remains [of sample_accounts] sample_in_office by (simp add: in_office_def)

subsection \<open>Credentials and their version\<close>

text \<open>A row of the same version has the same password and is no more restricted.\<close>

definition row_evolves :: "account \<Rightarrow> account \<Rightarrow> bool" where
  "row_evolves a b \<longleftrightarrow> ac_id b = ac_id a \<and> ac_username b = ac_username a \<and> ac_version a \<le> ac_version b
     \<and> (ac_version b = ac_version a \<longrightarrow> ac_hash b = ac_hash a \<and> (ac_enabled a \<longrightarrow> ac_enabled b)
         \<and> (ac_manual_until b = ac_manual_until a \<or> ac_manual_until b = None))"

definition evolves :: "account_db \<Rightarrow> account_db \<Rightarrow> bool" where
  "evolves d d' \<longleftrightarrow> adb_next_user d \<le> adb_next_user d'
     \<and> (\<forall>b\<in>set (adb_users d'). ac_id b < adb_next_user d \<longrightarrow> (\<exists>a\<in>set (adb_users d). row_evolves a b))"

lemma row_evolves_refl [simp]: "row_evolves a a"
  by (simp add: row_evolves_def)

lemma row_evolves_in: "b \<in> S \<Longrightarrow> \<exists>a\<in>S. row_evolves a b"
  by (rule bexI [of _ b]) simp_all

lemma row_evolves_trans: "row_evolves a b \<Longrightarrow> row_evolves b c \<Longrightarrow> row_evolves a c"
  by (auto simp: row_evolves_def)

lemma evolves_trans: "evolves d1 d2 \<Longrightarrow> evolves d2 d3 \<Longrightarrow> evolves d1 d3"
  by (fastforce simp: evolves_def row_evolves_def intro: row_evolves_trans [unfolded row_evolves_def])

lemma evolves_update:
  "(\<And>a. a \<in> set (adb_users d) \<Longrightarrow> ac_id a = uid \<Longrightarrow> row_evolves a (f a)) \<Longrightarrow> evolves d (update_account uid f d)"
  by (force simp: evolves_def update_account_def)

interpretation rotation: row_contract row_evolves evolves
proof unfold_locales
  show "evolves d d'" if "adb_users d' = adb_users d" "adb_next_user d' = adb_next_user d" for d d'
    using that by (auto simp: evolves_def intro: row_evolves_refl)
qed (auto simp: evolves_update intro: evolves_trans, simp_all add: row_evolves_def)

lemma evolves_insert: "insert_account a d = Some (uid, d') \<Longrightarrow> evolves d d'"
  by (auto simp: insert_account_def evolves_def row_evolves_in split: if_splits)

lemma evolves_delete: "evolves d (delete_account uid d)"
  by (auto simp: delete_account_def evolves_def intro: row_evolves_refl)

lemma evolves_create: "evolves d (snd (create_user classify bc pc fl now admin f d))"
proof -
  have "evolves d (snd (create_user_tx pc fl now admin f h d))" for h
    using create_user_tx_cases [of pc fl now admin f h d]
  proof (elim disjE exE conjE)
    fix uid d1 d2 det
    assume *: "insert_account (new_account f h now) d = Some (uid, d1)"
      "add_log (fl CallLog) now (Some admin) ''create_user'' det d1 = Some d2"
    note e = evolves_trans [OF evolves_insert [OF *(1)] rotation.R_log [OF *(2)]]
    {
      assume "snd (create_user_tx pc fl now admin f h d) = d2"
      with e show ?thesis by simp
    next
      assume "record_password uid h d2 = Some (snd (create_user_tx pc fl now admin f h d))"
      from evolves_trans [OF e rotation.R_record [OF this]] show ?thesis .
    }
  qed (simp add: rotation.R_refl)
  then show ?thesis
    using create_user_cases [of classify bc pc fl now admin f d] rotation.R_refl by metis
qed

lemma evolves_delete_logged:
  "add_log fl now w act det (delete_account uid d) = Some d' \<Longrightarrow> evolves d d'"
  by (metis evolves_delete evolves_trans rotation.R_log)

lemma evolves_delete_user: "evolves d (snd (delete_user fl now admin uid d))"
  by (auto simp: delete_user_def commit_page_def rotation.R_refl dest: evolves_delete_logged split: option.split)

lemma bulk_loop_Cons:
  "bulk_delete_loop fl now admin (uid # ids) d = Some (n, failed, d') \<Longrightarrow>
     (\<exists>n' failed'. bulk_delete_loop fl now admin ids d = Some (n', failed', d'))
     \<or> (\<exists>d1 n' failed'. add_log (fl uid CallLog) now (Some admin) ''delete_user''
           (''Deleted user '' @ dec_int uid) (delete_account uid d) = Some d1
         \<and> bulk_delete_loop fl now admin ids d1 = Some (n', failed', d'))"
  by (auto simp: Let_def split: if_splits option.splits)

lemma evolves_bulk_loop:
  "bulk_delete_loop fl now admin ids d = Some (n, failed, d') \<Longrightarrow> evolves d d'"
proof (induction ids arbitrary: d n failed d')
  case (Cons uid ids)
  from bulk_loop_Cons [OF Cons.prems] show ?case
    using evolves_trans [OF evolves_delete_logged Cons.IH] Cons.IH by (elim disjE exE conjE) blast+
qed (simp add: rotation.R_refl)

lemma evolves_bulk: "evolves d (snd (bulk_delete_users flr fl now admin form d))"
  by (auto simp: bulk_delete_users_def Let_def rotation.R_refl dest: evolves_bulk_loop split: option.split prod.split)

lemma find_account_SomeD: "find_account uid d = Some a \<Longrightarrow> a \<in> set (adb_users d) \<and> ac_id a = uid"
  by (auto simp: find_account_def find_Some_iff)

lemma find_account_iff: "accounts_ok d \<Longrightarrow> find_account uid d = Some a \<longleftrightarrow> a \<in> set (adb_users d) \<and> ac_id a = uid"
proof -
  have "distinct (map ac_id us) \<Longrightarrow> find (\<lambda>a. ac_id a = uid) us = Some a \<longleftrightarrow> a \<in> set us \<and> ac_id a = uid" for us
    by (induction us) (auto simp: image_iff)
  then show "accounts_ok d \<Longrightarrow> ?thesis" by (simp add: accounts_ok_def find_account_def)
qed

lemma account_unique:
  "accounts_ok d \<Longrightarrow> a \<in> set (adb_users d) \<Longrightarrow> b \<in> set (adb_users d) \<Longrightarrow> ac_id a = ac_id b \<Longrightarrow> a = b"
  by (auto simp: accounts_ok_def distinct_map dest: inj_onD)

lemma evolves_edit:
  assumes "accounts_ok d" "find_account uid d = Some t"
  shows "evolves d (update_account uid (edited_row now f (ac_enabled t)) d)"
proof (rule evolves_update)
  fix a
  assume "a \<in> set (adb_users d)" "ac_id a = uid"
  then have "a = t"
    using account_unique [OF assms(1)] find_account_SomeD [OF assms(2)] by simp
  then show "row_evolves a (edited_row now f (ac_enabled t) a)"
    by (simp add: row_evolves_def edited_row_def Let_def)
qed

lemma evolves_update_user:
  assumes "accounts_ok d"
  shows "evolves d (snd (update_user classify bc pc fl now admin uid f d d))"
proof -
  have "evolves d (snd (update_user_tx bc pc fl now admin uid f t d))" if t: "find_account uid d = Some t" for t
    using t
  proof (cases rule: update_user_tx_E [of _ _ _ bc pc fl now admin f t])
    case (changed d2 det)
    note e = evolves_edit [OF assms t, of now f]
    have "evolves d d2" using changed(3) e evolves_trans [OF e rotation.R_rotate] by blast
    from evolves_trans [OF this rotation.R_log [OF changed(4)]] show ?thesis .
  qed (simp add: rotation.R_refl)
  then show ?thesis
    using update_user_cases [of classify bc pc fl now admin uid f d d] rotation.R_refl by metis
qed

lemma evolves_step: "accounts_ok d \<Longrightarrow> evolves d (account_step classify bc pc op d)"
  by (cases op) (simp_all add: account_step_def rotation.R_operations evolves_create evolves_delete_user
      evolves_bulk evolves_update_user)

lemma evolves_run: "in_office d \<Longrightarrow> evolves d (account_run classify bc pc ops d)"
proof (induction ops arbitrary: d)
  case (Cons op ops)
  have "evolves d (account_step classify bc pc op d)"
    using Cons.prems by (simp add: evolves_step in_office_def)
  with Cons.IH [OF step_in_office [OF Cons.prems]] show ?case
    unfolding account_run_def by (simp add: evolves_trans [OF \<open>evolves d _\<close>])
qed (simp add: account_run_def rotation.R_refl)

lemma evolves_find:
  assumes "evolves d d'" "accounts_ok d" "find_account uid d = Some a" "find_account uid d' = Some b"
  shows "row_evolves a b"
proof -
  have a: "a \<in> set (adb_users d)" "ac_id a = uid" and b: "b \<in> set (adb_users d')" "ac_id b = uid"
    using assms(3,4) find_account_SomeD by auto
  have "ac_id a < adb_next_user d" using assms(2) a(1) by (simp add: accounts_ok_def)
  with a b have "ac_id b < adb_next_user d" by simp
  then obtain a' where "a' \<in> set (adb_users d)" "row_evolves a' b"
    using assms(1) b(1) unfolding evolves_def by blast
  moreover have "a' = a"
    using account_unique [OF assms(2), of a' a] calculation a b by (simp add: row_evolves_def)
  ultimately show ?thesis by simp
qed

end
