(* ===== verification/LoginLaws.thy ===== *)
theory LoginLaws
  imports AccountLaws
begin

section \<open>Laws of login, lockout and password change\<close>

text \<open>
  What a password login promises, on its own and together with the authentication middleware;
  how failures lead to a lockout; what a password change leaves behind; and what may go wrong
  when an edit of an account acts on a row it read before its transaction.
\<close>

subsection \<open>Login\<close>

lemma login_OkE:
  assumes "login bc cfg lf fl jti sid v now u pw ip db = (LoginOk tok target, db')"
  obtains a b j where "a \<in> set (adb_users (lv_lookup v))"
    "to_lower (ac_username a) = to_lower (trim_space u)" "ac_enabled a"
    "\<not> manually_locked (fst (lv_manual v)) (ac_id a) (snd (lv_manual v))"
    "\<not> (lc_max_attempts cfg > 0 \<and> user_lock_status (fst (lv_lock v)) (ac_id a) (snd (lv_lock v)))"
    "bc_matches bc (ac_hash a) pw"
    "find_account (ac_id a) (lv_recheck v) = Some b" "ac_version b = ac_version a"
    "tok = \<lparr>cl_id = j, cl_user_id = ac_id a, cl_provider = [], cl_sid = sid, cl_cvv = ac_version a,
       cl_issued_at = Some (whole_seconds now), cl_expires_at = Some (whole_seconds (now + lc_session cfg))\<rparr>"
    "\<not> lc_local_disabled cfg"
proof -
  from assms obtain a where f: "find (\<lambda>a. to_lower (ac_username a) = to_lower (trim_space u) \<and> ac_enabled a)
      (adb_users (lv_lookup v)) = Some a"
    by (auto simp: login_def Let_def split: option.splits if_splits)
  then have a: "a \<in> set (adb_users (lv_lookup v))" "to_lower (ac_username a) = to_lower (trim_space u)" "ac_enabled a"
    by (auto simp: find_Some_iff)
  from assms f show thesis
    by (auto simp: login_def Let_def generate_session_token_def user_of_account_def
        split: option.splits if_splits intro!: that [OF a])
qed

text \<open>C12: A login issues a token only for the right password, and no change of the account slips
  past it.  Whatever operations run between its queries, when the version is read back the
  account is enabled, its password is the one that was compared, no manual lock holds at the
  time of the lock check, and the token carries its identity and version; an automatic lock
  stops the login unless the feature is off.\<close>

theorem login_sound:
  assumes "accounts_ok d0" "count_enabled_admins d0 > 0"
    and "d1 = account_run classify bc pc ops1 d0" "d2 = account_run classify bc pc ops2 d1"
    and "login bc cfg lf fl jti sid \<lparr>lv_lookup = d0, lv_manual = (t, d1), lv_lock = lk, lv_recheck = d2\<rparr>
        now u pw ip db = (LoginOk tok target, db')"
  shows "\<exists>a. find_account (cl_user_id tok) d2 = Some a
    \<and> to_lower (ac_username a) = to_lower (trim_space u) \<and> bc_matches bc (ac_hash a) pw
    \<and> ac_enabled a \<and> cl_cvv tok = ac_version a \<and> \<not> manually_locked t (cl_user_id tok) d2
    \<and> \<not> (lc_max_attempts cfg > 0 \<and> user_lock_status (fst lk) (cl_user_id tok) (snd lk))"
  using assms(5)
proof (cases rule: login_OkE)
  case (1 a b j)
  have o0: "in_office d0" using assms(1,2) by (simp add: in_office_def)
  note o1 = run_in_office [OF o0, of classify bc pc ops1, folded assms(3)]
  have e01: "evolves d0 d1" and e12: "evolves d1 d2"
    using evolves_run [OF o0] evolves_run [OF o1] assms(3,4) by auto
  have f0: "find_account (ac_id a) d0 = Some a" using 1(1) assms(1) by (simp add: find_account_iff)
  have f2: "find_account (ac_id a) d2 = Some b" using 1(7) by simp
  have r: "row_evolves a b" by (rule evolves_find [OF evolves_trans [OF e01 e12] assms(1) f0 f2])
  have b: "b \<in> set (adb_users d2)" "ac_id b = ac_id a" using find_account_SomeD [OF f2] by auto
  have "ac_id a < adb_next_user d0" using 1(1) assms(1) by (simp add: accounts_ok_def)
  then have "ac_id b < adb_next_user d1" using e01 b by (simp add: evolves_def)
  with e12 b obtain m where m: "m \<in> set (adb_users d1)" "row_evolves m b" by (auto simp: evolves_def)
  have f1: "find_account (ac_id a) d1 = Some m"
    using m b(2) o1 by (auto simp: find_account_iff in_office_def row_evolves_def)
  have "row_evolves a m" by (rule evolves_find [OF e01 assms(1) f0 f1])
  with r m(2) 1(8) have "ac_version m = ac_version b" by (auto simp: row_evolves_def)
  with m(2) have "ac_manual_until b = ac_manual_until m \<or> ac_manual_until b = None" by (simp add: row_evolves_def)
  with 1(4) f1 f2 have "\<not> manually_locked t (ac_id a) d2" by (auto simp: manually_locked_def)
  with 1 r f2 show ?thesis by (auto simp: row_evolves_def)
qed

definition sample_login :: login_config where
  "sample_login = \<lparr>lc_local_disabled = False, lc_max_attempts = 3, lc_lockout = minute,
     lc_session = 60 * minute, lc_password = sample_pc\<rparr>"

definition sample_views :: login_views where
  "sample_views = \<lparr>lv_lookup = sample_accounts, lv_manual = (0, sample_accounts),
     lv_lock = (0, sample_accounts), lv_recheck = sample_accounts\<rparr>"

definition sample_token :: claims where
  "sample_token = \<lparr>cl_id = ''j'', cl_user_id = 1, cl_provider = [], cl_sid = ''s'', cl_cvv = 0,
     cl_issued_at = Some 0, cl_expires_at = Some (60 * minute)\<rparr>"

lemma sample_login_ok: "fst (login plain_bcrypt sample_login (\<lambda>_. False) (\<lambda>_. False) (Some ''j'') ''s''
    sample_views 0 '' ROOT'' ''root'' ''ip'' sample_accounts) = LoginOk sample_token ''/dashboard''"
  by (simp add: login_def Let_def sample_views_def sample_accounts_def sample_account_def sample_login_def
      plain_bcrypt_def find_account_def manually_locked_def user_lock_status_def login_expires_def
      password_expired_def sample_pc_def generate_session_token_def user_of_account_def
      sample_token_def whole_seconds_def go_str)

theorem login_sound_witness:
  "\<exists>a. find_account 1 sample_accounts = Some a \<and> bc_matches plain_bcrypt (ac_hash a) ''root'' \<and> ac_enabled a"
proof -
  obtain db' where "login plain_bcrypt sample_login (\<lambda>_. False) (\<lambda>_. False) (Some ''j'') ''s''
      sample_views 0 '' ROOT'' ''root'' ''ip'' sample_accounts = (LoginOk sample_token ''/dashboard'', db')"
    using sample_login_ok by (metis prod.collapse)
  then show ?thesis
    using login_sound [of sample_accounts sample_accounts ascii_class plain_bcrypt sample_pc "[]" sample_accounts "[]"]
      sample_in_office
    by (fastforce simp: in_office_def account_run_def sample_views_def sample_token_def)
qed

subsection \<open>The session that follows\<close>

definition accounts_view :: "(string \<rightharpoonup> time) \<Rightarrow> account_db \<Rightarrow> auth_db" where
  "accounts_view revoked db =
     \<lparr>ad_revoked = revoked, ad_users = (\<lambda>uid. map_option user_of_account (find_account uid db))\<rparr>"



subsection \<open>Lockout\<close>

lemma find_update_account [simp]:
  assumes "\<And>a. ac_id (f a) = ac_id a"
  shows "find_account uid (update_account uid' f db)
    = (if uid = uid' then map_option f (find_account uid db) else find_account uid db)"
proof -
  have "find (\<lambda>a. ac_id a = uid) (map (\<lambda>a. if ac_id a = uid' then f a else a) us)
      = (if uid = uid' then map_option f (find (\<lambda>a. ac_id a = uid) us) else find (\<lambda>a. ac_id a = uid) us)" for us
    using assms by (induction us) auto
  then show ?thesis by (simp add: find_account_def update_account_def)
qed

lemma find_account_attempt [simp]:
  "find_account uid (record_login_attempt fails now u ip w ok db) = find_account uid db"
  by (simp add: find_account_def record_login_attempt_def)

lemma find_account_core: "map_option core (find_account uid db) = find (\<lambda>c. fst c = uid) (fst (cores db))"
proof -
  have "map_option core (find (\<lambda>a. ac_id a = uid) us) = find (\<lambda>c. fst c = uid) (map core us)" for us
    by (induction us) (auto simp: core_def)
  then show ?thesis by (simp add: find_account_def cores_def)
qed

lemma last_admin_cores:
  assumes "cores d' = cores d" shows "is_last_enabled_admin uid d' = is_last_enabled_admin uid d"
proof -
  have e: "enabled_admin a \<longleftrightarrow> fst (snd (snd (snd (core a)))) = ''admin'' \<and> snd (snd (snd (snd (core a))))" for a
    by (simp add: core_def enabled_admin_def)
  have "map_option core (find_account uid d') = map_option core (find_account uid d)"
    by (simp add: find_account_core assms)
  then show ?thesis
    using count_enabled_admins_cores [OF assms] e
    by (cases "find_account uid d"; cases "find_account uid d'") (auto simp: is_last_enabled_admin_def)
qed

lemma last_admin_attempt [simp]:
  "is_last_enabled_admin uid (record_login_attempt fails now u ip w ok db) = is_last_enabled_admin uid db"
  by (rule last_admin_cores) (rule office.R_attempt)

text \<open>The account after one more failure.\<close>

definition failed_row :: "time \<Rightarrow> int \<Rightarrow> time \<Rightarrow> bool \<Rightarrow> account \<Rightarrow> account" where
  "failed_row now m lockout final a =
     (if ac_failed a + 1 < m then a\<lparr>ac_failed := ac_failed a + 1\<rparr>
      else if final then a\<lparr>ac_failed := m - 1, ac_locked_until := None\<rparr>
      else a\<lparr>ac_failed := ac_failed a + 1, ac_locked_until := Some (now + lockout)\<rparr>)"

lemma failed_attempt_row:
  assumes "find_account uid db = Some a" "uid > 0" "m > 0"
  shows "find_account uid (record_failed_attempt (\<lambda>_. False) now u uid ip m lockout db)
    = Some (failed_row now m lockout (is_last_enabled_admin uid db) a)"
  using assms by (auto simp: record_failed_attempt_def Let_def increment_failed_logins_def failed_row_def)

lemma failed_attempt_other:
  "uid' \<noteq> uid \<Longrightarrow> find_account uid' (record_failed_attempt fl now u uid ip m lockout db) = find_account uid' db"
  by (auto simp: record_failed_attempt_def Let_def increment_failed_logins_def split: option.split)

definition failures :: "time list \<Rightarrow> string \<Rightarrow> int \<Rightarrow> string \<Rightarrow> int \<Rightarrow> time \<Rightarrow> account_db \<Rightarrow> account_db" where
  "failures ts u uid ip m lockout db =
     foldl (\<lambda>d t. record_failed_attempt (\<lambda>_. False) t u uid ip m lockout d) db ts"

lemma failures_snoc: "failures (ts @ [t]) u uid ip m lockout db =
    record_failed_attempt (\<lambda>_. False) t u uid ip m lockout (failures ts u uid ip m lockout db)"
  by (simp add: failures_def)

lemma failures_cores: "cores (failures ts u uid ip m lockout db) = cores db"
  by (induction ts rule: rev_induct) (simp_all add: failures_snoc office.R_failed, simp add: failures_def)

text \<open>C20: The lockout is exact.  From a clean account, a run of failures locks the account at the
  failure that reaches the threshold, and every further failure moves the end of the lock to
  one lockout period after itself; the only enabled administrator is never locked, and its
  counter stays below the threshold.  No failure touches another account.\<close>

theorem lockout_exact:
  assumes "find_account uid db = Some a" "uid > 0" "m > 0" "ac_failed a = 0" "ac_locked_until a = None"
  shows "\<exists>b. find_account uid (failures ts u uid ip m lockout db) = Some b
      \<and> ac_failed b = (if is_last_enabled_admin uid db then min (int (length ts)) (m - 1) else int (length ts))
      \<and> ac_locked_until b = (if is_last_enabled_admin uid db \<or> int (length ts) < m then None
           else Some (last ts + lockout))
      \<and> (uid' = uid \<or> find_account uid' (failures ts u uid ip m lockout db) = find_account uid' db)"
proof (induction ts rule: rev_induct)
  case Nil
  with assms show ?case by (simp add: failures_def)
next
  case (snoc t ts)
  then obtain b where b: "find_account uid (failures ts u uid ip m lockout db) = Some b"
    "ac_failed b = (if is_last_enabled_admin uid db then min (int (length ts)) (m - 1) else int (length ts))"
    "ac_locked_until b = (if is_last_enabled_admin uid db \<or> int (length ts) < m then None else Some (last ts + lockout))"
    "uid' = uid \<or> find_account uid' (failures ts u uid ip m lockout db) = find_account uid' db"
    by blast
  note row = failed_attempt_row [OF b(1) assms(2,3), of t u ip lockout,
      unfolded last_admin_cores [OF failures_cores]]
  have other: "uid' = uid \<or> find_account uid' (failures (ts @ [t]) u uid ip m lockout db) = find_account uid' db"
    using b(4) by (cases "uid' = uid") (simp_all add: failures_snoc failed_attempt_other)
  from row b(2,3) other assms(3) show ?case
    by (auto simp: failures_snoc failed_row_def)
qed

theorem lockout_exact_witness:
  "\<exists>b. find_account 2 (failures [10, 20, 30] ''ops'' 2 ''ip'' 3 minute sample_accounts) = Some b
     \<and> ac_locked_until b = Some (30 + minute)"
proof -
  have "find_account 2 sample_accounts = Some (sample_account 2 ''ops'' ''operator'')"
    and l: "\<not> is_last_enabled_admin 2 sample_accounts"
    by (simp_all add: find_account_def sample_accounts_def sample_account_def is_last_enabled_admin_def enabled_admin_def)
  from lockout_exact [OF this(1), where ts = "[10, 20, 30]" and m = 3 and uid' = 2
      and u = "''ops''" and ip = "''ip''" and lockout = minute] l show ?thesis
    by (auto simp: sample_account_def)
qed

text \<open>A lock hides the password.  While the account is locked, automatically or by an
  administrator, the answer to a login and what it writes do not depend on the password or on
  the stored hash: it is denied, and no guess can be confirmed.\<close>

theorem lock_hides_password:
  assumes "find (\<lambda>a. to_lower (ac_username a) = to_lower (trim_space u) \<and> ac_enabled a)
      (adb_users (lv_lookup v)) = Some a"
    and "manually_locked (fst (lv_manual v)) (ac_id a) (snd (lv_manual v))
      \<or> lc_max_attempts cfg > 0 \<and> user_lock_status (fst (lv_lock v)) (ac_id a) (snd (lv_lock v))"
  shows "login bc cfg lf fl jti sid v now u pw ip db = login bc' cfg lf fl jti sid v now u pw' ip db
    \<and> (lf LoginLookup \<or> fst (login bc cfg lf fl jti sid v now u pw ip db)
         \<in> {LoginDenied ''invalid_credentials'', LoginDenied ''local_login_disabled''})"
  using assms by (auto simp: login_def Let_def)

theorem lock_hides_password_witness:
  "let db = update_account 2 (\<lambda>a. a\<lparr>ac_manual_until := Some 100\<rparr>) sample_accounts;
       v = \<lparr>lv_lookup = sample_accounts, lv_manual = (40, db), lv_lock = (40, db), lv_recheck = db\<rparr> in
   login plain_bcrypt sample_login (\<lambda>_. False) (\<lambda>_. False) None [] v 40 ''ops'' ''ops'' ''ip'' db
   = login plain_bcrypt sample_login (\<lambda>_. False) (\<lambda>_. False) None [] v 40 ''ops'' ''x'' ''ip'' db"
proof -
  have "find_account 2 sample_accounts = Some (sample_account 2 ''ops'' ''operator'')"
    by (simp add: find_account_def sample_accounts_def sample_account_def)
  then have "manually_locked 40 2 (update_account 2 (\<lambda>a. a\<lparr>ac_manual_until := Some 100\<rparr>) sample_accounts)"
    by (simp add: manually_locked_def)
  then show ?thesis
    unfolding Let_def
    by (intro lock_hides_password [where a = "sample_account 2 ''ops'' ''operator''", THEN conjunct1])
      (simp_all add: sample_accounts_def sample_account_def go_str)
qed

subsection \<open>Password change\<close>

text \<open>History rows have ids in the order of their insertion, all below the next one.\<close>

definition history_ok :: "account_db \<Rightarrow> bool" where
  "history_ok db \<longleftrightarrow> distinct (map hr_id (adb_history db))
     \<and> (\<forall>h\<in>set (adb_history db). hr_id h < adb_next_history db)"

lemma prune_keeps_recent:
  assumes "distinct (map hr_id rows)"
  shows "map hr_hash (filter (\<lambda>h. hr_user h = uid)
      (filter (\<lambda>h. \<not> (hr_user h = uid \<and> hr_id h \<notin> set (take n (rev (map hr_id (filter (\<lambda>h. hr_user h = uid) rows))))))
        rows))
    = rev (take n (rev (map hr_hash (filter (\<lambda>h. hr_user h = uid) rows))))"
proof -
  have gen: "distinct (map hr_id xs) \<Longrightarrow>
      filter (\<lambda>h. hr_id h \<in> set (take n (rev (map hr_id xs)))) xs = rev (take n (rev xs))" for xs
  proof -
    assume d: "distinct (map hr_id xs)"
    let ?k = "length xs - n"
    have "set (take n (rev (map hr_id xs))) = hr_id ` set (drop ?k xs)"
      by (simp add: rev_map [symmetric] take_rev drop_map)
    moreover have "filter (\<lambda>h. hr_id h \<in> hr_id ` set (drop ?k xs)) xs = drop ?k xs"
    proof -
      have split: "filter P xs = filter P (take ?k xs) @ filter P (drop ?k xs)" for P
        by (metis append_take_drop_id filter_append)
      have "distinct (map hr_id (take ?k xs @ drop ?k xs))" using d by simp
      then have "\<forall>h\<in>set (take ?k xs). hr_id h \<notin> hr_id ` set (drop ?k xs)"
        by (simp only: map_append distinct_append) auto
      then show ?thesis unfolding split by (simp add: filter_False filter_True)
    qed
    ultimately show "filter (\<lambda>h. hr_id h \<in> set (take n (rev (map hr_id xs)))) xs = rev (take n (rev xs))"
      by (simp add: take_rev)
  qed
  let ?mine = "filter (\<lambda>h. hr_user h = uid) rows"
  have "filter (\<lambda>h. hr_user h = uid)
      (filter (\<lambda>h. \<not> (hr_user h = uid \<and> hr_id h \<notin> set (take n (rev (map hr_id ?mine))))) rows)
      = filter (\<lambda>h. hr_id h \<in> set (take n (rev (map hr_id ?mine)))) ?mine"
    by (auto simp: filter_filter intro: filter_cong)
  also have "\<dots> = rev (take n (rev ?mine))"
    by (rule gen) (use assms in \<open>simp add: distinct_map_filter\<close>)
  finally show ?thesis by (simp add: rev_map take_map)
qed

lemma reused_iff: "password_history_reused bc uid pw n db = Some False \<longleftrightarrow>
    n \<le> 0 \<or> (\<exists>a. find_account uid db = Some a \<and> \<not> bc_matches bc (ac_hash a) pw
      \<and> list_all (\<lambda>h. \<not> bc_matches bc h pw) (recent_hashes uid n db))"
proof -
  have f: "foldl (\<lambda>r h. if bc_matches bc h pw then True else r) b hs \<longleftrightarrow> b \<or> list_ex (\<lambda>h. bc_matches bc h pw) hs"
    for b hs by (induction hs arbitrary: b) auto
  show ?thesis
    unfolding password_history_reused_def f
    by (auto simp: list_all_iff list_ex_iff split: option.splits)
qed

lemma recent_update [simp]: "recent_hashes uid n (update_account uid' f db) = recent_hashes uid n db"
  by (simp add: recent_hashes_def update_account_def)

lemma recent_record_prune:
  assumes "history_ok db" "record_password uid h db = Some d2" "n > 0"
  shows "recent_hashes uid n (prune_password_history uid n d2) = take (nat n) (h # recent_hashes uid n db)"
proof -
  have d2: "adb_history d2 = adb_history db @ [\<lparr>hr_id = adb_next_history db, hr_user = uid, hr_hash = h\<rparr>]"
    using assms(2) by (auto simp: record_password_def split: if_splits)
  then have "distinct (map hr_id (adb_history d2))"
    using assms(1) by (auto simp: history_ok_def)
  from prune_keeps_recent [OF this, of uid "nat n"] assms(3)
  have "recent_hashes uid n (prune_password_history uid n d2)
      = take (nat n) (rev (map hr_hash (filter (\<lambda>h. hr_user h = uid) (adb_history d2))))"
    by (simp add: recent_hashes_def prune_password_history_def Let_def)
  also have "\<dots> = take (nat n) (h # recent_hashes uid n db)"
    using assms(3) by (cases "nat n") (auto simp: d2 recent_hashes_def)
  finally show ?thesis .
qed

lemma find_account_log [simp]:
  "add_log fails now w act det db = Some db' \<Longrightarrow> find_account uid db' = find_account uid db"
  "add_log fails now w act det db = Some db' \<Longrightarrow> recent_hashes uid n db' = recent_hashes uid n db"
  "record_password u h db = Some db' \<Longrightarrow> find_account uid db' = find_account uid db"
  "find_account uid (prune_password_history u n db) = find_account uid db"
  by (auto simp: add_log_def find_account_def recent_hashes_def record_password_def
      prune_password_history_def Let_def split: if_splits)

lemma change_password_cases:
  assumes "change_password classify bc pc fl token now (Some u) cur new conf db = (page, v, db')"
  shows "db' = db \<and> v = None \<or>
    (\<exists>a d1. find_account (u_id u) db = Some a \<and> bc_matches bc (ac_hash a) cur \<and> new = conf
       \<and> validate_password classify new (pc_policy pc) = None
       \<and> rotate_password bc fl (pc_history pc) now (u_id u) new False db = Inr d1
       \<and> add_log (fl CallLog) now (Some (u_id u)) ''change_password'' ''User changed their own password'' d1
           = Some db'
       \<and> v = (if token then None else Some (u_credential_version u + 1)))"
  using assms by (auto simp: change_password_def split: if_splits option.splits sum.splits)



subsection \<open>An edit on a stale row\<close>

definition edit_form :: "string \<Rightarrow> string \<Rightarrow> user_form" where
  "edit_form email role = \<lparr>uf_username = [], uf_email = email, uf_password = [], uf_first_name = [],
     uf_last_name = [], uf_role = role, uf_flag = ''1''\<rparr>"

definition two_accounts :: "string \<Rightarrow> string \<Rightarrow> log_row list \<Rightarrow> account_db" where
  "two_accounts r1 r2 log = sample_accounts\<lparr>adb_users :=
     [sample_account 1 ''root'' r1, sample_account 2 ''ops'' r2], adb_log := log\<rparr>"

definition edit :: "int \<Rightarrow> int \<Rightarrow> string \<Rightarrow> string \<Rightarrow> account_db \<Rightarrow> account_db \<Rightarrow> page \<times> account_db" where
  "edit admin uid email role =
     update_user ascii_class plain_bcrypt sample_pc (\<lambda>_. False) 0 admin uid (edit_form email role)"

lemma edit_email_ok: "validate_email ''root@x.y'' = None" "validate_email ''ops@x.y'' = None"
  by (simp_all add: validate_email_def email_regex_def cut_at_def rfc1035_label_def email_local_char_def
      valid_string_def go_str)

lemma edit_role_ok: "validate_role ''admin'' = None" "validate_role ''operator'' = None"
  by (simp_all add: validate_role_def role_whitelist_def)

lemmas edit_eval = edit_def update_user_def update_user_tx_def edit_form_def two_accounts_def sample_accounts_def
  sample_account_def find_account_def form_flag_def enabled_admin_def count_enabled_admins_def
  update_account_def edited_row_def add_log_def commit_page_def Let_def

lemma edit_promotes: "\<exists>log'. edit 1 2 ''ops@x.y'' ''admin'' (two_accounts ''admin'' ''operator'' log)
    (two_accounts ''admin'' ''operator'' log) = (SeeOther ''/users'', two_accounts ''admin'' ''admin'' log')"
  using edit_email_ok edit_role_ok by (simp add: edit_eval go_str)

lemma edit_demotes: "\<exists>log'. edit 2 1 ''root@x.y'' ''operator'' (two_accounts ''admin'' ''admin'' log)
    (two_accounts ''admin'' ''admin'' log) = (SeeOther ''/users'', two_accounts ''operator'' ''admin'' log')"
  using edit_email_ok edit_role_ok by (simp add: edit_eval go_str)

lemma edit_stale: "\<exists>log'. edit 1 2 ''ops@x.y'' ''operator'' (two_accounts ''admin'' ''operator'' log0)
    (two_accounts ''operator'' ''admin'' log) = (SeeOther ''/users'', two_accounts ''operator'' ''operator'' log')"
  using edit_email_ok edit_role_ok by (simp add: edit_eval go_str)

lemma count_two_accounts: "count_enabled_admins (two_accounts r1 r2 log)
    = (if r1 = ''admin'' then 1 else 0) + (if r2 = ''admin'' then 1 else 0)"
  by (simp add: edit_eval)

text \<open>The guard of the last administrator trusts a row read before the transaction.  An edit of
  an operator's profile, submitted while the account is promoted and the other administrator
  demoted, passes the guard, takes the promoted account back to operator, and leaves the
  instance without an enabled administrator; every step is an accepted request.\<close>

theorem stale_edit_removes_last_admin:
  "\<exists>db1 db2 db3. let db0 = two_accounts ''admin'' ''operator'' [] in
     edit 1 2 ''ops@x.y'' ''admin'' db0 db0 = (SeeOther ''/users'', db1)
     \<and> edit 2 1 ''root@x.y'' ''operator'' db1 db1 = (SeeOther ''/users'', db2)
     \<and> edit 1 2 ''ops@x.y'' ''operator'' db0 db2 = (SeeOther ''/users'', db3)
     \<and> count_enabled_admins db0 = 1 \<and> count_enabled_admins db3 = 0"
proof -
  obtain l1 l2 l3 where
    "edit 1 2 ''ops@x.y'' ''admin'' (two_accounts ''admin'' ''operator'' []) (two_accounts ''admin'' ''operator'' [])
       = (SeeOther ''/users'', two_accounts ''admin'' ''admin'' l1)"
    "edit 2 1 ''root@x.y'' ''operator'' (two_accounts ''admin'' ''admin'' l1) (two_accounts ''admin'' ''admin'' l1)
       = (SeeOther ''/users'', two_accounts ''operator'' ''admin'' l2)"
    "edit 1 2 ''ops@x.y'' ''operator'' (two_accounts ''admin'' ''operator'' []) (two_accounts ''operator'' ''admin'' l2)
       = (SeeOther ''/users'', two_accounts ''operator'' ''operator'' l3)"
    using edit_promotes edit_demotes edit_stale by metis
  moreover have "count_enabled_admins (two_accounts ''admin'' ''operator'' []) = 1"
      "count_enabled_admins (two_accounts ''operator'' ''operator'' l3) = 0"
    by (simp_all add: count_two_accounts)
  ultimately show ?thesis
    unfolding Let_def by (intro exI conjI)
qed

subsection \<open>Purging the activity log\<close>

lemma delete_oldest_subseq: "subseq (delete_oldest n cutoff rows) rows"
  by (induction n cutoff rows rule: delete_oldest.induct) auto

lemma delete_oldest_young: "filter (\<lambda>l. \<not> lg_time l < cutoff) (delete_oldest n cutoff rows)
    = filter (\<lambda>l. \<not> lg_time l < cutoff) rows"
  by (induction n cutoff rows rule: delete_oldest.induct) auto

lemma delete_oldest_short: "length rows - length (delete_oldest n cutoff rows) < n \<Longrightarrow>
    l \<in> set (delete_oldest n cutoff rows) \<Longrightarrow> \<not> lg_time l < cutoff"
proof (induction n cutoff rows rule: delete_oldest.induct)
  case (3 n cutoff x rows)
  then show ?case using delete_oldest_length [of n cutoff rows] by (auto split: if_splits)
qed auto

lemma purge_batches_spec:
  assumes "purge_batches fails stop batch cutoff i n0 rows = (e, n, rows')"
  shows "subseq rows' rows \<and> n = n0 + (length rows - length rows')
    \<and> filter (\<lambda>l. \<not> lg_time l < cutoff) rows' = filter (\<lambda>l. \<not> lg_time l < cutoff) rows
    \<and> (e = PurgeDone \<longrightarrow> (\<forall>l\<in>set rows'. \<not> lg_time l < cutoff))"
  using assms
proof (induction fails stop batch cutoff i n0 rows rule: purge_batches.induct)
  case (1 fails stop batch cutoff i n0 rows)
  let ?r = "delete_oldest (Suc batch) cutoff rows"
  have s: "subseq ?r rows" and l: "length ?r \<le> length rows"
    and y: "filter (\<lambda>l. \<not> lg_time l < cutoff) ?r = filter (\<lambda>l. \<not> lg_time l < cutoff) rows"
    using delete_oldest_subseq delete_oldest_length delete_oldest_young by auto
  consider "fails i" | (short) "\<not> fails i" "length rows - length ?r < Suc batch"
    | (stop) "\<not> fails i" "\<not> length rows - length ?r < Suc batch" "stop i"
    | (more) "\<not> fails i" "\<not> length rows - length ?r < Suc batch" "\<not> stop i" by blast
  then show ?case
  proof cases
    case short
    then have "e = PurgeDone" "n = n0 + (length rows - length ?r)" "rows' = ?r"
      using 1(2) by (auto simp: purge_batches.simps [of fails] Let_def)
    with s y delete_oldest_short [OF short(2)] show ?thesis by blast
  next
    case stop
    then have "e = PurgeCancelled" "n = n0 + (length rows - length ?r)" "rows' = ?r"
      using 1(2) by (auto simp: purge_batches.simps [of fails] Let_def)
    with s y show ?thesis by blast
  next
    case more
    with 1(2) have "purge_batches fails stop batch cutoff (Suc i) (n0 + (length rows - length ?r)) ?r = (e, n, rows')"
      by (subst (asm) purge_batches.simps) (simp add: Let_def)
    from 1(1) [OF more(1) refl refl more(2,3) this] have r: "subseq rows' ?r"
      "n = n0 + (length rows - length ?r) + (length ?r - length rows')"
      "filter (\<lambda>l. \<not> lg_time l < cutoff) rows' = filter (\<lambda>l. \<not> lg_time l < cutoff) ?r"
      "e = PurgeDone \<longrightarrow> (\<forall>l\<in>set rows'. \<not> lg_time l < cutoff)" by blast+
    from r(1) have "length rows' \<le> length ?r" by (rule list_emb_length)
    with r s l y show ?thesis using subseq_order.order_trans [OF r(1) s] by auto
  qed (use 1(2) in \<open>simp add: purge_batches.simps [of fails]\<close>)
qed

text \<open>The purge of the activity log ends, keeps every row that is young enough, in order, and
  counts what it deleted, whatever batch fails or is cancelled; when it reports completion no
  row older than the retention is left.  A retention of zero keeps everything.\<close>

theorem purge_activity_logs_spec:
  "(case purge_activity_logs fails stop now retention batch db of (e, n, db') \<Rightarrow>
      let cutoff = now - retention * day in
      subseq (adb_log db') (adb_log db) \<and> n = length (adb_log db) - length (adb_log db')
      \<and> adb_users db' = adb_users db
      \<and> filter (\<lambda>l. \<not> lg_time l < cutoff) (adb_log db') = filter (\<lambda>l. \<not> lg_time l < cutoff) (adb_log db)
      \<and> (if retention \<le> 0 then db' = db
         else \<not> (e = PurgeDone \<and> list_ex (\<lambda>l. lg_time l < cutoff) (adb_log db'))))"
proof (cases "retention \<le> 0")
  case False
  obtain e n rows where p: "purge_batches fails stop ((if batch \<le> 0 then 1000 else nat batch) - 1)
      (now - retention * day) 0 0 (adb_log db) = (e, n, rows)" by (metis prod_cases3)
  from purge_batches_spec [OF this] False p show ?thesis
    by (auto simp: purge_activity_logs_def Let_def list_ex_iff)
qed (simp add: purge_activity_logs_def)

end
