(* ===== verification/OidcState.thy ===== *)
theory OidcState
  imports Models
begin

section \<open>Sign-on state tokens\<close>

text \<open>
  \<^verbatim>\<open>internal/oidc/state.go\<close> and \<^verbatim>\<open>state_store.go\<close>: the token that travels through the
  identity provider and back, and the store of the tokens already used.  A token is
  \<^verbatim>\<open>base64url(nonce).base64url(ciphertext)\<close>.  The codec is Go's \<^verbatim>\<open>RawURLEncoding\<close>, whose
  decoder skips line breaks and ignores the unused bits of the last character.  AES-GCM over
  the JSON payload is a parameter: sealing, and opening with the payload as result.
  The digest of the store is the argument \<open>sha\<close>, the random bytes are arguments of the
  operations, \<^const>\<open>None\<close> where the system's source of randomness fails.
\<close>

subsection \<open>Base64 without padding, URL alphabet\<close>

definition b64_char :: "nat \<Rightarrow> char" where
  "b64_char n =
     (if n < 26 then char_of (65 + n) else if n < 52 then char_of (71 + n)
      else if n < 62 then char_of (n - 4) else if n = 62 then CHR ''-'' else CHR ''_'')"

definition b64_val :: "char \<Rightarrow> nat option" where
  "b64_val c =
     (if is_upper c then Some (ord c - 65) else if is_lower c then Some (ord c - 71)
      else if is_digit c then Some (ord c + 4) else if c = CHR ''-'' then Some 62
      else if c = CHR ''_'' then Some 63 else None)"

fun sextets :: "nat list \<Rightarrow> nat list" where
  "sextets [] = []"
| "sextets [a] = [a div 4, a mod 4 * 16]"
| "sextets [a, b] = [a div 4, a mod 4 * 16 + b div 16, b mod 16 * 4]"
| "sextets (a # b # c # r) =
     a div 4 # (a mod 4 * 16 + b div 16) # (b mod 16 * 4 + c div 64) # c mod 64 # sextets r"

fun octets :: "nat list \<Rightarrow> nat list option" where
  "octets [] = Some []"
| "octets [p] = None"
| "octets [p, q] = Some [p * 4 + q div 16]"
| "octets [p, q, r] = Some [p * 4 + q div 16, q mod 16 * 16 + r div 4]"
| "octets (p # q # r # s # t) =
     map_option (\<lambda>u. (p * 4 + q div 16) # (q mod 16 * 16 + r div 4) # (r mod 4 * 64 + s) # u) (octets t)"

fun all_some :: "'a option list \<Rightarrow> 'a list option" where
  "all_some [] = Some []"
| "all_some (x # xs) =
     (case x of None \<Rightarrow> None | Some v \<Rightarrow> map_option (\<lambda>vs. v # vs) (all_some xs))"

definition b64_encode :: "string \<Rightarrow> string" where
  "b64_encode s = map b64_char (sextets (map ord s))"

definition line_break :: "char \<Rightarrow> bool" where
  "line_break c \<longleftrightarrow> c = CHR 0x0A \<or> c = CHR 0x0D"

definition b64_decode :: "string \<Rightarrow> string option" where
  "b64_decode s =
     (case all_some (map b64_val (filter (\<lambda>c. \<not> line_break c) s)) of
        None \<Rightarrow> None
      | Some vs \<Rightarrow> map_option (map char_of) (octets vs))"

lemma b64_val_char: "n < 64 \<Longrightarrow> b64_val (b64_char n) = Some n"
  by (auto simp: b64_char_def b64_val_def is_upper_def is_lower_def is_digit_def
      split: if_splits; simp add: ord_def)

text \<open>No character of the alphabet is a line break or the separator of a token.\<close>

lemma b64_char_plain: "n < 64 \<Longrightarrow> \<not> line_break (b64_char n) \<and> b64_char n \<noteq> CHR ''.''"
  using b64_val_char [of n] by (auto simp: line_break_def b64_val_def char_defs)

lemma sextets_bound: "\<forall>a\<in>set as. a < 256 \<Longrightarrow> n \<in> set (sextets as) \<Longrightarrow> n < 64"
  by (induction as rule: sextets.induct) auto

lemma sextets_ord: "n \<in> set (sextets (map ord s)) \<Longrightarrow> n < 64"
  by (rule sextets_bound) auto

lemma octets_sextets: "\<forall>a\<in>set as. a < 256 \<Longrightarrow> octets (sextets as) = Some as"
proof (induction as rule: sextets.induct)
  case (4 a b c r)
  have "(a mod 4 * 16 + b div 16) div 16 = a mod 4" "(a mod 4 * 16 + b div 16) mod 16 = b div 16"
    "(b mod 16 * 4 + c div 64) div 4 = b mod 16" "(b mod 16 * 4 + c div 64) mod 4 = c div 64"
    using 4(2) by auto
  then show ?case using 4 by simp
qed auto

lemma all_some_map: "(\<And>x. x \<in> set xs \<Longrightarrow> f (g x) = Some x) \<Longrightarrow> all_some (map f (map g xs)) = Some xs"
  by (induction xs) auto

text \<open>The decoder reads back every string the encoder writes.\<close>

lemma b64_decode_encode [simp]: "b64_decode (b64_encode s) = Some s"
proof -
  let ?n = "sextets (map ord s)"
  have b: "n < 64" if "n \<in> set ?n" for n using that by (rule sextets_ord)
  have f: "filter (\<lambda>c. \<not> line_break c) (map b64_char ?n) = map b64_char ?n"
    using b b64_char_plain by (simp add: filter_id_conv)
  have a: "all_some (map b64_val (map b64_char ?n)) = Some ?n"
    by (rule all_some_map) (simp add: b b64_val_char)
  have o: "octets ?n = Some (map ord s)" by (rule octets_sextets) auto
  show ?thesis
    unfolding b64_decode_def b64_encode_def f a by (simp add: o ord_def comp_def)
qed

lemma b64_encode_no_dot: "CHR ''.'' \<notin> set (b64_encode s)"
  using b64_char_plain [OF sextets_ord] by (force simp: b64_encode_def)

lemma b64_decode_append_newline: "b64_decode (s @ [CHR 0x0A]) = b64_decode s"
  by (simp add: b64_decode_def line_break_def)

subsection \<open>The token\<close>

record state_payload =
  sp_provider :: string
  sp_nonce :: string
  sp_verifier :: string
  sp_exp :: int

record aead =
  ae_seal :: "string \<Rightarrow> string \<Rightarrow> state_payload \<Rightarrow> string"
  ae_open :: "string \<Rightarrow> string \<Rightarrow> string \<Rightarrow> state_payload option"

datatype state_error =
    StNoNonce | StNonceSyntax | StPayloadSyntax | StKey | StCiphertext | StExpired | StPanic
  | StRandom

definition state_ttl :: time where
  "state_ttl = 10 * minute"

text \<open>\<^verbatim>\<open>time.Time.Unix\<close> of a time in nanoseconds.\<close>

definition unix :: "time \<Rightarrow> int" where
  "unix t = t div second"

text \<open>\<^verbatim>\<open>aes.NewCipher\<close> accepts keys of three lengths.\<close>

definition new_gcm :: "string \<Rightarrow> bool" where
  "new_gcm key \<longleftrightarrow> length key \<in> {16, 24, 32}"

definition gcm_nonce_size :: nat where
  "gcm_nonce_size = 12"

definition encrypt_state ::
  "aead \<Rightarrow> string option \<Rightarrow> string \<Rightarrow> state_payload \<Rightarrow> state_error + string" where
  "encrypt_state ae rnd key p =
     (if \<not> new_gcm key then Inl StKey
      else case rnd of
        None \<Rightarrow> Inl StRandom
      | Some nonce \<Rightarrow> Inr (b64_encode nonce @ ''.'' @ b64_encode (ae_seal ae key nonce p)))"

text \<open>\<^verbatim>\<open>Open\<close> panics on a nonce that is not 12 bytes long; \<^verbatim>\<open>decryptState\<close> does not check.\<close>

definition decrypt_state :: "aead \<Rightarrow> string \<Rightarrow> string \<Rightarrow> state_error + state_payload" where
  "decrypt_state ae key state =
     (case cut_at CHR ''.'' state of
        None \<Rightarrow> Inl StNoNonce
      | Some (before_dot, after_dot) \<Rightarrow>
          (case b64_decode before_dot of
             None \<Rightarrow> Inl StNonceSyntax
           | Some nonce \<Rightarrow>
               (case b64_decode after_dot of
                  None \<Rightarrow> Inl StPayloadSyntax
                | Some ct \<Rightarrow>
                    if \<not> new_gcm key then Inl StKey
                    else if length nonce \<noteq> gcm_nonce_size then Inl StPanic
                    else (case ae_open ae key nonce ct of
                            None \<Rightarrow> Inl StCiphertext
                          | Some p \<Rightarrow> Inr p))))"

definition verify_state_token ::
  "aead \<Rightarrow> time \<Rightarrow> string \<Rightarrow> string \<Rightarrow> state_error + state_payload" where
  "verify_state_token ae now key state =
     (case decrypt_state ae key state of
        Inl e \<Rightarrow> Inl e
      | Inr p \<Rightarrow> if unix now > sp_exp p then Inl StExpired else Inr p)"

text \<open>Random bytes as hexadecimal, and as a PKCE verifier.\<close>

definition hex_digit :: "nat \<Rightarrow> char" where
  "hex_digit n = (if n < 10 then char_of (48 + n) else char_of (87 + n))"

definition hex_encode :: "string \<Rightarrow> string" where
  "hex_encode s = concat (map (\<lambda>c. [hex_digit (ord c div 16), hex_digit (ord c mod 16)]) s)"

definition s256_challenge :: "(string \<Rightarrow> string) \<Rightarrow> string \<Rightarrow> string" where
  "s256_challenge sha verifier = b64_encode (sha verifier)"

record auth_request =
  ar_state :: string
  ar_challenge :: string
  ar_nonce :: string
  ar_callback :: string

record draws =
  dr_verifier :: "string option"
  dr_nonce :: "string option"
  dr_gcm :: "string option"

definition new_state_token ::
  "aead \<Rightarrow> (string \<Rightarrow> string) \<Rightarrow> draws \<Rightarrow> time \<Rightarrow> string \<Rightarrow> string
   \<Rightarrow> state_error + (string \<times> string \<times> string \<times> string)" where
  "new_state_token ae sha d now key provider =
     (case dr_verifier d of
        None \<Rightarrow> Inl StRandom
      | Some vb \<Rightarrow>
          (case dr_nonce d of
             None \<Rightarrow> Inl StRandom
           | Some nb \<Rightarrow>
               let verifier = b64_encode vb;
                   nonce = hex_encode nb;
                   p = \<lparr>sp_provider = provider, sp_nonce = nonce, sp_verifier = verifier,
                        sp_exp = unix (now + state_ttl)\<rparr>
               in case encrypt_state ae (dr_gcm d) key p of
                    Inl e \<Rightarrow> Inl e
                  | Inr state \<Rightarrow> Inr (state, verifier, s256_challenge sha verifier, nonce)))"

subsection \<open>The store of used tokens\<close>

text \<open>A service without the store (\<^const>\<open>None\<close>) admits every token.\<close>

type_synonym state_store = "(string \<rightharpoonup> time) option"

definition consume :: "(string \<Rightarrow> string) \<Rightarrow> time \<Rightarrow> string \<Rightarrow> state_store \<Rightarrow> bool \<times> state_store" where
  "consume sha now state st =
     (case st of
        None \<Rightarrow> (True, None)
      | Some used \<Rightarrow>
          let digest = hex_encode (sha state)
          in if used digest \<noteq> None then (False, Some used)
             else (True, Some (used(digest \<mapsto> now + state_ttl))))"

text \<open>One tick of the background sweep.\<close>

definition sweep :: "time \<Rightarrow> state_store \<Rightarrow> state_store" where
  "sweep now st =
     map_option (\<lambda>used k. case used k of
       Some e \<Rightarrow> if now > e then None else Some e
     | None \<Rightarrow> None) st"

text \<open>What happens to the store: tokens presented and sweeps, in order of time.\<close>

datatype store_event = Present time string | Sweep time

primrec event_time :: "store_event \<Rightarrow> time" where
  "event_time (Present t s) = t"
| "event_time (Sweep t) = t"

fun store_run :: "(string \<Rightarrow> string) \<Rightarrow> store_event list \<Rightarrow> state_store \<Rightarrow> state_store" where
  "store_run sha [] st = st"
| "store_run sha (Present t s # es) st = store_run sha es (snd (consume sha t s st))"
| "store_run sha (Sweep t # es) st = store_run sha es (sweep t st)"

text \<open>A digest that expires at \<open>e\<close> is held until then, whatever is presented or swept.\<close>

definition held :: "string \<Rightarrow> time \<Rightarrow> state_store \<Rightarrow> bool" where
  "held d e st \<longleftrightarrow> (\<exists>used. st = Some used \<and> used d = Some e)"

lemma held_consume: "held d e st \<Longrightarrow> held d e (snd (consume sha t s st))"
  by (auto simp: held_def consume_def Let_def)

lemma held_sweep: "held d e st \<Longrightarrow> t \<le> e \<Longrightarrow> held d e (sweep t st)"
  by (auto simp: held_def sweep_def)

lemma held_run:
  "held d e st \<Longrightarrow> \<forall>ev\<in>set es. event_time ev \<le> e \<Longrightarrow> held d e (store_run sha es st)"
proof (induction es arbitrary: st)
  case (Cons ev es)
  then show ?case by (cases ev) (simp_all add: held_consume held_sweep)
qed simp

lemma consume_held: "held (hex_encode (sha s)) e st \<Longrightarrow> consume sha t s st = (False, st)"
  by (auto simp: held_def consume_def)

lemma consume_holds:
  "consume sha t s (Some used) = (True, st) \<Longrightarrow> held (hex_encode (sha s)) (t + state_ttl) st"
  by (auto simp: held_def consume_def Let_def split: if_splits)

end
