(* ===== verification/Oidc.thy ===== *)
theory Oidc
  imports OidcState
begin

section \<open>OpenID Connect service\<close>

text \<open>
  \<^verbatim>\<open>internal/oidc\<close>: the provider presets and scopes, the signing algorithms and the cached
  key set, the claims of an ID token, and the callback that turns an authorization code into
  claims.  The JSON decoder is modelled from its result on, a value of the type \<open>json\<close>.  The
  identity provider (code exchange, the HTTP fetch of its keys) and the signature library are
  parameters.
\<close>

subsection \<open>JSON values\<close>

text \<open>An object keeps its members in the order of the text; a number is its literal.\<close>

datatype json = JNull | JBool bool | JNum string | JStr string | JArr "json list"
  | JObj "(string \<times> json) list"

text \<open>Decoding an object into a Go map: the last of several members with one key wins.\<close>

definition json_field :: "(string \<times> json) list \<Rightarrow> string \<Rightarrow> json option" where
  "json_field kvs k = map_of (rev kvs) k"

text \<open>Decoding into a Go string: \<^verbatim>\<open>null\<close> leaves the empty string and is no error.\<close>

definition json_string :: "json \<Rightarrow> string option" where
  "json_string v = (case v of JStr s \<Rightarrow> Some s | JNull \<Rightarrow> Some [] | _ \<Rightarrow> None)"

subsection \<open>Claims\<close>

definition decode_string_array :: "json \<Rightarrow> string list option" where
  "decode_string_array v =
     (case json_string v of
        Some s \<Rightarrow> Some [s]
      | None \<Rightarrow>
          (case v of
             JArr vs \<Rightarrow> (let out = List.map_filter json_string vs in if out = [] then None else Some out)
           | _ \<Rightarrow> None))"

fun claim_walk :: "(string \<times> json) list \<Rightarrow> string list \<Rightarrow> string list" where
  "claim_walk current [] = []"
| "claim_walk current (key # keys) =
     (case json_field current key of
        None \<Rightarrow> []
      | Some v \<Rightarrow>
          (case decode_string_array v of
             Some out \<Rightarrow> out
           | None \<Rightarrow> (case v of JObj nested \<Rightarrow> claim_walk nested keys | _ \<Rightarrow> [])))"

definition claim_strings :: "(string \<times> json) list \<Rightarrow> string \<Rightarrow> string list" where
  "claim_strings raw path =
     (if path = [] \<or> raw = [] then [] else claim_walk raw (split_on CHR ''.'' path))"

definition parse_email_verified :: "json option \<Rightarrow> bool" where
  "parse_email_verified raw =
     (case raw of
        None \<Rightarrow> False
      | Some (JBool b) \<Rightarrow> b
      | Some (JStr s) \<Rightarrow> to_lower (trim_space s) \<in> {''true'', ''1''}
      | Some (JNum n) \<Rightarrow> n = ''1''
      | Some _ \<Rightarrow> False)"

text \<open>The struct of the profile claims: a key matches its field in any case, \<^verbatim>\<open>null\<close> leaves the
  field, and a value of another type is an error once the whole object is read.\<close>

definition profile_keys :: "string list" where
  "profile_keys = [''email'', ''preferred_username'', ''name'']"

fun struct_field :: "string \<Rightarrow> (string \<times> json) list \<Rightarrow> string \<Rightarrow> string" where
  "struct_field name [] acc = acc"
| "struct_field name ((k, v) # kvs) acc =
     struct_field name kvs
       (if to_lower k = name then (case v of JStr s \<Rightarrow> s | _ \<Rightarrow> acc) else acc)"

definition profile_type_error :: "(string \<times> json) list \<Rightarrow> bool" where
  "profile_type_error kvs \<longleftrightarrow>
     list_ex (\<lambda>(k, v). to_lower k \<in> set profile_keys \<and> json_string v = None) kvs"

record sso_claims =
  oc_subject :: string
  oc_issuer :: string
  oc_email :: string
  oc_email_verified :: bool
  oc_preferred :: string
  oc_name :: string
  oc_id_token :: string
  oc_raw :: "(string \<times> json) list"

record id_token =
  it_issuer :: string
  it_subject :: string
  it_nonce :: string
  it_claims :: "(string \<times> json) list"

definition decode_claims :: "string \<Rightarrow> id_token \<Rightarrow> sso_claims option" where
  "decode_claims raw t =
     (let kvs = it_claims t in
      if profile_type_error kvs then None
      else Some
        \<lparr>oc_subject = it_subject t, oc_issuer = it_issuer t,
         oc_email = struct_field ''email'' kvs [],
         oc_email_verified = parse_email_verified (json_field kvs ''email_verified''),
         oc_preferred = struct_field ''preferred_username'' kvs [],
         oc_name = struct_field ''name'' kvs [],
         oc_id_token = raw, oc_raw = kvs\<rparr>)"

subsection \<open>Presets and scopes\<close>

record preset =
  ps_type :: string
  ps_display :: string
  ps_scopes :: "string list"
  ps_icon :: string

definition standard_scopes :: "string list" where
  "standard_scopes = [''openid'', ''profile'', ''email'']"

definition presets :: "(string \<times> preset) list" where
  "presets =
     [(''gitea'', \<lparr>ps_type = ''gitea'', ps_display = ''Gitea'', ps_scopes = standard_scopes, ps_icon = ''gitea''\<rparr>),
      (''google'', \<lparr>ps_type = ''google'', ps_display = ''Google'', ps_scopes = standard_scopes, ps_icon = ''google''\<rparr>),
      (''gitlab'', \<lparr>ps_type = ''gitlab'', ps_display = ''GitLab'', ps_scopes = standard_scopes, ps_icon = ''gitlab''\<rparr>),
      (''keycloak'', \<lparr>ps_type = ''keycloak'', ps_display = ''Keycloak'', ps_scopes = standard_scopes,
         ps_icon = ''keycloak''\<rparr>),
      (''authentik'', \<lparr>ps_type = ''authentik'', ps_display = ''Authentik'',
         ps_scopes = standard_scopes @ [''offline_access''], ps_icon = ''authentik''\<rparr>),
      (''azure'', \<lparr>ps_type = ''azure'', ps_display = ''Azure AD'', ps_scopes = standard_scopes, ps_icon = ''azure''\<rparr>)]"

definition lookup_preset :: "string \<Rightarrow> preset option" where
  "lookup_preset name = map_of presets name"

fun normalize_scopes_loop :: "string list \<Rightarrow> string list \<Rightarrow> string list" where
  "normalize_scopes_loop seen [] = []"
| "normalize_scopes_loop seen (s # ss) =
     (if s = [] \<or> s = ''openid'' \<or> s \<in> set seen then normalize_scopes_loop seen ss
      else s # normalize_scopes_loop (s # seen) ss)"

definition normalize_scopes :: "string list \<Rightarrow> string list" where
  "normalize_scopes scopes = ''openid'' # normalize_scopes_loop [] scopes"

definition default_scopes_for :: "string \<Rightarrow> string list \<Rightarrow> string list \<Rightarrow> string list" where
  "default_scopes_for name provider_scopes global_fallback =
     normalize_scopes
       (if provider_scopes \<noteq> [] then provider_scopes
        else case lookup_preset name of
          Some p \<Rightarrow> if ps_scopes p \<noteq> [] then ps_scopes p else global_fallback
        | None \<Rightarrow> global_fallback)"

subsection \<open>Signing algorithms\<close>

definition oidc_sig_algs :: "string list" where
  "oidc_sig_algs =
     [''RS256'', ''RS384'', ''RS512'', ''ES256'', ''ES384'', ''ES512'', ''PS256'', ''PS384'',
      ''PS512'', ''EdDSA'']"

definition supported_alg :: "string \<Rightarrow> bool" where
  "supported_alg alg \<longleftrightarrow> list_ex (\<lambda>a. a = alg) oidc_sig_algs"

text \<open>\<^const>\<open>None\<close> leaves the default of the library in place.\<close>

definition verifier_supported_algs :: "string list \<Rightarrow> string list option" where
  "verifier_supported_algs advertised =
     (if advertised = [] then None
      else let kept = filter supported_alg advertised
           in Some (if kept = [] then oidc_sig_algs else kept))"

subsection \<open>Signing keys\<close>

text \<open>A key as it appears in the fetched set: the algorithm it advertises (empty when absent or
  unreadable) and the decoded key, \<^const>\<open>None\<close> when the library cannot read it.\<close>

record 'k jwk =
  jw_kid :: string
  jw_public :: bool
  jw_key :: 'k

record 'k raw_key =
  rk_alg :: string
  rk_jwk :: "'k jwk option"

text \<open>The keys of a fetched document; one unreadable key of a supported algorithm fails it.\<close>

fun decode_keys :: "'k raw_key list \<Rightarrow> 'k jwk list option" where
  "decode_keys [] = Some []"
| "decode_keys (r # rs) =
     (if rk_alg r \<noteq> [] \<and> \<not> supported_alg (rk_alg r) then decode_keys rs
      else case rk_jwk r of
        None \<Rightarrow> None
      | Some k \<Rightarrow> if jw_public k then map_option (\<lambda>ks. k # ks) (decode_keys rs) else decode_keys rs)"

text \<open>\<open>doc\<close> is the fetched document, \<^const>\<open>None\<close> when the request or its decoding failed.\<close>

definition do_fetch :: "'k raw_key list option \<Rightarrow> 'k jwk list \<Rightarrow> bool \<times> 'k jwk list" where
  "do_fetch doc keys =
     (case doc of
        None \<Rightarrow> (False, keys)
      | Some raw \<Rightarrow> (case decode_keys raw of None \<Rightarrow> (False, keys) | Some ks \<Rightarrow> (True, ks)))"

text \<open>A refresh runs its own fetch or waits for the one in flight, whose error it does not see.\<close>

datatype 'k refresh_way = OwnFetch "'k raw_key list option" | JoinFetch "'k raw_key list option"

definition refresh_keys :: "'k refresh_way \<Rightarrow> 'k jwk list \<Rightarrow> bool \<times> 'k jwk list" where
  "refresh_keys way keys =
     (case way of
        OwnFetch doc \<Rightarrow> do_fetch doc keys
      | JoinFetch doc \<Rightarrow> (True, snd (do_fetch doc keys)))"

fun verify_with :: "('k \<Rightarrow> 'p option) \<Rightarrow> string \<Rightarrow> 'k jwk list \<Rightarrow> 'p option" where
  "verify_with check kid [] = None"
| "verify_with check kid (k # ks) =
     (if kid \<noteq> [] \<and> jw_kid k \<noteq> kid then verify_with check kid ks
      else case check (jw_key k) of
        Some p \<Rightarrow> Some p
      | None \<Rightarrow> verify_with check kid ks)"

datatype jws_error = JwsMalformed | JwsSignatures | JwsFetch | JwsNoKey

text \<open>The parsed token is the list of the key ids of its signatures; \<open>check\<close> verifies it.\<close>

definition verify_signature ::
  "string list option \<Rightarrow> ('k \<Rightarrow> 'p option) \<Rightarrow> 'k refresh_way \<Rightarrow> 'k jwk list
   \<Rightarrow> (jws_error + 'p) \<times> 'k jwk list" where
  "verify_signature parsed check way keys =
     (case parsed of
        None \<Rightarrow> (Inl JwsMalformed, keys)
      | Some [kid] \<Rightarrow>
          (case verify_with check kid keys of
             Some p \<Rightarrow> (Inr p, keys)
           | None \<Rightarrow>
               (case refresh_keys way keys of
                  (False, keys') \<Rightarrow> (Inl JwsFetch, keys')
                | (True, keys') \<Rightarrow>
                    (case verify_with check kid keys' of
                       Some p \<Rightarrow> (Inr p, keys')
                     | None \<Rightarrow> (Inl JwsNoKey, keys'))))
      | Some _ \<Rightarrow> (Inl JwsSignatures, keys))"

subsection \<open>The service\<close>

record provider_config =
  pv_name :: string
  pv_issuer_url :: string
  pv_display :: string
  pv_scopes :: "string list"

text \<open>What the discovery document of a provider says; absent members are empty.\<close>

record discovery =
  di_issuer :: string
  di_end_session :: string
  di_jwks_url :: string
  di_algs :: "string list"

record provider_instance =
  pi_name :: string
  pi_display :: string
  pi_icon :: string
  pi_issuer :: string
  pi_scopes :: "string list"
  pi_end_session :: string
  pi_algs :: "string list option"
  pi_cached_keys :: bool

definition discover :: "discovery option \<Rightarrow> provider_config \<Rightarrow> string list \<Rightarrow> provider_instance option" where
  "discover doc pc global_scopes =
     (case doc of
        None \<Rightarrow> None
      | Some m \<Rightarrow>
          let name = pv_name pc;
              display = (case lookup_preset name of Some p \<Rightarrow> ps_display p | None \<Rightarrow> []);
              icon = (case lookup_preset name of Some p \<Rightarrow> ps_icon p | None \<Rightarrow> [])
          in Some
            \<lparr>pi_name = name,
             pi_display = (if pv_display pc \<noteq> [] then pv_display pc else if display \<noteq> [] then display else name),
             pi_icon = icon,
             pi_issuer = (if di_issuer m = [] then pv_issuer_url pc else di_issuer m),
             pi_scopes = default_scopes_for name (pv_scopes pc) global_scopes,
             pi_end_session = di_end_session m,
             pi_algs = verifier_supported_algs (di_algs m),
             pi_cached_keys = (di_jwks_url m \<noteq> [])\<rparr>)"

record oidc_service =
  sv_providers :: "string \<rightharpoonup> provider_instance"
  sv_order :: "provider_instance list"
  sv_key :: string
  sv_used :: state_store

definition add_provider :: "provider_instance \<Rightarrow> oidc_service \<Rightarrow> oidc_service" where
  "add_provider inst sv =
     sv\<lparr>sv_providers := (sv_providers sv)(pi_name inst \<mapsto> inst), sv_order := sv_order sv @ [inst]\<rparr>"

definition disabled_service :: "string \<Rightarrow> oidc_service" where
  "disabled_service key = \<lparr>sv_providers = Map.empty, sv_order = [], sv_key = key, sv_used = None\<rparr>"

text \<open>\<open>disc\<close> is the outcome of each discovery; a provider that fails is skipped.\<close>

definition new_service ::
  "(provider_config \<Rightarrow> discovery option) \<Rightarrow> bool \<Rightarrow> provider_config list \<Rightarrow> string list \<Rightarrow> string
   \<Rightarrow> oidc_service" where
  "new_service disc enabled pcs global_scopes key =
     (if \<not> enabled \<or> pcs = [] then disabled_service key
      else fold (\<lambda>pc sv. case discover (disc pc) pc global_scopes of
                   None \<Rightarrow> sv | Some inst \<Rightarrow> add_provider inst sv) pcs
             ((disabled_service key)\<lparr>sv_used := Some Map.empty\<rparr>))"

definition service_enabled :: "oidc_service \<Rightarrow> bool" where
  "service_enabled sv \<longleftrightarrow> sv_order sv \<noteq> []"

definition end_session_url :: "oidc_service \<Rightarrow> string \<Rightarrow> string" where
  "end_session_url sv provider =
     (case sv_providers sv provider of None \<Rightarrow> [] | Some inst \<Rightarrow> pi_end_session inst)"

datatype oidc_error =
    UnknownProvider | StateError state_error | ProviderMismatch | StateConsumed | ExchangeFailed
  | NoIdToken | IdTokenInvalid | NonceMismatch | ClaimsUndecodable

definition auth_code_url ::
  "aead \<Rightarrow> (string \<Rightarrow> string) \<Rightarrow> draws \<Rightarrow> time \<Rightarrow> oidc_service \<Rightarrow> string \<Rightarrow> string
   \<Rightarrow> oidc_error + auth_request" where
  "auth_code_url ae sha d now sv provider callback =
     (case sv_providers sv provider of
        None \<Rightarrow> Inl UnknownProvider
      | Some inst \<Rightarrow>
          (case new_state_token ae sha d now (sv_key sv) provider of
             Inl e \<Rightarrow> Inl (StateError e)
           | Inr (state, verifier, challenge, nonce) \<Rightarrow>
               Inr \<lparr>ar_state = state, ar_challenge = challenge, ar_nonce = nonce, ar_callback = callback\<rparr>))"

text \<open>
  The identity provider: \<open>ip_exchange\<close> answers a code, a PKCE verifier and a callback address
  with the \<^verbatim>\<open>id_token\<close> member of its reply (empty when absent), or fails;
  \<open>ip_verify\<close> is the verifier of the signature library.
\<close>

record idp =
  ip_exchange :: "provider_instance \<Rightarrow> string \<Rightarrow> string \<Rightarrow> string \<Rightarrow> string option"
  ip_verify :: "provider_instance \<Rightarrow> string \<Rightarrow> id_token option"

definition exchange_code ::
  "idp \<Rightarrow> provider_instance \<Rightarrow> string \<Rightarrow> string \<Rightarrow> state_payload \<Rightarrow> oidc_error + sso_claims" where
  "exchange_code ip inst code callback p =
     (case ip_exchange ip inst code (sp_verifier p) callback of
        None \<Rightarrow> Inl ExchangeFailed
      | Some raw \<Rightarrow>
          if raw = [] then Inl NoIdToken
          else case ip_verify ip inst raw of
            None \<Rightarrow> Inl IdTokenInvalid
          | Some t \<Rightarrow>
              if it_nonce t \<noteq> sp_nonce p then Inl NonceMismatch
              else (case decode_claims raw t of None \<Rightarrow> Inl ClaimsUndecodable | Some c \<Rightarrow> Inr c))"

text \<open>\<open>now\<close> and \<open>now'\<close> are the times of the expiry check and of the mark.\<close>

definition handle_callback ::
  "aead \<Rightarrow> (string \<Rightarrow> string) \<Rightarrow> idp \<Rightarrow> time \<Rightarrow> time \<Rightarrow> oidc_service \<Rightarrow> string \<Rightarrow> string \<Rightarrow> string \<Rightarrow> string
   \<Rightarrow> (oidc_error + sso_claims) \<times> oidc_service" where
  "handle_callback ae sha ip now now' sv provider code state callback =
     (case sv_providers sv provider of
        None \<Rightarrow> (Inl UnknownProvider, sv)
      | Some inst \<Rightarrow>
          (case verify_state_token ae now (sv_key sv) state of
             Inl e \<Rightarrow> (Inl (StateError e), sv)
           | Inr p \<Rightarrow>
               if sp_provider p \<noteq> provider then (Inl ProviderMismatch, sv)
               else case consume sha now' state (sv_used sv) of
                 (False, used) \<Rightarrow> (Inl StateConsumed, sv\<lparr>sv_used := used\<rparr>)
               | (True, used) \<Rightarrow> (exchange_code ip inst code callback p, sv\<lparr>sv_used := used\<rparr>)))"

end
