(* ===== verification/Sso.thy ===== *)
theory Sso
  imports Login Oidc
begin

section \<open>Single sign-on\<close>

text \<open>
  \<^verbatim>\<open>internal/handlers/oidc.go\<close>, \<^verbatim>\<open>internal/database/external_identities.go\<close> and
  \<^verbatim>\<open>sso_tokens.go\<close>: from the claims of an identity provider to a local account and a
  session.  Each query may fail (\<open>fl\<close>); a transaction that fails leaves the database as it
  was.  The queries of one sign-on run one after the other, except that the role change reads
  the account it was given, which may be older than the database.
\<close>

subsection \<open>Names\<close>

definition sso_login_max_name_len :: nat where
  "sso_login_max_name_len = 32"

definition short_hash :: "(string \<Rightarrow> string) \<Rightarrow> string \<Rightarrow> string" where
  "short_hash sha s = take 12 (hex_encode (sha s))"

text \<open>Which characters of a claim stay in a user name; a byte of a longer rune is dropped.\<close>

definition username_char :: "char \<Rightarrow> string" where
  "username_char c =
     (if is_lower c \<or> is_digit c \<or> c \<in> {CHR ''.'', CHR ''_'', CHR ''-''} then [c]
      else if c = CHR '' '' \<or> c = CHR ''@'' then ''-'' else [])"

definition trim_punct :: "string \<Rightarrow> string" where
  "trim_punct s = (let p = (\<lambda>c. c \<in> {CHR ''.'', CHR ''_'', CHR ''-''}) in trim_right p (trim_left p s))"

definition sanitize_username :: "string \<Rightarrow> string" where
  "sanitize_username s =
     (let out = trim_punct (concat (map username_char (to_lower (trim_space s)))) in
      if out = [] then []
      else take sso_login_max_name_len (if is_lower (hd out) then out else CHR ''u'' # out))"

definition derive_sso_username :: "(string \<Rightarrow> string) \<Rightarrow> string \<Rightarrow> string \<Rightarrow> string" where
  "derive_sso_username sha preferred subject =
     (let cleaned = sanitize_username (if preferred = [] then subject else preferred) in
      if validate_username cleaned = None then cleaned else ''sso-'' @ short_hash sha subject)"

definition split_name :: "string \<Rightarrow> string \<times> string" where
  "split_name name =
     (case str_fields name of
        [] \<Rightarrow> ([], [])
      | [a] \<Rightarrow> (a, [])
      | ps \<Rightarrow> (join_with '' '' (butlast ps), last ps))"

subsection \<open>Configuration and tables\<close>

record sso_config =
  so_allowed_domains :: "string list"
  so_require_verified :: bool
  so_auto_provision :: bool
  so_default_role :: string
  so_role_claim :: string
  so_admin_values :: "string list"
  so_group_claim :: string
  so_group_mapping :: "string \<rightharpoonup> string"
  so_session :: time
  so_absolute :: time

text \<open>The accounts, \<^verbatim>\<open>external_identities\<close>, \<^verbatim>\<open>zone_groups\<close> (name and id),
  \<^verbatim>\<open>zone_group_members\<close> and \<^verbatim>\<open>sso_id_tokens\<close>.\<close>

record sso_db =
  sd_accounts :: account_db
  sd_links :: "string \<times> string \<rightharpoonup> int"
  sd_groups :: "string \<rightharpoonup> int"
  sd_members :: "(int \<times> int) set"
  sd_hints :: "string \<rightharpoonup> string \<times> time"

datatype sso_call =
    SsoFindIdentity | SsoFindEmail | SsoLinkBegin | SsoLinkInsert | SsoRowsAffected | SsoOwner | SsoLinkLog
  | SsoLinkCommit | SsoCreateBegin | SsoRandom | SsoCreateInsert | SsoCreateLink | SsoCreateLog | SsoCreateCommit
  | SsoRoleBegin | SsoLastAdmin | SsoSetRole | SsoRoleLog | SsoRoleCommit
  | SsoGroupBegin | SsoGroupFind | SsoGroupAdd | SsoGroupCommit | SsoManualLock | SsoHint | SsoLoginLog

type_synonym sso_calls = "sso_call \<Rightarrow> bool"

datatype sso_error =
    SsoQueryFailed | SsoLinkedElsewhere | SsoNoAccount | SsoDomainRefused | SsoConflict

definition sso_email_allowed :: "sso_config \<Rightarrow> string \<Rightarrow> bool" where
  "sso_email_allowed cfg email \<longleftrightarrow>
     so_allowed_domains cfg = [] \<or>
     (CHR ''@'' \<in> set email \<and>
       (let domain = rev (takeWhile (\<lambda>c. c \<noteq> CHR ''@'') (rev email))
        in domain \<noteq> [] \<and> to_lower domain \<in> set (so_allowed_domains cfg)))"

definition desired_role :: "sso_config \<Rightarrow> sso_claims \<Rightarrow> string" where
  "desired_role cfg cl =
     (let role = (if so_default_role cfg = [] then ''user'' else so_default_role cfg) in
      if so_role_claim cfg \<noteq> []
         \<and> list_ex (\<lambda>v. v \<in> set (so_admin_values cfg)) (claim_strings (oc_raw cl) (so_role_claim cfg))
      then ''admin'' else role)"

subsection \<open>External identities\<close>

definition find_user_by_external_identity :: "string \<Rightarrow> string \<Rightarrow> sso_db \<Rightarrow> account option" where
  "find_user_by_external_identity issuer subject db =
     (case sd_links db (issuer, subject) of
        None \<Rightarrow> None
      | Some uid \<Rightarrow> find_account uid (sd_accounts db))"

definition find_user_by_email :: "string \<Rightarrow> sso_db \<Rightarrow> account option" where
  "find_user_by_email email db =
     find (\<lambda>a. to_lower (ac_email a) = to_lower email \<and> ac_enabled a) (adb_users (sd_accounts db))"

text \<open>The insert ignores a conflict; whose link it is, is read back when the driver reports that no
  row was inserted (\<open>SsoRowsAffected\<close> is the driver failing to say).\<close>

definition link_external_identity ::
  "sso_calls \<Rightarrow> int \<Rightarrow> string \<Rightarrow> string \<Rightarrow> sso_db \<Rightarrow> sso_error + sso_db" where
  "link_external_identity fl uid issuer subject db =
     (case sd_links db (issuer, subject) of
        None \<Rightarrow>
          if find_account uid (sd_accounts db) = None then Inl SsoQueryFailed
          else Inr (db\<lparr>sd_links := (sd_links db)((issuer, subject) \<mapsto> uid)\<rparr>)
      | Some owner \<Rightarrow>
          if fl SsoRowsAffected then Inr db
          else if fl SsoOwner then Inl SsoQueryFailed
          else if owner \<noteq> uid then Inl SsoLinkedElsewhere
          else Inr db)"

definition link_identity ::
  "sso_calls \<Rightarrow> time \<Rightarrow> int \<Rightarrow> string \<Rightarrow> string \<Rightarrow> sso_db \<Rightarrow> sso_error + sso_db" where
  "link_identity fl now uid issuer subject db =
     (if fl SsoLinkBegin \<or> fl SsoLinkInsert then Inl SsoQueryFailed
      else case link_external_identity fl uid issuer subject db of
        Inl e \<Rightarrow> Inl e
      | Inr db1 \<Rightarrow>
          (case add_log (fl SsoLinkLog) now (Some uid) ''sso_link'' (''Linked SSO identity '' @ issuer) (sd_accounts db1) of
             None \<Rightarrow> Inl SsoQueryFailed
           | Some acc \<Rightarrow>
               if fl SsoLinkCommit then Inl SsoQueryFailed else Inr (db1\<lparr>sd_accounts := acc\<rparr>)))"

definition external_account ::
  "time \<Rightarrow> string \<Rightarrow> string \<Rightarrow> string \<Rightarrow> string \<Rightarrow> string \<Rightarrow> string \<Rightarrow> account" where
  "external_account now placeholder username email first_name last_name role =
     \<lparr>ac_id = 0, ac_username = to_lower username, ac_email = to_lower email, ac_hash = placeholder,
      ac_first_name = first_name, ac_last_name = last_name, ac_role = role, ac_enabled = True, ac_failed = 0,
      ac_locked_until = None, ac_manual_until = None, ac_tokens_after = 0, ac_version = 0,
      ac_must_change = False, ac_changed_at = now\<rparr>"

text \<open>\<open>rnd\<close> is the 32 random bytes of the placeholder hash.\<close>

definition create_external_user ::
  "sso_calls \<Rightarrow> string \<Rightarrow> time \<Rightarrow> string \<Rightarrow> string \<Rightarrow> string \<Rightarrow> string \<Rightarrow> string \<Rightarrow> string \<Rightarrow> string \<Rightarrow> sso_db
   \<Rightarrow> sso_error + (account \<times> sso_db)" where
  "create_external_user fl rnd now username email first_name last_name role issuer subject db =
     (if fl SsoCreateBegin \<or> fl SsoRandom \<or> fl SsoCreateInsert then Inl SsoQueryFailed
      else let a = external_account now (hex_encode rnd) username email first_name last_name role in
      case insert_account a (sd_accounts db) of
        None \<Rightarrow> Inl SsoConflict
      | Some (uid, acc) \<Rightarrow>
          (case (if fl SsoCreateLink then Inl SsoQueryFailed
                 else link_external_identity fl uid issuer subject (db\<lparr>sd_accounts := acc\<rparr>)) of
             Inl e \<Rightarrow> Inl e
           | Inr db1 \<Rightarrow>
               (case add_log (fl SsoCreateLog) now (Some uid) ''sso_provision''
                   (''Auto-provisioned user '' @ to_lower username @ '' via SSO ('' @ issuer @ '')'') (sd_accounts db1) of
                  None \<Rightarrow> Inl SsoQueryFailed
                | Some acc2 \<Rightarrow>
                    if fl SsoCreateCommit then Inl SsoQueryFailed
                    else Inr (a\<lparr>ac_id := uid\<rparr>, db1\<lparr>sd_accounts := acc2\<rparr>))))"

subsection \<open>Attributes\<close>

definition set_user_role :: "int \<Rightarrow> string \<Rightarrow> account_db \<Rightarrow> account_db" where
  "set_user_role uid role = update_account uid (\<lambda>a. a\<lparr>ac_role := role\<rparr>)"

text \<open>\<open>user\<close> is the account as it was read before the transaction.\<close>

definition apply_sso_role ::
  "sso_calls \<Rightarrow> time \<Rightarrow> account \<Rightarrow> string \<Rightarrow> sso_db \<Rightarrow> sso_error + sso_db" where
  "apply_sso_role fl now user desired db =
     (let guarded = (ac_role user = ''admin'' \<and> desired \<noteq> ''admin'') in
      if fl SsoRoleBegin then Inl SsoQueryFailed
      else if guarded \<and> fl SsoLastAdmin then Inl SsoQueryFailed
      else if guarded \<and> is_last_enabled_admin (ac_id user) (sd_accounts db)
      then (if fl SsoRoleCommit then Inl SsoQueryFailed else Inr db)
      else if fl SsoSetRole then Inl SsoQueryFailed
      else (case add_log (fl SsoRoleLog) now (Some (ac_id user)) ''sso_role_sync''
              (''SSO role sync set role to '' @ desired) (set_user_role (ac_id user) desired (sd_accounts db)) of
         None \<Rightarrow> Inl SsoQueryFailed
       | Some acc \<Rightarrow> if fl SsoRoleCommit then Inl SsoQueryFailed else Inr (db\<lparr>sd_accounts := acc\<rparr>)))"

fun sync_groups_loop ::
  "sso_calls \<Rightarrow> (string \<rightharpoonup> string) \<Rightarrow> int \<Rightarrow> string list \<Rightarrow> string list \<Rightarrow> sso_db \<Rightarrow> sso_db option" where
  "sync_groups_loop fl mapping uid seen [] db = Some db"
| "sync_groups_loop fl mapping uid seen (v # vs) db =
     (case mapping v of
        None \<Rightarrow> sync_groups_loop fl mapping uid seen vs db
      | Some name \<Rightarrow>
          if name \<in> set seen then sync_groups_loop fl mapping uid seen vs db
          else if fl SsoGroupFind then None
          else (case sd_groups db name of
             None \<Rightarrow> sync_groups_loop fl mapping uid (name # seen) vs db
           | Some gid \<Rightarrow>
               if gid = 0 then sync_groups_loop fl mapping uid (name # seen) vs db
               else if fl SsoGroupAdd then None
               else sync_groups_loop fl mapping uid (name # seen) vs
                      (db\<lparr>sd_members := insert (gid, uid) (sd_members db)\<rparr>)))"

definition sync_groups :: "sso_calls \<Rightarrow> sso_config \<Rightarrow> int \<Rightarrow> sso_claims \<Rightarrow> sso_db \<Rightarrow> sso_error + sso_db" where
  "sync_groups fl cfg uid cl db =
     (let values = claim_strings (oc_raw cl) (so_group_claim cfg) in
      if values = [] then Inr db
      else if fl SsoGroupBegin then Inl SsoQueryFailed
      else case sync_groups_loop fl (so_group_mapping cfg) uid [] values db of
        None \<Rightarrow> Inl SsoQueryFailed
      | Some db1 \<Rightarrow> if fl SsoGroupCommit then Inl SsoQueryFailed else Inr db1)"

text \<open>The result carries the account with the role the caller sees, and the database also on an
  error: the role change is committed on its own before the groups are synchronised.\<close>

definition sync_sso_attributes ::
  "sso_calls \<Rightarrow> sso_config \<Rightarrow> time \<Rightarrow> account \<Rightarrow> sso_claims \<Rightarrow> sso_db \<Rightarrow> (sso_error + account) \<times> sso_db" where
  "sync_sso_attributes fl cfg now user cl db =
     (let desired = desired_role cfg cl;
          changed = (so_role_claim cfg \<noteq> [] \<and> desired \<noteq> ac_role user) in
      case (if changed then apply_sso_role fl now user desired db else Inr db) of
        Inl e \<Rightarrow> (Inl e, db)
      | Inr db1 \<Rightarrow>
          let user1 = (if changed then user\<lparr>ac_role := desired\<rparr> else user) in
          if so_group_claim cfg = [] then (Inr user1, db1)
          else (case sync_groups fl cfg (ac_id user) cl db1 of
             Inl e \<Rightarrow> (Inl e, db1)
           | Inr db2 \<Rightarrow> (Inr user1, db2)))"

subsection \<open>From claims to an account\<close>

definition provision_user ::
  "(string \<Rightarrow> string) \<Rightarrow> sso_calls \<Rightarrow> string \<Rightarrow> sso_config \<Rightarrow> time \<Rightarrow> sso_claims \<Rightarrow> sso_db
   \<Rightarrow> (sso_error + account) \<times> sso_db" where
  "provision_user sha fl rnd cfg now cl db =
     (if \<not> so_auto_provision cfg then (Inl SsoNoAccount, db)
      else if \<not> sso_email_allowed cfg (oc_email cl) then (Inl SsoDomainRefused, db)
      else
        let (first_name, last_name) = split_name (oc_name cl);
            username = derive_sso_username sha (oc_preferred cl) (oc_subject cl);
            email = (if oc_email cl = [] then ''sso+'' @ short_hash sha (oc_issuer cl @ oc_subject cl) @ ''@gozone.local''
                     else oc_email cl)
        in case create_external_user fl rnd now username email first_name last_name
              (desired_role cfg cl) (oc_issuer cl) (oc_subject cl) db of
             Inl e \<Rightarrow> (Inl e, db)
           | Inr (user, db1) \<Rightarrow>
               if so_group_claim cfg = [] then (Inr user, db1)
               else (case sync_groups fl cfg (ac_id user) cl db1 of
                  Inl e \<Rightarrow> (Inl e, db1)
                | Inr db2 \<Rightarrow> (Inr user, db2)))"

definition email_link_allowed :: "sso_config \<Rightarrow> sso_claims \<Rightarrow> bool" where
  "email_link_allowed cfg cl \<longleftrightarrow> oc_email cl \<noteq> [] \<and> sso_email_allowed cfg (oc_email cl)
     \<and> (oc_email_verified cl \<or> \<not> so_require_verified cfg)"

definition resolve_sso_user ::
  "(string \<Rightarrow> string) \<Rightarrow> sso_calls \<Rightarrow> string \<Rightarrow> sso_config \<Rightarrow> time \<Rightarrow> sso_claims \<Rightarrow> sso_db
   \<Rightarrow> (sso_error + account) \<times> sso_db" where
  "resolve_sso_user sha fl rnd cfg now cl db =
     (if fl SsoFindIdentity then (Inl SsoQueryFailed, db)
      else case find_user_by_external_identity (oc_issuer cl) (oc_subject cl) db of
        Some user \<Rightarrow> sync_sso_attributes fl cfg now user cl db
      | None \<Rightarrow>
          if email_link_allowed cfg cl then
            (if fl SsoFindEmail then (Inl SsoQueryFailed, db)
             else case find_user_by_email (oc_email cl) db of
               None \<Rightarrow> provision_user sha fl rnd cfg now cl db
             | Some existing \<Rightarrow>
                 (case link_identity fl now (ac_id existing) (oc_issuer cl) (oc_subject cl) db of
                    Inl e \<Rightarrow> (Inl e, db)
                  | Inr db1 \<Rightarrow> sync_sso_attributes fl cfg now existing cl db1))
          else provision_user sha fl rnd cfg now cl db)"

subsection \<open>Sessions\<close>

definition upsert_sso_id_token :: "bool \<Rightarrow> string \<Rightarrow> string \<Rightarrow> time \<Rightarrow> sso_db \<Rightarrow> sso_db" where
  "upsert_sso_id_token fails sid tok expires db =
     (if fails then db else db\<lparr>sd_hints := (sd_hints db)(sid \<mapsto> (tok, expires))\<rparr>)"

text \<open>\<^verbatim>\<open>FindSSOIDToken\<close>: \<^const>\<open>None\<close> is a failed query, the empty string no row.\<close>

definition find_sso_id_token :: "bool \<Rightarrow> string \<Rightarrow> sso_db \<Rightarrow> string option" where
  "find_sso_id_token fails sid db =
     (if fails then None
      else Some (case sd_hints db sid of None \<Rightarrow> [] | Some (tok, _) \<Rightarrow> tok))"

definition delete_sso_id_token :: "bool \<Rightarrow> string \<Rightarrow> sso_db \<Rightarrow> sso_db" where
  "delete_sso_id_token fails sid db = (if fails then db else db\<lparr>sd_hints := (sd_hints db)(sid := None)\<rparr>)"

definition purge_expired_sso_id_tokens :: "time \<Rightarrow> sso_db \<Rightarrow> sso_db" where
  "purge_expired_sso_id_tokens now db =
     db\<lparr>sd_hints := (\<lambda>sid. case sd_hints db sid of
          None \<Rightarrow> None
        | Some (tok, e) \<Rightarrow> if e \<le> now then None else Some (tok, e))\<rparr>"

text \<open>\<open>reads\<close> tells whether the minted token parses, which a hint needs.\<close>

definition issue_sso_session ::
  "sso_calls \<Rightarrow> sso_config \<Rightarrow> (claims \<Rightarrow> bool) \<Rightarrow> string option \<Rightarrow> string \<Rightarrow> time \<Rightarrow> account \<Rightarrow> string \<Rightarrow> string
   \<Rightarrow> sso_db \<Rightarrow> claims option \<times> sso_db" where
  "issue_sso_session fl cfg reads jti sid now user provider hint db =
     (case generate_session_token jti now (user_of_account user) (so_session cfg) provider sid of
        None \<Rightarrow> (None, db)
      | Some token \<Rightarrow>
          if hint \<noteq> [] \<and> \<not> reads token then (None, db)
          else
            let retention = max (so_session cfg) (so_absolute cfg) + day;
                db1 = (if hint = [] then db
                       else upsert_sso_id_token (fl SsoHint) (cl_sid token) hint (now + retention) db);
                db2 = db1\<lparr>sd_accounts := add_log_try (fl SsoLoginLog) now (Some (ac_id user)) ''sso_login''
                        (''User '' @ ac_username user @ '' logged in via SSO ('' @ provider @ '')'') (sd_accounts db1)\<rparr>
            in (Some token, db2))"

datatype sso_reply = SsoLoginError | SsoPanic | SsoDashboard claims

text \<open>The part of the callback after the claims: account, checks, session.\<close>

definition sso_sign_in ::
  "(string \<Rightarrow> string) \<Rightarrow> sso_calls \<Rightarrow> string \<Rightarrow> sso_config \<Rightarrow> (claims \<Rightarrow> bool) \<Rightarrow> string option \<Rightarrow> string \<Rightarrow> time
   \<Rightarrow> string \<Rightarrow> sso_claims \<Rightarrow> sso_db \<Rightarrow> sso_reply \<times> sso_db" where
  "sso_sign_in sha fl rnd cfg reads jti sid now provider cl db =
     (case resolve_sso_user sha fl rnd cfg now cl db of
        (Inl e, db1) \<Rightarrow> (SsoLoginError, db1)
      | (Inr user, db1) \<Rightarrow>
          if \<not> ac_enabled user then (SsoLoginError, db1)
          else if fl SsoManualLock \<or> manually_locked now (ac_id user) (sd_accounts db1) then (SsoLoginError, db1)
          else (case issue_sso_session fl cfg reads jti sid now user provider (oc_id_token cl) db1 of
                  (None, db2) \<Rightarrow> (SsoLoginError, db2)
                | (Some token, db2) \<Rightarrow> (SsoDashboard token, db2)))"

text \<open>The cookie that binds a state to the browser that started the flow, and the two handlers.
  \<open>cookie\<close> is the value the browser presents.\<close>

definition state_bind_value :: "(string \<Rightarrow> string) \<Rightarrow> string \<Rightarrow> string" where
  "state_bind_value sha state = hex_encode (sha state)"

definition oidc_callback_url :: "string \<Rightarrow> bool \<Rightarrow> string \<Rightarrow> string \<Rightarrow> string" where
  "oidc_callback_url external https host provider =
     (if external \<noteq> [] then external else (if https then ''https'' else ''http'') @ ''://'' @ host)
     @ ''/auth/oidc/'' @ provider @ ''/callback''"

definition oidc_callback ::
  "aead \<Rightarrow> (string \<Rightarrow> string) \<Rightarrow> idp \<Rightarrow> sso_calls \<Rightarrow> string \<Rightarrow> sso_config \<Rightarrow> (claims \<Rightarrow> bool) \<Rightarrow> string option
   \<Rightarrow> string \<Rightarrow> time \<Rightarrow> time \<Rightarrow> string \<Rightarrow> string option \<Rightarrow> string \<Rightarrow> string \<Rightarrow> string \<Rightarrow> oidc_service \<Rightarrow> sso_db
   \<Rightarrow> sso_reply \<times> oidc_service \<times> sso_db" where
  "oidc_callback ae sha ip fl rnd cfg reads jti sid now now' callback cookie provider code state sv db =
     (if \<not> service_enabled sv \<or> provider = [] \<or> code = [] \<or> state = [] then (SsoLoginError, sv, db)
      else if cookie \<noteq> Some (state_bind_value sha state) then (SsoLoginError, sv, db)
      else case handle_callback ae sha ip now now' sv provider code state callback of
        (Inl e, sv1) \<Rightarrow> (if e = StateError StPanic then SsoPanic else SsoLoginError, sv1, db)
      | (Inr cl, sv1) \<Rightarrow>
          (case sso_sign_in sha fl rnd cfg reads jti sid now' provider cl db of
             (r, db1) \<Rightarrow> (r, sv1, db1)))"

text \<open>The start of the flow: the request the browser is sent to, and the binding cookie.
  \<open>absolute\<close> is the check that the built address is an absolute one.\<close>

definition oidc_login ::
  "aead \<Rightarrow> (string \<Rightarrow> string) \<Rightarrow> (auth_request \<Rightarrow> bool) \<Rightarrow> draws \<Rightarrow> time \<Rightarrow> string \<Rightarrow> string \<Rightarrow> oidc_service
   \<Rightarrow> (auth_request \<times> string) option" where
  "oidc_login ae sha absolute d now callback provider sv =
     (if \<not> service_enabled sv \<or> provider = [] then None
      else case auth_code_url ae sha d now sv provider callback of
        Inl e \<Rightarrow> None
      | Inr req \<Rightarrow> if absolute req then Some (req, state_bind_value sha (ar_state req)) else None)"

subsection \<open>Logout\<close>

definition upper_hex :: "nat \<Rightarrow> char" where
  "upper_hex n = (if n < 10 then char_of (48 + n) else char_of (55 + n))"

definition query_escape :: "string \<Rightarrow> string" where
  "query_escape s = concat (map (\<lambda>c.
     if is_alnum c \<or> c \<in> {CHR ''-'', CHR ''_'', CHR ''.'', CHR ''~''} then [c]
     else if c = CHR '' '' then ''+''
     else [CHR ''%'', upper_hex (ord c div 16), upper_hex (ord c mod 16)]) s)"

definition append_query :: "string \<Rightarrow> string \<Rightarrow> string \<Rightarrow> string" where
  "append_query base key v =
     base @ (if CHR ''?'' \<in> set base then ''&'' else ''?'') @ query_escape key @ ''='' @ query_escape v"

definition oidc_post_logout_url :: "string \<Rightarrow> bool \<Rightarrow> string \<Rightarrow> string" where
  "oidc_post_logout_url external https host =
     (if external \<noteq> [] then external else (if https then ''https'' else ''http'') @ ''://'' @ host) @ ''/login''"

record logout_faults =
  lo_revoke :: bool
  lo_log :: bool
  lo_find :: bool
  lo_delete :: bool

datatype logout_reply = LogoutLogin | LogoutAtProvider string

text \<open>The hint and the redirect; \<open>legacy\<close> is the hint an old token carries itself.\<close>

definition logout_at_provider ::
  "logout_faults \<Rightarrow> (string \<Rightarrow> bool) \<Rightarrow> oidc_service option \<Rightarrow> string \<Rightarrow> string \<Rightarrow> claims \<Rightarrow> sso_db
   \<Rightarrow> logout_reply \<times> sso_db" where
  "logout_at_provider lf absolute svo post_logout legacy cl db =
     (case svo of
        None \<Rightarrow> (LogoutLogin, db)
      | Some sv \<Rightarrow>
          if cl_provider cl = [] \<or> cl_provider cl = ''local'' then (LogoutLogin, db)
          else
            let hint = (if legacy = [] \<and> cl_sid cl \<noteq> []
                        then (case find_sso_id_token (lo_find lf) (cl_sid cl) db of None \<Rightarrow> [] | Some t \<Rightarrow> t)
                        else legacy);
                db1 = (if cl_sid cl \<noteq> [] then delete_sso_id_token (lo_delete lf) (cl_sid cl) db else db);
                base = end_session_url sv (cl_provider cl);
                target0 = append_query base ''post_logout_redirect_uri'' post_logout;
                target = (if hint \<noteq> [] then append_query target0 ''id_token_hint'' hint else target0)
            in (if base \<noteq> [] \<and> absolute target then LogoutAtProvider target else LogoutLogin, db1))"

definition logout ::
  "(string \<Rightarrow> jwt_token option) \<Rightarrow> logout_faults \<Rightarrow> (string \<Rightarrow> bool) \<Rightarrow> (string \<Rightarrow> string) \<Rightarrow> oidc_service option
   \<Rightarrow> string \<Rightarrow> time \<Rightarrow> request \<Rightarrow> auth_db \<Rightarrow> sso_db \<Rightarrow> logout_reply \<times> auth_db \<times> sso_db" where
  "logout jwt lf absolute legacy svo post_logout now r ad db =
     (let token = session_token r;
          parsed = (if token = [] then None
                    else case parse_token jwt token of
                      None \<Rightarrow> None | Some cl \<Rightarrow> if cl_id cl = [] then None else Some cl);
          ad1 = (case (parsed, rq_user r) of
                   (Some cl, Some u) \<Rightarrow> revoke_token (lo_revoke lf) (cl_id cl)
                      (case cl_expires_at cl of Some e \<Rightarrow> e | None \<Rightarrow> far_future now) ad
                 | _ \<Rightarrow> ad);
          db1 = (case rq_user r of
                   None \<Rightarrow> db
                 | Some u \<Rightarrow> db\<lparr>sd_accounts := add_log_try (lo_log lf) now (Some (u_id u)) ''logout''
                     (''User '' @ u_username u @ '' logged out'') (sd_accounts db)\<rparr>)
      in case parsed of
        None \<Rightarrow> (LogoutLogin, ad1, db1)
      | Some cl \<Rightarrow>
          (case logout_at_provider lf absolute svo post_logout (legacy token) cl db1 of
             (reply, db2) \<Rightarrow> (reply, ad1, db2)))"

end
