(* ===== verification/OidcLaws.thy ===== *)
theory OidcLaws
  imports Oidc
begin

section \<open>What the sign-on service promises\<close>

text \<open>
  The state tokens (minting and checking agree, a token is used once, and the spellings and the
  timing for which that fails), the callback, the scopes and the signing keys.
\<close>

subsection \<open>A guard against replays\<close>

text \<open>What the callback needs of the store: a mark that refuses its token, and that lasts.\<close>

locale replay_guard =
  fixes use_token :: "time \<Rightarrow> string \<Rightarrow> 's \<Rightarrow> bool \<times> 's"
    and run :: "store_event list \<Rightarrow> 's \<Rightarrow> 's"
    and marked :: "string \<Rightarrow> time \<Rightarrow> 's \<Rightarrow> bool"
    and ttl :: time
  assumes use_marks: "use_token t s st = (True, st') \<Longrightarrow> st \<noteq> st' \<Longrightarrow> marked s (t + ttl) st'"
    and marked_refuses: "marked s e st \<Longrightarrow> use_token t s st = (False, st)"
    and marked_lasts: "marked s e st \<Longrightarrow> \<forall>ev\<in>set es. event_time ev \<le> e \<Longrightarrow> marked s e (run es st)"
begin

lemma used_once:
  assumes "use_token t s st = (True, st')" "st \<noteq> st'" "\<forall>ev\<in>set es. event_time ev \<le> t + ttl"
  shows "use_token u s (run es st') = (False, run es st')"
  by (rule marked_refuses [OF marked_lasts [OF use_marks [OF assms(1,2)] assms(3)]])

end

interpretation used_states: replay_guard
  "consume sha" "store_run sha" "\<lambda>s. held (hex_encode (sha s))" state_ttl for sha
proof
  fix t s st st' assume "consume sha t s st = (True, st')" "st \<noteq> st'"
  then show "held (hex_encode (sha s)) (t + state_ttl) st'"
    by (auto simp: held_def consume_def Let_def split: option.splits if_splits)
qed (use consume_held held_run in blast)+

lemma consume_changes: "consume sha t s (Some used) = (True, st') \<Longrightarrow> Some used \<noteq> st'"
  by (auto simp: consume_def Let_def fun_eq_iff split: if_splits)

subsection \<open>Minting and checking\<close>

lemma decrypt_encrypted:
  assumes "encrypt_state ae (Some g) key p = Inr state"
  shows "decrypt_state ae key state =
    (if length g \<noteq> gcm_nonce_size then Inl StPanic
     else case ae_open ae key g (ae_seal ae key g p) of None \<Rightarrow> Inl StCiphertext | Some q \<Rightarrow> Inr q)"
proof -
  have "state = b64_encode g @ CHR ''.'' # b64_encode (ae_seal ae key g p)" "new_gcm key"
    using assms by (auto simp: encrypt_state_def split: if_splits)
  then show ?thesis
    by (simp add: decrypt_state_def cut_at_append [OF b64_encode_no_dot])
qed

text \<open>A line break at the end of a token changes nothing for its decoder.\<close>

lemma decrypt_append_newline:
  assumes "CHR ''.'' \<in> set state"
  shows "decrypt_state ae key (state @ [CHR 0x0A]) = decrypt_state ae key state"
proof -
  obtain a b where state: "state = a @ CHR ''.'' # b" and a: "CHR ''.'' \<notin> set a"
    using split_list_first [OF assms] by auto
  have c: "cut_at CHR ''.'' state = Some (a, b)"
    "cut_at CHR ''.'' (state @ [CHR 0x0A]) = Some (a, b @ [CHR 0x0A])"
    using cut_at_append [OF a] by (auto simp: state)
  show ?thesis unfolding decrypt_state_def c option.case prod.case b64_decode_append_newline ..
qed

lemma decrypt_has_dot: "decrypt_state ae key state = Inr p \<Longrightarrow> CHR ''.'' \<in> set state"
  by (rule ccontr) (simp add: decrypt_state_def cut_at_def)

lemma div_le_less: "0 < (k::int) \<Longrightarrow> u div k \<le> v div k \<Longrightarrow> u < v + k"
proof -
  assume k: "0 < k" and le: "u div k \<le> v div k"
  have "u = k * (u div k) + u mod k" "v = k * (v div k) + v mod k" by simp_all
  moreover have "k * (u div k) \<le> k * (v div k)" using k le by simp
  moreover have "u mod k < k" "0 \<le> v mod k" using k by simp_all
  ultimately show "u < v + k" by linarith
qed

lemma unix_mono_ttl: "unix u \<le> unix (m + state_ttl) \<Longrightarrow> m + second \<le> t \<Longrightarrow> u \<le> t + state_ttl"
  using div_le_less [of second u "m + state_ttl"] by (simp add: unix_def)

text \<open>The early part of the callback: the payload and the provider, before the store is asked.\<close>

lemma handle_callback_cases:
  assumes "sv_providers sv provider = Some inst" "verify_state_token ae now (sv_key sv) state = Inr p"
    "sp_provider p = provider"
  shows "handle_callback ae sha ip now now' sv provider code state callback =
    (case consume sha now' state (sv_used sv) of
       (False, used) \<Rightarrow> (Inl StateConsumed, sv\<lparr>sv_used := used\<rparr>)
     | (True, used) \<Rightarrow> (exchange_code ip inst code callback p, sv\<lparr>sv_used := used\<rparr>))"
  using assms by (simp add: handle_callback_def)

lemma handle_callback_ok:
  assumes "handle_callback ae sha ip now now' sv provider code state callback = (Inr c, sv')"
  obtains inst p where "sv_providers sv provider = Some inst"
    "verify_state_token ae now (sv_key sv) state = Inr p" "sp_provider p = provider"
    "consume sha now' state (sv_used sv) = (True, sv_used sv')"
    "exchange_code ip inst code callback p = Inr c" "sv' = sv\<lparr>sv_used := sv_used sv'\<rparr>"
  using assms
  by (auto simp: handle_callback_def split: option.splits sum.splits if_splits prod.splits bool.splits)

lemma verify_state_token_ok:
  "verify_state_token ae now key state = Inr p \<longleftrightarrow>
     decrypt_state ae key state = Inr p \<and> unix now \<le> sp_exp p"
  by (auto simp: verify_state_token_def split: sum.splits)

lemma exchange_code_ok:
  assumes "exchange_code ip inst code callback p = Inr c"
  obtains raw t where "ip_exchange ip inst code (sp_verifier p) callback = Some raw"
    "ip_verify ip inst raw = Some t" "it_nonce t = sp_nonce p" "decode_claims raw t = Some c"
  using assms by (auto simp: exchange_code_def split: option.splits if_splits)

subsection \<open>Properties of the flow\<close>

text \<open>A token minted for a provider is accepted until its second of expiry, ten minutes later,
  with the provider, nonce and verifier that were put into it, and expired from then on.\<close>

theorem minted_state_verifies:
  assumes "new_state_token ae sha d m key provider = Inr (state, verifier, challenge, nonce)"
    and "dr_gcm d = Some g" "length g = gcm_nonce_size"
    and "p = \<lparr>sp_provider = provider, sp_nonce = nonce, sp_verifier = verifier, sp_exp = unix (m + state_ttl)\<rparr>"
    and "ae_open ae key g (ae_seal ae key g p) = Some p"
  shows "verify_state_token ae now key state =
      (if unix now \<le> unix (m + state_ttl) then Inr p else Inl StExpired)
    \<and> challenge = s256_challenge sha verifier"
proof -
  have enc: "encrypt_state ae (Some g) key p = Inr state" and ch: "challenge = s256_challenge sha verifier"
    using assms(1) by (auto simp: new_state_token_def Let_def assms(2,4) split: option.splits sum.splits)
  show ?thesis
    using ch by (simp add: verify_state_token_def decrypt_encrypted [OF enc] assms(3,5))
      (simp add: assms(4))
qed

definition sample_payload :: state_payload where
  "sample_payload = \<lparr>sp_provider = ''gitea'', sp_nonce = ''6e'', sp_verifier = ''dg'', sp_exp = 600\<rparr>"

definition sample_aead :: aead where
  "sample_aead = \<lparr>ae_seal = \<lambda>_ _ _. ''sealed'',
     ae_open = \<lambda>_ _ c. if c = ''sealed'' then Some sample_payload else None\<rparr>"

definition sample_draws :: draws where
  "sample_draws = \<lparr>dr_verifier = Some ''v'', dr_nonce = Some ''n'', dr_gcm = Some ''123456789012''\<rparr>"

definition sample_key :: string where
  "sample_key = replicate 32 CHR ''k''"

definition sample_state :: string where
  "sample_state = b64_encode ''123456789012'' @ ''.'' @ b64_encode ''sealed''"

theorem minted_state_verifies_witness:
  "verify_state_token sample_aead (600 * second + 5) sample_key sample_state = Inr sample_payload
   \<and> s256_challenge (\<lambda>s. s) ''dg'' = s256_challenge (\<lambda>s. s) ''dg''"
proof -
  have n: "new_state_token sample_aead (\<lambda>s. s) sample_draws 7 sample_key ''gitea''
      = Inr (sample_state, ''dg'', s256_challenge (\<lambda>s. s) ''dg'', ''6e'')"
    by code_simp
  have p: "sample_payload = \<lparr>sp_provider = ''gitea'', sp_nonce = ''6e'', sp_verifier = ''dg'',
      sp_exp = unix (7 + state_ttl)\<rparr>"
    by code_simp
  show ?thesis
    using minted_state_verifies [OF n _ _ p, where now = "600 * second + 5" and g = "''123456789012''"]
    by (simp add: sample_draws_def gcm_nonce_size_def sample_aead_def unix_def state_ttl_def)
qed

text \<open>C14: 
  What a successful callback establishes: the provider is configured, the state opens to a token
  for this provider that has not expired, was not used before and is used now, the code was
  exchanged with the token's verifier, and the claims are those of an ID token that the
  provider's verifier accepted and that carries the token's nonce.
\<close>

theorem callback_sound:
  assumes "handle_callback ae sha ip now now' sv provider code state callback = (Inr c, sv')"
    and "sv_used sv = Some used"
  shows "\<exists>inst p raw t. sv_providers sv provider = Some inst
    \<and> decrypt_state ae (sv_key sv) state = Inr p \<and> unix now \<le> sp_exp p \<and> sp_provider p = provider
    \<and> used (hex_encode (sha state)) = None
    \<and> held (hex_encode (sha state)) (now' + state_ttl) (sv_used sv')
    \<and> ip_exchange ip inst code (sp_verifier p) callback = Some raw
    \<and> ip_verify ip inst raw = Some t \<and> it_nonce t = sp_nonce p
    \<and> decode_claims raw t = Some c"
proof -
  obtain inst p where i: "sv_providers sv provider = Some inst"
    "verify_state_token ae now (sv_key sv) state = Inr p" "sp_provider p = provider"
    "consume sha now' state (Some used) = (True, sv_used sv')"
    "exchange_code ip inst code callback p = Inr c"
    using handle_callback_ok [OF assms(1)] assms(2) by metis
  obtain raw t where e: "ip_exchange ip inst code (sp_verifier p) callback = Some raw"
    "ip_verify ip inst raw = Some t" "it_nonce t = sp_nonce p" "decode_claims raw t = Some c"
    by (rule exchange_code_ok [OF i(5)])
  have u: "used (hex_encode (sha state)) = None"
    using i(4) by (auto simp: consume_def Let_def split: if_splits)
  show ?thesis
    using i(1,2,3) e u consume_holds [OF i(4)] by (auto simp: verify_state_token_ok)
qed

definition sample_instance :: provider_instance where
  "sample_instance =
     \<lparr>pi_name = ''gitea'', pi_display = ''Gitea'', pi_icon = ''gitea'', pi_issuer = ''https://g'',
      pi_scopes = [''openid''], pi_end_session = [], pi_algs = None, pi_cached_keys = False\<rparr>"

definition sso_sample_token :: id_token where
  "sso_sample_token = \<lparr>it_issuer = ''https://g'', it_subject = ''42'', it_nonce = ''6e'',
     it_claims = [(''email'', JStr ''a@b.c''), (''email_verified'', JStr ''True'')]\<rparr>"

definition sample_idp :: idp where
  "sample_idp = \<lparr>ip_exchange = \<lambda>_ code v _. if code = ''code'' \<and> v = ''dg'' then Some ''jwt'' else None,
     ip_verify = \<lambda>_ raw. if raw = ''jwt'' then Some sso_sample_token else None\<rparr>"

definition sample_service :: oidc_service where
  "sample_service = \<lparr>sv_providers = [''gitea'' \<mapsto> sample_instance], sv_order = [sample_instance],
     sv_key = sample_key, sv_used = Some Map.empty\<rparr>"

definition sso_sample_claims :: sso_claims where
  "sso_sample_claims =
     \<lparr>oc_subject = ''42'', oc_issuer = ''https://g'', oc_email = ''a@b.c'', oc_email_verified = True,
      oc_preferred = [], oc_name = [], oc_id_token = ''jwt'', oc_raw = it_claims sso_sample_token\<rparr>"

lemma sample_verify:
  "verify_state_token sample_aead 3 sample_key sample_state = Inr sample_payload"
  by code_simp

lemma sample_callback:
  "handle_callback sample_aead (\<lambda>s. s) sample_idp 3 3 sample_service ''gitea'' ''code'' sample_state ''cb''
   = (Inr sso_sample_claims, sample_service\<lparr>sv_used := Some [hex_encode sample_state \<mapsto> 3 + state_ttl]\<rparr>)"
proof -
  have e: "exchange_code sample_idp sample_instance ''code'' ''cb'' sample_payload = Inr sso_sample_claims"
    by code_simp
  have v: "verify_state_token sample_aead 3 (sv_key sample_service) sample_state = Inr sample_payload"
    using sample_verify by (simp add: sample_service_def)
  have i: "sv_providers sample_service ''gitea'' = Some sample_instance" "sp_provider sample_payload = ''gitea''"
    "sv_used sample_service = Some Map.empty"
    by (simp_all add: sample_service_def sample_payload_def)
  show ?thesis
    unfolding handle_callback_cases [OF i(1) v i(2)] e i(3) by (simp add: consume_def)
qed

theorem callback_sound_witness:
  "\<exists>inst p raw t. sv_providers sample_service ''gitea'' = Some inst
    \<and> decrypt_state sample_aead (sv_key sample_service) sample_state = Inr p \<and> unix 3 \<le> sp_exp p
    \<and> sp_provider p = ''gitea'' \<and> Map.empty (hex_encode sample_state) = None
    \<and> held (hex_encode sample_state) (3 + state_ttl) (Some [hex_encode sample_state \<mapsto> 3 + state_ttl])
    \<and> ip_exchange sample_idp inst ''code'' (sp_verifier p) ''cb'' = Some raw
    \<and> ip_verify sample_idp inst raw = Some t \<and> it_nonce t = sp_nonce p
    \<and> decode_claims raw t = Some sso_sample_claims"
  using callback_sound [OF sample_callback, where used = Map.empty]
  by (simp add: sample_service_def)


lemma state_single_use_sample:
  "decrypt_state sample_aead (sv_key sample_service) sample_state = Inr sample_payload"
  by code_simp


text \<open>
  The store knows a token by its spelling and the decoder skips line breaks: with a line feed
  appended, a used token opens to the same payload, is not found in the store and reaches the
  code exchange again, for any code and any identity provider.
\<close>

theorem state_alias_replays:
  assumes "handle_callback ae sha ip now t sv provider code state callback = (Inr c, sv1)"
    and "sv_used sv1 = Some used" "used (hex_encode (sha (state @ [CHR 0x0A]))) = None"
    and "unix u \<le> unix now"
  shows "\<exists>inst p. decrypt_state ae (sv_key sv1) (state @ [CHR 0x0A]) = Inr p
    \<and> decrypt_state ae (sv_key sv1) state = Inr p
    \<and> fst (handle_callback ae sha ip' u u' sv1 provider code' (state @ [CHR 0x0A]) callback')
      = exchange_code ip' inst code' callback' p"
proof -
  obtain inst p where i: "sv_providers sv provider = Some inst"
    "verify_state_token ae now (sv_key sv) state = Inr p" "sp_provider p = provider"
    and sv1: "sv1 = sv\<lparr>sv_used := sv_used sv1\<rparr>"
    by (rule handle_callback_ok [OF assms(1)])
  have k: "sv_key sv1 = sv_key sv" "sv_providers sv1 = sv_providers sv" using sv1
    by (metis oidc_service.select_convs oidc_service.surjective oidc_service.update_convs(4))+
  have d: "decrypt_state ae (sv_key sv1) state = Inr p" "unix now \<le> sp_exp p"
    using i(2) by (simp_all add: verify_state_token_ok k)
  have a: "decrypt_state ae (sv_key sv1) (state @ [CHR 0x0A]) = Inr p"
    using d(1) decrypt_append_newline [OF decrypt_has_dot [OF d(1)]] by simp
  have v: "verify_state_token ae u (sv_key sv1) (state @ [CHR 0x0A]) = Inr p"
    unfolding verify_state_token_ok using a d(2) assms(4) by simp
  have "fst (handle_callback ae sha ip' u u' sv1 provider code' (state @ [CHR 0x0A]) callback')
      = exchange_code ip' inst code' callback' p"
    unfolding handle_callback_cases [OF i(1) [folded k(2)] v i(3)] consume_def assms(2)
      option.case Let_def assms(3) by simp
  with a d(1) show ?thesis by blast
qed

theorem state_alias_replays_witness:
  "\<exists>inst p. decrypt_state sample_aead sample_key (sample_state @ [CHR 0x0A]) = Inr p
    \<and> decrypt_state sample_aead sample_key sample_state = Inr p
    \<and> fst (handle_callback sample_aead (\<lambda>s. s) sample_idp 3 3
        (sample_service\<lparr>sv_used := Some [hex_encode sample_state \<mapsto> 3 + state_ttl]\<rparr>)
        ''gitea'' ''code'' (sample_state @ [CHR 0x0A]) ''cb'')
      = exchange_code sample_idp inst ''code'' ''cb'' p"
proof -
  have n: "[hex_encode sample_state \<mapsto> 3 + state_ttl] (hex_encode (sample_state @ [CHR 0x0A])) = None"
    by code_simp
  have k: "sv_key (sample_service\<lparr>sv_used := used\<rparr>) = sample_key" for used
    by (simp add: sample_service_def)
  show ?thesis
    using state_alias_replays [where used = "[hex_encode sample_state \<mapsto> 3 + state_ttl]" and sha = "\<lambda>s. s",
        OF sample_callback _ n, unfolded k, of 3]
    by simp
qed

text \<open>A nonce part that is not 12 bytes long makes the decryption panic instead of failing.\<close>

theorem bad_nonce_length_panics:
  assumes "length nonce \<noteq> gcm_nonce_size" "new_gcm key"
  shows "verify_state_token ae now key (b64_encode nonce @ ''.'' @ b64_encode ct) = Inl StPanic"
  using assms
  by (simp add: verify_state_token_def decrypt_state_def cut_at_append [OF b64_encode_no_dot])

theorem bad_nonce_length_panics_witness:
  "verify_state_token sample_aead 0 sample_key ''AA.AA'' = Inl StPanic"
proof -
  have "b64_encode [CHR 0x00] = ''AA''" by code_simp
  then show ?thesis
    using bad_nonce_length_panics [of "[CHR 0x00]" sample_key sample_aead 0 "[CHR 0x00]"]
    by (simp add: gcm_nonce_size_def new_gcm_def sample_key_def)
qed

text \<open>
  The expiry of a token is a whole second and that of its mark is not: a token used in the
  second of its minting is swept while it is still accepted, and then used again.
\<close>

theorem swept_state_is_accepted_again:
  "let sv1 = snd (handle_callback sample_aead (\<lambda>s. s) sample_idp 1 1 sample_service
         ''gitea'' ''code'' sample_state ''cb'');
       sv2 = sv1\<lparr>sv_used := sweep (600 * second + 2) (sv_used sv1)\<rparr>
   in fst (handle_callback sample_aead (\<lambda>s. s) sample_idp (600 * second + 3) (600 * second + 3) sv2
         ''gitea'' ''code'' sample_state ''cb'') = Inr sso_sample_claims"
proof -
  have v: "verify_state_token sample_aead t (sv_key sv) sample_state = Inr sample_payload"
    if "sv_key sv = sample_key" "unix t \<le> 600" for t sv
  proof -
    have "decrypt_state sample_aead sample_key sample_state = Inr sample_payload" by code_simp
    then show ?thesis using that by (simp add: verify_state_token_ok sample_payload_def)
  qed
  have e: "exchange_code sample_idp sample_instance ''code'' ''cb'' sample_payload = Inr sso_sample_claims"
    by code_simp
  have p: "sp_provider sample_payload = ''gitea''" by (simp add: sample_payload_def)
  have u: "unix 1 \<le> 600" "unix (600 * second + 3) \<le> 600" by code_simp+
  have sv: "sv_providers sample_service ''gitea'' = Some sample_instance" "sv_key sample_service = sample_key"
    "sv_used sample_service = Some Map.empty"
    by (simp_all add: sample_service_def)
  have first: "handle_callback sample_aead (\<lambda>s. s) sample_idp 1 1 sample_service ''gitea'' ''code'' sample_state ''cb''
      = (Inr sso_sample_claims, sample_service\<lparr>sv_used := Some [hex_encode sample_state \<mapsto> 1 + state_ttl]\<rparr>)"
    unfolding handle_callback_cases [OF sv(1) v [OF sv(2) u(1)] p] e sv(3) by (simp add: consume_def)
  have sw: "sweep (600 * second + 2) (Some [hex_encode sample_state \<mapsto> 1 + state_ttl]) = Some Map.empty"
    by (simp add: sweep_def state_ttl_def fun_eq_iff)
  let ?sv2 = "sample_service\<lparr>sv_used := Some Map.empty\<rparr>"
  have sv2: "sv_providers ?sv2 ''gitea'' = Some sample_instance" "sv_key ?sv2 = sample_key"
    "sv_used ?sv2 = Some Map.empty"
    by (simp_all add: sample_service_def)
  have again: "fst (handle_callback sample_aead (\<lambda>s. s) sample_idp (600 * second + 3) (600 * second + 3) ?sv2
      ''gitea'' ''code'' sample_state ''cb'') = Inr sso_sample_claims"
    unfolding handle_callback_cases [OF sv2(1) v [OF sv2(2) u(2)] p] e sv2(3) by (simp add: consume_def)
  have sv1: "sample_service\<lparr>sv_used := x\<rparr>\<lparr>sv_used := y\<rparr> = sample_service\<lparr>sv_used := y\<rparr>" for x y by simp
  show ?thesis
    unfolding first Let_def snd_conv oidc_service.select_convs(4) sv1
    using again sw by simp
qed

subsection \<open>Scopes, algorithms and keys\<close>

lemma normalize_scopes_loop_spec:
  "distinct (normalize_scopes_loop seen ss)"
  "set (normalize_scopes_loop seen ss) = set ss - set seen - {[], ''openid''}"
  "subseq (normalize_scopes_loop seen ss) ss"
proof -
  show s: "set (normalize_scopes_loop seen ss) = set ss - set seen - {[], ''openid''}" for seen
    by (induction ss arbitrary: seen) auto
  show "distinct (normalize_scopes_loop seen ss)"
  proof (induction ss arbitrary: seen)
    case (Cons a ss)
    have "set (normalize_scopes_loop (a # seen) ss) = set ss - set (a # seen) - {[], ''openid''}"
      by (induction ss arbitrary: seen a) auto
    with Cons show ?case by simp
  qed simp
  show "subseq (normalize_scopes_loop seen ss) ss"
    by (induction ss arbitrary: seen) (auto intro: subseq_Cons')
qed

text \<open>The requested scopes: \<^verbatim>\<open>openid\<close> first, then the others once each in their order.\<close>

theorem default_scopes_exact:
  "\<exists>rest src. default_scopes_for name own fallback = ''openid'' # rest
    \<and> distinct (''openid'' # rest) \<and> subseq rest src \<and> set rest = set src - {[], ''openid''}
    \<and> src = (if own \<noteq> [] then own else case lookup_preset name of Some p \<Rightarrow> ps_scopes p | None \<Rightarrow> fallback)"
proof -
  have "ps_scopes p \<noteq> []" if "lookup_preset name = Some p" for p
  proof -
    have "\<forall>(n, q)\<in>set presets. ps_scopes q \<noteq> []" by (simp add: presets_def standard_scopes_def)
    then show ?thesis using map_of_SomeD [OF that [unfolded lookup_preset_def]] by auto
  qed
  then show ?thesis
    using normalize_scopes_loop_spec [of "[]"]
    by (auto simp: default_scopes_for_def normalize_scopes_def split: option.splits)
qed

text \<open>The verifier never accepts an algorithm outside the list, and never an empty list.\<close>

lemma supported_alg_iff: "supported_alg a \<longleftrightarrow> a \<in> set oidc_sig_algs"
  by (auto simp: supported_alg_def list_ex_iff)

lemma verifier_algs_accepted:
  "verifier_supported_algs adv = Some algs \<Longrightarrow> algs \<noteq> [] \<and> set algs \<subseteq> set oidc_sig_algs"
  by (auto simp: verifier_supported_algs_def Let_def supported_alg_iff oidc_sig_algs_def split: if_splits)

lemma decode_keys_sound:
  "decode_keys rs = Some ks \<Longrightarrow> k \<in> set ks \<Longrightarrow>
    jw_public k \<and> (\<exists>r\<in>set rs. rk_jwk r = Some k \<and> (rk_alg r = [] \<or> supported_alg (rk_alg r)))"
  by (induction rs arbitrary: ks) (auto split: if_splits option.splits)

lemma verify_with_Some:
  "verify_with check kid ks = Some p \<Longrightarrow>
    \<exists>k\<in>set ks. (kid = [] \<or> jw_kid k = kid) \<and> check (jw_key k) = Some p"
  by (induction ks) (auto split: if_splits option.splits)

definition published :: "'k raw_key list \<Rightarrow> 'k jwk \<Rightarrow> bool" where
  "published doc k \<longleftrightarrow> jw_public k
     \<and> list_ex (\<lambda>r. rk_jwk r = Some k \<and> (rk_alg r = [] \<or> supported_alg (rk_alg r))) doc"

lemma do_fetch_keys:
  "snd (do_fetch doc keys) = keys \<or> (\<exists>raw ks. doc = Some raw \<and> decode_keys raw = Some ks \<and> snd (do_fetch doc keys) = ks)"
  by (auto simp: do_fetch_def split: option.splits)

fun way_doc :: "'k refresh_way \<Rightarrow> 'k raw_key list option" where
  "way_doc (OwnFetch d) = d"
| "way_doc (JoinFetch d) = d"

lemma refresh_keys_keys: "snd (refresh_keys way keys) = snd (do_fetch (way_doc way) keys)"
  by (cases way) (simp_all add: refresh_keys_def)

text \<open>
  A signature is accepted only under a key that was cached or is published by the fetched
  document (public, of a supported algorithm), with the key id of the token when it has one;
  a key that verifies from the cache does so without a fetch, and a failed fetch keeps the keys.
\<close>

theorem verify_signature_sound:
  "(case verify_signature parsed check way keys of
      (Inr p, keys') \<Rightarrow>
        (\<exists>kid k. parsed = Some [kid] \<and> (kid = [] \<or> jw_kid k = kid) \<and> check (jw_key k) = Some p
           \<and> k \<in> set keys'
           \<and> (k \<in> set keys \<or> (\<exists>doc. way_doc way = Some doc \<and> published doc k)))
    | (Inl e, keys') \<Rightarrow> keys' = keys \<or> (\<exists>doc. way_doc way = Some doc \<and> decode_keys doc = Some keys'))"
proof -
  have pub: "k \<in> set keys \<or> (\<exists>doc. way_doc way = Some doc \<and> published doc k)"
    if "k \<in> set (snd (refresh_keys way keys))" for k
    using that do_fetch_keys [of "way_doc way" keys] decode_keys_sound
    by (fastforce simp: refresh_keys_keys published_def list_ex_iff)
  have fk: "snd (refresh_keys way keys) = keys
      \<or> (\<exists>doc. way_doc way = Some doc \<and> decode_keys doc = Some (snd (refresh_keys way keys)))"
    using do_fetch_keys [of "way_doc way" keys] by (auto simp: refresh_keys_keys)
  obtain b keys2 where r: "refresh_keys way keys = (b, keys2)" by (cases "refresh_keys way keys")
  show ?thesis
    using pub fk verify_with_Some [of check _ keys] verify_with_Some [of check _ keys2]
    by (auto simp: verify_signature_def r split: option.splits list.splits bool.splits) blast+
qed

text \<open>The lookup table and the ordered list of providers name the same instances.\<close>

lemma add_provider_sync:
  "dom (sv_providers sv) = pi_name ` set (sv_order sv) \<Longrightarrow>
    dom (sv_providers (add_provider i sv)) = pi_name ` set (sv_order (add_provider i sv))"
  by (auto simp: add_provider_def)

lemma new_service_sync:
  "dom (sv_providers (new_service disc en pcs gs key)) = pi_name ` set (sv_order (new_service disc en pcs gs key))"
proof -
  have "dom (sv_providers (fold (\<lambda>pc sv. case discover (disc pc) pc gs of None \<Rightarrow> sv | Some i \<Rightarrow> add_provider i sv) pcs sv))
      = pi_name ` set (sv_order (fold (\<lambda>pc sv. case discover (disc pc) pc gs of None \<Rightarrow> sv | Some i \<Rightarrow> add_provider i sv) pcs sv))"
    if "dom (sv_providers sv) = pi_name ` set (sv_order sv)" for sv
    using that by (induction pcs arbitrary: sv) (auto simp: add_provider_sync split: option.splits)
  then show ?thesis by (simp add: new_service_def disabled_service_def)
qed

lemma service_enabled_iff:
  "service_enabled (new_service disc en pcs gs key) \<longleftrightarrow> sv_providers (new_service disc en pcs gs key) \<noteq> Map.empty"
  using new_service_sync [of disc en pcs gs key] by (auto simp: service_enabled_def)

end
