(* ===== verification/SsoLaws.thy ===== *)
theory SsoLaws
  imports Sso AccountLaws OidcLaws
begin

section \<open>What single sign-on promises\<close>

text \<open>
  Who gets a session and for which account, what a sign-on may change in the database, that the
  last enabled administrator stays, that a derived user name is valid, and that a logout ends
  the session it is made in.
\<close>

subsection \<open>Derived names\<close>

definition user_char :: "char \<Rightarrow> bool" where
  "user_char c \<longleftrightarrow> is_alnum c \<or> c \<in> {CHR ''.'', CHR ''_'', CHR ''-''}"

lemma hex_encode_name: "c \<in> set (hex_encode s) \<Longrightarrow> user_char c"
proof -
  have h: "is_alnum (hex_digit n)" if "n < 16" for n
    using that by (auto simp: hex_digit_def is_alnum_def is_digit_def is_lower_def)
  assume "c \<in> set (hex_encode s)"
  then obtain d where "c = hex_digit (ord d div 16) \<or> c = hex_digit (ord d mod 16)"
    by (auto simp: hex_encode_def)
  moreover have "ord d div 16 < 16" using ord_lt [of d] by (simp add: less_mult_imp_div_less)
  ultimately show "user_char c" using h by (auto simp: user_char_def)
qed

lemma username_regex_name:
  "username_regex s \<longleftrightarrow> 3 \<le> length s \<and> length s \<le> 32 \<and> (is_upper (hd s) \<or> is_lower (hd s)) \<and> list_all user_char (tl s)"
  by (auto simp: username_regex_def user_char_def list_all_iff)

text \<open>Whatever the provider sends, the user name derived from it satisfies the validator.\<close>

theorem derived_username_valid:
  "validate_username (derive_sso_username sha preferred subject) = None"
proof -
  let ?h = "short_hash sha subject"
  have "set ?h \<subseteq> set (hex_encode (sha subject))" by (simp add: short_hash_def set_take_subset)
  moreover have "user_char CHR ''s''" "user_char CHR ''o''" "user_char CHR ''-''" by code_simp+
  ultimately have "list_all user_char (tl (''sso-'' @ ?h))"
    using hex_encode_name by (auto simp: list_all_iff)
  moreover have "length ?h \<le> 12" by (simp add: short_hash_def)
  ultimately have "username_regex (''sso-'' @ ?h)"
    by (simp add: username_regex_name is_lower_def is_upper_def ord_def)
  then have "validate_username (''sso-'' @ ?h) = None" by (simp add: validate_username_def)
  then show ?thesis by (simp add: derive_sso_username_def Let_def)
qed

subsection \<open>The contents of a sign-on\<close>

text \<open>The accounts are as before, up to the logs, or one has a new role.\<close>

definition kept :: "account_db \<Rightarrow> account_db \<Rightarrow> bool" where
  "kept d d' \<longleftrightarrow> adb_users d' = adb_users d \<and> adb_next_user d' = adb_next_user d"

definition role_set :: "int \<Rightarrow> string \<Rightarrow> account_db \<Rightarrow> account_db \<Rightarrow> bool" where
  "role_set uid role d d' \<longleftrightarrow> adb_users d' = adb_users (set_user_role uid role d)
     \<and> adb_next_user d' = adb_next_user d"

lemma kept_refl [simp]: "kept d d"
  by (simp add: kept_def)

lemma kept_log: "add_log fails now who act det d = Some d' \<Longrightarrow> kept d d'"
  by (auto simp: add_log_def kept_def split: if_splits)

lemma kept_log_try [simp]: "kept d (add_log_try fails now who act det d)"
  by (auto simp: add_log_try_def dest: kept_log split: option.split)

lemma kept_find: "kept d d' \<Longrightarrow> find_account uid d' = find_account uid d"
  by (simp add: kept_def find_account_def)

lemma kept_cores: "kept d d' \<Longrightarrow> cores d' = cores d"
  by (simp add: kept_def cores_def)

lemma kept_locked: "kept d d' \<Longrightarrow> manually_locked now uid d' = manually_locked now uid d"
  by (simp add: manually_locked_def kept_find)

lemma sync_groups_loop_frame:
  "sync_groups_loop fl mapping uid seen vs db = Some db' \<Longrightarrow>
    sd_accounts db' = sd_accounts db \<and> sd_links db' = sd_links db \<and> sd_groups db' = sd_groups db
    \<and> sd_hints db' = sd_hints db \<and> sd_members db \<subseteq> sd_members db'
    \<and> sd_members db' \<subseteq> sd_members db \<union> {(gid, uid) | gid. \<exists>v\<in>set vs. \<exists>name. mapping v = Some name \<and> sd_groups db name = Some gid}"
proof (induction vs arbitrary: seen db)
  case (Cons v vs)
  show ?case
  proof (cases "mapping v")
    case None
    then show ?thesis using Cons.IH [of seen db] Cons.prems by (auto; blast)
  next
    case (Some name)
    show ?thesis
    proof (cases "name \<in> set seen \<or> (\<forall>gid. sd_groups db name = Some gid \<longrightarrow> gid = 0)")
      case True
      then obtain seen' where "sync_groups_loop fl mapping uid seen' vs db = Some db'"
        using Cons.prems Some by (auto split: if_splits option.splits)
      from Cons.IH [OF this] show ?thesis by (auto; blast)
    next
      case False
      then obtain gid where g: "sd_groups db name = Some gid" "name \<notin> set seen" "gid \<noteq> 0" by auto
      have "sync_groups_loop fl mapping uid (name # seen) vs (db\<lparr>sd_members := insert (gid, uid) (sd_members db)\<rparr>) = Some db'"
        using Cons.prems Some g by (simp split: if_splits)
      from Cons.IH [OF this] show ?thesis using Some g(1) by (auto; blast)
    qed
  qed
qed simp

lemma sync_groups_frame:
  "sync_groups fl cfg uid cl db = Inr db' \<Longrightarrow>
    sd_accounts db' = sd_accounts db \<and> sd_links db' = sd_links db \<and> sd_hints db' = sd_hints db"
  by (auto simp: sync_groups_def Let_def split: if_splits option.splits dest: sync_groups_loop_frame)

lemma link_external_identity_ok:
  assumes "link_external_identity fl uid issuer subject db = Inr db'" "sd_links db (issuer, subject) = None"
  shows "db' = db\<lparr>sd_links := (sd_links db)((issuer, subject) \<mapsto> uid)\<rparr>"
  using assms by (auto simp: link_external_identity_def split: if_splits)

lemma link_identity_ok:
  assumes "link_identity fl now uid issuer subject db = Inr db'" "sd_links db (issuer, subject) = None"
  shows "sd_links db' = (sd_links db)((issuer, subject) \<mapsto> uid) \<and> kept (sd_accounts db) (sd_accounts db')"
  using assms link_external_identity_ok [of fl uid issuer subject db]
  by (fastforce simp: link_identity_def split: if_splits sum.splits option.splits dest: kept_log)

lemma apply_sso_role_ok:
  assumes "apply_sso_role fl now user desired db = Inr db'"
  shows "sd_links db' = sd_links db \<and> (kept (sd_accounts db) (sd_accounts db')
    \<or> role_set (ac_id user) desired (sd_accounts db) (sd_accounts db')
      \<and> \<not> (ac_role user = ''admin'' \<and> desired \<noteq> ''admin'' \<and> is_last_enabled_admin (ac_id user) (sd_accounts db)))"
proof -
  have "role_set (ac_id user) desired (sd_accounts db) acc"
    if "add_log f now who act det (set_user_role (ac_id user) desired (sd_accounts db)) = Some acc" for f who act det acc
    using kept_log [OF that] by (simp add: kept_def role_set_def set_user_role_def update_account_def)
  then show ?thesis
    using assms by (auto simp: apply_sso_role_def Let_def split: if_splits option.splits)
qed

text \<open>The accounts after a sign-on that resolved to the account \<open>user\<close> of a database.\<close>

definition synced :: "sso_config \<Rightarrow> sso_claims \<Rightarrow> account \<Rightarrow> account_db \<Rightarrow> account_db \<Rightarrow> bool" where
  "synced cfg cl user d d' \<longleftrightarrow> kept d d'
     \<or> so_role_claim cfg \<noteq> [] \<and> role_set (ac_id user) (desired_role cfg cl) d d'
       \<and> \<not> (ac_role user = ''admin'' \<and> desired_role cfg cl \<noteq> ''admin'' \<and> is_last_enabled_admin (ac_id user) d)"

lemma sync_sso_attributes_ok:
  assumes "sync_sso_attributes fl cfg now user cl db = (r, db')"
  shows "sd_links db' = sd_links db \<and> synced cfg cl user (sd_accounts db) (sd_accounts db')
    \<and> (\<forall>u. r = Inr u \<longrightarrow> u = user \<or> u = user\<lparr>ac_role := desired_role cfg cl\<rparr>)"
proof -
  let ?ch = "so_role_claim cfg \<noteq> [] \<and> desired_role cfg cl \<noteq> ac_role user"
  let ?step = "if ?ch then apply_sso_role fl now user (desired_role cfg cl) db else Inr db"
  let ?user1 = "if ?ch then user\<lparr>ac_role := desired_role cfg cl\<rparr> else user"
  show ?thesis
  proof (cases ?step)
    case (Inl e)
    then have "db' = db" "r = Inl e" using assms by (simp_all add: sync_sso_attributes_def Let_def)
    then show ?thesis by (simp add: synced_def)
  next
    case (Inr db1)
    have s: "sd_links db1 = sd_links db \<and> synced cfg cl user (sd_accounts db) (sd_accounts db1)"
    proof (cases ?ch)
      case True
      then show ?thesis using apply_sso_role_ok [of fl now user "desired_role cfg cl" db db1] Inr
        by (auto simp: synced_def)
    next
      case False
      then have "db1 = db" using Inr by (auto split: if_splits)
      then show ?thesis by (simp add: synced_def)
    qed
    have "(r, db') = (Inr ?user1, db1) \<or>
        (\<exists>e. (r, db') = (Inl e, db1)) \<or> (\<exists>db2. sync_groups fl cfg (ac_id user) cl db1 = Inr db2 \<and> (r, db') = (Inr ?user1, db2))"
      using assms unfolding sync_sso_attributes_def Let_def Inr
      by (auto split: if_splits sum.splits)
    then show ?thesis using s sync_groups_frame [of fl cfg "ac_id user" cl db1 db'] by auto
  qed
qed

lemma kept_last:
  assumes "kept d d'"
  shows "is_last_enabled_admin uid d' = is_last_enabled_admin uid d"
proof -
  have "count_enabled_admins d' = count_enabled_admins d" using assms by (simp add: kept_def count_enabled_admins_def)
  with kept_find [OF assms] show ?thesis
    by (cases "find_account uid d") (simp_all add: is_last_enabled_admin_def)
qed

lemma synced_kept:
  assumes "kept d d1" "synced cfg cl user d1 d'"
  shows "synced cfg cl user d d'"
  using assms kept_last [OF assms(1)]
  by (auto simp: synced_def kept_def role_set_def set_user_role_def update_account_def)

text \<open>Every link belongs to an account, as the foreign key of the table has it.\<close>

definition links_ok :: "sso_db \<Rightarrow> bool" where
  "links_ok db \<longleftrightarrow> (\<forall>k uid. sd_links db k = Some uid \<longrightarrow> find_account uid (sd_accounts db) \<noteq> None)"

lemma find_identity_None:
  "links_ok db \<Longrightarrow> find_user_by_external_identity issuer subject db = None \<longleftrightarrow> sd_links db (issuer, subject) = None"
  by (auto simp: find_user_by_external_identity_def links_ok_def split: option.splits)

lemma find_identity_Some:
  "find_user_by_external_identity issuer subject db = Some a \<longleftrightarrow>
    (\<exists>uid. sd_links db (issuer, subject) = Some uid \<and> find_account uid (sd_accounts db) = Some a)"
  by (auto simp: find_user_by_external_identity_def split: option.splits)

text \<open>The three ways an identity resolves, with what each changes.\<close>

definition linked_way :: "sso_config \<Rightarrow> sso_claims \<Rightarrow> sso_db \<Rightarrow> sso_db \<Rightarrow> account \<Rightarrow> bool" where
  "linked_way cfg cl db db' a \<longleftrightarrow> find_user_by_external_identity (oc_issuer cl) (oc_subject cl) db = Some a
     \<and> sd_links db' = sd_links db \<and> synced cfg cl a (sd_accounts db) (sd_accounts db')"

definition email_way :: "sso_config \<Rightarrow> sso_claims \<Rightarrow> sso_db \<Rightarrow> sso_db \<Rightarrow> account \<Rightarrow> bool" where
  "email_way cfg cl db db' a \<longleftrightarrow> sd_links db (oc_issuer cl, oc_subject cl) = None
     \<and> email_link_allowed cfg cl \<and> find_user_by_email (oc_email cl) db = Some a
     \<and> sd_links db' = (sd_links db)((oc_issuer cl, oc_subject cl) \<mapsto> ac_id a)
     \<and> synced cfg cl a (sd_accounts db) (sd_accounts db')"

definition provision_way ::
  "(string \<Rightarrow> string) \<Rightarrow> string \<Rightarrow> sso_config \<Rightarrow> time \<Rightarrow> sso_claims \<Rightarrow> sso_db \<Rightarrow> sso_db \<Rightarrow> account \<Rightarrow> bool" where
  "provision_way sha rnd cfg now cl db db' a \<longleftrightarrow> sd_links db (oc_issuer cl, oc_subject cl) = None
     \<and> so_auto_provision cfg \<and> sso_email_allowed cfg (oc_email cl)
     \<and> (\<exists>email first_name last_name acc.
          insert_account (external_account now (hex_encode rnd)
            (derive_sso_username sha (oc_preferred cl) (oc_subject cl)) email first_name last_name (desired_role cfg cl))
            (sd_accounts db) = Some (ac_id a, acc)
          \<and> a = (external_account now (hex_encode rnd)
            (derive_sso_username sha (oc_preferred cl) (oc_subject cl)) email first_name last_name (desired_role cfg cl))
              \<lparr>ac_id := ac_id a\<rparr>
          \<and> kept acc (sd_accounts db'))
     \<and> sd_links db' = (sd_links db)((oc_issuer cl, oc_subject cl) \<mapsto> ac_id a)"

lemma create_external_user_ok:
  assumes "create_external_user fl rnd now username email fn ln role issuer subject db = Inr (a, db')"
    and "sd_links db (issuer, subject) = None"
  shows "\<exists>acc. insert_account (external_account now (hex_encode rnd) username email fn ln role) (sd_accounts db)
        = Some (ac_id a, acc)
      \<and> a = (external_account now (hex_encode rnd) username email fn ln role)\<lparr>ac_id := ac_id a\<rparr>
      \<and> kept acc (sd_accounts db') \<and> sd_links db' = (sd_links db)((issuer, subject) \<mapsto> ac_id a)"
proof -
  let ?a = "external_account now (hex_encode rnd) username email fn ln role"
  obtain uid acc where i: "insert_account ?a (sd_accounts db) = Some (uid, acc)"
    using assms(1) by (auto simp: create_external_user_def Let_def split: if_splits option.splits)
  obtain db1 where l: "link_external_identity fl uid issuer subject (db\<lparr>sd_accounts := acc\<rparr>) = Inr db1"
    using assms(1) i by (auto simp: create_external_user_def Let_def split: if_splits sum.splits)
  obtain f act det who acc2 where g: "add_log f now who act det (sd_accounts db1) = Some acc2"
    and r: "a = ?a\<lparr>ac_id := uid\<rparr>" "db' = db1\<lparr>sd_accounts := acc2\<rparr>"
    using assms(1) i l by (auto simp: create_external_user_def Let_def split: if_splits option.splits)
  have "db1 = db\<lparr>sd_accounts := acc, sd_links := (sd_links db)((issuer, subject) \<mapsto> uid)\<rparr>"
    using link_external_identity_ok [OF l] assms(2) by simp
  then show ?thesis using i r kept_log [OF g] by simp
qed

lemma provision_user_ok:
  assumes "provision_user sha fl rnd cfg now cl db = (Inr a, db')"
    and "sd_links db (oc_issuer cl, oc_subject cl) = None"
  shows "provision_way sha rnd cfg now cl db db' a"
proof -
  obtain fn ln where n: "split_name (oc_name cl) = (fn, ln)" by (cases "split_name (oc_name cl)")
  let ?email = "if oc_email cl = [] then ''sso+'' @ short_hash sha (oc_issuer cl @ oc_subject cl) @ ''@gozone.local''
    else oc_email cl"
  let ?create = "create_external_user fl rnd now (derive_sso_username sha (oc_preferred cl) (oc_subject cl)) ?email fn ln
    (desired_role cfg cl) (oc_issuer cl) (oc_subject cl) db"
  have g: "so_auto_provision cfg" "sso_email_allowed cfg (oc_email cl)"
    using assms(1) by (auto simp: provision_user_def split: if_splits)
  have e: "(Inr a, db') = (case ?create of Inl e \<Rightarrow> (Inl e, db)
      | Inr (user, db1) \<Rightarrow> if so_group_claim cfg = [] then (Inr user, db1)
          else (case sync_groups fl cfg (ac_id user) cl db1 of Inl e \<Rightarrow> (Inl e, db1) | Inr db2 \<Rightarrow> (Inr user, db2)))"
    using assms(1) g by (simp add: provision_user_def Let_def n)
  then obtain db1 where c: "?create = Inr (a, db1)"
    and "db' = db1 \<or> sync_groups fl cfg (ac_id a) cl db1 = Inr db'"
    by (simp split: sum.splits if_splits prod.splits)
  then have s: "sd_accounts db' = sd_accounts db1" "sd_links db' = sd_links db1"
    using sync_groups_frame [of fl cfg "ac_id a" cl db1 db'] by auto
  show ?thesis
    using create_external_user_ok [OF c assms(2)] g assms(2) unfolding provision_way_def s by blast
qed

text \<open>A provisioning that does not succeed leaves the links alone or is complete but for its groups.\<close>

lemma provision_user_frame:
  assumes "provision_user sha fl rnd cfg now cl db = (r, db')" "sd_links db (oc_issuer cl, oc_subject cl) = None"
  shows "db' = db \<or> (\<exists>a. provision_way sha rnd cfg now cl db db' a)"
proof -
  obtain fn ln where n: "split_name (oc_name cl) = (fn, ln)" by (cases "split_name (oc_name cl)")
  let ?email = "if oc_email cl = [] then ''sso+'' @ short_hash sha (oc_issuer cl @ oc_subject cl) @ ''@gozone.local''
    else oc_email cl"
  let ?create = "create_external_user fl rnd now (derive_sso_username sha (oc_preferred cl) (oc_subject cl)) ?email fn ln
    (desired_role cfg cl) (oc_issuer cl) (oc_subject cl) db"
  have p: "provision_user sha fl rnd cfg now cl db =
      (if \<not> so_auto_provision cfg then (Inl SsoNoAccount, db)
       else if \<not> sso_email_allowed cfg (oc_email cl) then (Inl SsoDomainRefused, db)
       else case ?create of Inl e \<Rightarrow> (Inl e, db)
      | Inr (user, db1) \<Rightarrow> if so_group_claim cfg = [] then (Inr user, db1)
          else (case sync_groups fl cfg (ac_id user) cl db1 of Inl e \<Rightarrow> (Inl e, db1) | Inr db2 \<Rightarrow> (Inr user, db2)))"
    by (simp add: provision_user_def Let_def n)
  show ?thesis
  proof (cases r)
    case (Inr a)
    then show ?thesis using provision_user_ok assms by blast
  next
    case (Inl e)
    show ?thesis
    proof (cases "db' = db")
      case False
      then have g: "so_auto_provision cfg" "sso_email_allowed cfg (oc_email cl)"
        using assms(1) unfolding p by (auto split: if_splits)
      then obtain a where "?create = Inr (a, db')"
        using assms(1) False Inl unfolding p by (simp split: sum.splits if_splits prod.splits)
      from create_external_user_ok [OF this assms(2)] show ?thesis
        using g assms(2) unfolding provision_way_def by blast
    qed simp
  qed
qed

lemma email_step:
  assumes "sd_links db (oc_issuer cl, oc_subject cl) = None" "email_link_allowed cfg cl"
    and "find_user_by_email (oc_email cl) db = Some a"
    and "link_identity fl now (ac_id a) (oc_issuer cl) (oc_subject cl) db = Inr db1"
    and "sync_sso_attributes fl cfg now a cl db1 = (r, db')"
  shows "email_way cfg cl db db' a"
  using link_identity_ok [OF assms(4,1)] sync_sso_attributes_ok [OF assms(5)] assms(1-3) synced_kept
  by (auto simp: email_way_def)

text \<open>Whatever the result, the database changes in one of the three ways; a success resolves to
  the account of that way, with its role before or after.\<close>

lemma resolve_sso_user_cases:
  assumes "resolve_sso_user sha fl rnd cfg now cl db = (r, db')" "links_ok db"
  shows "(db' = db \<and> (\<exists>e. r = Inl e)) \<or>
    (\<exists>a. (linked_way cfg cl db db' a \<or> email_way cfg cl db db' a \<or> provision_way sha rnd cfg now cl db db' a)
      \<and> (\<forall>u. r = Inr u \<longrightarrow> u = a \<or> u = a\<lparr>ac_role := desired_role cfg cl\<rparr>))"
proof (cases "find_user_by_external_identity (oc_issuer cl) (oc_subject cl) db")
  case (Some a)
  then have "(db' = db \<and> (\<exists>e. r = Inl e)) \<or> sync_sso_attributes fl cfg now a cl db = (r, db')"
    using assms(1) by (auto simp: resolve_sso_user_def split: if_splits)
  then show ?thesis using Some sync_sso_attributes_ok [of fl cfg now a cl db r db']
    by (auto simp: linked_way_def)
next
  case None
  then have l: "sd_links db (oc_issuer cl, oc_subject cl) = None"
    using find_identity_None [OF assms(2)] by blast
  have "(db' = db \<and> (\<exists>e. r = Inl e)) \<or> provision_user sha fl rnd cfg now cl db = (r, db')
      \<or> (\<exists>a db1. email_link_allowed cfg cl \<and> find_user_by_email (oc_email cl) db = Some a
          \<and> link_identity fl now (ac_id a) (oc_issuer cl) (oc_subject cl) db = Inr db1
          \<and> sync_sso_attributes fl cfg now a cl db1 = (r, db'))"
    using assms(1) None by (auto simp: resolve_sso_user_def split: if_splits option.splits sum.splits)
  then consider "db' = db \<and> (\<exists>e. r = Inl e)" | "provision_user sha fl rnd cfg now cl db = (r, db')"
    | a db1 where "email_link_allowed cfg cl" "find_user_by_email (oc_email cl) db = Some a"
        "link_identity fl now (ac_id a) (oc_issuer cl) (oc_subject cl) db = Inr db1"
        "sync_sso_attributes fl cfg now a cl db1 = (r, db')"
    by blast
  then show ?thesis
  proof cases
    case 2
    show ?thesis
    proof (cases r)
      case (Inr u)
      with 2 provision_user_ok [OF _ l] show ?thesis by blast
    next
      case (Inl e)
      with provision_user_frame [OF 2 l] show ?thesis by blast
    qed
  next
    case 3
    from email_step [OF l 3] sync_sso_attributes_ok [OF 3(4)] show ?thesis by blast
  qed blast
qed

subsection \<open>Accounts after a sign-on\<close>

lemma find_role_set:
  "role_set uid role d d' \<Longrightarrow>
    find_account i d' = map_option (\<lambda>a. if ac_id a = uid then a\<lparr>ac_role := role\<rparr> else a) (find_account i d)"
proof -
  have "find (\<lambda>a. ac_id a = i) (map (\<lambda>a. if ac_id a = uid then a\<lparr>ac_role := role\<rparr> else a) us)
      = map_option (\<lambda>a. if ac_id a = uid then a\<lparr>ac_role := role\<rparr> else a) (find (\<lambda>a. ac_id a = i) us)" for us
    by (induction us) auto
  then show "role_set uid role d d' \<Longrightarrow> ?thesis"
    by (simp add: role_set_def find_account_def set_user_role_def update_account_def)
qed

lemma synced_find:
  assumes "synced cfg cl user d d'" "find_account i d = Some a"
  shows "\<exists>b. find_account i d' = Some b \<and> (b = a \<or> b = a\<lparr>ac_role := desired_role cfg cl\<rparr>
    \<and> ac_id a = ac_id user \<and> so_role_claim cfg \<noteq> [])"
  using assms kept_find find_role_set by (fastforce simp: synced_def)

lemma insert_account_ok:
  assumes "insert_account a d = Some (uid, d')"
  shows "uid = adb_next_user d" "adb_users d' = adb_users d @ [a\<lparr>ac_id := uid\<rparr>]"
    "adb_next_user d' = adb_next_user d + 1"
  using assms by (auto simp: insert_account_def split: if_splits)

lemma fresh_find: "accounts_ok d \<Longrightarrow> find_account (adb_next_user d) d = None"
  by (force simp: accounts_ok_def find_account_def find_None_iff)

lemma insert_find:
  assumes "insert_account a d = Some (uid, d')" "accounts_ok d"
  shows "find_account uid d' = Some (a\<lparr>ac_id := uid\<rparr>)" "find_account uid d = None"
    "find_account i d = Some b \<Longrightarrow> find_account i d' = Some b"
proof -
  have app: "find P (xs @ ys) = (case find P xs of None \<Rightarrow> find P ys | Some x \<Rightarrow> Some x)" for P and xs ys :: "account list"
    by (induction xs) auto
  show n: "find_account uid d = None"
    using fresh_find [OF assms(2)] insert_account_ok(1) [OF assms(1)] by simp
  show "find_account uid d' = Some (a\<lparr>ac_id := uid\<rparr>)"
    using n insert_account_ok(2) [OF assms(1)] by (simp add: find_account_def app)
  show "find_account i d = Some b \<Longrightarrow> find_account i d' = Some b"
    using insert_account_ok(2) [OF assms(1)] by (simp add: find_account_def app)
qed

lemma issue_sso_session_frame:
  assumes "issue_sso_session fl cfg reads jti sid now user provider hint db = (r, db')"
  shows "sd_links db' = sd_links db \<and> kept (sd_accounts db) (sd_accounts db')
    \<and> (\<forall>token. r = Some token \<longrightarrow> cl_user_id token = ac_id user \<and> cl_cvv token = ac_version user
        \<and> cl_provider token = provider \<and> cl_issued_at token = Some (whole_seconds now))"
  using assms
  by (auto simp: issue_sso_session_def Let_def generate_session_token_def upsert_sso_id_token_def
      user_of_account_def split: option.splits if_splits)

lemma sso_sign_in_frame:
  assumes "sso_sign_in sha fl rnd cfg reads jti sid now provider cl db = (r, db')"
  obtains res db1 where "resolve_sso_user sha fl rnd cfg now cl db = (res, db1)"
    "sd_links db' = sd_links db1" "kept (sd_accounts db1) (sd_accounts db')"
    "\<And>token. r = SsoDashboard token \<Longrightarrow> \<exists>u. res = Inr u \<and> ac_enabled u \<and> \<not> manually_locked now (ac_id u) (sd_accounts db1)
       \<and> cl_user_id token = ac_id u \<and> cl_cvv token = ac_version u \<and> cl_provider token = provider"
proof -
  obtain res db1 where res: "resolve_sso_user sha fl rnd cfg now cl db = (res, db1)"
    by (cases "resolve_sso_user sha fl rnd cfg now cl db")
  show thesis
  proof (cases "\<exists>u. res = Inr u \<and> ac_enabled u \<and> \<not> (fl SsoManualLock \<or> manually_locked now (ac_id u) (sd_accounts db1))")
    case False
    then have "r = SsoLoginError" "db' = db1" using assms res by (auto simp: sso_sign_in_def split: sum.splits if_splits)
    then show thesis using that [OF res] by simp
  next
    case True
    then obtain u where u: "res = Inr u" "ac_enabled u" "\<not> (fl SsoManualLock \<or> manually_locked now (ac_id u) (sd_accounts db1))"
      by blast
    obtain t db2 where i: "issue_sso_session fl cfg reads jti sid now u provider (oc_id_token cl) db1 = (t, db2)"
      by (cases "issue_sso_session fl cfg reads jti sid now u provider (oc_id_token cl) db1")
    have e: "db' = db2" "\<And>token. r = SsoDashboard token \<Longrightarrow> t = Some token"
      using assms res u i by (auto simp: sso_sign_in_def split: option.splits)
    note fr = issue_sso_session_frame [OF i]
    have "\<exists>u. res = Inr u \<and> ac_enabled u \<and> \<not> manually_locked now (ac_id u) (sd_accounts db1)
       \<and> cl_user_id token = ac_id u \<and> cl_cvv token = ac_version u \<and> cl_provider token = provider"
      if "r = SsoDashboard token" for token
      using fr u e(2) [OF that] by blast
    then show thesis using that [OF res] fr e(1) by blast
  qed
qed

text \<open>C13: 
  Who gets a session: the token is for an account that exists, is enabled and is not locked by an
  administrator, and the identity is linked to it.  The link was there before; or there was none
  and the account is an enabled one with the e-mail address of the claims, which the policy
  admits (verified unless that is switched off, in an allowed domain); or the account is new,
  provisioning is on, the domain is allowed, and its password hash is random.
\<close>

theorem sso_session_sound:
  assumes "sso_sign_in sha fl rnd cfg reads jti sid now provider cl db = (SsoDashboard token, db')"
    and "accounts_ok (sd_accounts db)" "links_ok db"
  shows "\<exists>b. find_account (cl_user_id token) (sd_accounts db') = Some b \<and> ac_enabled b
    \<and> \<not> manually_locked now (ac_id b) (sd_accounts db')
    \<and> cl_cvv token = ac_version b \<and> cl_provider token = provider
    \<and> sd_links db' (oc_issuer cl, oc_subject cl) = Some (ac_id b)
    \<and> (sd_links db (oc_issuer cl, oc_subject cl) = Some (ac_id b)
       \<or> sd_links db (oc_issuer cl, oc_subject cl) = None \<and> email_link_allowed cfg cl
         \<and> (\<exists>a. find_user_by_email (oc_email cl) db = Some a \<and> ac_id a = ac_id b)
       \<or> sd_links db (oc_issuer cl, oc_subject cl) = None \<and> so_auto_provision cfg
         \<and> sso_email_allowed cfg (oc_email cl) \<and> find_account (ac_id b) (sd_accounts db) = None
         \<and> ac_hash b = hex_encode rnd)"
proof -
  obtain u db1 where r: "resolve_sso_user sha fl rnd cfg now cl db = (Inr u, db1)"
    and l: "sd_links db' = sd_links db1" and k: "kept (sd_accounts db1) (sd_accounts db')"
    and u: "ac_enabled u" "\<not> manually_locked now (ac_id u) (sd_accounts db1)"
      "cl_user_id token = ac_id u" "cl_cvv token = ac_version u" "cl_provider token = provider"
    using sso_sign_in_frame [OF assms(1)] by (metis (no_types, lifting))
  obtain a where a: "u = a \<or> u = a\<lparr>ac_role := desired_role cfg cl\<rparr>"
    and w: "linked_way cfg cl db db1 a \<or> email_way cfg cl db db1 a \<or> provision_way sha rnd cfg now cl db db1 a"
    using resolve_sso_user_cases [OF r assms(3)] by auto
  have same: "ac_id u = ac_id a" "ac_version u = ac_version a" "ac_enabled u = ac_enabled a" using a by auto
  have locked: "\<not> manually_locked now (ac_id a) (sd_accounts db')" using u(2) k same by (simp add: kept_locked)
  from w show ?thesis
  proof (elim disjE)
    assume w: "linked_way cfg cl db db1 a"
    then obtain uid where f: "sd_links db (oc_issuer cl, oc_subject cl) = Some uid" "find_account uid (sd_accounts db) = Some a"
      by (auto simp: linked_way_def find_identity_Some)
    then have id: "uid = ac_id a" using find_account_SomeD by blast
    obtain b where b: "find_account (ac_id a) (sd_accounts db1) = Some b" "ac_id b = ac_id a"
        "ac_enabled b = ac_enabled a" "ac_version b = ac_version a"
      using synced_find [of cfg cl a "sd_accounts db" "sd_accounts db1" "ac_id a" a] w f id
      by (auto simp: linked_way_def)
    show ?thesis
      by (rule exI [of _ b])
        (use b u same locked k f id w l in \<open>simp add: kept_find linked_way_def\<close>)
  next
    assume w: "email_way cfg cl db db1 a"
    have f: "find_account (ac_id a) (sd_accounts db) = Some a"
      unfolding find_account_iff [OF assms(2)]
      using w by (auto simp: email_way_def find_user_by_email_def find_Some_iff)
    obtain b where b: "find_account (ac_id a) (sd_accounts db1) = Some b" "ac_id b = ac_id a"
        "ac_enabled b = ac_enabled a" "ac_version b = ac_version a"
      using synced_find [of cfg cl a "sd_accounts db" "sd_accounts db1" "ac_id a" a] w f
      by (auto simp: email_way_def)
    show ?thesis
      by (rule exI [of _ b])
        (use b u same locked k w l in \<open>auto simp: kept_find email_way_def\<close>)
  next
    assume w: "provision_way sha rnd cfg now cl db db1 a"
    then obtain ext acc where i: "insert_account ext (sd_accounts db) = Some (ac_id a, acc)"
      and e: "a = ext\<lparr>ac_id := ac_id a\<rparr>" "ac_hash ext = hex_encode rnd" and ka: "kept acc (sd_accounts db1)"
      by (auto simp: provision_way_def external_account_def)
    have f: "find_account (ac_id a) (sd_accounts db') = Some a" "find_account (ac_id a) (sd_accounts db) = None"
      using insert_find(1,2) [OF i assms(2)] e(1) ka k by (simp_all add: kept_find)
    have h: "ac_hash a = hex_encode rnd" using arg_cong [OF e(1), of ac_hash] e(2) by simp
    have p: "sd_links db (oc_issuer cl, oc_subject cl) = None" "so_auto_provision cfg"
        "sso_email_allowed cfg (oc_email cl)" "sd_links db1 (oc_issuer cl, oc_subject cl) = Some (ac_id a)"
      using w by (simp_all add: provision_way_def)
    show ?thesis
      using f h u same locked p l by auto
  qed
qed

definition sample_sso :: sso_config where
  "sample_sso = \<lparr>so_allowed_domains = [''x.y''], so_require_verified = True, so_auto_provision = True,
     so_default_role = [], so_role_claim = ''roles'', so_admin_values = [''boss''], so_group_claim = [],
     so_group_mapping = Map.empty, so_session = 60 * minute, so_absolute = 0\<rparr>"

definition sample_sso_db :: sso_db where
  "sample_sso_db = \<lparr>sd_accounts = sample_accounts, sd_links = [(''https://g'', ''42'') \<mapsto> 1],
     sd_groups = Map.empty, sd_members = {}, sd_hints = Map.empty\<rparr>"

definition ops_claims :: sso_claims where
  "ops_claims = \<lparr>oc_subject = ''43'', oc_issuer = ''https://g'', oc_email = ''Ops@X.y'', oc_email_verified = True,
     oc_preferred = ''ops'', oc_name = ''Op S'', oc_id_token = ''jwt'',
     oc_raw = [(''roles'', JArr [JNum ''1'', JStr ''boss''])]\<rparr>"

abbreviation sample_sign_in :: "sso_claims \<Rightarrow> sso_reply \<times> sso_db" where
  "sample_sign_in cl \<equiv> sso_sign_in (\<lambda>s. s) (\<lambda>_. False) ''r'' sample_sso (\<lambda>_. True) (Some ''j'') ''sid'' 0 ''gitea'' cl sample_sso_db"

lemma sample_links_ok: "links_ok sample_sso_db" "accounts_ok (sd_accounts sample_sso_db)" "in_office (sd_accounts sample_sso_db)"
  using sample_in_office by (auto simp: links_ok_def sample_sso_db_def in_office_def find_account_def
      sample_accounts_def sample_account_def split: if_splits)

theorem sso_session_sound_witness:
  "\<exists>b. find_account 2 (sd_accounts (snd (sample_sign_in ops_claims))) = Some b \<and> ac_enabled b
    \<and> sd_links (snd (sample_sign_in ops_claims)) (''https://g'', ''43'') = Some (ac_id b)"
proof -
  let ?token = "\<lparr>cl_id = ''j'', cl_user_id = 2, cl_provider = ''gitea'', cl_sid = ''sid'', cl_cvv = 0,
    cl_issued_at = Some 0, cl_expires_at = Some (60 * minute)\<rparr>"
  have f: "fst (sample_sign_in ops_claims) = SsoDashboard ?token"
    by code_simp
  have e: "sample_sign_in ops_claims = (SsoDashboard ?token, snd (sample_sign_in ops_claims))"
    using prod.collapse [of "sample_sign_in ops_claims"] unfolding f by (rule sym)
  show ?thesis
    using sso_session_sound [OF e sample_links_ok(2,1)] by (auto simp: ops_claims_def)
qed



lemma role_set_in_office:
  assumes "in_office d" "role_set (ac_id t) role d d'" "find_account (ac_id t) d = Some t"
    and "\<not> (ac_role t = ''admin'' \<and> role \<noteq> ''admin'' \<and> is_last_enabled_admin (ac_id t) d)"
  shows "in_office d'"
proof -
  let ?f = "\<lambda>a. a\<lparr>ac_role := role, ac_email := ac_email t, ac_enabled := ac_enabled t\<rparr>"
  have ok: "accounts_ok d" using assms(1) by (simp add: in_office_def)
  have t: "t \<in> set (adb_users d)" using find_account_SomeD [OF assms(3)] by simp
  have same: "a = t" if "a \<in> set (adb_users d)" "ac_id a = ac_id t" for a
    by (rule account_unique [OF ok that(1) t that(2)])
  have "in_office (update_account (ac_id t) ?f d)"
  proof (rule update_in_office_core [OF assms(1,3), where email = "ac_email t" and role = role and enabled = "ac_enabled t"])
    show "\<not> list_ex (\<lambda>b. ac_id b \<noteq> ac_id t \<and> to_lower (ac_email b) = to_lower (ac_email t)) (adb_users d)"
    proof -
      have i: "inj_on (to_lower \<circ> ac_email) (set (adb_users d))" using ok by (simp add: accounts_ok_def distinct_map)
      have "b = t" if "b \<in> set (adb_users d)" "to_lower (ac_email b) = to_lower (ac_email t)" for b
        using inj_onD [OF i _ that(1) t] that(2) by simp
      then show ?thesis by (auto simp: list_ex_iff)
    qed
    show "\<not> (enabled_admin t \<and> (role \<noteq> ''admin'' \<or> \<not> ac_enabled t) \<and> count_enabled_admins d \<le> 1)"
      using assms(4) by (auto simp: is_last_enabled_admin_def assms(3) enabled_admin_def)
  qed simp
  moreover have "cores d' = cores (update_account (ac_id t) ?f d)"
  proof -
    have "core (if ac_id a = ac_id t then a\<lparr>ac_role := role\<rparr> else a) = core (if ac_id a = ac_id t then ?f a else a)"
      if a: "a \<in> set (adb_users d)" for a
    proof (cases "ac_id a = ac_id t")
      case True
      then have "a = t" using same [OF a] by blast
      then show ?thesis by (simp add: core_def)
    qed simp
    then have m: "map core (adb_users (set_user_role (ac_id t) role d)) = map core (adb_users (update_account (ac_id t) ?f d))"
      unfolding set_user_role_def update_account_def by simp
    have n: "adb_next_user (update_account (ac_id t) ?f d) = adb_next_user d" by (simp add: update_account_def)
    show ?thesis
      unfolding cores_def n using assms(2) m unfolding role_set_def by simp
  qed
  ultimately show ?thesis using in_office_cores by blast
qed

text \<open>C36: A sign-on never removes the last enabled administrator: the role mapping refuses to demote it,
  and the identities of accounts stay unique.
\<close>

theorem sso_keeps_an_admin:
  assumes "accounts_ok (sd_accounts db)" "count_enabled_admins (sd_accounts db) > 0" "links_ok db"
  shows "accounts_ok (sd_accounts (snd (sso_sign_in sha fl rnd cfg reads jti sid now provider cl db)))
    \<and> count_enabled_admins (sd_accounts (snd (sso_sign_in sha fl rnd cfg reads jti sid now provider cl db))) > 0"
proof -
  let ?db' = "snd (sso_sign_in sha fl rnd cfg reads jti sid now provider cl db)"
  have o: "in_office (sd_accounts db)" using assms by (simp add: in_office_def)
  obtain res db1 where r: "resolve_sso_user sha fl rnd cfg now cl db = (res, db1)"
    and k: "kept (sd_accounts db1) (sd_accounts ?db')"
    by (rule sso_sign_in_frame [OF prod.collapse [symmetric]])
  have y: "in_office (sd_accounts db1)"
    if "synced cfg cl u (sd_accounts db) (sd_accounts db1)" "find_account (ac_id u) (sd_accounts db) = Some u" for u
    using that role_set_in_office [OF o _ that(2)] in_office_cores [OF kept_cores] o by (auto simp: synced_def)
  from resolve_sso_user_cases [OF r assms(3)] consider "db1 = db"
    | u where "linked_way cfg cl db db1 u" | u where "email_way cfg cl db db1 u"
    | u where "provision_way sha rnd cfg now cl db db1 u"
    by blast
  then have "in_office (sd_accounts db1)"
  proof cases
    case 2
    then show ?thesis using y [of u] find_account_SomeD by (auto simp: linked_way_def find_identity_Some)
  next
    case 3
    have "find_account (ac_id u) (sd_accounts db) = Some u"
      unfolding find_account_iff [OF assms(1)] using 3 by (auto simp: email_way_def find_user_by_email_def find_Some_iff)
    then show ?thesis using y [of u] 3 by (simp add: email_way_def)
  next
    case 4
    then show ?thesis
      using insert_in_office o in_office_cores [OF kept_cores] by (auto simp: provision_way_def)
  qed (use o in simp)
  then show ?thesis using in_office_cores [OF kept_cores [OF k]] by (simp add: in_office_def)
qed

theorem sso_keeps_an_admin_witness:
  "count_enabled_admins (sd_accounts (snd (sso_sign_in (\<lambda>s. s) (\<lambda>_. False) ''r'' sample_sso (\<lambda>_. True) (Some ''j'')
     ''sid'' 0 ''gitea'' sso_sample_claims sample_sso_db))) > 0"
  using sso_keeps_an_admin [of sample_sso_db] sample_links_ok by (simp add: in_office_def)

subsection \<open>Logout\<close>

text \<open>C18: 
  A logout ends the session: once its revocation is written, no request that carries a token of
  that id is admitted, under any session policy and whatever else fails; the reply is the
  login page or an absolute address at the provider; and for a session of an identity provider
  the stored ID token is gone.
\<close>

theorem logout_ends_session:
  assumes "logout jwt lf absolute legacy svo post_logout now r ad db = (reply, ad', db')"
    and "token_of jwt r cl" "cl_id cl \<noteq> []" "rq_user r = Some u" "\<not> lo_revoke lf"
  shows "(token_of jwt r' cl' \<and> cl_id cl' = cl_id cl \<and> as_db s = ad' \<longrightarrow>
        fst (auth_with_policy jwt af jti now' ttl r' s) \<noteq> Admit v c)
    \<and> (reply = LogoutLogin \<or> (\<exists>target. reply = LogoutAtProvider target \<and> absolute target))
    \<and> (svo \<noteq> None \<and> cl_provider cl \<notin> {[], ''local''} \<and> cl_sid cl \<noteq> [] \<and> \<not> lo_delete lf \<longrightarrow>
        sd_hints db' (cl_sid cl) = None)"
proof -
  have tok: "session_token r \<noteq> []" "parse_token jwt (session_token r) = Some cl"
    using assms(2) by (auto simp: token_of_def parse_token_Some)
  let ?e = "case cl_expires_at cl of Some e \<Rightarrow> e | None \<Rightarrow> far_future now"
  obtain db1 where at: "logout_at_provider lf absolute svo post_logout (legacy (session_token r)) cl db1 = (reply, db')"
    and ad': "ad' = revoke_token (lo_revoke lf) (cl_id cl) ?e ad"
    using assms(1,3,4) tok by (auto simp: logout_def Let_def split: prod.splits)
  have rev: "ad_revoked ad' (cl_id cl) \<noteq> None"
    using ad' assms(5) by (auto simp: revoke_token_def split: option.splits)
  have "fst (auth_with_policy jwt af jti now' ttl r' s) \<noteq> Admit v c"
    if t: "token_of jwt r' cl'" "cl_id cl' = cl_id cl" "as_db s = ad'"
  proof
    assume "fst (auth_with_policy jwt af jti now' ttl r' s) = Admit v c"
    then have "auth_with_policy jwt af jti now' ttl r' s = (Admit v c, snd (auth_with_policy jwt af jti now' ttl r' s))"
      by (metis prod.collapse)
    then obtain cl2 where c: "token_of jwt r' cl2" "admissible now' r' (as_db s) cl2 v"
      unfolding auth_Admit by blast
    then have "cl2 = cl'" using t(1) by (auto simp: token_of_def)
    then show False using c(2) t rev by (simp add: admissible_def)
  qed
  moreover have "reply = LogoutLogin \<or> (\<exists>target. reply = LogoutAtProvider target \<and> absolute target)"
    using at by (auto simp: logout_at_provider_def Let_def split: option.splits if_splits)
  moreover have "sd_hints db' (cl_sid cl) = None"
    if "svo \<noteq> None" "cl_provider cl \<notin> {[], ''local''}" "cl_sid cl \<noteq> []" "\<not> lo_delete lf"
    using at that by (auto simp: logout_at_provider_def Let_def delete_sso_id_token_def split: if_splits)
  ultimately show ?thesis by blast
qed

definition no_logout_faults :: logout_faults where
  "no_logout_faults = \<lparr>lo_revoke = False, lo_log = False, lo_find = False, lo_delete = False\<rparr>"

theorem logout_ends_session_witness:
  "\<forall>af. fst (auth_with_policy (sample_jwt (sample_claims\<lparr>cl_provider := ''gitea''\<rparr>)) af None 0 0 sample_request
      \<lparr>as_tracker = None, as_sessions = Map.empty,
       as_db = fst (snd (logout (sample_jwt (sample_claims\<lparr>cl_provider := ''gitea''\<rparr>)) no_logout_faults (\<lambda>_. True) (\<lambda>_. [])
         (Some sample_service) ''https://h/login'' 0 (sample_request\<lparr>rq_user := Some sample_user\<rparr>) sample_db sample_sso_db))\<rparr>)
   \<noteq> Admit sample_user None"
proof
  fix af
  let ?cl = "sample_claims\<lparr>cl_provider := ''gitea''\<rparr>"
  let ?r = "sample_request\<lparr>rq_user := Some sample_user\<rparr>"
  have t: "token_of (sample_jwt ?cl) ?r ?cl"
    by (simp add: token_of_def sample_jwt_def session_token_def sample_request_def)
  have i: "cl_id ?cl \<noteq> []" "rq_user ?r = Some sample_user" "\<not> lo_revoke no_logout_faults"
    by (simp_all add: sample_claims_def no_logout_faults_def)
  obtain reply ad' db' where l: "logout (sample_jwt ?cl) no_logout_faults (\<lambda>_. True) (\<lambda>_. []) (Some sample_service)
      ''https://h/login'' 0 ?r sample_db sample_sso_db = (reply, ad', db')"
    by (metis prod_cases3)
  show "fst (auth_with_policy (sample_jwt ?cl) af None 0 0 sample_request
      \<lparr>as_tracker = None, as_sessions = Map.empty,
       as_db = fst (snd (logout (sample_jwt ?cl) no_logout_faults (\<lambda>_. True) (\<lambda>_. [])
         (Some sample_service) ''https://h/login'' 0 ?r sample_db sample_sso_db))\<rparr>)
   \<noteq> Admit sample_user None"
    using logout_ends_session [OF l t i, of sample_request ?cl "\<lparr>as_tracker = None, as_sessions = Map.empty, as_db = ad'\<rparr>"]
    by (simp add: l)
qed

end
