(* ===== verification/WebRecords.thy ===== *)
theory WebRecords
  imports Service "HOL-Library.AList"
begin

section \<open>Record handlers of the web interface\<close>

text \<open>
  Models \<^verbatim>\<open>internal/handlers/records.go\<close>: single creation, edit, batch creation, single and
  bulk deletion.  A form is a function from a field to the list of its values; the first value
  is what \<^verbatim>\<open>FormValue\<close> returns.  The answer of a handler is a reply, the error pages by their
  cause.  The maps of the batch code are association lists in the order of insertion, where
  the source leaves the order open.
\<close>

type_synonym web_form = "string \<Rightarrow> string list"

definition form_value :: "web_form \<Rightarrow> string \<Rightarrow> string" where
  "form_value f k = (case f k of [] \<Rightarrow> [] | v # _ \<Rightarrow> v)"

datatype web_error =
    WeTTL | WePriority | WeField validation_error | WeRequired | WeGone | WeChanged
  | WeTTLConflict int int | WeNoRows | WeNoRecord | WeLocked | WeUpstream stage

datatype web_reply = WebSeeOther string | WebRefused web_error | WebDeleted nat

subsection \<open>Fields\<close>

definition parse_ttl_field :: "string \<Rightarrow> int option" where
  "parse_ttl_field raw =
     (let s = trim_space raw in
      if s = [] then Some 0
      else case atoi s of None \<Rightarrow> None | Some v \<Rightarrow> if v \<le> 0 then None else Some v)"

definition parse_priority_field :: "string \<Rightarrow> int option" where
  "parse_priority_field raw =
     (let s = trim_space raw in
      if s = [] then Some 0
      else case atoi s of None \<Rightarrow> None | Some v \<Rightarrow> if v < 0 then None else Some v)"

record record_form =
  rf_name :: string
  rf_type :: string
  rf_content :: string
  rf_ttl :: int
  rf_priority :: int

definition parse_record_form :: "web_form \<Rightarrow> web_error + record_form" where
  "parse_record_form f =
     (case parse_ttl_field (form_value f ''ttl'') of
        None \<Rightarrow> Inl WeTTL
      | Some ttl \<Rightarrow>
          (case parse_priority_field (form_value f ''priority'') of
             None \<Rightarrow> Inl WePriority
           | Some priority \<Rightarrow> Inr
               \<lparr>rf_name = trim_space (form_value f ''name''),
                rf_type = canonical_record_type (form_value f ''type''),
                rf_content = trim_space (form_value f ''content''),
                rf_ttl = ttl, rf_priority = priority\<rparr>))"

definition form_blank :: "record_form \<Rightarrow> bool" where
  "form_blank rf \<longleftrightarrow> rf_name rf = [] \<or> rf_type rf = [] \<or> rf_content rf = []"

definition check_row :: "record_form \<Rightarrow> verdict" where
  "check_row rf =
     and_then (validate_record_name (rf_name rf))
       (and_then (validate_record_type (rf_type rf))
         (and_then (validate_record_content (rf_type rf) (rf_content rf))
           (validate_record_priority (rf_type rf) (rf_priority rf))))"

definition plain_record :: "string \<Rightarrow> int \<Rightarrow> bool \<Rightarrow> record_info" where
  "plain_record content priority disabled =
     \<lparr>ri_name = [], ri_type = [], ri_content = content, ri_ttl = 0, ri_priority = priority,
      ri_disabled = disabled\<rparr>"

subsection \<open>Comments\<close>

definition plain_comment :: "string \<Rightarrow> comment" where
  "plain_comment c = \<lparr>cm_content = c, cm_account = [], cm_modified_at = 0\<rparr>"

definition comment_lines :: "string list \<Rightarrow> string list" where
  "comment_lines ls = filter (\<lambda>l. l \<noteq> []) (map trim_space ls)"

definition build_comment_patch :: "string \<Rightarrow> bool \<Rightarrow> comment_patch option" where
  "build_comment_patch txt clear =
     (if clear then Some \<lparr>cp_items = [], cp_clear = True\<rparr>
      else let lines = comment_lines (split_on CHR 0x0A txt) in
        if lines = [] then None else Some \<lparr>cp_items = map plain_comment lines, cp_clear = False\<rparr>)"

fun add_comments :: "comment list \<Rightarrow> string list \<Rightarrow> comment list" where
  "add_comments out [] = out"
| "add_comments out (l # ls) =
     (if list_ex (\<lambda>c. cm_content c = l) out then add_comments out ls
      else add_comments (out @ [plain_comment l]) ls)"

definition build_comments_patch :: "comment list \<Rightarrow> bool \<Rightarrow> string list \<Rightarrow> comment_patch option" where
  "build_comments_patch existing clear new_lines =
     (if clear then Some \<lparr>cp_items = [], cp_clear = True\<rparr>
      else let cleaned = comment_lines new_lines in
        if cleaned = [] then None else Some \<lparr>cp_items = add_comments existing cleaned, cp_clear = False\<rparr>)"

subsection \<open>Creation of one record\<close>

fun merge_record_into_rrset ::
  "record_info list \<Rightarrow> string \<Rightarrow> int \<Rightarrow> record_info \<Rightarrow> record_info list" where
  "merge_record_into_rrset [] oc op new = [new]"
| "merge_record_into_rrset (r # rs) oc op new =
     (if ri_content r = oc \<and> ri_priority r = op then new # rs
      else r # merge_record_into_rrset rs oc op new)"

definition same_key :: "string \<Rightarrow> string \<Rightarrow> rrset \<Rightarrow> bool" where
  "same_key name rtype rr \<longleftrightarrow> rr_name rr = name \<and> rr_type rr = rtype"

definition resolve_web_ttl :: "int \<Rightarrow> rrset option \<Rightarrow> int" where
  "resolve_web_ttl ttl old =
     (if ttl = 0 then (case old of Some o' \<Rightarrow> rr_ttl o' | None \<Rightarrow> default_record_ttl) else ttl)"

text \<open>The record set a creation sends, from a checked form and the listed record sets.\<close>

definition web_create_rrset :: "record_form \<Rightarrow> comment_patch option \<Rightarrow> rrset list \<Rightarrow> rrset" where
  "web_create_rrset rf comments existing =
     (let old = find (same_key (rf_name rf) (rf_type rf)) existing;
          new = plain_record (rf_content rf) (rf_priority rf) False;
          records = (case old of
            Some o' \<Rightarrow> merge_record_into_rrset (rr_records o') [] 0 new
          | None \<Rightarrow> [new])
      in \<lparr>rr_name = rf_name rf, rr_type = rf_type rf, rr_ttl = resolve_web_ttl (rf_ttl rf) old,
          rr_changetype = [],
          rr_records = dedup_records_by_content (map (prepare_record (rf_type rf)) records),
          rr_comments = comments\<rparr>)"

definition clear_flag :: "string \<Rightarrow> bool" where
  "clear_flag s \<longleftrightarrow> s = ''1'' \<or> s = ''true''"

definition web_create_record ::
  "'p pdns \<Rightarrow> svc_faults \<Rightarrow> user \<Rightarrow> string \<Rightarrow> web_form \<Rightarrow> 'p svc \<Rightarrow> web_reply \<times> 'p svc" where
  "web_create_record pd sf user zone f s =
     (if sf_lock sf then (WebRefused WeLocked, s)
      else case parse_record_form f of
        Inl e \<Rightarrow> (WebRefused e, s)
      | Inr rf0 \<Rightarrow>
          if form_blank rf0 then (WebSeeOther (''/zones/'' @ zone @ ''/records/new''), s)
          else
            let rf = rf0\<lparr>rf_name := normalize_record_name (rf_name rf0) zone\<rparr> in
            case check_row rf of
              Some e \<Rightarrow> (WebRefused (WeField e), s)
            | None \<Rightarrow>
                (case pd_list pd zone (sv_pdns s) of
                   None \<Rightarrow> (WebRefused (WeUpstream StageFetch), s)
                 | Some existing \<Rightarrow>
                     let rr = web_create_rrset rf (build_comment_patch (form_value f ''comment'')
                                (clear_flag (form_value f ''comment_clear''))) existing in
                     case pd_update pd zone rr (sv_pdns s) of
                       (ok, p) \<Rightarrow>
                         if \<not> ok then (WebRefused (WeUpstream StagePatch), s\<lparr>sv_pdns := p\<rparr>)
                         else (WebSeeOther (''/zones/'' @ zone), log_activity (sf_log sf)
                           \<lparr>ae_user_id = u_id user, ae_zone_id = Some zone, ae_action = ''create_record'',
                            ae_details = ''Created '' @ rf_type rf @ '' record '' @ rf_name rf @ '' -> '' @ rf_content rf,
                            ae_old_list = None, ae_old = rrset_snapshot (find (same_key (rf_name rf) (rf_type rf)) existing),
                            ae_new = rrset_snapshot (Some rr)\<rparr> (s\<lparr>sv_pdns := p\<rparr>))))"

subsection \<open>Edit of one record\<close>

fun position :: "('a \<Rightarrow> bool) \<Rightarrow> 'a list \<Rightarrow> nat option" where
  "position P [] = None"
| "position P (x # xs) = (if P x then Some 0 else map_option Suc (position P xs))"

definition is_record :: "string \<Rightarrow> int \<Rightarrow> record_info \<Rightarrow> bool" where
  "is_record content priority r \<longleftrightarrow> ri_content r = content \<and> ri_priority r = priority"

text \<open>The records an edit sends and the index of the edited one, or a conflict.\<close>

definition edited_records ::
  "string \<Rightarrow> rrset option \<Rightarrow> string \<Rightarrow> int \<Rightarrow> record_info \<Rightarrow> web_error + (record_info list \<times> nat)" where
  "edited_records rtype old oc op new =
     (case old of
        None \<Rightarrow> if oc \<noteq> [] then Inl WeGone else Inr ([new], 0)
      | Some o' \<Rightarrow>
          (case position (is_record oc op) (rr_records o') of
             Some i \<Rightarrow> Inr (merge_record_into_rrset (rr_records o') oc op new, i)
           | None \<Rightarrow>
               if rtype = ''SOA'' \<and> length (rr_records o') = 1 then Inr ([new], 0) else Inl WeChanged))"

definition web_update_rrset ::
  "record_form \<Rightarrow> bool \<Rightarrow> string \<Rightarrow> int \<Rightarrow> comment_patch option \<Rightarrow> rrset list
   \<Rightarrow> web_error + (rrset \<times> rrset option \<times> nat)" where
  "web_update_rrset rf disabled oc op comments existing =
     (let old = find (same_key (rf_name rf) (rf_type rf)) existing in
      case edited_records (rf_type rf) old oc op (plain_record (rf_content rf) (rf_priority rf) disabled) of
        Inl e \<Rightarrow> Inl e
      | Inr (records, i) \<Rightarrow> Inr
          (\<lparr>rr_name = rf_name rf, rr_type = rf_type rf, rr_ttl = resolve_web_ttl (rf_ttl rf) old,
            rr_changetype = [], rr_records = map (prepare_record (rf_type rf)) records,
            rr_comments = comments\<rparr>, old, i))"

definition update_record_from_form ::
  "'p pdns \<Rightarrow> string \<Rightarrow> web_form \<Rightarrow> 'p \<Rightarrow> web_error + (rrset \<times> rrset option \<times> nat)" where
  "update_record_from_form pd zone f p =
     (case parse_record_form f of
        Inl e \<Rightarrow> Inl e
      | Inr rf0 \<Rightarrow>
          if form_blank rf0 then Inl WeRequired
          else
            let rf = rf0\<lparr>rf_name := normalize_record_name (rf_name rf0) zone\<rparr> in
            case check_row rf of
              Some e \<Rightarrow> Inl (WeField e)
            | None \<Rightarrow>
                (case pd_list pd zone p of
                   None \<Rightarrow> Inl (WeUpstream StageFetch)
                 | Some existing \<Rightarrow>
                     web_update_rrset rf
                       (form_value f ''disabled'' = ''on'' \<or> form_value f ''disabled'' = ''true'')
                       (trim_space (form_value f ''original_content''))
                       (atoi_value (form_value f ''original_priority''))
                       (build_comment_patch (form_value f ''comment'') (form_value f ''comment_clear'' = ''1''))
                       existing))"

definition web_update_record ::
  "'p pdns \<Rightarrow> svc_faults \<Rightarrow> user \<Rightarrow> string \<Rightarrow> web_form \<Rightarrow> 'p svc
   \<Rightarrow> (web_error + (rrset \<times> nat)) \<times> 'p svc" where
  "web_update_record pd sf user zone f s =
     (if sf_lock sf then (Inl WeLocked, s)
      else case update_record_from_form pd zone f (sv_pdns s) of
        Inl e \<Rightarrow> (Inl e, s)
      | Inr (rr, old, i) \<Rightarrow>
          (case pd_update pd zone rr (sv_pdns s) of
             (ok, p) \<Rightarrow>
               if \<not> ok then (Inl (WeUpstream StagePatch), s\<lparr>sv_pdns := p\<rparr>)
               else (Inr (rr, i), log_activity (sf_log sf)
                 \<lparr>ae_user_id = u_id user, ae_zone_id = Some zone, ae_action = ''update_record'',
                  ae_details = ''Updated '' @ rr_type rr @ '' record '' @ rr_name rr,
                  ae_old_list = None, ae_old = rrset_snapshot old, ae_new = rrset_snapshot (Some rr)\<rparr> (s\<lparr>sv_pdns := p\<rparr>))))"

text \<open>The record the inline editor is told it saved, in the form of the zone view.\<close>

definition inline_updated :: "rrset \<Rightarrow> nat \<Rightarrow> record_info" where
  "inline_updated rr i =
     (let r = rr_records rr ! i in
      case split_priority (rr_type rr) (ri_content r) of
        (p, c, ok) \<Rightarrow> if ok then r\<lparr>ri_priority := p, ri_content := c\<rparr> else r)"

text \<open>What the edit page shows: the record the row link names, or without a content the first of
  the set.  An empty set has no first record and the index panics.\<close>

datatype edit_page = EditShows rrset record_info | EditNotFound | EditPanics

definition edit_target :: "rrset list \<Rightarrow> string \<Rightarrow> string \<Rightarrow> string \<Rightarrow> string \<Rightarrow> edit_page" where
  "edit_target existing name rtype content priority =
     (case find (same_key name (canonical_record_type rtype)) existing of
        None \<Rightarrow> EditNotFound
      | Some rr \<Rightarrow>
          if content = [] then (case rr_records rr of [] \<Rightarrow> EditPanics | r # _ \<Rightarrow> EditShows rr r)
          else (case find (is_record content (atoi_value priority)) (rr_records rr) of
                  None \<Rightarrow> EditNotFound | Some r \<Rightarrow> EditShows rr r))"

subsection \<open>Batch creation\<close>

type_synonym pending_comments = "(string \<times> (string \<times> bool) list) list"

record batch_form =
  bf_names :: "string list"
  bf_types :: "string list"
  bf_contents :: "string list"
  bf_ttls :: "string list"
  bf_priorities :: "string list"
  bf_comments :: "string list"
  bf_clears :: "string list"

definition nth_or_empty :: "string list \<Rightarrow> nat \<Rightarrow> string" where
  "nth_or_empty xs i = (if i < length xs then xs ! i else [])"

definition rrset_key_string :: "rrset \<Rightarrow> string" where
  "rrset_key_string rr = rr_name rr @ ''|'' @ rr_type rr"

definition one_record_rrset :: "record_form \<Rightarrow> rrset" where
  "one_record_rrset rf =
     \<lparr>rr_name = rf_name rf, rr_type = rf_type rf, rr_ttl = rf_ttl rf, rr_changetype = [],
      rr_records = [plain_record (rf_content rf) (rf_priority rf) False], rr_comments = None\<rparr>"

text \<open>One row: skipped when blank, refused, or accepted with its comment.\<close>

definition batch_row :: "string \<Rightarrow> batch_form \<Rightarrow> nat \<Rightarrow> web_error + (record_form \<times> string \<times> bool) option" where
  "batch_row zone bf i =
     (let name0 = trim_space (bf_names bf ! i);
          rtype = canonical_record_type (bf_types bf ! i);
          content = trim_space (bf_contents bf ! i) in
      if name0 = [] \<or> rtype = [] \<or> content = [] then Inr None
      else
        let name = normalize_record_name name0 zone in
        case validate_record_name name of
          Some e \<Rightarrow> Inl (WeField e)
        | None \<Rightarrow>
            (case parse_ttl_field (nth_or_empty (bf_ttls bf) i) of
               None \<Rightarrow> Inl WeTTL
             | Some ttl \<Rightarrow>
                 (case parse_priority_field (nth_or_empty (bf_priorities bf) i) of
                    None \<Rightarrow> Inl WePriority
                  | Some priority \<Rightarrow>
                      let rf = \<lparr>rf_name = name, rf_type = rtype, rf_content = content, rf_ttl = ttl,
                                rf_priority = priority\<rparr> in
                      case check_row rf of
                        Some e \<Rightarrow> Inl (WeField e)
                      | None \<Rightarrow> Inr (Some (rf, trim_space (nth_or_empty (bf_comments bf) i),
                                   clear_flag (nth_or_empty (bf_clears bf) i))))))"

definition add_pending :: "string \<Rightarrow> string \<times> bool \<Rightarrow> pending_comments \<Rightarrow> pending_comments" where
  "add_pending k c pend =
     (case map_of pend k of None \<Rightarrow> pend @ [(k, [c])] | Some cs \<Rightarrow> AList.update k (cs @ [c]) pend)"

fun collect_rows ::
  "string \<Rightarrow> batch_form \<Rightarrow> nat list \<Rightarrow> rrset list \<times> pending_comments \<Rightarrow> web_error + (rrset list \<times> pending_comments)" where
  "collect_rows zone bf [] acc = Inr acc"
| "collect_rows zone bf (i # is) acc =
     (case batch_row zone bf i of
        Inl e \<Rightarrow> Inl e
      | Inr None \<Rightarrow> collect_rows zone bf is acc
      | Inr (Some (rf, comment, clear)) \<Rightarrow>
          let rr = one_record_rrset rf;
              pend = (if comment \<noteq> [] \<or> clear then add_pending (rrset_key_string rr) (comment, clear) (snd acc)
                      else snd acc)
          in collect_rows zone bf is (fst acc @ [rr], pend))"

definition collect_batch_rows :: "string \<Rightarrow> batch_form \<Rightarrow> web_error + (rrset list \<times> pending_comments)" where
  "collect_batch_rows zone bf =
     collect_rows zone bf [0..<min (length (bf_names bf)) (min (length (bf_types bf)) (length (bf_contents bf)))]
       ([], [])"

text \<open>The merge keeps, for each key, the explicit time to live seen so far and the merged set; of
  several listed sets with one key the last counts.\<close>

type_synonym batch_state = "(string \<times> int \<times> rrset) list"

definition append_row :: "rrset \<Rightarrow> int \<Rightarrow> rrset \<Rightarrow> int \<times> rrset" where
  "append_row rr explicit m =
     (let m1 = (if rr_ttl rr > 0 then m\<lparr>rr_ttl := rr_ttl rr\<rparr> else m)
      in (if rr_ttl rr > 0 then rr_ttl rr else explicit, m1\<lparr>rr_records := rr_records m1 @ rr_records rr\<rparr>))"

definition start_row :: "rrset list \<Rightarrow> rrset \<Rightarrow> rrset" where
  "start_row existing rr =
     (case find (\<lambda>x. rrset_key_string x = rrset_key_string rr) (rev existing) of
        None \<Rightarrow> rr
      | Some ex \<Rightarrow>
          let clone = ex\<lparr>rr_records := fold (\<lambda>r rs. merge_record_into_rrset rs [] 0 r) (rr_records rr) (rr_records ex)\<rparr>
          in if rr_ttl rr > 0 then clone\<lparr>rr_ttl := rr_ttl rr\<rparr> else clone)"

fun merge_rows :: "rrset list \<Rightarrow> rrset list \<Rightarrow> batch_state \<Rightarrow> web_error + batch_state" where
  "merge_rows existing [] st = Inr st"
| "merge_rows existing (rr # rrs) st =
     (let k = rrset_key_string rr in
      case map_of st k of
        Some (explicit, m) \<Rightarrow>
          if rr_ttl rr > 0 \<and> explicit > 0 \<and> rr_ttl rr \<noteq> explicit then Inl (WeTTLConflict explicit (rr_ttl rr))
          else merge_rows existing rrs (AList.update k (append_row rr explicit m) st)
      | None \<Rightarrow> merge_rows existing rrs (st @ [(k, rr_ttl rr, start_row existing rr)]))"

definition merge_batch_rrsets :: "rrset list \<Rightarrow> rrset list \<Rightarrow> web_error + (string \<times> rrset) list" where
  "merge_batch_rrsets new existing =
     (case merge_rows existing new [] of
        Inl e \<Rightarrow> Inl e
      | Inr st \<Rightarrow> Inr (map (\<lambda>(k, _, rr). (k, rr)) st))"

definition finalize_rrset :: "pending_comments \<Rightarrow> string \<times> rrset \<Rightarrow> rrset" where
  "finalize_rrset pend = (\<lambda>(k, rr).
     let ttl = (if rr_ttl rr \<le> 0 then default_record_ttl else rr_ttl rr);
         records = dedup_records_by_content (map (prepare_record (rr_type rr)) (rr_records rr));
         existing = (case rr_comments rr of None \<Rightarrow> [] | Some cp \<Rightarrow> cp_items cp);
         comments = (case map_of pend k of
            None \<Rightarrow> rr_comments rr
          | Some cs \<Rightarrow> if cs = [] then rr_comments rr
                      else build_comments_patch existing (list_ex snd cs) (map fst cs))
     in rr\<lparr>rr_ttl := ttl, rr_records := records, rr_comments := comments\<rparr>)"

definition finalize_batch_rrsets :: "(string \<times> rrset) list \<Rightarrow> pending_comments \<Rightarrow> rrset list" where
  "finalize_batch_rrsets merged pend = map (finalize_rrset pend) merged"

text \<open>\<open>patch\<close> is \<^verbatim>\<open>CreateRecords\<close> of the client.\<close>

definition batch_create_records ::
  "'p pdns \<Rightarrow> (string \<Rightarrow> rrset list \<Rightarrow> 'p \<Rightarrow> bool \<times> 'p) \<Rightarrow> svc_faults \<Rightarrow> user \<Rightarrow> string \<Rightarrow> batch_form \<Rightarrow> 'p svc
   \<Rightarrow> web_reply \<times> 'p svc" where
  "batch_create_records pd patch sf user zone bf s =
     (if sf_lock sf then (WebRefused WeLocked, s)
      else if bf_names bf = [] \<or> bf_types bf = [] \<or> bf_contents bf = [] then (WebRefused WeRequired, s)
      else case collect_batch_rows zone bf of
        Inl e \<Rightarrow> (WebRefused e, s)
      | Inr (rrs, pend) \<Rightarrow>
          if rrs = [] then (WebRefused WeNoRows, s)
          else case pd_list pd zone (sv_pdns s) of
            None \<Rightarrow> (WebRefused (WeUpstream StageFetch), s)
          | Some existing \<Rightarrow>
              (case merge_batch_rrsets rrs existing of
                 Inl e \<Rightarrow> (WebRefused e, s)
               | Inr merged \<Rightarrow>
                   let out = finalize_batch_rrsets merged pend in
                   case patch zone out (sv_pdns s) of
                     (ok, p) \<Rightarrow>
                       if \<not> ok then (WebRefused (WeUpstream StagePatch), s\<lparr>sv_pdns := p\<rparr>)
                       else (WebSeeOther (''/zones/'' @ zone), log_activity (sf_log sf)
                         \<lparr>ae_user_id = u_id user, ae_zone_id = Some zone, ae_action = ''create_record'',
                          ae_details = ''Created '' @ dec_int (int (sum_list (map (length \<circ> rr_records) out)))
                            @ '' records across '' @ dec_int (int (length out)) @ '' record sets (batch of ''
                            @ dec_int (int (length rrs)) @ '' rows)'',
                          ae_old_list = None, ae_old = None, ae_new = None\<rparr> (s\<lparr>sv_pdns := p\<rparr>))))"

subsection \<open>Removal\<close>

text \<open>A selection maps the key of a record set to the identities of the records to drop.\<close>

type_synonym identity = "string \<times> int"

type_synonym removal = "(string \<times> identity list) list"

definition identity_of :: "record_info \<Rightarrow> identity" where
  "identity_of r = (ri_content r, ri_priority r)"

text \<open>What one listed record set contributes: the change and the removed records.\<close>

definition removal_change :: "removal \<Rightarrow> rrset \<Rightarrow> (rrset \<times> rrset) option" where
  "removal_change sel rr =
     (case map_of sel (rrset_key_string rr) of
        None \<Rightarrow> None
      | Some gone \<Rightarrow>
          let removed = filter (\<lambda>r. identity_of r \<in> set gone) (rr_records rr);
              remaining = filter (\<lambda>r. identity_of r \<notin> set gone) (rr_records rr);
              base = \<lparr>rr_name = rr_name rr, rr_type = rr_type rr, rr_ttl = 0, rr_changetype = [],
                      rr_records = [], rr_comments = None\<rparr>
          in if removed = [] then None
             else Some
               (if remaining = [] then base\<lparr>rr_changetype := ''DELETE''\<rparr>
                else base\<lparr>rr_ttl := rr_ttl rr, rr_changetype := ''REPLACE'',
                          rr_records := map (prepare_record (rr_type rr)) remaining\<rparr>,
                base\<lparr>rr_ttl := rr_ttl rr, rr_records := removed\<rparr>))"

definition build_removal_patch :: "rrset list \<Rightarrow> removal \<Rightarrow> rrset list \<times> rrset list \<times> nat" where
  "build_removal_patch all_rrsets sel =
     (let changes = List.map_filter (removal_change sel) all_rrsets
      in (map fst changes, map snd changes, sum_list (map (length \<circ> rr_records \<circ> snd) changes)))"

definition web_delete_record ::
  "'p pdns \<Rightarrow> (string \<Rightarrow> rrset list \<Rightarrow> 'p \<Rightarrow> bool \<times> 'p) \<Rightarrow> svc_faults \<Rightarrow> user \<Rightarrow> string \<Rightarrow> web_form \<Rightarrow> 'p svc
   \<Rightarrow> web_reply \<times> 'p svc" where
  "web_delete_record pd patch sf user zone f s =
     (if sf_lock sf then (WebRefused WeLocked, s)
      else
        let name0 = trim_space (form_value f ''name'');
            rtype = canonical_record_type (form_value f ''type'')
        in if name0 = [] \<or> rtype = [] then (WebRefused WeRequired, s)
        else
          let name = normalize_record_name name0 zone in
          case and_then (validate_record_name name) (validate_record_type rtype) of
            Some e \<Rightarrow> (WebRefused (WeField e), s)
          | None \<Rightarrow>
              let sel = [(name @ ''|'' @ rtype,
                          [(trim_space (form_value f ''content''),
                            atoi_value (trim_space (form_value f ''priority'')))])] in
              case pd_list pd zone (sv_pdns s) of
                None \<Rightarrow> (WebRefused (WeUpstream StageFetch), s)
              | Some existing \<Rightarrow>
                  (case build_removal_patch existing sel of
                     (changes, _, _) \<Rightarrow>
                       if changes = [] then (WebRefused WeNoRecord, s)
                       else case patch zone changes (sv_pdns s) of
                         (ok, p) \<Rightarrow>
                           if \<not> ok then (WebRefused (WeUpstream StagePatch), s\<lparr>sv_pdns := p\<rparr>)
                           else (WebSeeOther (''/zones/'' @ zone), log_activity (sf_log sf)
                             \<lparr>ae_user_id = u_id user, ae_zone_id = Some zone, ae_action = ''delete_record'',
                              ae_details = ''Deleted '' @ rtype @ '' record '' @ name,
                              ae_old_list = None, ae_old = rrset_snapshot (find (same_key name rtype) existing),
                              ae_new = None\<rparr> (s\<lparr>sv_pdns := p\<rparr>))))"

record bulk_form =
  kf_names :: "string list"
  kf_types :: "string list"
  kf_contents :: "string list"
  kf_priorities :: "string list"

definition add_identity :: "string \<Rightarrow> identity \<Rightarrow> removal \<Rightarrow> removal" where
  "add_identity k d sel =
     (case map_of sel k of None \<Rightarrow> sel @ [(k, [d])] | Some ds \<Rightarrow> AList.update k (ds @ [d]) sel)"

definition bulk_row :: "string \<Rightarrow> bulk_form \<Rightarrow> nat \<Rightarrow> validation_error + (string \<times> identity) option" where
  "bulk_row zone bf i =
     (let name0 = trim_space (kf_names bf ! i);
          rtype = canonical_record_type (kf_types bf ! i)
      in if name0 = [] \<or> rtype = [] then Inr None
      else
        let name = normalize_record_name name0 zone in
        case and_then (validate_record_type rtype) (validate_record_name name) of
          Some e \<Rightarrow> Inl e
        | None \<Rightarrow> Inr (Some (name @ ''|'' @ rtype,
            (trim_space (nth_or_empty (kf_contents bf) i),
             if i < length (kf_priorities bf) then atoi_value (trim_space (kf_priorities bf ! i)) else 0))))"

fun bulk_selection ::
  "string \<Rightarrow> bulk_form \<Rightarrow> nat list \<Rightarrow> removal \<times> nat \<Rightarrow> validation_error + removal \<times> nat" where
  "bulk_selection zone bf [] acc = Inr acc"
| "bulk_selection zone bf (i # is) acc =
     (case bulk_row zone bf i of
        Inl e \<Rightarrow> Inl e
      | Inr None \<Rightarrow> bulk_selection zone bf is acc
      | Inr (Some (k, d)) \<Rightarrow> bulk_selection zone bf is (add_identity k d (fst acc), Suc (snd acc)))"

definition bulk_delete_records ::
  "'p pdns \<Rightarrow> (string \<Rightarrow> rrset list \<Rightarrow> 'p \<Rightarrow> bool \<times> 'p) \<Rightarrow> svc_faults \<Rightarrow> user \<Rightarrow> string \<Rightarrow> bulk_form \<Rightarrow> 'p svc
   \<Rightarrow> web_reply \<times> 'p svc" where
  "bulk_delete_records pd patch sf user zone bf s =
     (if sf_lock sf then (WebRefused WeLocked, s)
      else case bulk_selection zone bf [0..<min (length (kf_names bf)) (length (kf_types bf))] ([], 0) of
        Inl e \<Rightarrow> (WebRefused (WeField e), s)
      | Inr (sel, processed) \<Rightarrow>
          if processed = 0 then (WebRefused WeNoRows, s)
          else case pd_list pd zone (sv_pdns s) of
            None \<Rightarrow> (WebRefused (WeUpstream StageFetch), s)
          | Some existing \<Rightarrow>
              (case build_removal_patch existing sel of
                 (changes, removed, count) \<Rightarrow>
                   (case (if changes = [] then (True, sv_pdns s) else patch zone changes (sv_pdns s)) of
                      (ok, p) \<Rightarrow>
                        if \<not> ok then (WebRefused (WeUpstream StagePatch), s\<lparr>sv_pdns := p\<rparr>)
                        else (WebDeleted count, log_activity (sf_log sf)
                          \<lparr>ae_user_id = u_id user, ae_zone_id = Some zone, ae_action = ''delete_record'',
                           ae_details = ''Bulk deleted '' @ dec_int (int count) @ '' record(s) across ''
                             @ dec_int (int (length removed)) @ '' RRSet(s)'',
                           ae_old_list = Some removed, ae_old = None, ae_new = None\<rparr> (s\<lparr>sv_pdns := p\<rparr>)))))"

end
