(* ===== verification/WebRecordLaws.thy ===== *)
theory WebRecordLaws
  imports WebRecords
begin

section \<open>Properties of the web record handlers\<close>

text \<open>
  The web handlers do by themselves what the service does for the API: here the two are
  compared, the batch merge is reduced to a declarative description, and the patch of an edit
  and of a removal is shown to touch exactly the records it names.
\<close>

subsection \<open>Creation\<close>

lemma merge_record_append:
  "\<not> list_ex (is_record oc op) rs \<Longrightarrow> merge_record_into_rrset rs oc op new = rs @ [new]"
  by (induction rs) (auto simp: is_record_def)

lemma find_key: "find (same_key (rr_name rr) (rr_type rr)) = find_rrset rr"
  by (rule ext) (simp add: find_rrset_def same_key_def [abs_def])

definition submission :: "record_form \<Rightarrow> comment_patch option \<Rightarrow> rrset" where
  "submission rf comments = (one_record_rrset rf)\<lparr>rr_comments := comments\<rparr>"

definition blank_record :: "rrset option \<Rightarrow> bool" where
  "blank_record old \<longleftrightarrow> (case old of Some o' \<Rightarrow> list_ex (is_record [] 0) (rr_records o') | None \<Rightarrow> False)"

text \<open>The web form and the API create the same record.  The record set the form sends is the
  one the service's \<^verbatim>\<open>CreateRecord\<close> sends for the same submission, unless the listed set holds a
  record with an empty content, which the form would replace, or its time to live is unusable.\<close>

theorem web_create_is_append:
  assumes "\<not> blank_record (find_rrset (submission rf comments) existing)" "0 \<le> rf_ttl rf"
    and "\<And>o'. find_rrset (submission rf comments) existing = Some o' \<Longrightarrow> 0 < rr_ttl o'"
  shows "web_create_rrset rf comments existing = merge_rrset existing (submission rf comments)"
proof -
  let ?new = "plain_record (rf_content rf) (rf_priority rf) False"
  have f: "find (same_key (rf_name rf) (rf_type rf)) = find_rrset (submission rf comments)"
    using find_key [of "submission rf comments"] by (simp add: submission_def one_record_rrset_def)
  show ?thesis
  proof (cases "find_rrset (submission rf comments) existing")
    case None
    then show ?thesis using assms(2)
      by (simp add: web_create_rrset_def merge_rrset_def f resolve_web_ttl_def resolve_ttl_def
          submission_def one_record_rrset_def default_record_ttl_def)
  next
    case (Some o')
    with assms(1) have "merge_record_into_rrset (rr_records o') [] 0 ?new = rr_records o' @ [?new]"
      by (simp add: merge_record_append blank_record_def)
    with Some assms(2) assms(3) [OF Some] show ?thesis
      by (simp add: web_create_rrset_def merge_rrset_def f resolve_web_ttl_def resolve_ttl_def
          submission_def one_record_rrset_def)
  qed
qed

definition sample_form :: record_form where
  "sample_form = \<lparr>rf_name = ''a.b.'', rf_type = ''TXT'', rf_content = ''hello'', rf_ttl = 0, rf_priority = 0\<rparr>"

definition sample_set :: rrset where
  "sample_set = \<lparr>rr_name = ''a.b.'', rr_type = ''TXT'', rr_ttl = 60, rr_changetype = [],
     rr_records = [plain_record ''one'' 0 False, plain_record ''two'' 0 True], rr_comments = None\<rparr>"

lemma sample_found: "find_rrset (submission sample_form None) [sample_set] = Some sample_set"
  by (simp add: find_rrset_def submission_def one_record_rrset_def sample_form_def sample_set_def)

lemma sample_not_blank: "\<not> blank_record (find_rrset (submission sample_form None) [sample_set])"
  by (simp add: sample_found) (simp add: blank_record_def sample_set_def is_record_def plain_record_def)

theorem web_create_is_append_witness:
  "web_create_rrset sample_form None [sample_set] = merge_rrset [sample_set] (submission sample_form None)"
  by (rule web_create_is_append [OF sample_not_blank])
    (auto simp: sample_found, simp_all add: sample_form_def sample_set_def)

subsection \<open>Edit\<close>

lemma position_Some:
  "position P xs = Some i \<Longrightarrow> i < length xs \<and> P (xs ! i) \<and> (\<forall>j<i. \<not> P (xs ! j))"
proof (induction xs arbitrary: i)
  case (Cons x xs)
  then show ?case by (cases i) (auto split: if_splits simp: less_Suc_eq_0_disj)
qed simp

lemma position_None: "position P xs = None \<longleftrightarrow> \<not> list_ex P xs"
  by (induction xs) auto

lemma merge_record_update:
  "position (is_record oc op) rs = Some i \<Longrightarrow> merge_record_into_rrset rs oc op new = rs[i := new]"
proof (induction rs arbitrary: i)
  case (Cons r rs)
  then show ?case by (auto simp: is_record_def split: if_splits)
qed simp

text \<open>An edit changes one record.  When the handler sends a set for an existing one, either some
  record still has the content and priority the browser showed, the first such record is the
  edited one, and all others are sent as listed, in their places and in wire form; or the set is
  a lone SOA.  When no record has them the edit is a conflict and nothing is sent.\<close>

theorem edit_touches_one_record:
  assumes "find (same_key (rf_name rf) (rf_type rf)) existing = Some old"
  shows "case web_update_rrset rf disabled oc op comments existing of
      Inl e \<Rightarrow> e = WeChanged \<and> (\<forall>r\<in>set (rr_records old). \<not> is_record oc op r)
    | Inr (rr, old', i) \<Rightarrow>
        let new = prepare_record (rf_type rf) (plain_record (rf_content rf) (rf_priority rf) disabled);
            kept = map (prepare_record (rf_type rf)) (rr_records old)
        in old' = Some old \<and> i < length (rr_records rr) \<and> rr_records rr = kept[i := new]
           \<and> length (rr_records rr) = length (rr_records old)
           \<and> rr_ttl rr = (if rf_ttl rf = 0 then rr_ttl old else rf_ttl rf)
           \<and> (is_record oc op (rr_records old ! i) \<and> (\<forall>j<i. \<not> is_record oc op (rr_records old ! j))
              \<or> rf_type rf = ''SOA'' \<and> length (rr_records old) = 1)"
proof (cases "position (is_record oc op) (rr_records old)")
  case (Some i)
  with position_Some [OF Some] assms show ?thesis
    by (simp add: web_update_rrset_def edited_records_def merge_record_update map_update
        resolve_web_ttl_def Let_def)
next
  case None
  show ?thesis
  proof (cases "rf_type rf = ''SOA'' \<and> length (rr_records old) = 1")
    case True
    then obtain r where "rr_records old = [r]" by (auto simp: length_Suc_conv)
    with True None assms show ?thesis
      by (simp add: web_update_rrset_def edited_records_def resolve_web_ttl_def Let_def)
  next
    case False
    from None have "\<forall>r\<in>set (rr_records old). \<not> is_record oc op r"
      by (simp add: position_None list_ex_iff)
    with False None assms show ?thesis
      by (auto simp: web_update_rrset_def edited_records_def)
  qed
qed

lemma sample_edit_found:
  "find (same_key (rf_name sample_form) (rf_type sample_form)) [sample_set] = Some sample_set"
  by code_simp

lemma sample_edit:
  "web_update_rrset sample_form False ''two'' 0 None [sample_set]
   = Inr (sample_set\<lparr>rr_records := [plain_record ''\"one\"'' 0 False, plain_record ''\"hello\"'' 0 False]\<rparr>,
          Some sample_set, 1)"
  by code_simp

theorem edit_touches_one_record_witness:
  "length (rr_records (sample_set\<lparr>rr_records := [plain_record ''\"one\"'' 0 False, plain_record ''\"hello\"'' 0 False]\<rparr>)) = 2
   \<and> is_record ''two'' 0 (rr_records sample_set ! 1)"
  using edit_touches_one_record [OF sample_edit_found, where disabled = False and oc = "''two''" and op = 0 and comments = None] sample_edit
  by (simp add: Let_def sample_form_def sample_set_def)

subsection \<open>Removal\<close>

definition selected :: "removal \<Rightarrow> rrset \<Rightarrow> record_info \<Rightarrow> bool" where
  "selected sel rr r \<longleftrightarrow>
     (case map_of sel (rrset_key_string rr) of None \<Rightarrow> False | Some ds \<Rightarrow> identity_of r \<in> set ds)"

lemma removal_change_None:
  "removal_change sel rr = None \<longleftrightarrow> filter (selected sel rr) (rr_records rr) = []"
  by (simp add: removal_change_def selected_def [abs_def] Let_def split: option.split)

lemma removal_change_Some:
  assumes "removal_change sel rr = Some (c, d)"
  shows "rr_name c = rr_name rr" "rr_type c = rr_type rr"
    "rr_records d = filter (selected sel rr) (rr_records rr)"
    "rr_changetype c = (if filter (\<lambda>r. \<not> selected sel rr r) (rr_records rr) = [] then ''DELETE'' else ''REPLACE'')"
    "rr_records c = map (prepare_record (rr_type rr)) (filter (\<lambda>r. \<not> selected sel rr r) (rr_records rr))"
    "rr_changetype c = ''REPLACE'' \<Longrightarrow> rr_ttl c = rr_ttl rr"
  using assms
  by (auto simp: removal_change_def selected_def [abs_def] Let_def filter_empty_conv split: option.splits if_splits)

lemma removal_key: "removal_change sel rr = Some (c, d) \<Longrightarrow> rrset_key_string c = rrset_key_string rr"
  by (simp add: rrset_key_string_def removal_change_Some)

lemma removal_count:
  "snd (snd (build_removal_patch rrs sel))
   = length (concat (map (\<lambda>rr. filter (selected sel rr) (rr_records rr)) rrs))"
proof (induction rrs)
  case (Cons rr rrs)
  then show ?case
    by (cases "removal_change sel rr")
      (auto simp: build_removal_patch_def List.map_filter_def removal_change_None removal_change_Some Let_def)
qed (simp add: build_removal_patch_def List.map_filter_def)

lemma removal_patch_keys:
  "c \<in> set (fst (build_removal_patch rrs sel)) \<Longrightarrow> \<exists>rr\<in>set rrs. rrset_key_string c = rrset_key_string rr"
  by (force simp: build_removal_patch_def List.map_filter_def Let_def dest: removal_key)

lemma removal_patch_Cons:
  "fst (build_removal_patch (rr # rrs) sel)
   = (case removal_change sel rr of None \<Rightarrow> [] | Some cd \<Rightarrow> [fst cd]) @ fst (build_removal_patch rrs sel)"
  by (simp add: build_removal_patch_def List.map_filter_def Let_def split: option.split)

lemma removal_patch_of:
  assumes "distinct (map rrset_key_string rrs)" "rr \<in> set rrs"
  shows "filter (\<lambda>c. rrset_key_string c = rrset_key_string rr) (fst (build_removal_patch rrs sel))
    = (case removal_change sel rr of None \<Rightarrow> [] | Some cd \<Rightarrow> [fst cd])"
  using assms
proof (induction rrs)
  case (Cons x xs)
  show ?case
  proof (cases "x = rr")
    case True
    with Cons.prems have "\<forall>c\<in>set (fst (build_removal_patch xs sel)). rrset_key_string c \<noteq> rrset_key_string rr"
      by (auto dest!: removal_patch_keys simp: image_iff)
    then have "filter (\<lambda>c. rrset_key_string c = rrset_key_string rr) (fst (build_removal_patch xs sel)) = []"
      by (simp add: filter_empty_conv)
    with True show ?thesis by (auto simp: removal_patch_Cons removal_key split: option.split)
  next
    case False
    with Cons.prems have "rrset_key_string x \<noteq> rrset_key_string rr" by force
    with False Cons show ?thesis by (auto simp: removal_patch_Cons removal_key split: option.split)
  qed
qed simp

text \<open>A removal drops what was selected and nothing else.  For a zone whose record sets have
  distinct keys: a set without a selected record is not in the patch; a set all of whose records
  are selected is deleted by exactly one change; any other set with a selected record is replaced
  by exactly one change that carries the remaining records in order, in wire form and with the
  set's time to live; and the count reported is the number of records that go.\<close>

theorem removal_patch_exact:
  assumes "distinct (map rrset_key_string rrs)"
  shows "case build_removal_patch rrs sel of (changes, removed, n) \<Rightarrow>
     n = length (concat (map (\<lambda>rr. filter (selected sel rr) (rr_records rr)) rrs))
     \<and> (\<forall>c\<in>set changes. \<exists>rr\<in>set rrs. rrset_key_string c = rrset_key_string rr)
     \<and> (\<forall>rr\<in>set rrs.
          let mine = filter (\<lambda>c. rrset_key_string c = rrset_key_string rr) changes;
              kept = filter (\<lambda>r. \<not> selected sel rr r) (rr_records rr)
          in if list_ex (selected sel rr) (rr_records rr)
             then \<exists>c. mine = [c] \<and> rr_records c = map (prepare_record (rr_type rr)) kept
               \<and> rr_changetype c = (if kept = [] then ''DELETE'' else ''REPLACE'')
               \<and> (kept \<noteq> [] \<longrightarrow> rr_ttl c = rr_ttl rr)
             else mine = [])"
proof -
  obtain changes removed n where b: "build_removal_patch rrs sel = (changes, removed, n)"
    by (cases "build_removal_patch rrs sel") auto
  have n: "n = length (concat (map (\<lambda>rr. filter (selected sel rr) (rr_records rr)) rrs))"
    using removal_count [of rrs sel] b by simp
  have k: "\<forall>c\<in>set changes. \<exists>rr\<in>set rrs. rrset_key_string c = rrset_key_string rr"
    using removal_patch_keys [of _ rrs sel] b by simp
  have m: "let mine = filter (\<lambda>c. rrset_key_string c = rrset_key_string rr) changes;
              kept = filter (\<lambda>r. \<not> selected sel rr r) (rr_records rr)
          in if list_ex (selected sel rr) (rr_records rr)
             then \<exists>c. mine = [c] \<and> rr_records c = map (prepare_record (rr_type rr)) kept
               \<and> rr_changetype c = (if kept = [] then ''DELETE'' else ''REPLACE'')
               \<and> (kept \<noteq> [] \<longrightarrow> rr_ttl c = rr_ttl rr)
             else mine = []" if "rr \<in> set rrs" for rr
  proof (cases "removal_change sel rr")
    case None
    then have "\<not> list_ex (selected sel rr) (rr_records rr)"
      by (simp add: removal_change_None filter_empty_conv list_ex_iff)
    with None removal_patch_of [OF assms that, of sel] b show ?thesis by simp
  next
    case (Some cd)
    obtain c d where cd: "cd = (c, d)" by (cases cd)
    from Some have "list_ex (selected sel rr) (rr_records rr)"
      using removal_change_None [of sel rr] by (auto simp: filter_empty_conv list_ex_iff)
    with Some removal_patch_of [OF assms that, of sel] b removal_change_Some [OF Some [unfolded cd]] cd
    show ?thesis by (simp add: Let_def)
  qed
  from n k m show ?thesis by (simp add: b)
qed

theorem removal_patch_exact_witness:
  "snd (snd (build_removal_patch [sample_set] [(''a.b.|TXT'', [(''one'', 0)])])) = 1"
  using removal_patch_exact [of "[sample_set]" "[(''a.b.|TXT'', [(''one'', 0)])]"]
  by (simp add: case_prod_unfold)
    (simp add: sample_set_def selected_def rrset_key_string_def identity_of_def plain_record_def)

subsection \<open>Batch merge\<close>

text \<open>The declarative description: the keys in order of first appearance, the rows of a key, the
  explicit time to live they agree on, and the listed set they extend.\<close>

definition batch_keys :: "rrset list \<Rightarrow> string list" where
  "batch_keys rows = rev (remdups (rev (map rrset_key_string rows)))"

definition rows_of :: "rrset list \<Rightarrow> string \<Rightarrow> rrset list" where
  "rows_of rows k = filter (\<lambda>r. rrset_key_string r = k) rows"

definition explicit_ttl :: "rrset list \<Rightarrow> int" where
  "explicit_ttl rows = fold (\<lambda>r e. if rr_ttl r > 0 then rr_ttl r else e) rows 0"

definition listed_set :: "rrset list \<Rightarrow> string \<Rightarrow> rrset option" where
  "listed_set existing k = find (\<lambda>x. rrset_key_string x = k) (rev existing)"

definition batch_set :: "rrset list \<Rightarrow> rrset list \<Rightarrow> string \<Rightarrow> rrset" where
  "batch_set existing rows k =
     (let mine = rows_of rows k;
          base = (case listed_set existing k of Some ex \<Rightarrow> ex | None \<Rightarrow> (hd mine)\<lparr>rr_records := []\<rparr>)
      in base\<lparr>rr_ttl := if explicit_ttl mine > 0 then explicit_ttl mine else rr_ttl base,
              rr_records := rr_records base @ concat (map rr_records mine)\<rparr>)"

definition ttl_conflict :: "rrset list \<Rightarrow> bool" where
  "ttl_conflict rows \<longleftrightarrow>
     (\<exists>r\<in>set rows. \<exists>r'\<in>set rows. rrset_key_string r = rrset_key_string r'
        \<and> rr_ttl r > 0 \<and> rr_ttl r' > 0 \<and> rr_ttl r \<noteq> rr_ttl r')"

definition no_blank :: "rrset list \<Rightarrow> bool" where
  "no_blank rrs \<longleftrightarrow> (\<forall>rr\<in>set rrs. \<forall>r\<in>set (rr_records rr). \<not> is_record [] 0 r)"

lemma batch_keys_snoc:
  "batch_keys (rows @ [rr]) =
     (if rrset_key_string rr \<in> set (batch_keys rows) then batch_keys rows
      else batch_keys rows @ [rrset_key_string rr])"
  by (simp add: batch_keys_def)

lemma distinct_batch_keys [simp]: "distinct (batch_keys rows)"
  by (simp add: batch_keys_def)

lemma set_batch_keys: "k \<in> set (batch_keys rows) \<longleftrightarrow> rows_of rows k \<noteq> []"
  by (auto simp: batch_keys_def rows_of_def filter_empty_conv)

lemma rows_of_snoc: "rows_of (rows @ [rr]) k = rows_of rows k @ (if rrset_key_string rr = k then [rr] else [])"
  by (simp add: rows_of_def)

lemma rows_ofD: "r \<in> set (rows_of rows k) \<Longrightarrow> r \<in> set rows \<and> rrset_key_string r = k"
  by (simp add: rows_of_def)

lemma ttl_conflictI:
  "r \<in> set rows \<Longrightarrow> r' \<in> set rows \<Longrightarrow> rrset_key_string r = rrset_key_string r' \<Longrightarrow> rr_ttl r > 0 \<Longrightarrow>
   rr_ttl r' > 0 \<Longrightarrow> rr_ttl r \<noteq> rr_ttl r' \<Longrightarrow> ttl_conflict rows"
  unfolding ttl_conflict_def by blast

lemma explicit_ttl_snoc: "explicit_ttl (rows @ [rr]) = (if rr_ttl rr > 0 then rr_ttl rr else explicit_ttl rows)"
  by (simp add: explicit_ttl_def)

lemma explicit_ttl_cases: "explicit_ttl rows = 0 \<or> (\<exists>r\<in>set rows. rr_ttl r = explicit_ttl rows \<and> rr_ttl r > 0)"
  by (induction rows rule: rev_induct) (auto simp: explicit_ttl_snoc, simp add: explicit_ttl_def)

lemma explicit_ttl_zero: "explicit_ttl rows = 0 \<Longrightarrow> r \<in> set rows \<Longrightarrow> rr_ttl r \<le> 0"
  by (induction rows rule: rev_induct) (auto simp: explicit_ttl_snoc split: if_splits)

lemma update_graph:
  "distinct ks \<Longrightarrow> k \<in> set ks \<Longrightarrow>
   AList.update k v (map (\<lambda>x. (x, f x)) ks) = map (\<lambda>x. (x, if x = k then v else f x)) ks"
  by (induction ks) auto

lemma map_of_graph: "map_of (map (\<lambda>x. (x, f x)) ks) k = (if k \<in> set ks then Some (f k) else None)"
  by (induction ks) auto

lemma fold_merge_append:
  "\<forall>r\<in>set rs. \<not> is_record [] 0 r \<Longrightarrow> \<forall>r\<in>set news. \<not> is_record [] 0 r \<Longrightarrow>
   fold (\<lambda>r rs. merge_record_into_rrset rs [] 0 r) news rs = rs @ news"
  by (induction news arbitrary: rs) (auto simp: merge_record_append list_ex_iff)

definition batch_progress :: "rrset list \<Rightarrow> rrset list \<Rightarrow> batch_state" where
  "batch_progress existing rows =
     map (\<lambda>k. (k, explicit_ttl (rows_of rows k), batch_set existing rows k)) (batch_keys rows)"

lemma batch_set_other:
  "rrset_key_string rr \<noteq> k \<Longrightarrow> batch_set existing (rows @ [rr]) k = batch_set existing rows k"
  by (simp add: batch_set_def rows_of_snoc)

lemma batch_set_append:
  assumes "rows_of rows (rrset_key_string rr) \<noteq> []"
  shows "append_row rr (explicit_ttl (rows_of rows (rrset_key_string rr))) (batch_set existing rows (rrset_key_string rr))
    = (explicit_ttl (rows_of (rows @ [rr]) (rrset_key_string rr)), batch_set existing (rows @ [rr]) (rrset_key_string rr))"
  using assms by (auto simp: append_row_def batch_set_def rows_of_snoc explicit_ttl_snoc Let_def split: option.split)

lemma batch_set_start:
  assumes "rows_of rows (rrset_key_string rr) = []" "0 \<le> rr_ttl rr" "no_blank existing" "no_blank [rr]"
  shows "start_row existing rr = batch_set existing (rows @ [rr]) (rrset_key_string rr)"
proof (cases "listed_set existing (rrset_key_string rr)")
  case None
  with assms show ?thesis
    by (simp add: start_row_def batch_set_def listed_set_def rows_of_snoc explicit_ttl_def)
next
  case (Some ex)
  then have "ex \<in> set existing"
    by (auto simp: listed_set_def find_Some_iff) (metis nth_mem set_rev length_rev)
  with assms(3,4) have "fold (\<lambda>r rs. merge_record_into_rrset rs [] 0 r) (rr_records rr) (rr_records ex)
      = rr_records ex @ rr_records rr"
    by (intro fold_merge_append) (auto simp: no_blank_def)
  with Some assms show ?thesis
    by (simp add: start_row_def batch_set_def listed_set_def rows_of_snoc explicit_ttl_def)
qed

lemma batch_progress_step:
  assumes "0 \<le> rr_ttl rr" "no_blank existing" "no_blank [rr]"
  shows "merge_rows existing (rr # rrs) (batch_progress existing rows) =
    (let e = explicit_ttl (rows_of rows (rrset_key_string rr)) in
     if rr_ttl rr > 0 \<and> e > 0 \<and> rr_ttl rr \<noteq> e then Inl (WeTTLConflict e (rr_ttl rr))
     else merge_rows existing rrs (batch_progress existing (rows @ [rr])))"
proof (cases "rows_of rows (rrset_key_string rr) = []")
  case True
  then have "rrset_key_string rr \<notin> set (batch_keys rows)" by (simp add: set_batch_keys)
  with True batch_set_start [OF True assms] assms(1) show ?thesis
    by (auto simp: batch_progress_def map_of_graph batch_keys_snoc rows_of_snoc explicit_ttl_def Let_def
        batch_set_other intro!: arg_cong [where f = "merge_rows existing rrs"])
next
  case False
  then have k: "rrset_key_string rr \<in> set (batch_keys rows)" by (simp add: set_batch_keys)
  have "map (\<lambda>x. (x, if x = rrset_key_string rr then append_row rr (explicit_ttl (rows_of rows x)) (batch_set existing rows x)
                 else (explicit_ttl (rows_of rows x), batch_set existing rows x))) (batch_keys rows)
      = batch_progress existing (rows @ [rr])"
    using k batch_set_append [OF False, of existing]
    by (auto simp: batch_progress_def batch_keys_snoc batch_set_other rows_of_snoc)
  with k show ?thesis
    by (simp add: batch_progress_def map_of_graph update_graph Let_def cong: if_cong)
qed

lemma conflict_iff_explicit:
  assumes "\<not> ttl_conflict rows" "rr_ttl rr \<ge> 0"
  shows "ttl_conflict (rows @ [rr]) \<longleftrightarrow>
    (let e = explicit_ttl (rows_of rows (rrset_key_string rr)) in rr_ttl rr > 0 \<and> e > 0 \<and> rr_ttl rr \<noteq> e)"
    (is "?L \<longleftrightarrow> ?R")
proof
  let ?mine = "rows_of rows (rrset_key_string rr)"
  assume ?L
  then obtain r1 r2 where c: "r1 \<in> insert rr (set rows)" "r2 \<in> insert rr (set rows)"
      "rrset_key_string r1 = rrset_key_string r2" "rr_ttl r1 > 0" "rr_ttl r2 > 0" "rr_ttl r1 \<noteq> rr_ttl r2"
    by (auto simp: ttl_conflict_def)
  with assms(1) have "\<not> (r1 \<in> set rows \<and> r2 \<in> set rows)" by (auto simp: ttl_conflict_def)
  with c consider "r1 \<in> set rows" "r2 = rr" | "r1 = rr" "r2 \<in> set rows" by auto
  then obtain r where r: "r \<in> set ?mine" "rr_ttl r > 0" "rr_ttl rr > 0" "rr_ttl r \<noteq> rr_ttl rr"
  proof cases
    case 1
    note c = c [unfolded 1(2)]
    have "r1 \<in> set ?mine" using 1(1) c(3) by (simp add: rows_of_def)
    then show ?thesis using c(4-6) by (rule that)
  next
    case 2
    note c = c [unfolded 2(1)]
    have "r2 \<in> set ?mine" using 2(2) c(3) by (simp add: rows_of_def)
    then show ?thesis using c(5,4) c(6) [symmetric] by (rule that)
  qed
  then have "explicit_ttl ?mine \<noteq> 0" using explicit_ttl_zero [of ?mine r] by auto
  with explicit_ttl_cases [of ?mine] obtain r' where
    r': "r' \<in> set ?mine" "rr_ttl r' = explicit_ttl ?mine" "rr_ttl r' > 0" by auto
  have "rr_ttl r' = rr_ttl r"
    using assms(1) rows_ofD [OF r(1)] rows_ofD [OF r'(1)] r(2) r'(3) ttl_conflictI [of r' rows r] by metis
  with r r' show ?R by (simp add: Let_def)
next
  let ?mine = "rows_of rows (rrset_key_string rr)"
  assume R: ?R
  with explicit_ttl_cases [of ?mine] obtain r' where
    "r' \<in> set ?mine" "rr_ttl r' = explicit_ttl ?mine" "rr_ttl r' > 0" unfolding Let_def by force
  with R rows_ofD [of r' rows] show ?L
    by (intro ttl_conflictI [of r' _ rr]) (auto simp: Let_def)
qed

lemma ttl_conflict_mono: "ttl_conflict rows \<Longrightarrow> ttl_conflict (rows @ later)"
  by (auto simp: ttl_conflict_def)

lemma merge_rows_progress:
  assumes "\<forall>r\<in>set rrs. 0 \<le> rr_ttl r" "no_blank existing" "no_blank rrs" "\<not> ttl_conflict rows"
  shows "if ttl_conflict (rows @ rrs) then \<exists>e. merge_rows existing rrs (batch_progress existing rows) = Inl e
    else merge_rows existing rrs (batch_progress existing rows) = Inr (batch_progress existing (rows @ rrs))"
  using assms
proof (induction rrs arbitrary: rows)
  case (Cons rr rrs)
  have step: "merge_rows existing (rr # rrs) (batch_progress existing rows) =
    (let e = explicit_ttl (rows_of rows (rrset_key_string rr)) in
     if rr_ttl rr > 0 \<and> e > 0 \<and> rr_ttl rr \<noteq> e then Inl (WeTTLConflict e (rr_ttl rr))
     else merge_rows existing rrs (batch_progress existing (rows @ [rr])))"
    using Cons.prems by (intro batch_progress_step) (auto simp: no_blank_def)
  have iff: "ttl_conflict (rows @ [rr]) \<longleftrightarrow>
    (let e = explicit_ttl (rows_of rows (rrset_key_string rr)) in rr_ttl rr > 0 \<and> e > 0 \<and> rr_ttl rr \<noteq> e)"
    using Cons.prems by (intro conflict_iff_explicit) auto
  show ?case
  proof (cases "ttl_conflict (rows @ [rr])")
    case True
    then have "\<exists>e. merge_rows existing (rr # rrs) (batch_progress existing rows) = Inl e"
      by (simp only: step iff) (simp add: Let_def)
    with ttl_conflict_mono [OF True, of rrs] show ?thesis by (simp del: merge_rows.simps)
  next
    case False
    then have "merge_rows existing (rr # rrs) (batch_progress existing rows)
        = merge_rows existing rrs (batch_progress existing (rows @ [rr]))"
      by (simp only: step iff Let_def if_False)
    with Cons.IH [of "rows @ [rr]"] Cons.prems False show ?thesis
      by (simp add: no_blank_def del: merge_rows.simps)
  qed
qed (simp)

text \<open>C23: The batch merge, for rows whose fields were accepted and listed sets without an empty
  record.  It refuses the batch exactly when two rows of one record set give different explicit
  times to live, wherever they stand; otherwise there is one set per name and type, in the order
  of the first rows, which holds the records of the last listed set of that key and then those of
  all its rows in order, with the rows' explicit time to live or else the listed one.\<close>

theorem merge_batch_exact:
  assumes "\<forall>r\<in>set rows. 0 \<le> rr_ttl r" "no_blank existing" "no_blank rows"
  shows "if ttl_conflict rows then \<exists>e. merge_batch_rrsets rows existing = Inl e
    else merge_batch_rrsets rows existing = Inr (map (\<lambda>k. (k, batch_set existing rows k)) (batch_keys rows))"
proof -
  have "\<not> ttl_conflict []" "batch_progress existing [] = []"
    by (simp_all add: ttl_conflict_def batch_progress_def batch_keys_def)
  with merge_rows_progress [OF assms, of "[]"] show ?thesis
    by (auto simp: merge_batch_rrsets_def batch_progress_def split: if_splits)
qed

definition sample_rows :: "rrset list" where
  "sample_rows =
     [one_record_rrset sample_form,
      one_record_rrset (sample_form\<lparr>rf_name := ''c.b.'', rf_content := ''x''\<rparr>),
      one_record_rrset (sample_form\<lparr>rf_content := ''again'', rf_ttl := 300\<rparr>)]"

lemma sample_rows_ok:
  "\<forall>r\<in>set sample_rows. 0 \<le> rr_ttl r" "no_blank [sample_set]" "no_blank sample_rows"
  "\<not> ttl_conflict sample_rows"
  by (simp_all add: sample_rows_def no_blank_def ttl_conflict_def one_record_rrset_def sample_form_def
      sample_set_def is_record_def plain_record_def rrset_key_string_def)

theorem merge_batch_exact_witness:
  "merge_batch_rrsets sample_rows [sample_set] =
     Inr (map (\<lambda>k. (k, batch_set [sample_set] sample_rows k)) (batch_keys sample_rows))
   \<and> length (rr_records (batch_set [sample_set] sample_rows ''a.b.|TXT'')) = 4
   \<and> rr_ttl (batch_set [sample_set] sample_rows ''a.b.|TXT'') = 300"
proof -
  have "length (rr_records (batch_set [sample_set] sample_rows ''a.b.|TXT'')) = 4
     \<and> rr_ttl (batch_set [sample_set] sample_rows ''a.b.|TXT'') = 300"
    by code_simp
  with merge_batch_exact [OF sample_rows_ok(1-3)] sample_rows_ok(4) show ?thesis by simp
qed

end
