(* ===== verification/Paging.thy ===== *)
theory Paging
  imports Models Strconv "HOL-Library.Signed_Division" "HOL-Library.Word"
begin

section \<open>Pagination and search of the list views\<close>

text \<open>
  Models the list helpers of \<^verbatim>\<open>internal/handlers/zones.go\<close> (pages, page numbers taken from the
  query string, search terms made into SQL patterns) and the drop-down queries of
  \<^verbatim>\<open>groups.go\<close>.  Page arithmetic is done in Go's 64-bit \<^verbatim>\<open>int\<close>, whose numbers come from the
  client, so the wrap-around is written out; Go's division truncates.  A slice out of range is a
  panic, the value \<^term>\<open>None\<close>.
\<close>

definition i64 :: "int \<Rightarrow> int" where
  "i64 x = (x + 2 ^ 63) mod 2 ^ 64 - 2 ^ 63"

lemma i64_word: "i64 x = sint (word_of_int x :: 64 word)"
  by (simp add: i64_def sint_sbintrunc' signed_take_bit_eq_take_bit_shift take_bit_eq_mod)

lemma i64_id: "int64 x \<Longrightarrow> i64 x = x"
  by (simp add: i64_def int64_def)

lemma i64_over: "2 ^ 63 \<le> x \<Longrightarrow> x < 2 ^ 64 \<Longrightarrow> i64 x = x - 2 ^ 64"
proof -
  assume a: "2 ^ 63 \<le> x" "x < 2 ^ 64"
  have "(x + 2 ^ 63) mod 2 ^ 64 = (x + 2 ^ 63 - 2 ^ 64) mod 2 ^ 64"
    by (rule minus_mod_self2 [symmetric])
  also have "\<dots> = x + 2 ^ 63 - 2 ^ 64"
    using a by (intro mod_pos_pos_trivial) auto
  finally show "i64 x = x - 2 ^ 64" by (simp add: i64_def)
qed

subsection \<open>Pages\<close>

record page_info =
  pi_current :: int
  pi_per_page :: int
  pi_total_pages :: int
  pi_total :: int

definition slice_of :: "'a list \<Rightarrow> int \<Rightarrow> int \<Rightarrow> 'a list option" where
  "slice_of xs a b =
     (if 0 \<le> a \<and> a \<le> b \<and> b \<le> int (length xs) then Some (take (nat (b - a)) (drop (nat a) xs)) else None)"

definition page_count :: "int \<Rightarrow> int \<Rightarrow> int" where
  "page_count total_rows per_page =
     (let n = (if per_page > 0 then i64 (i64 (total_rows + per_page) - 1) sdiv per_page else 1)
      in if n < 1 then 1 else n)"

definition paginate :: "'a list \<Rightarrow> int \<Rightarrow> int \<Rightarrow> ('a list \<times> page_info) option" where
  "paginate items page0 per_page0 =
     (let total_rows = int (length items);
          total_pages = page_count total_rows per_page0;
          per_page = (if per_page0 > 0 then per_page0 else 0);
          page1 = (if page0 < 1 then 1 else page0);
          page = (if page1 > total_pages then total_pages else page1)
      in if per_page \<le> 0
         then Some (items, \<lparr>pi_current = 1, pi_per_page = 0, pi_total_pages = 1, pi_total = total_rows\<rparr>)
         else
           let info = \<lparr>pi_current = page, pi_per_page = per_page, pi_total_pages = total_pages, pi_total = total_rows\<rparr>;
               start = i64 (i64 (page - 1) * per_page)
           in if start \<ge> total_rows then Some ([], info)
              else
                let end0 = i64 (start + per_page);
                    end1 = (if end0 > total_rows then total_rows else end0)
                in map_option (\<lambda>ys. (ys, info)) (slice_of items start end1))"

definition clamp_page_to_total :: "int \<Rightarrow> int \<Rightarrow> int \<Rightarrow> int" where
  "clamp_page_to_total page per_page total_rows =
     (if per_page \<le> 0 then 1
      else if page < 1 then 1
      else if page > page_count total_rows per_page then page_count total_rows per_page
      else page)"

definition page_info_from_total :: "int \<Rightarrow> int \<Rightarrow> int \<Rightarrow> page_info" where
  "page_info_from_total total_rows page per_page =
     \<lparr>pi_current = clamp_page_to_total page per_page total_rows,
      pi_per_page = (if per_page > 0 then per_page else 0),
      pi_total_pages = page_count total_rows per_page, pi_total = total_rows\<rparr>"

text \<open>The rows a query with \<^verbatim>\<open>LIMIT\<close> and \<^verbatim>\<open>OFFSET\<close> returns; the database refuses a negative offset.\<close>

definition fetch_page :: "'a list \<Rightarrow> int \<Rightarrow> int \<Rightarrow> 'a list option" where
  "fetch_page rows page per_page =
     (if per_page > 0 then
        (let offset = i64 (i64 (clamp_page_to_total page per_page (int (length rows)) - 1) * per_page)
         in if offset < 0 then None else Some (take (nat per_page) (drop (nat offset) rows)))
      else Some rows)"

text \<open>Page and page size as the query string gives them.\<close>

definition parse_pagination_params :: "string \<Rightarrow> string \<Rightarrow> int \<Rightarrow> int \<times> int" where
  "parse_pagination_params page_text per_page_text default_per_page =
     (let page = atoi_value page_text in
      (if page < 1 then 1 else page,
       if per_page_text = [] then default_per_page
       else case atoi per_page_text of None \<Rightarrow> default_per_page
            | Some n \<Rightarrow> if n \<ge> 0 then n else default_per_page))"

subsection \<open>Search\<close>

definition escape_like_pattern :: "string \<Rightarrow> string" where
  "escape_like_pattern s =
     replace_char CHR ''_'' ''!_'' (replace_char CHR ''%'' ''!%'' (replace_char CHR ''!'' ''!!'' s))"

definition like_clause :: "string \<Rightarrow> string" where
  "like_clause column = ''LOWER('' @ column @ '') LIKE ? ESCAPE '' @ [CHR 0x27, CHR ''!'', CHR 0x27]"

definition build_search_like_where :: "string \<Rightarrow> string list \<Rightarrow> string \<times> string list" where
  "build_search_like_where search columns =
     (let term = trim_space search in
      if term = [] \<or> columns = [] then ([], [])
      else (''('' @ join_with '' OR '' (map like_clause columns) @ '')'',
            map (\<lambda>_. ''%'' @ to_lower (escape_like_pattern term) @ ''%'') columns))"

text \<open>The SQL pattern language with the escape character of the clause.\<close>

datatype like_item = LikeAny | LikeOne | LikeChar char

fun like_items :: "string \<Rightarrow> like_item list option" where
  "like_items [] = Some []"
| "like_items (c # cs) =
     (if c = CHR ''!'' then
        (case cs of [] \<Rightarrow> None | d # ds \<Rightarrow> map_option ((#) (LikeChar d)) (like_items ds))
      else map_option
        ((#) (if c = CHR ''%'' then LikeAny else if c = CHR ''_'' then LikeOne else LikeChar c)) (like_items cs))"

function like_match :: "like_item list \<Rightarrow> string \<Rightarrow> bool" where
  "like_match [] s = (s = [])"
| "like_match (LikeChar c # p) s = (case s of [] \<Rightarrow> False | d # s' \<Rightarrow> d = c \<and> like_match p s')"
| "like_match (LikeOne # p) s = (case s of [] \<Rightarrow> False | _ # s' \<Rightarrow> like_match p s')"
| "like_match (LikeAny # p) s =
     (like_match p s \<or> (case s of [] \<Rightarrow> False | _ # s' \<Rightarrow> like_match (LikeAny # p) s'))"
  by pat_completeness auto
termination by (relation "measure (\<lambda>(p, s). length p + length s)") auto

definition sql_like :: "string \<Rightarrow> string \<Rightarrow> bool" where
  "sql_like v pattern = (case like_items pattern of None \<Rightarrow> False | Some p \<Rightarrow> like_match p v)"

text \<open>A row passes the clause when some column matches; the empty clause is left out.\<close>

definition search_matches :: "string \<Rightarrow> string list \<Rightarrow> string list \<Rightarrow> bool" where
  "search_matches search columns values =
     (case build_search_like_where search columns of
        (clause, patterns) \<Rightarrow>
          clause = [] \<or> list_ex (\<lambda>(v, p). sql_like (to_lower v) p) (zip values patterns))"

definition contains_str :: "string \<Rightarrow> string \<Rightarrow> bool" where
  "contains_str s t \<longleftrightarrow> list_ex (\<lambda>i. has_prefix (drop i s) t) [0..<Suc (length s)]"

definition name_matches :: "string \<Rightarrow> string \<Rightarrow> bool" where
  "name_matches search name \<longleftrightarrow>
     trim_space search = [] \<or> contains_str (to_lower name) (to_lower (trim_space search))"

subsection \<open>Drop-downs\<close>

definition max_group_select_options :: nat where
  "max_group_select_options = 100"

definition placeholders :: "string \<Rightarrow> nat" where
  "placeholders q = length (filter (\<lambda>c. c = CHR ''?'') q)"

text \<open>\<open>matching\<close> are the users the search selects, by name; \<open>rejects\<close> says that the driver refuses
  a statement given more arguments than it has placeholders.\<close>

definition get_all_users :: "bool \<Rightarrow> string \<Rightarrow> 'u list \<Rightarrow> ('u list \<times> bool) option" where
  "get_all_users rejects search matching =
     (let (where_clause, args0) = build_search_like_where search [''username'', ''email''];
          cond = (if where_clause = [] then [] else '' WHERE '' @ where_clause);
          args = length args0 + 1;
          select_query = ''SELECT id, username, email, first_name, last_name, role, enabled FROM users''
            @ cond @ '' ORDER BY username LIMIT ?'';
          count_query = ''SELECT COUNT(*) FROM users'' @ cond;
          users = take max_group_select_options matching
      in if placeholders select_query > args \<or> rejects \<and> placeholders select_query < args then None
         else if length users = max_group_select_options then
           (if placeholders count_query > args \<or> rejects \<and> placeholders count_query < args then None
            else Some (users, length matching > max_group_select_options))
         else Some (users, False))"

fun take_matching :: "('z \<Rightarrow> bool) \<Rightarrow> nat \<Rightarrow> 'z list \<Rightarrow> 'z list \<times> bool" where
  "take_matching P room [] = ([], False)"
| "take_matching P room (z # zs) =
     (if \<not> P z then take_matching P room zs
      else case room of 0 \<Rightarrow> ([], True)
        | Suc r \<Rightarrow> (case take_matching P r zs of (out, beyond) \<Rightarrow> (z # out, beyond)))"

definition filter_zones_for_search :: "('z \<Rightarrow> string) \<Rightarrow> string \<Rightarrow> 'z list \<Rightarrow> 'z list \<times> bool" where
  "filter_zones_for_search name_of search = take_matching (name_matches search \<circ> name_of) max_group_select_options"

section \<open>Properties of the list views\<close>

lemma sdiv_pos: "0 \<le> a \<Longrightarrow> 0 < b \<Longrightarrow> a sdiv b = a div (b::int)"
  by (simp add: signed_divide_int_def sgn_if)

lemma sdiv_neg: "a < 0 \<Longrightarrow> 0 < b \<Longrightarrow> a sdiv b \<le> (0::int)"
  by (auto simp: signed_divide_int_def sgn_if pos_imp_zdiv_nonneg_iff)

lemma page_count_pos: "1 \<le> page_count total_rows pp"
  by (simp add: page_count_def Let_def)

lemma page_count_exact:
  assumes "0 \<le> total_rows" "0 < pp" "total_rows + pp - 1 < 2 ^ 63"
  shows "page_count total_rows pp = max 1 ((total_rows + pp - 1) div pp)"
proof -
  have "i64 (i64 (total_rows + pp) - 1) = total_rows + pp - 1"
  proof (cases "total_rows + pp < 2 ^ 63")
    case True
    with assms show ?thesis by (simp add: i64_id int64_def)
  next
    case False
    with assms have e: "total_rows + pp = 2 ^ 63" by simp
    show ?thesis unfolding e by (simp add: i64_def)
  qed
  with assms show ?thesis by (simp add: page_count_def sdiv_pos Let_def max_def)
qed

lemma page_count_wrapped:
  assumes "0 \<le> total_rows" "total_rows < 2 ^ 63" "0 < pp" "pp < 2 ^ 63" "2 ^ 63 \<le> total_rows + pp - 1"
  shows "page_count total_rows pp = 1"
proof -
  have o: "i64 (total_rows + pp) = total_rows + pp - 2 ^ 64" using assms by (intro i64_over) auto
  moreover have "i64 (total_rows + pp - 2 ^ 64 - 1) = total_rows + pp - 2 ^ 64 - 1"
    using assms by (intro i64_id) (auto simp: int64_def)
  ultimately have "i64 (i64 (total_rows + pp) - 1) < 0" using assms by simp
  with assms show ?thesis using sdiv_neg [of "i64 (i64 (total_rows + pp) - 1)" pp]
    by (simp add: page_count_def Let_def)
qed

lemma page_start_bounds:
  assumes "0 \<le> total_rows" "total_rows < 2 ^ 63" "0 < pp" "pp < 2 ^ 63" "1 \<le> page" "page \<le> page_count total_rows pp"
  shows "i64 (i64 (page - 1) * pp) = (page - 1) * pp" "0 \<le> (page - 1) * pp"
    "(page - 1) * pp \<le> total_rows" "(page - 1) * pp < total_rows \<Longrightarrow> (page - 1) * pp + pp < 2 ^ 63"
    "total_rows = 0 \<or> (page - 1) * pp < total_rows"
proof -
  have b: "(page - 1) * pp \<le> total_rows \<and> ((page - 1) * pp < total_rows \<longrightarrow> (page - 1) * pp + pp < 2 ^ 63)
      \<and> (total_rows = 0 \<or> (page - 1) * pp < total_rows) \<and> page - 1 \<le> total_rows"
  proof (cases "total_rows + pp - 1 < 2 ^ 63")
    case True
    show ?thesis
    proof (cases "page = 1")
      case True
      with assms show ?thesis by auto
    next
      case False
      with assms True have "page \<le> (total_rows + pp - 1) div pp" by (simp add: page_count_exact max_def split: if_splits)
      then have "page * pp \<le> (total_rows + pp - 1) div pp * pp" using assms by (intro mult_right_mono) auto
      also have "\<dots> \<le> total_rows + pp - 1" using assms(3) pos_mod_sign [of pp "total_rows + pp - 1"]
        by (simp add: minus_mod_eq_div_mult [symmetric] del: pos_mod_sign)
      finally have le: "page * pp \<le> total_rows + pp - 1" .
      then have st: "(page - 1) * pp \<le> total_rows - 1" by (simp add: left_diff_distrib)
      moreover have "(page - 1) * 1 \<le> (page - 1) * pp" using assms by (intro mult_left_mono) auto
      ultimately show ?thesis using le True by (auto simp: left_diff_distrib)
    qed
  next
    case False
    with assms have "page = 1" by (simp add: page_count_wrapped)
    with assms show ?thesis by auto
  qed
  then show "(page - 1) * pp \<le> total_rows" "(page - 1) * pp < total_rows \<Longrightarrow> (page - 1) * pp + pp < 2 ^ 63"
    "total_rows = 0 \<or> (page - 1) * pp < total_rows" by auto
  show n: "0 \<le> (page - 1) * pp" using assms by simp
  have "i64 (page - 1) = page - 1" using assms b by (intro i64_id) (auto simp: int64_def)
  moreover have "i64 ((page - 1) * pp) = (page - 1) * pp"
    using assms(2) b n unfolding int64_def by (intro i64_id) (simp only: int64_def, linarith)
  ultimately show "i64 (i64 (page - 1) * pp) = (page - 1) * pp" by simp
qed

lemma paginate_page:
  assumes "int (length xs) < 2 ^ 63" "0 < pp" "pp < 2 ^ 63"
    and "cur = clamp_page_to_total page pp (int (length xs))"
  shows "paginate xs page pp = Some (take (nat pp) (drop (nat ((cur - 1) * pp)) xs),
           page_info_from_total (int (length xs)) page pp)
    \<and> fetch_page xs page pp = Some (take (nat pp) (drop (nat ((cur - 1) * pp)) xs))
    \<and> 1 \<le> cur \<and> cur \<le> page_count (int (length xs)) pp
    \<and> (xs \<noteq> [] \<longrightarrow> (cur - 1) * pp < int (length xs))"
proof -
  let ?n = "int (length xs)"
  have cur: "1 \<le> cur" "cur \<le> page_count ?n pp"
    using assms page_count_pos [of ?n pp] by (auto simp: clamp_page_to_total_def)
  note st = page_start_bounds [of ?n pp cur, OF _ assms(1-3) cur]
  have start: "i64 (i64 (cur - 1) * pp) = (cur - 1) * pp" using st(1) by simp
  have page: "(if page_count ?n pp < (if page < 1 then 1 else page) then page_count ?n pp
      else if page < 1 then 1 else page) = cur"
    using assms page_count_pos [of ?n pp] by (auto simp: clamp_page_to_total_def)
  have slice: "(cur - 1) * pp < ?n \<Longrightarrow> slice_of xs ((cur - 1) * pp)
      (if ?n < i64 ((cur - 1) * pp + pp) then ?n else i64 ((cur - 1) * pp + pp))
      = Some (take (nat pp) (drop (nat ((cur - 1) * pp)) xs))"
  proof -
    assume lt: "(cur - 1) * pp < ?n"
    have e: "i64 ((cur - 1) * pp + pp) = (cur - 1) * pp + pp"
      using st(2) st(4) lt assms(1-3) by (intro i64_id) (auto simp: int64_def)
    show ?thesis
    proof (cases "?n < (cur - 1) * pp + pp")
      case True
      then have "length (drop (nat ((cur - 1) * pp)) xs) \<le> nat pp" using st(2) by (simp add: nat_le_iff)
      moreover have "nat (?n - (cur - 1) * pp) = length (drop (nat ((cur - 1) * pp)) xs)"
        using st(2) lt by (simp add: nat_diff_distrib')
      ultimately show ?thesis using True e lt st(2) by (simp add: slice_of_def)
    next
      case False
      with e lt st(2) assms(1-3) show ?thesis by (simp add: slice_of_def)
    qed
  qed
  have "paginate xs page pp = Some (take (nat pp) (drop (nat ((cur - 1) * pp)) xs),
           page_info_from_total ?n page pp)"
  proof (cases "?n \<le> (cur - 1) * pp")
    case True
    then have "length xs \<le> nat ((cur - 1) * pp)" by (simp add: le_nat_iff)
    with True assms(1-3) show ?thesis
      by (simp add: paginate_def page start Let_def page_info_from_total_def assms(4) [symmetric])
  next
    case False
    with assms(1-3) show ?thesis
      by (simp add: paginate_def page start slice Let_def page_info_from_total_def assms(4) [symmetric]
          del: of_nat_less_iff)
  qed
  moreover have "fetch_page xs page pp = Some (take (nat pp) (drop (nat ((cur - 1) * pp)) xs))"
    using assms st(2) by (simp add: fetch_page_def assms(4) [symmetric] start Let_def)
  moreover have "xs \<noteq> [] \<longrightarrow> (cur - 1) * pp < ?n" using st(5) by auto
  ultimately show ?thesis using cur by blast
qed

text \<open>C30: No page number and no page size a client can send breaks a list view.  For all 64-bit
  values and any list that fits in memory, the in-memory pagination returns a page (no index is
  out of range although the sums can wrap around), the page shown is between the first and the
  last, it has at most the requested size and is not empty when the list is not, and a query with
  the limit and offset of the same page information fetches the same rows.\<close>

theorem paginate_sound:
  assumes "int (length xs) < 2 ^ 63" "int64 page" "int64 pp"
  shows "case paginate xs page pp of None \<Rightarrow> False
    | Some (ys, info) \<Rightarrow>
        info = page_info_from_total (int (length xs)) page pp
        \<and> fetch_page xs page pp = Some ys
        \<and> 1 \<le> pi_current info \<and> pi_current info \<le> pi_total_pages info
        \<and> (if pp \<le> 0 then ys = xs
           else ys = take (nat pp) (drop (nat ((pi_current info - 1) * pp)) xs) \<and> (xs \<noteq> [] \<longrightarrow> ys \<noteq> []))"
proof (cases "pp \<le> 0")
  case True
  then show ?thesis
    by (simp add: paginate_def fetch_page_def page_info_from_total_def clamp_page_to_total_def page_count_def)
next
  case False
  with assms have "0 < pp" "pp < 2 ^ 63" by (auto simp: int64_def)
  with paginate_page [OF assms(1), of pp "clamp_page_to_total page pp (int (length xs))" page] False
  show ?thesis by (simp add: page_info_from_total_def) (simp add: nat_less_iff not_le)
qed

theorem paginate_sound_witness:
  "case paginate ''abcde'' 9223372036854775807 9223372036854775807 of None \<Rightarrow> False
    | Some (ys, info) \<Rightarrow> ys = ''abcde'' \<and> pi_current info = 1"
  using paginate_sound [of "''abcde''" 9223372036854775807 9223372036854775807]
  by (simp add: int64_def)
    (auto simp: page_info_from_total_def clamp_page_to_total_def page_count_wrapped split: option.splits)

lemma concat_pages: "concat (map (\<lambda>i. take n (drop (i * n) xs)) [0..<k]) = take (k * n) xs"
proof (induction k)
  case (Suc k)
  have "take (k * n) xs @ take n (drop (k * n) xs) = take (k * n + n) xs" by (simp add: take_add)
  with Suc show ?case by (simp add: add.commute)
qed simp

text \<open>The pages make up the list: turning through all pages the view announces shows every
  element exactly once and in order, whatever the page size, as long as list and page size
  together fit in 63 bits.\<close>

theorem pages_cover_list:
  assumes "0 < pp" "int (length xs) + pp \<le> 2 ^ 63"
  shows "concat (map (\<lambda>i. case paginate xs (int i + 1) pp of Some (ys, _) \<Rightarrow> ys | None \<Rightarrow> [])
      [0..<nat (page_count (int (length xs)) pp)]) = xs"
proof -
  let ?n = "int (length xs)" let ?k = "nat (page_count ?n pp)"
  have n: "?n < 2 ^ 63" "pp < 2 ^ 63 \<or> ?n = 0" using assms by (cases xs; simp)+
  have c: "page_count ?n pp = max 1 ((?n + pp - 1) div pp)" using assms by (intro page_count_exact) auto
  have "?n \<le> page_count ?n pp * pp"
  proof -
    have "?n + pp - 1 < ((?n + pp - 1) div pp + 1) * pp"
      using assms(1) by (metis add.commute mult.commute pos_mod_bound div_mult_mod_eq add_less_cancel_left distrib_left mult.right_neutral)
    then have "?n \<le> (?n + pp - 1) div pp * pp" by (simp add: distrib_right)
    also have "\<dots> \<le> page_count ?n pp * pp" unfolding c using assms(1) by (intro mult_right_mono) auto
    finally show ?thesis .
  qed
  then have cover: "length xs \<le> ?k * nat pp"
    using assms(1) page_count_pos [of ?n pp] by (simp add: flip: of_nat_le_iff [where 'a = int])
  have "(case paginate xs (int i + 1) pp of Some (ys, _) \<Rightarrow> ys | None \<Rightarrow> []) = take (nat pp) (drop (i * nat pp) xs)"
    if "i < ?k" for i
  proof (cases "xs = []")
    case True
    then show ?thesis using assms(1)
      by (simp add: paginate_def Let_def slice_of_def split: option.split)
  next
    case False
    then have "0 < int (length xs)" by simp
    with assms have pp: "pp < 2 ^ 63" by linarith
    have "clamp_page_to_total (int i + 1) pp ?n = int i + 1"
      using that assms(1) by (auto simp: clamp_page_to_total_def)
    with paginate_page [OF n(1) assms(1) pp refl, of "int i + 1"] assms(1)
    show ?thesis by (simp add: nat_mult_distrib)
  qed
  then have "map (\<lambda>i. case paginate xs (int i + 1) pp of Some (ys, _) \<Rightarrow> ys | None \<Rightarrow> []) [0..<?k]
      = map (\<lambda>i. take (nat pp) (drop (i * nat pp) xs)) [0..<?k]"
    by (intro map_cong) auto
  with cover show ?thesis by (simp only: concat_pages) simp
qed

theorem pages_cover_list_witness:
  "concat (map (\<lambda>i. case paginate ''abcde'' (int i + 1) 2 of Some (ys, _) \<Rightarrow> ys | None \<Rightarrow> [])
      [0..<nat (page_count 5 2)]) = ''abcde''"
  using pages_cover_list [of 2 "''abcde''"] by simp

subsection \<open>Search\<close>

lemma contains_str_iff: "contains_str s t \<longleftrightarrow> (\<exists>u v. s = u @ t @ v)"
proof
  assume "contains_str s t"
  then obtain i v where "drop i s = t @ v"
    by (auto simp: contains_str_def list_ex_iff has_prefix_def prefix_def)
  then show "\<exists>u v. s = u @ t @ v" by (metis append_take_drop_id)
next
  assume "\<exists>u v. s = u @ t @ v"
  then obtain u v where "s = u @ t @ v" by blast
  then show "contains_str s t"
    by (auto simp: contains_str_def list_ex_iff has_prefix_def prefix_def intro!: bexI [of _ "length u"])
qed

lemma like_literal: "like_match (map LikeChar t @ p) s \<longleftrightarrow> (\<exists>v. s = t @ v \<and> like_match p v)"
  by (induction t arbitrary: s) (auto split: list.splits)

lemma ex_split_Cons: "(\<exists>u v. c # s = u @ v \<and> P v) \<longleftrightarrow> P (c # s) \<or> (\<exists>u v. s = u @ v \<and> P v)"
proof
  assume "\<exists>u v. c # s = u @ v \<and> P v"
  then obtain u v where "c # s = u @ v" "P v" by blast
  then show "P (c # s) \<or> (\<exists>u v. s = u @ v \<and> P v)" by (cases u) auto
next
  assume "P (c # s) \<or> (\<exists>u v. s = u @ v \<and> P v)"
  then show "\<exists>u v. c # s = u @ v \<and> P v" by (metis append_Cons append_Nil)
qed

lemma like_any: "like_match (LikeAny # p) s \<longleftrightarrow> (\<exists>u v. s = u @ v \<and> like_match p v)"
proof (induction s)
  case (Cons c s)
  from Cons show ?case by (simp only: like_match.simps(4) list.case ex_split_Cons)
qed simp

lemma like_items_escape:
  "like_items (to_lower (escape_like_pattern t) @ r) = map_option ((@) (map LikeChar (to_lower t))) (like_items r)"
proof (induction t)
  case (Cons c t)
  have l: "lower_char CHR ''!'' = CHR ''!''" "lower_char CHR ''%'' = CHR ''%''" "lower_char CHR ''_'' = CHR ''_''"
    by (simp_all add: lower_char_def is_upper_def ord_def)
  have punct: "lower_char c = CHR ''!'' \<longleftrightarrow> c = CHR ''!''" "lower_char c = CHR ''%'' \<longleftrightarrow> c = CHR ''%''"
    by (simp_all add: lower_char_eq_nonletter ord_def)
  have "ord CHR ''_'' = 95" by (simp add: ord_def)
  then have us: "lower_char c = CHR ''_'' \<longleftrightarrow> c = CHR ''_''"
    by (auto simp: ord_lower_char is_upper_def simp flip: ord_eq_iff split: if_splits)
  show ?case using Cons
    by (auto simp: escape_like_pattern_def to_lower_def l punct us option.map_comp o_def)
qed (simp add: escape_like_pattern_def option.map_ident to_lower_def)



subsection \<open>Drop-downs\<close>

lemma take_matching_exact:
  "take_matching P room zs = (take room (filter P zs), length (filter P zs) > room)"
  by (induction P room zs rule: take_matching.induct) (auto split: nat.split)

lemma placeholders_simps [simp]:
  "placeholders [] = 0" "placeholders (s @ t) = placeholders s + placeholders t"
  "placeholders (c # s) = (if c = CHR ''?'' then 1 else 0) + placeholders s"
  by (simp_all add: placeholders_def)

text \<open>The user drop-down of the group forms is empty on large instances.  The statement that
  counts the matches is given the page limit as one argument too many, so with a driver that
  checks the number of arguments the query fails as soon as the page is full.\<close>

theorem user_dropdown_fails:
  assumes "100 \<le> length matching"
  shows "get_all_users True search matching = None"
  using assms
  by (simp add: get_all_users_def build_search_like_where_def like_clause_def max_group_select_options_def
      Let_def)

theorem user_dropdown_fails_witness:
  "get_all_users True ''a'' (replicate 100 ()) = None \<and> get_all_users True ''a'' (replicate 99 ()) \<noteq> None"
  by (intro conjI user_dropdown_fails) (simp, code_simp)

end
