(* ===== verification/ZoneGroups.thy ===== *)
theory ZoneGroups
  imports Authz Accounts Paging
begin

section \<open>Zone groups\<close>

text \<open>
  Models \<^verbatim>\<open>internal/handlers/groups.go\<close> and \<^verbatim>\<open>groups_reconcile.go\<close>: the groups that grant
  users access to zones, and the collection of grants whose zone is gone.  The tables are those
  \<open>Authz\<close> reads, with the groups beside them; deleting a group takes its members and grants with
  it.  How each statement ends is an argument: \<open>gf_write\<close> the main statement of a handler,
  \<open>gf_query\<close> a query, \<open>gf_member\<close> and \<open>gf_zone\<close> the insert of one row, \<open>gf_log\<close> the activity log
  (whose rows keep no zone here).  A row that refers to no user or group is refused by SQLite and
  PostgreSQL and dropped in silence by MySQL, which \<open>gf_fk_reported\<close> tells apart.
\<close>

subsection \<open>Tables\<close>

record group_row =
  gr_id :: int
  gr_name :: string
  gr_description :: string

record group_db =
  gb_groups :: "group_row list"
  gb_next :: int
  gb_grants :: grant_db
  gb_accounts :: account_db

record group_faults =
  gf_write :: bool
  gf_query :: bool
  gf_member :: "int \<Rightarrow> bool"
  gf_zone :: "string \<Rightarrow> bool"
  gf_log :: bool
  gf_fk_reported :: bool

datatype group_reply =
    GroupNameRequired | GroupNameTaken | GroupBadId | GroupBadUser | GroupNoUser | GroupNotFound
  | GroupServerError | GroupNoneSelected | GroupEdit int bool | GroupList | GroupBulk nat "int list"

definition group_exists :: "int \<Rightarrow> group_db \<Rightarrow> bool" where
  "group_exists gid db \<longleftrightarrow> list_ex (\<lambda>g. gr_id g = gid) (gb_groups db)"

definition user_exists :: "group_db \<Rightarrow> int \<Rightarrow> bool" where
  "user_exists db uid \<longleftrightarrow> find_account uid (gb_accounts db) \<noteq> None"

definition group_log :: "group_faults \<Rightarrow> time \<Rightarrow> int option \<Rightarrow> string \<Rightarrow> string \<Rightarrow> group_db \<Rightarrow> group_db" where
  "group_log gf now actor action details db =
     db\<lparr>gb_accounts := add_log_try (gf_log gf) now actor action details (gb_accounts db)\<rparr>"

text \<open>\<^verbatim>\<open>InsertIgnore\<close>: the outcome (an error or not) and the tables.\<close>

definition insert_member :: "group_faults \<Rightarrow> int \<Rightarrow> int \<Rightarrow> group_db \<Rightarrow> bool \<times> group_db" where
  "insert_member gf gid uid db =
     (let gs = gb_grants db in
      if gf_member gf uid then (False, db)
      else if (gid, uid) \<in> set (gd_members gs) then (True, db)
      else if \<not> group_exists gid db \<or> \<not> user_exists db uid then (\<not> gf_fk_reported gf, db)
      else (True, db\<lparr>gb_grants := gs\<lparr>gd_members := gd_members gs @ [(gid, uid)]\<rparr>\<rparr>))"

definition insert_zone :: "group_faults \<Rightarrow> int \<Rightarrow> string \<Rightarrow> group_db \<Rightarrow> bool \<times> group_db" where
  "insert_zone gf gid zone db =
     (let gs = gb_grants db in
      if gf_zone gf zone then (False, db)
      else if (gid, zone) \<in> set (gd_zones gs) then (True, db)
      else if \<not> group_exists gid db then (\<not> gf_fk_reported gf, db)
      else (True, db\<lparr>gb_grants := gs\<lparr>gd_zones := gd_zones gs @ [(gid, zone)]\<rparr>\<rparr>))"

definition delete_group_row :: "int \<Rightarrow> group_db \<Rightarrow> group_db" where
  "delete_group_row gid db =
     db\<lparr>gb_groups := filter (\<lambda>g. gr_id g \<noteq> gid) (gb_groups db),
        gb_grants := \<lparr>gd_members = filter (\<lambda>(g, u). g \<noteq> gid) (gd_members (gb_grants db)),
                      gd_zones = filter (\<lambda>(g, z). g \<noteq> gid) (gd_zones (gb_grants db))\<rparr>\<rparr>"

subsection \<open>Creation\<close>

text \<open>The users among \<open>ids\<close> that exist, asked for in batches of at most 500; \<open>query\<close> is one batch.\<close>

definition existing_user_id_batch_size :: nat where
  "existing_user_id_batch_size = 500"

function existing_user_ids :: "(int list \<Rightarrow> int list option) \<Rightarrow> int list \<Rightarrow> int list option" where
  "existing_user_ids query ids =
     (if ids = [] then Some []
      else case query (take existing_user_id_batch_size ids) of
        None \<Rightarrow> None
      | Some found \<Rightarrow>
          map_option ((@) found) (existing_user_ids query (drop existing_user_id_batch_size ids)))"
  by pat_completeness auto
termination
  by (relation "measure (\<lambda>(query, ids). length ids)") (auto simp: existing_user_id_batch_size_def)

definition query_existing_user_ids :: "bool \<Rightarrow> group_db \<Rightarrow> int list \<Rightarrow> int list option" where
  "query_existing_user_ids fails db batch = (if fails then None else Some (filter (user_exists db) batch))"

record selection_stats =
  ss_members :: nat
  ss_zones :: nat
  ss_users :: nat

fun attach_members :: "group_faults \<Rightarrow> int \<Rightarrow> int list \<Rightarrow> int list \<Rightarrow> group_db \<Rightarrow> nat \<times> nat \<times> group_db" where
  "attach_members gf gid existing [] db = (0, 0, db)"
| "attach_members gf gid existing (u # us) db =
     (if u \<notin> set existing then
        (case attach_members gf gid existing us db of (n, skipped, db') \<Rightarrow> (n, Suc skipped, db'))
      else case insert_member gf gid u db of
        (ok, db1) \<Rightarrow>
          (case attach_members gf gid existing us db1 of
             (n, skipped, db') \<Rightarrow> (if ok then Suc n else n, skipped, db')))"

fun attach_zones :: "group_faults \<Rightarrow> int \<Rightarrow> string list \<Rightarrow> string list \<Rightarrow> group_db \<Rightarrow> nat \<times> group_db" where
  "attach_zones gf gid seen [] db = (0, db)"
| "attach_zones gf gid seen (raw # raws) db =
     (let zone = normalize_zone_name (trim_space raw) in
      if zone = [] \<or> zone \<in> set seen then attach_zones gf gid seen raws db
      else case insert_zone gf gid zone db of
        (ok, db1) \<Rightarrow>
          (case attach_zones gf gid (zone # seen) raws db1 of
             (n, db') \<Rightarrow> (if ok then Suc n else n, db')))"

text \<open>When the users cannot be looked up every submitted id is tried.\<close>

definition attach_group_selections ::
  "group_faults \<Rightarrow> int \<Rightarrow> string list \<Rightarrow> string list \<Rightarrow> group_db \<Rightarrow> selection_stats \<times> group_db" where
  "attach_group_selections gf gid user_ids zone_ids db =
     (let ids = bulk_ids [] user_ids;
          existing = (case existing_user_ids (query_existing_user_ids (gf_query gf) db) ids of
                        Some found \<Rightarrow> found | None \<Rightarrow> ids)
      in case attach_members gf gid existing ids db of
        (members, skipped, db1) \<Rightarrow>
          (case attach_zones gf gid [] zone_ids db1 of
             (zones, db2) \<Rightarrow> (\<lparr>ss_members = members, ss_zones = zones, ss_users = skipped\<rparr>, db2)))"

definition create_group ::
  "group_faults \<Rightarrow> time \<Rightarrow> int option \<Rightarrow> string \<Rightarrow> string \<Rightarrow> string list \<Rightarrow> string list \<Rightarrow> group_db
   \<Rightarrow> group_reply \<times> group_db" where
  "create_group gf now actor name0 description user_ids zone_ids db =
     (let name = trim_space name0 in
      if name = [] then (GroupNameRequired, db)
      else if gf_write gf then (GroupServerError, db)
      else if list_ex (\<lambda>g. gr_name g = name) (gb_groups db) then (GroupNameTaken, db)
      else
        let gid = gb_next db;
            db1 = db\<lparr>gb_groups := gb_groups db @
                       [\<lparr>gr_id = gid, gr_name = name, gr_description = trim_space description\<rparr>],
                     gb_next := gid + 1\<rparr>
        in case attach_group_selections gf gid user_ids zone_ids db1 of
          (st, db2) \<Rightarrow>
            (GroupEdit gid (ss_users st > 0),
             group_log gf now actor ''create_group''
               (''Created group '' @ name @ '' (id: '' @ dec_int gid @ '') with '' @ dec_int (int (ss_members st))
                @ '' member(s), '' @ dec_int (int (ss_zones st)) @ '' zone(s)'') db2))"

subsection \<open>Change and deletion\<close>

definition update_group ::
  "group_faults \<Rightarrow> time \<Rightarrow> int option \<Rightarrow> string \<Rightarrow> string \<Rightarrow> string \<Rightarrow> group_db \<Rightarrow> group_reply \<times> group_db" where
  "update_group gf now actor gid_text name0 description db =
     (case atoi gid_text of
        None \<Rightarrow> (GroupBadId, db)
      | Some gid \<Rightarrow>
          let name = trim_space name0 in
          if name = [] then (GroupNameRequired, db)
          else if gf_write gf then (GroupServerError, db)
          else if group_exists gid db \<and> list_ex (\<lambda>g. gr_name g = name \<and> gr_id g \<noteq> gid) (gb_groups db)
          then (GroupNameTaken, db)
          else (GroupEdit gid False,
            group_log gf now actor ''update_group'' (''Updated group '' @ name @ '' (id: '' @ gid_text @ '')'')
              (db\<lparr>gb_groups := map (\<lambda>g. if gr_id g = gid
                    then g\<lparr>gr_name := name, gr_description := trim_space description\<rparr> else g) (gb_groups db)\<rparr>)))"

definition delete_group ::
  "group_faults \<Rightarrow> time \<Rightarrow> int option \<Rightarrow> string \<Rightarrow> group_db \<Rightarrow> group_reply \<times> group_db" where
  "delete_group gf now actor gid_text db =
     (case atoi gid_text of
        None \<Rightarrow> (GroupBadId, db)
      | Some gid \<Rightarrow>
          if gid \<le> 0 then (GroupBadId, db)
          else if gf_write gf then (GroupServerError, db)
          else if \<not> group_exists gid db then (GroupNotFound, db)
          else (GroupList, group_log gf now actor ''delete_group'' (''Deleted group id '' @ dec_int gid)
                 (delete_group_row gid db)))"

text \<open>\<open>fails\<close> are the ids whose delete statement fails.\<close>

fun bulk_delete_groups_loop ::
  "group_faults \<Rightarrow> (int \<Rightarrow> bool) \<Rightarrow> time \<Rightarrow> int option \<Rightarrow> int list \<Rightarrow> group_db \<Rightarrow> nat \<times> int list \<times> group_db" where
  "bulk_delete_groups_loop gf fails now actor [] db = (0, [], db)"
| "bulk_delete_groups_loop gf fails now actor (gid # gids) db =
     (if fails gid \<or> \<not> group_exists gid db then
        (case bulk_delete_groups_loop gf fails now actor gids db of (n, failed, db') \<Rightarrow> (n, gid # failed, db'))
      else case bulk_delete_groups_loop gf fails now actor gids
             (group_log gf now actor ''delete_group'' (''Deleted group id '' @ dec_int gid @ '' (bulk)'')
               (delete_group_row gid db)) of
        (n, failed, db') \<Rightarrow> (Suc n, failed, db'))"

definition bulk_delete_groups ::
  "group_faults \<Rightarrow> (int \<Rightarrow> bool) \<Rightarrow> time \<Rightarrow> int option \<Rightarrow> string list \<Rightarrow> group_db \<Rightarrow> group_reply \<times> group_db" where
  "bulk_delete_groups gf fails now actor form db =
     (let gids = bulk_ids [] form in
      if gids = [] then (GroupNoneSelected, db)
      else case bulk_delete_groups_loop gf fails now actor gids db of
        (n, failed, db') \<Rightarrow> (GroupBulk n failed, db'))"

subsection \<open>Members and zones of a group\<close>

definition positive_id :: "string \<Rightarrow> int option" where
  "positive_id s = (case atoi (trim_space s) of None \<Rightarrow> None | Some i \<Rightarrow> if i \<le> 0 then None else Some i)"

definition add_member_to_group ::
  "group_faults \<Rightarrow> time \<Rightarrow> int option \<Rightarrow> string \<Rightarrow> string \<Rightarrow> group_db \<Rightarrow> group_reply \<times> group_db" where
  "add_member_to_group gf now actor gid_text uid_text db =
     (case atoi gid_text of
        None \<Rightarrow> (GroupBadId, db)
      | Some gid \<Rightarrow>
          (case positive_id uid_text of
             None \<Rightarrow> (GroupBadUser, db)
           | Some uid \<Rightarrow>
               (case existing_user_ids (query_existing_user_ids (gf_query gf) db) [uid] of
                  None \<Rightarrow> (GroupServerError, db)
                | Some found \<Rightarrow>
                    if uid \<notin> set found then (GroupNoUser, db)
                    else (GroupEdit gid False,
                      group_log gf now actor ''add_group_member''
                        (''Added user '' @ dec_int uid @ '' to group '' @ dec_int gid)
                        (snd (insert_member gf gid uid db))))))"

definition remove_member_from_group ::
  "group_faults \<Rightarrow> time \<Rightarrow> int option \<Rightarrow> string \<Rightarrow> string \<Rightarrow> group_db \<Rightarrow> group_reply \<times> group_db" where
  "remove_member_from_group gf now actor gid_text uid_text db =
     (case atoi gid_text of
        None \<Rightarrow> (GroupBadId, db)
      | Some gid \<Rightarrow>
          (case positive_id uid_text of
             None \<Rightarrow> (GroupBadUser, db)
           | Some uid \<Rightarrow>
               (GroupEdit gid False,
                group_log gf now actor ''remove_group_member''
                  (''Removed user '' @ dec_int uid @ '' from group '' @ dec_int gid)
                  (if gf_write gf then db
                   else db\<lparr>gb_grants := (gb_grants db)
                     \<lparr>gd_members := filter (\<lambda>m. m \<noteq> (gid, uid)) (gd_members (gb_grants db))\<rparr>\<rparr>))))"

definition add_zone_to_group ::
  "group_faults \<Rightarrow> time \<Rightarrow> int option \<Rightarrow> string \<Rightarrow> string \<Rightarrow> group_db \<Rightarrow> group_reply \<times> group_db" where
  "add_zone_to_group gf now actor gid_text zone_text db =
     (case atoi gid_text of
        None \<Rightarrow> (GroupBadId, db)
      | Some gid \<Rightarrow>
          let zone = normalize_zone_name (trim_space zone_text) in
          if zone = [] then (GroupEdit gid False, db)
          else (GroupEdit gid False,
            group_log gf now actor ''add_group_zone''
              (''Granted group '' @ dec_int gid @ '' access to zone '' @ zone)
              (snd (insert_zone gf gid zone db))))"

definition remove_zone_from_group ::
  "group_faults \<Rightarrow> time \<Rightarrow> int option \<Rightarrow> string \<Rightarrow> string \<Rightarrow> group_db \<Rightarrow> group_reply \<times> group_db" where
  "remove_zone_from_group gf now actor gid_text zone_text db =
     (case atoi gid_text of
        None \<Rightarrow> (GroupBadId, db)
      | Some gid \<Rightarrow>
          let zone = normalize_zone_name zone_text in
          (GroupEdit gid False,
           group_log gf now actor ''remove_group_zone''
             (''Revoked group '' @ dec_int gid @ '' access to zone '' @ zone)
             (if gf_write gf then db
              else db\<lparr>gb_grants := (gb_grants db)
                \<lparr>gd_zones := filter (\<lambda>g. g \<noteq> (gid, zone)) (gd_zones (gb_grants db))\<rparr>\<rparr>)))"

subsection \<open>Reconciliation\<close>

text \<open>The zones PowerDNS listed, without the cache; \<open>del\<close> are the zones whose delete fails.\<close>

definition distinct_group_zone_ids :: "bool \<Rightarrow> grant_db \<Rightarrow> string list option" where
  "distinct_group_zone_ids fails db = (if fails then None else Some (remdups (map snd (gd_zones db))))"

definition reconcile_orphan_small_set_bound :: nat where
  "reconcile_orphan_small_set_bound = 10"

definition mass_revocation :: "string list \<Rightarrow> string list \<Rightarrow> bool" where
  "mass_revocation orphans granted \<longleftrightarrow>
     length orphans > reconcile_orphan_small_set_bound \<and> 2 * length orphans > length granted"

fun delete_orphans :: "(string \<Rightarrow> bool) \<Rightarrow> string list \<Rightarrow> grant_db \<Rightarrow> nat \<times> grant_db" where
  "delete_orphans del [] db = (0, db)"
| "delete_orphans del (z # zs) db =
     (if del z then delete_orphans del zs db
      else case delete_orphans del zs (db\<lparr>gd_zones := filter (\<lambda>(g, z'). z' \<noteq> z) (gd_zones db)\<rparr>) of
        (n, db') \<Rightarrow> (Suc n, db'))"

text \<open>\<^term>\<open>None\<close> is an error returned to the caller.\<close>

definition reconcile_with_list ::
  "bool \<Rightarrow> (string \<Rightarrow> bool) \<Rightarrow> string list \<Rightarrow> grant_db \<Rightarrow> nat option \<times> grant_db" where
  "reconcile_with_list query_fails del zones db =
     (case distinct_group_zone_ids query_fails db of
        None \<Rightarrow> (None, db)
      | Some granted \<Rightarrow>
          if granted = [] then (Some 0, db)
          else if zones = [] then (Some 0, db)
          else
            let orphans = filter (\<lambda>z. z \<notin> set zones) granted in
            if mass_revocation orphans granted then (Some 0, db)
            else (case delete_orphans del orphans db of (n, db') \<Rightarrow> (Some n, db')))"

definition reconcile_group_zones ::
  "string list option \<Rightarrow> bool \<Rightarrow> (string \<Rightarrow> bool) \<Rightarrow> grant_db \<Rightarrow> nat option \<times> grant_db" where
  "reconcile_group_zones listing query_fails del db =
     (case listing of None \<Rightarrow> (None, db) | Some zones \<Rightarrow> reconcile_with_list query_fails del zones db)"

end
