(* ===== verification/GroupLaws.thy ===== *)
theory GroupLaws
  imports ZoneGroups
begin

section \<open>Properties of the zone groups\<close>

text \<open>
  The tables stay well formed under every handler; what each handler does to the access of users;
  how much the reconciliation can revoke; and two defects: a revocation that failed is reported as
  done, and a zone whose PowerDNS identifier has capital letters cannot be granted.
\<close>

lemma users_log [simp]: "adb_users (add_log_try f now a s d adb) = adb_users adb"
  by (simp add: add_log_try_def add_log_def split: option.split)

lemma group_log_simps [simp]:
  "gb_groups (group_log gf now a s d db) = gb_groups db"
  "gb_next (group_log gf now a s d db) = gb_next db"
  "gb_grants (group_log gf now a s d db) = gb_grants db"
  "adb_users (gb_accounts (group_log gf now a s d db)) = adb_users (gb_accounts db)"
  by (simp_all add: group_log_def)

lemma user_exists_cong: "adb_users (gb_accounts db) = adb_users (gb_accounts db') \<Longrightarrow> user_exists db = user_exists db'"
  by (rule ext) (simp add: user_exists_def find_account_def)

lemma group_exists_cong: "gb_groups db = gb_groups db' \<Longrightarrow> group_exists g db = group_exists g db'"
  by (simp add: group_exists_def)

lemma normalize_zone_name_idem: "normalize_zone_name (normalize_zone_name z) = normalize_zone_name z"
proof -
  let ?t = "to_lower (trim_space z)"
  have "trim_space (ensure_trailing_dot ?t) = ensure_trailing_dot ?t"
  proof (cases "?t = []")
    case True
    show ?thesis unfolding True by (simp add: ensure_trailing_dot_def go_str)
  next
    case False
    then have "\<not> is_space (hd ?t)" using trim_space_ends [of z] by (cases "trim_space z") (auto simp: to_lower_def)
    moreover have "has_suffix (ensure_trailing_dot ?t) ''.''" using False by (rule ensure_trailing_dot_suffix)
    ultimately show ?thesis using False
      by (intro trim_space_dotted) (auto simp: ensure_trailing_dot_def has_suffix_singleton split: if_splits)
  qed
  then show ?thesis by (simp add: normalize_zone_name_def)
qed

subsection \<open>Well-formed tables\<close>

definition groups_ok :: "group_db \<Rightarrow> bool" where
  "groups_ok db \<longleftrightarrow>
     distinct (map gr_id (gb_groups db)) \<and> distinct (map gr_name (gb_groups db))
     \<and> (\<forall>g\<in>set (gb_groups db). gr_name g \<noteq> [] \<and> gr_id g < gb_next db)"

definition grants_ok :: "group_db \<Rightarrow> bool" where
  "grants_ok db \<longleftrightarrow>
     distinct (gd_members (gb_grants db)) \<and> distinct (gd_zones (gb_grants db))
     \<and> (\<forall>(g, u)\<in>set (gd_members (gb_grants db)). group_exists g db \<and> user_exists db u)
     \<and> (\<forall>(g, z)\<in>set (gd_zones (gb_grants db)). group_exists g db \<and> z \<noteq> [] \<and> normalize_zone_name z = z)"

definition group_db_ok :: "group_db \<Rightarrow> bool" where
  "group_db_ok db \<longleftrightarrow> groups_ok db \<and> grants_ok db"

lemma ok_log [simp]: "group_db_ok (group_log gf now a s d db) = group_db_ok db"
proof -
  have "user_exists (group_log gf now a s d db) = user_exists db" by (rule user_exists_cong) simp
  moreover have "group_exists g (group_log gf now a s d db) = group_exists g db" for g
    by (rule group_exists_cong) simp
  ultimately show ?thesis by (simp add: group_db_ok_def groups_ok_def grants_ok_def)
qed

lemma exists_simps [simp]:
  "user_exists (db\<lparr>gb_grants := g\<rparr>) = user_exists db" "group_exists i (db\<lparr>gb_grants := g\<rparr>) = group_exists i db"
  by (auto intro: user_exists_cong simp: group_exists_def)

lemma group_exists_ids: "group_exists i db \<longleftrightarrow> i \<in> set (map gr_id (gb_groups db))"
  by (auto simp: group_exists_def list_ex_iff)

lemma insert_member_ok:
  "group_db_ok db \<Longrightarrow> group_db_ok (snd (insert_member gf gid uid db))"
  by (auto simp: insert_member_def Let_def group_db_ok_def groups_ok_def grants_ok_def)

lemma insert_zone_ok:
  "group_db_ok db \<Longrightarrow> zone \<noteq> [] \<Longrightarrow> normalize_zone_name zone = zone \<Longrightarrow>
   group_db_ok (snd (insert_zone gf gid zone db))"
  by (auto simp: insert_zone_def Let_def group_db_ok_def groups_ok_def grants_ok_def)

lemma attach_members_ok:
  "group_db_ok db \<Longrightarrow> group_db_ok (snd (snd (attach_members gf gid ex us db)))"
proof (induction us arbitrary: db)
  case (Cons u us)
  show ?case
    using Cons.IH [OF Cons.prems] Cons.IH [OF insert_member_ok [OF Cons.prems, of gf gid u]]
    by (simp split: prod.split) (metis snd_conv)
qed simp

lemma attach_zones_ok:
  "group_db_ok db \<Longrightarrow> group_db_ok (snd (attach_zones gf gid seen raws db))"
proof (induction raws arbitrary: db seen)
  case (Cons raw raws)
  let ?z = "normalize_zone_name (trim_space raw)"
  show ?case
  proof (cases "?z = [] \<or> ?z \<in> set seen")
    case True
    with Cons show ?thesis by (auto simp: Let_def)
  next
    case False
    then have "group_db_ok (snd (insert_zone gf gid ?z db))"
      by (intro insert_zone_ok Cons.prems) (simp_all add: normalize_zone_name_idem)
    from Cons.IH [OF this, of "?z # seen"] False show ?thesis
      by (simp add: Let_def split: prod.split) (metis snd_conv)
  qed
qed simp

lemma attach_selections_ok:
  "group_db_ok db \<Longrightarrow> group_db_ok (snd (attach_group_selections gf gid us zs db))"
  using attach_members_ok [of db gf gid _ "bulk_ids [] us"] attach_zones_ok
  by (simp add: attach_group_selections_def Let_def split: prod.split) (metis snd_conv)

lemma create_group_ok:
  assumes "group_db_ok db"
  shows "group_db_ok (snd (create_group gf now actor name descr us zs db))"
proof -
  let ?db1 = "db\<lparr>gb_groups := gb_groups db @ [\<lparr>gr_id = gb_next db, gr_name = trim_space name,
      gr_description = trim_space descr\<rparr>], gb_next := gb_next db + 1\<rparr>"
  have ok1: "group_db_ok ?db1"
    if "trim_space name \<noteq> []" "\<not> list_ex (\<lambda>g. gr_name g = trim_space name) (gb_groups db)"
  proof -
    have "user_exists ?db1 = user_exists db" by (rule user_exists_cong) simp
    then show ?thesis
      using assms that by (force simp: group_db_ok_def groups_ok_def grants_ok_def group_exists_def list_ex_iff)
  qed
  show ?thesis
    using assms attach_selections_ok [OF ok1, of gf "gb_next db" us zs]
    by (auto simp: create_group_def Let_def split: prod.split)
qed

lemma update_group_ok:
  assumes "group_db_ok db"
  shows "group_db_ok (snd (update_group gf now actor gt name descr db))"
proof -
  let ?upd = "\<lambda>gid g. if gr_id g = gid then g\<lparr>gr_name := trim_space name, gr_description := trim_space descr\<rparr> else g"
  have ok1: "group_db_ok (db\<lparr>gb_groups := map (?upd gid) (gb_groups db)\<rparr>)"
    if n: "trim_space name \<noteq> []"
      "\<not> (group_exists gid db \<and> list_ex (\<lambda>g. gr_name g = trim_space name \<and> gr_id g \<noteq> gid) (gb_groups db))" for gid
  proof -
    let ?db1 = "db\<lparr>gb_groups := map (?upd gid) (gb_groups db)\<rparr>"
    have ids: "map gr_id (map (?upd gid) (gb_groups db)) = map gr_id (gb_groups db)" by simp
    have "user_exists ?db1 = user_exists db" by (rule user_exists_cong) simp
    moreover have "map gr_id (gb_groups ?db1) = map gr_id (gb_groups db)" by simp
    then have "group_exists i ?db1 = group_exists i db" for i by (simp only: group_exists_ids)
    ultimately have "grants_ok ?db1" using assms by (simp add: group_db_ok_def grants_ok_def)
    moreover have "distinct (map gr_name (map (?upd gid) (gb_groups db)))"
    proof -
      have "inj_on (\<lambda>g. gr_name (?upd gid g)) (set (gb_groups db))"
      proof (rule inj_onI)
        fix g h assume gh: "g \<in> set (gb_groups db)" "h \<in> set (gb_groups db)" "gr_name (?upd gid g) = gr_name (?upd gid h)"
        have inj: "inj_on gr_id (set (gb_groups db))" "inj_on gr_name (set (gb_groups db))"
          using assms by (auto simp: group_db_ok_def groups_ok_def distinct_map)
        show "g = h"
        proof (cases "gr_id g = gid \<longleftrightarrow> gr_id h = gid")
          case True
          with gh inj show ?thesis by (cases "gr_id h = gid") (auto dest: inj_onD)
        next
          case False
          with gh n show ?thesis by (auto simp: list_ex_iff group_exists_def split: if_splits)
        qed
      qed
      moreover have "distinct (gb_groups db)"
        using assms by (auto simp: group_db_ok_def groups_ok_def distinct_map)
      ultimately show ?thesis by (simp add: distinct_map o_def)
    qed
    ultimately show ?thesis using assms n(1) ids by (auto simp: group_db_ok_def groups_ok_def simp del: map_map)
  qed
  show ?thesis using assms ok1 by (auto simp: update_group_def Let_def split: option.split)
qed

lemma delete_row_ok: "group_db_ok db \<Longrightarrow> group_db_ok (delete_group_row gid db)"
proof -
  assume ok: "group_db_ok db"
  have "user_exists (delete_group_row gid db) = user_exists db"
    by (rule user_exists_cong) (simp add: delete_group_row_def)
  then show ?thesis using ok
    by (auto simp: group_db_ok_def groups_ok_def grants_ok_def delete_group_row_def group_exists_def
        list_ex_iff distinct_map intro: inj_on_subset)
qed

lemma delete_group_ok: "group_db_ok db \<Longrightarrow> group_db_ok (snd (delete_group gf now actor gt db))"
  by (simp add: delete_group_def delete_row_ok split: option.split)

lemma bulk_delete_loop_ok:
  "group_db_ok db \<Longrightarrow> group_db_ok (snd (snd (bulk_delete_groups_loop gf fails now actor gids db)))"
proof (induction gids arbitrary: db)
  case (Cons gid gids)
  have "group_db_ok (group_log gf now actor a d (delete_group_row gid db))" for a d
    using Cons.prems by (simp add: delete_row_ok)
  from Cons.IH [OF Cons.prems] Cons.IH [OF this] show ?case
    by (simp split: prod.split) (metis snd_conv)
qed simp

lemma bulk_delete_groups_ok: "group_db_ok db \<Longrightarrow> group_db_ok (snd (bulk_delete_groups gf fails now actor form db))"
  using bulk_delete_loop_ok [of db gf fails now actor "bulk_ids [] form"]
  by (cases "bulk_delete_groups_loop gf fails now actor (bulk_ids [] form) db")
    (simp add: bulk_delete_groups_def Let_def)

lemma subset_grants_ok:
  assumes "group_db_ok db" "distinct (gd_members gs)" "distinct (gd_zones gs)"
    "set (gd_members gs) \<subseteq> set (gd_members (gb_grants db))" "set (gd_zones gs) \<subseteq> set (gd_zones (gb_grants db))"
  shows "group_db_ok (db\<lparr>gb_grants := gs\<rparr>)"
  using assms by (auto simp: group_db_ok_def groups_ok_def grants_ok_def group_exists_def)

lemma grants_distinct:
  "group_db_ok db \<Longrightarrow> distinct (gd_members (gb_grants db)) \<and> distinct (gd_zones (gb_grants db))"
  by (simp add: group_db_ok_def grants_ok_def)

lemma member_ops_ok:
  assumes "group_db_ok db"
  shows "group_db_ok (snd (add_member_to_group gf now actor gt ut db))"
    "group_db_ok (snd (remove_member_from_group gf now actor gt ut db))"
    "group_db_ok (snd (add_zone_to_group gf now actor gt zt db))"
    "group_db_ok (snd (remove_zone_from_group gf now actor gt zt db))"
proof -
  note d = grants_distinct [OF assms]
  show "group_db_ok (snd (add_member_to_group gf now actor gt ut db))"
    using assms insert_member_ok [OF assms] by (simp add: add_member_to_group_def split: option.split)
  show "group_db_ok (snd (add_zone_to_group gf now actor gt zt db))"
    using assms insert_zone_ok [OF assms _ normalize_zone_name_idem]
    by (simp add: add_zone_to_group_def Let_def split: option.split)
  show "group_db_ok (snd (remove_member_from_group gf now actor gt ut db))"
    using assms d by (auto simp: remove_member_from_group_def split: option.split intro!: subset_grants_ok)
  show "group_db_ok (snd (remove_zone_from_group gf now actor gt zt db))"
    using assms d by (auto simp: remove_zone_from_group_def Let_def split: option.split intro!: subset_grants_ok)
qed

subsection \<open>Reconciliation\<close>

lemma zones_cong:
  assumes "\<And>g z. (g, z) \<in> set (gd_zones db) \<Longrightarrow> P (g, z) = Q (g, z)"
  shows "db\<lparr>gd_zones := filter P (gd_zones db)\<rparr> = db\<lparr>gd_zones := filter Q (gd_zones db)\<rparr>"
proof -
  have "filter P (gd_zones db) = filter Q (gd_zones db)" using assms by (intro filter_cong) auto
  then show ?thesis by simp
qed

lemma delete_orphans_spec:
  "distinct zs \<Longrightarrow> delete_orphans del zs db =
     (length (filter (\<lambda>z. \<not> del z) zs),
      db\<lparr>gd_zones := filter (\<lambda>(g, z). z \<in> set zs \<longrightarrow> del z) (gd_zones db)\<rparr>)"
proof (induction zs arbitrary: db)
  case (Cons z zs)
  then show ?case
    by (cases "del z") (auto intro!: zones_cong)
qed simp


text \<open>The operations of the administrators and the background job, and their runs.\<close>

datatype group_op =
    OpCreateGroup string string "string list" "string list" | OpUpdateGroup string string string
  | OpDeleteGroup string | OpBulkDeleteGroups "int \<Rightarrow> bool" "string list"
  | OpAddMember string string | OpRemoveMember string string
  | OpAddZone string string | OpRemoveZone string string
  | OpReconcile "string list option" "string \<Rightarrow> bool"

fun group_step :: "group_faults \<Rightarrow> time \<Rightarrow> int option \<Rightarrow> group_op \<Rightarrow> group_db \<Rightarrow> group_db" where
  "group_step gf now actor (OpCreateGroup name descr us zs) db = snd (create_group gf now actor name descr us zs db)"
| "group_step gf now actor (OpUpdateGroup gt name descr) db = snd (update_group gf now actor gt name descr db)"
| "group_step gf now actor (OpDeleteGroup gt) db = snd (delete_group gf now actor gt db)"
| "group_step gf now actor (OpBulkDeleteGroups fails form) db = snd (bulk_delete_groups gf fails now actor form db)"
| "group_step gf now actor (OpAddMember gt ut) db = snd (add_member_to_group gf now actor gt ut db)"
| "group_step gf now actor (OpRemoveMember gt ut) db = snd (remove_member_from_group gf now actor gt ut db)"
| "group_step gf now actor (OpAddZone gt zt) db = snd (add_zone_to_group gf now actor gt zt db)"
| "group_step gf now actor (OpRemoveZone gt zt) db = snd (remove_zone_from_group gf now actor gt zt db)"
| "group_step gf now actor (OpReconcile listing del) db =
     db\<lparr>gb_grants := snd (reconcile_group_zones listing (gf_query gf) del (gb_grants db))\<rparr>"

definition group_run :: "(group_faults \<times> time \<times> int option \<times> group_op) list \<Rightarrow> group_db \<Rightarrow> group_db" where
  "group_run ops db = fold (\<lambda>(gf, now, actor, op). group_step gf now actor op) ops db"

lemma reconcile_filters:
  "\<exists>P. snd (reconcile_group_zones listing qf del db) = db\<lparr>gd_zones := filter P (gd_zones db)\<rparr>"
proof -
  have "\<exists>P. db = db\<lparr>gd_zones := filter P (gd_zones db)\<rparr>" by (rule exI [of _ "\<lambda>_. True"]) simp
  moreover have "\<exists>P. snd (delete_orphans del zs db) = db\<lparr>gd_zones := filter P (gd_zones db)\<rparr>" if "distinct zs" for zs
    using that by (auto simp: delete_orphans_spec)
  ultimately show ?thesis
    by (auto simp: reconcile_group_zones_def reconcile_with_list_def distinct_group_zone_ids_def Let_def
        split: option.split prod.split) (metis distinct_filter distinct_remdups snd_conv)
qed

lemma group_step_ok: "group_db_ok db \<Longrightarrow> group_db_ok (group_step gf now actor op db)"
proof (cases op)
  case (OpReconcile listing del)
  assume ok: "group_db_ok db"
  obtain P where "snd (reconcile_group_zones listing (gf_query gf) del (gb_grants db))
      = (gb_grants db)\<lparr>gd_zones := filter P (gd_zones (gb_grants db))\<rparr>"
    using reconcile_filters by blast
  with OpReconcile ok grants_distinct [OF ok] show ?thesis
    by (auto intro!: subset_grants_ok)
qed (simp_all add: create_group_ok update_group_ok delete_group_ok bulk_delete_groups_ok member_ops_ok)

lemma group_run_ok: "group_db_ok db \<Longrightarrow> group_db_ok (group_run ops db)"
  by (induction ops arbitrary: db) (auto simp: group_run_def group_step_ok)

text \<open>C35: The group tables are well formed after any sequence of group operations, whatever
  statements fail: identifiers and names are unique and no name is empty, no row is doubled, every
  membership joins an existing user to an existing group, and every grant is for an existing group
  and a zone name in canonical form.\<close>

theorem group_tables_ok:
  assumes "group_db_ok db"
  shows "let db' = group_run ops db in
     distinct (map gr_id (gb_groups db')) \<and> distinct (map gr_name (gb_groups db'))
     \<and> [] \<notin> set (map gr_name (gb_groups db'))
     \<and> distinct (gd_members (gb_grants db')) \<and> distinct (gd_zones (gb_grants db'))
     \<and> (\<forall>(g, u)\<in>set (gd_members (gb_grants db')). group_exists g db' \<and> user_exists db' u)
     \<and> (\<forall>(g, z)\<in>set (gd_zones (gb_grants db')). group_exists g db' \<and> z \<noteq> [] \<and> normalize_zone_name z = z)"
  using group_run_ok [OF assms, of ops]
  by (auto simp: group_db_ok_def groups_ok_def grants_ok_def Let_def)

definition no_group_faults :: group_faults where
  "no_group_faults = \<lparr>gf_write = False, gf_query = False, gf_member = (\<lambda>_. False), gf_zone = (\<lambda>_. False),
     gf_log = False, gf_fk_reported = True\<rparr>"

definition empty_group_db :: group_db where
  "empty_group_db = \<lparr>gb_groups = [], gb_next = 1, gb_grants = \<lparr>gd_members = [], gd_zones = []\<rparr>,
     gb_accounts = \<lparr>adb_users = [], adb_next_user = 1, adb_history = [], adb_next_history = 1,
       adb_attempts = [], adb_log = []\<rparr>\<rparr>"

lemma empty_group_db_ok: "group_db_ok empty_group_db"
  by (simp add: empty_group_db_def group_db_ok_def groups_ok_def grants_ok_def)

theorem group_tables_ok_witness:
  "let db' = group_run [(no_group_faults, 0, None, OpCreateGroup '' ops '' [] [''7''] ['' Example.COM'', ''example.com.''])] empty_group_db
   in map gr_name (gb_groups db') = [''ops''] \<and> gd_zones (gb_grants db') = [(1, ''example.com.'')]
      \<and> distinct (map gr_id (gb_groups db'))"
proof -
  have "let db' = group_run [(no_group_faults, 0, None, OpCreateGroup '' ops '' [] [''7''] ['' Example.COM'', ''example.com.''])] empty_group_db
   in map gr_name (gb_groups db') = [''ops''] \<and> gd_zones (gb_grants db') = [(1, ''example.com.'')]"
    by code_simp
  with group_tables_ok [OF empty_group_db_ok,
      of "[(no_group_faults, 0, None, OpCreateGroup '' ops '' [] [''7''] ['' Example.COM'', ''example.com.''])]"]
  show ?thesis by (simp only: Let_def)
qed

subsection \<open>Access\<close>

text \<open>C21: What the group pages do to access.  Granting a zone gives it, under its canonical name, to
  the members of the group and to nobody else; removing it takes it only from those who have no
  other group with it; adding a member gives him what the group has, removing him takes what he
  has through no other group; and a deleted group gives nothing.\<close>

theorem group_access_exact:
  assumes "group_db_ok db" "atoi gt = Some gid" "group_exists gid db"
  shows "(let zone = normalize_zone_name (trim_space zt) in
      zone \<noteq> [] \<and> \<not> gf_zone gf zone \<longrightarrow>
      (has_grant (gb_grants (snd (add_zone_to_group gf now actor gt zt db))) u z \<longleftrightarrow>
       has_grant (gb_grants db) u z \<or> z = zone \<and> (gid, u) \<in> set (gd_members (gb_grants db))))
    \<and> (\<not> gf_write gf \<longrightarrow>
      (has_grant (gb_grants (snd (remove_zone_from_group gf now actor gt zt db))) u z \<longleftrightarrow>
       (\<exists>g. (g, u) \<in> set (gd_members (gb_grants db)) \<and> (g, z) \<in> set (gd_zones (gb_grants db))
          \<and> (g \<noteq> gid \<or> z \<noteq> normalize_zone_name zt))))
    \<and> (positive_id ut = Some uid \<and> user_exists db uid \<and> \<not> gf_query gf \<and> \<not> gf_member gf uid \<longrightarrow>
      (has_grant (gb_grants (snd (add_member_to_group gf now actor gt ut db))) u z \<longleftrightarrow>
       has_grant (gb_grants db) u z \<or> u = uid \<and> (gid, z) \<in> set (gd_zones (gb_grants db))))
    \<and> (positive_id ut = Some uid \<and> \<not> gf_write gf \<longrightarrow>
      (has_grant (gb_grants (snd (remove_member_from_group gf now actor gt ut db))) u z \<longleftrightarrow>
       (\<exists>g. (g, u) \<in> set (gd_members (gb_grants db)) \<and> (g, z) \<in> set (gd_zones (gb_grants db))
          \<and> (g \<noteq> gid \<or> u \<noteq> uid))))
    \<and> (0 < gid \<and> \<not> gf_write gf \<longrightarrow>
      (has_grant (gb_grants (snd (delete_group gf now actor gt db))) u z \<longleftrightarrow>
       (\<exists>g. g \<noteq> gid \<and> (g, u) \<in> set (gd_members (gb_grants db)) \<and> (g, z) \<in> set (gd_zones (gb_grants db)))))"
proof (intro conjI impI)
  show "let zone = normalize_zone_name (trim_space zt) in
      zone \<noteq> [] \<and> \<not> gf_zone gf zone \<longrightarrow>
      (has_grant (gb_grants (snd (add_zone_to_group gf now actor gt zt db))) u z \<longleftrightarrow>
       has_grant (gb_grants db) u z \<or> z = zone \<and> (gid, u) \<in> set (gd_members (gb_grants db)))"
    using assms by (auto simp: add_zone_to_group_def insert_zone_def has_grant_iff Let_def)
next
  assume "\<not> gf_write gf"
  then show "has_grant (gb_grants (snd (remove_zone_from_group gf now actor gt zt db))) u z \<longleftrightarrow>
       (\<exists>g. (g, u) \<in> set (gd_members (gb_grants db)) \<and> (g, z) \<in> set (gd_zones (gb_grants db))
          \<and> (g \<noteq> gid \<or> z \<noteq> normalize_zone_name zt))"
    using assms by (auto simp: remove_zone_from_group_def has_grant_iff Let_def)
next
  assume a: "positive_id ut = Some uid \<and> user_exists db uid \<and> \<not> gf_query gf \<and> \<not> gf_member gf uid"
  have "existing_user_ids (query_existing_user_ids (gf_query gf) db) [uid] = Some [uid]"
    using a by (simp add: query_existing_user_ids_def existing_user_id_batch_size_def)
  with a assms show "has_grant (gb_grants (snd (add_member_to_group gf now actor gt ut db))) u z \<longleftrightarrow>
       has_grant (gb_grants db) u z \<or> u = uid \<and> (gid, z) \<in> set (gd_zones (gb_grants db))"
    by (auto simp: add_member_to_group_def insert_member_def has_grant_iff Let_def
        simp del: existing_user_ids.simps)
next
  assume a: "positive_id ut = Some uid \<and> \<not> gf_write gf"
  with assms show "has_grant (gb_grants (snd (remove_member_from_group gf now actor gt ut db))) u z \<longleftrightarrow>
       (\<exists>g. (g, u) \<in> set (gd_members (gb_grants db)) \<and> (g, z) \<in> set (gd_zones (gb_grants db))
          \<and> (g \<noteq> gid \<or> u \<noteq> uid))"
    by (auto simp: remove_member_from_group_def has_grant_iff)
next
  assume "0 < gid \<and> \<not> gf_write gf"
  with assms show "has_grant (gb_grants (snd (delete_group gf now actor gt db))) u z \<longleftrightarrow>
       (\<exists>g. g \<noteq> gid \<and> (g, u) \<in> set (gd_members (gb_grants db)) \<and> (g, z) \<in> set (gd_zones (gb_grants db)))"
    by (auto simp: delete_group_def delete_group_row_def has_grant_iff)
qed

definition sample_group_db :: group_db where
  "sample_group_db = empty_group_db\<lparr>gb_groups := [\<lparr>gr_id = 1, gr_name = ''ops'', gr_description = []\<rparr>], gb_next := 2\<rparr>"

lemma sample_group_db_ok: "group_db_ok sample_group_db"
  by (simp add: sample_group_db_def empty_group_db_def group_db_ok_def groups_ok_def grants_ok_def)

lemma sample_group_exists: "atoi ''1'' = Some 1" "group_exists 1 sample_group_db"
  by (code_simp, simp add: group_exists_def sample_group_db_def)

theorem group_access_exact_witness:
  "\<not> has_grant (gb_grants (snd (delete_group no_group_faults 0 None ''1'' sample_group_db))) 7 ''example.com.''"
  using group_access_exact [OF sample_group_db_ok sample_group_exists, of "[]" no_group_faults 0 None 7 "''example.com.''" "[]" 7]
  by (simp add: no_group_faults_def sample_group_db_def empty_group_db_def)

text \<open>A zone whose PowerDNS identifier is not in lower case cannot be granted: grants are stored
  in canonical form and compared with the identifier as PowerDNS spells it, so no sequence of group
  operations gives any user the zone, and the grant that was meant for it counts as orphaned in the
  next reconciliation.\<close>

theorem capital_zone_id_ungrantable:
  assumes "group_db_ok db" "normalize_zone_name zid \<noteq> zid"
  shows "\<not> has_grant (gb_grants (group_run ops db)) uid zid
    \<and> (normalize_zone_name zid \<in> set (map snd (gd_zones gs)) \<and> length (gd_zones gs) \<le> 10 \<longrightarrow>
       normalize_zone_name zid \<notin> set (map snd (gd_zones (snd
         (reconcile_group_zones (Some [zid]) False (\<lambda>_. False) gs)))))"
proof
  show "\<not> has_grant (gb_grants (group_run ops db)) uid zid"
    using group_run_ok [OF assms(1), of ops] assms(2)
    by (auto simp: group_db_ok_def grants_ok_def has_grant_iff)
  show "normalize_zone_name zid \<in> set (map snd (gd_zones gs)) \<and> length (gd_zones gs) \<le> 10 \<longrightarrow>
       normalize_zone_name zid \<notin> set (map snd (gd_zones (snd
         (reconcile_group_zones (Some [zid]) False (\<lambda>_. False) gs))))"
  proof (intro impI, elim conjE)
    assume g: "normalize_zone_name zid \<in> set (map snd (gd_zones gs))" "length (gd_zones gs) \<le> 10"
    let ?o = "filter (\<lambda>z. z \<notin> set [zid]) (remdups (map snd (gd_zones gs)))"
    have "length ?o \<le> 10"
      by (rule order.trans [OF length_filter_le order.trans [OF length_remdups_leq]]) (use g(2) in simp)
    moreover have "gd_zones gs \<noteq> []" using g(1) by auto
    ultimately show "normalize_zone_name zid \<notin> set (map snd (gd_zones (snd
         (reconcile_group_zones (Some [zid]) False (\<lambda>_. False) gs))))"
      using assms(2) by (force simp: reconcile_group_zones_def reconcile_with_list_def
          distinct_group_zone_ids_def mass_revocation_def reconcile_orphan_small_set_bound_def
          delete_orphans_spec Let_def image_iff)
  qed
qed

theorem capital_zone_id_ungrantable_witness:
  "\<not> has_grant (gb_grants (group_run [] sample_group_db)) 7 ''0=2F25.b.''
   \<and> ''0=2f25.b.'' \<notin> set (map snd (gd_zones (snd
       (reconcile_group_zones (Some [''0=2F25.b.'']) False (\<lambda>_. False)
         \<lparr>gd_members = [], gd_zones = [(1, ''0=2f25.b.'')]\<rparr>))))"
proof -
  have n: "normalize_zone_name ''0=2F25.b.'' = ''0=2f25.b.''" by code_simp
  show ?thesis
    using capital_zone_id_ungrantable [OF sample_group_db_ok, of "''0=2F25.b.''" "[]" 7
        "\<lparr>gd_members = [], gd_zones = [(1, ''0=2f25.b.'')]\<rparr>"]
    by (simp add: n)
qed

text \<open>A revocation that failed is reported as done.  When the statement that removes a member or
  a grant fails, nothing is removed, but the administrator gets the page of a successful removal
  and the activity log says that the access was revoked.\<close>

theorem failed_revocation_reported_done:
  "let bad = gf\<lparr>gf_write := True\<rparr>; good = gf\<lparr>gf_write := False\<rparr> in
     gb_grants (snd (remove_member_from_group bad now actor gt ut db)) = gb_grants db
     \<and> gb_grants (snd (remove_zone_from_group bad now actor gt zt db)) = gb_grants db
     \<and> fst (remove_member_from_group bad now actor gt ut db) = fst (remove_member_from_group good now actor gt ut db)
     \<and> fst (remove_zone_from_group bad now actor gt zt db) = fst (remove_zone_from_group good now actor gt zt db)
     \<and> gb_accounts (snd (remove_member_from_group bad now actor gt ut db))
       = gb_accounts (snd (remove_member_from_group good now actor gt ut db))
     \<and> gb_accounts (snd (remove_zone_from_group bad now actor gt zt db))
       = gb_accounts (snd (remove_zone_from_group good now actor gt zt db))"
  by (simp add: remove_member_from_group_def remove_zone_from_group_def group_log_def Let_def split: option.split)

text \<open>The batches: asking in blocks of 500 finds what one query would find.\<close>

lemma existing_user_ids_exact:
  "existing_user_ids (query_existing_user_ids False db) ids = Some (filter (user_exists db) ids)"
proof (induction ids rule: length_induct)
  case (1 ids)
  show ?case
  proof (cases "ids = []")
    case False
    have "length (drop existing_user_id_batch_size ids) < length ids"
      using False by (simp add: existing_user_id_batch_size_def)
    with 1 have "existing_user_ids (query_existing_user_ids False db) (drop existing_user_id_batch_size ids)
        = Some (filter (user_exists db) (drop existing_user_id_batch_size ids))" by blast
    then show ?thesis using False
      by (subst existing_user_ids.simps)
        (simp add: query_existing_user_ids_def filter_append [symmetric] del: existing_user_ids.simps filter_append)
  qed (simp add: query_existing_user_ids_def)
qed

end
