(* ===== verification/Templates.thy ===== *)
theory Templates
  imports WebRecords ZoneImport Accounts
begin

section \<open>Zone templates\<close>

text \<open>
  Models \<^verbatim>\<open>internal/handlers/templates.go\<close>: the stored templates, the substitution of their
  variables and the application of a template to a zone.  A template's rows come from the
  database ordered by type and name; \<open>tf_typed\<close> says that the database refuses a text that is no
  number for an integer column (PostgreSQL), where the others find no row.  Go's \<^verbatim>\<open>strings.Replacer\<close> scans the text once and
  takes, at each place, the first pair whose pattern stands there.  How each statement ends is an
  argument.
\<close>

subsection \<open>Tables\<close>

record template_record =
  tr_id :: int
  tr_template :: int
  tr_name :: string
  tr_type :: string
  tr_content :: string
  tr_ttl :: int
  tr_priority :: int
  tr_disabled :: bool

record zone_template =
  tp_id :: int
  tp_name :: string
  tp_description :: string
  tp_builtin :: bool

record template_db =
  td_templates :: "zone_template list"
  td_next :: int
  td_records :: "template_record list"
  td_next_record :: int
  td_accounts :: account_db

record template_faults =
  tf_write :: bool
  tf_query :: bool
  tf_log :: bool
  tf_typed :: bool

datatype template_reply =
    TemplateNameRequired | TemplateNameTaken | TemplateServerError | TemplateBuiltin | TemplateNoneSelected
  | TemplateBadRecord | TemplateEdit string | TemplateList | TemplateBulk nat "int list"

definition find_template :: "int \<Rightarrow> template_db \<Rightarrow> zone_template option" where
  "find_template tid db = find (\<lambda>t. tp_id t = tid) (td_templates db)"

text \<open>A path value is compared with the integer column by the database.\<close>

definition template_by_text :: "string \<Rightarrow> template_db \<Rightarrow> zone_template option" where
  "template_by_text s db = (case atoi s of None \<Rightarrow> None | Some tid \<Rightarrow> find_template tid db)"

definition get_template_records :: "bool \<Rightarrow> int \<Rightarrow> template_db \<Rightarrow> template_record list" where
  "get_template_records fails tid db =
     (if fails then []
      else sort_key tr_type (sort_key tr_name (filter (\<lambda>r. tr_template r = tid) (td_records db))))"

definition get_template_name :: "bool \<Rightarrow> int \<Rightarrow> template_db \<Rightarrow> string" where
  "get_template_name fails tid db =
     (if fails then [] else case find_template tid db of None \<Rightarrow> [] | Some t \<Rightarrow> tp_name t)"

definition template_label_for :: "bool \<Rightarrow> int \<Rightarrow> string \<Rightarrow> template_db \<Rightarrow> string" where
  "template_label_for fails tid text db =
     (let name = get_template_name fails tid db in if name \<noteq> [] then name else ''#'' @ text)"

definition template_log ::
  "template_faults \<Rightarrow> time \<Rightarrow> int option \<Rightarrow> string \<Rightarrow> string \<Rightarrow> template_db \<Rightarrow> template_db" where
  "template_log tf now actor action details db =
     db\<lparr>td_accounts := add_log_try (tf_log tf) now actor action details (td_accounts db)\<rparr>"

subsection \<open>Administration\<close>

definition create_template ::
  "template_faults \<Rightarrow> time \<Rightarrow> int option \<Rightarrow> string \<Rightarrow> string \<Rightarrow> template_db \<Rightarrow> template_reply \<times> template_db" where
  "create_template tf now actor name0 description db =
     (let name = trim_space name0; tid = td_next db in
      if name = [] then (TemplateNameRequired, db)
      else if tf_write tf then (TemplateServerError, db)
      else if list_ex (\<lambda>t. tp_name t = name) (td_templates db) then (TemplateNameTaken, db)
      else (TemplateEdit (dec_int tid),
        template_log tf now actor ''create_template''
          (''Created template '' @ name @ '' (id: '' @ dec_int tid @ '')'')
          (db\<lparr>td_templates := td_templates db @ [\<lparr>tp_id = tid, tp_name = name,
                tp_description = trim_space description, tp_builtin = False\<rparr>], td_next := tid + 1\<rparr>)))"

definition update_template ::
  "template_faults \<Rightarrow> time \<Rightarrow> int option \<Rightarrow> string \<Rightarrow> string \<Rightarrow> string \<Rightarrow> template_db
   \<Rightarrow> template_reply \<times> template_db" where
  "update_template tf now actor text name0 description db =
     (let name = trim_space name0 in
      if name = [] then (TemplateNameRequired, db)
      else if tf_write tf \<or> tf_typed tf \<and> atoi text = None then (TemplateServerError, db)
      else case template_by_text text db of
        Some t \<Rightarrow>
          if list_ex (\<lambda>t'. tp_name t' = name \<and> tp_id t' \<noteq> tp_id t) (td_templates db) then (TemplateNameTaken, db)
          else (TemplateEdit text,
            template_log tf now actor ''update_template'' (''Updated template '' @ name @ '' (id: '' @ text @ '')'')
              (db\<lparr>td_templates := map (\<lambda>t'. if tp_id t' = tp_id t
                    then t'\<lparr>tp_name := name, tp_description := trim_space description\<rparr> else t') (td_templates db)\<rparr>))
      | None \<Rightarrow> (TemplateEdit text,
          template_log tf now actor ''update_template'' (''Updated template '' @ name @ '' (id: '' @ text @ '')'') db))"

definition delete_template_row :: "int \<Rightarrow> template_db \<Rightarrow> template_db" where
  "delete_template_row tid db =
     db\<lparr>td_templates := filter (\<lambda>t. tp_id t \<noteq> tid) (td_templates db),
        td_records := filter (\<lambda>r. tr_template r \<noteq> tid) (td_records db)\<rparr>"

text \<open>The label of the log entry is looked up under the number zero.\<close>

definition delete_template ::
  "template_faults \<Rightarrow> time \<Rightarrow> int option \<Rightarrow> string \<Rightarrow> template_db \<Rightarrow> template_reply \<times> template_db" where
  "delete_template tf now actor text db =
     (case (if tf_query tf then None else template_by_text text db) of
        None \<Rightarrow> (TemplateServerError, db)
      | Some t \<Rightarrow>
          if tp_builtin t then (TemplateBuiltin, db)
          else if tf_write tf then (TemplateServerError, db)
          else let db1 = delete_template_row (tp_id t) db in
            (TemplateList, template_log tf now actor ''delete_template''
               (''Deleted template '' @ template_label_for False 0 text db1 @ '' (id: '' @ text @ '')'') db1))"

fun bulk_delete_templates_loop ::
  "template_faults \<Rightarrow> (int \<Rightarrow> bool) \<Rightarrow> time \<Rightarrow> int option \<Rightarrow> int list \<Rightarrow> template_db
   \<Rightarrow> nat \<times> int list \<times> template_db" where
  "bulk_delete_templates_loop tf fails now actor [] db = (0, [], db)"
| "bulk_delete_templates_loop tf fails now actor (tid # tids) db =
     (if fails tid \<or> (case find_template tid db of None \<Rightarrow> True | Some t \<Rightarrow> tp_builtin t) then
        (case bulk_delete_templates_loop tf fails now actor tids db of (n, failed, db') \<Rightarrow> (n, tid # failed, db'))
      else case bulk_delete_templates_loop tf fails now actor tids
             (template_log tf now actor ''delete_template'' (''Deleted template id '' @ dec_int tid @ '' (bulk)'')
               (delete_template_row tid db)) of
        (n, failed, db') \<Rightarrow> (Suc n, failed, db'))"

definition bulk_delete_templates ::
  "template_faults \<Rightarrow> (int \<Rightarrow> bool) \<Rightarrow> time \<Rightarrow> int option \<Rightarrow> string list \<Rightarrow> template_db
   \<Rightarrow> template_reply \<times> template_db" where
  "bulk_delete_templates tf fails now actor form db =
     (let tids = bulk_ids [] form in
      if tids = [] then (TemplateNoneSelected, db)
      else case bulk_delete_templates_loop tf fails now actor tids db of
        (n, failed, db') \<Rightarrow> (TemplateBulk n failed, db'))"

definition has_placeholder :: "string \<Rightarrow> bool" where
  "has_placeholder s \<longleftrightarrow> list_ex (\<lambda>i. has_prefix (drop i s) ''{{'') [0..<length s]"

definition parse_template_record_form :: "web_form \<Rightarrow> string \<Rightarrow> template_record option" where
  "parse_template_record_form f text =
     (let name = trim_space (form_value f ''name'');
          rtype = canonical_record_type (form_value f ''type'');
          content = trim_space (form_value f ''content'')
      in case parse_ttl_field (form_value f ''ttl'') of
        None \<Rightarrow> None
      | Some ttl \<Rightarrow>
          (case parse_priority_field (form_value f ''priority'') of
             None \<Rightarrow> None
           | Some priority \<Rightarrow>
               if validate_record_type rtype \<noteq> None \<or> validate_record_priority rtype priority \<noteq> None
                  \<or> \<not> has_placeholder name \<and> validate_record_name name \<noteq> None
                  \<or> \<not> has_placeholder content \<and> validate_record_content rtype content \<noteq> None
               then None
               else Some \<lparr>tr_id = 0, tr_template = atoi_value text, tr_name = name, tr_type = rtype,
                 tr_content = content, tr_ttl = if ttl = 0 then 3600 else ttl, tr_priority = priority,
                 tr_disabled = form_value f ''disabled'' = ''on''\<rparr>))"

definition add_template_record ::
  "template_faults \<Rightarrow> time \<Rightarrow> int option \<Rightarrow> string \<Rightarrow> web_form \<Rightarrow> template_db \<Rightarrow> template_reply \<times> template_db" where
  "add_template_record tf now actor text f db =
     (case parse_template_record_form f text of
        None \<Rightarrow> (TemplateBadRecord, db)
      | Some r \<Rightarrow>
          if tf_write tf \<or> find_template (tr_template r) db = None then (TemplateServerError, db)
          else let db1 = db\<lparr>td_records := td_records db @ [r\<lparr>tr_id := td_next_record db\<rparr>],
                            td_next_record := td_next_record db + 1\<rparr> in
            (TemplateEdit text, template_log tf now actor ''add_template_record''
               (''Added '' @ tr_type r @ '' record '' @ tr_name r @ '' to template ''
                 @ template_label_for False (tr_template r) text db1) db1))"

definition delete_template_record ::
  "template_faults \<Rightarrow> time \<Rightarrow> int option \<Rightarrow> string \<Rightarrow> string \<Rightarrow> template_db \<Rightarrow> template_reply \<times> template_db" where
  "delete_template_record tf now actor text record_text db =
     (if tf_write tf \<or> tf_typed tf \<and> (atoi text = None \<or> atoi record_text = None) then (TemplateServerError, db)
      else
        let db1 = db\<lparr>td_records := filter (\<lambda>r. \<not> (Some (tr_id r) = atoi record_text
                    \<and> Some (tr_template r) = atoi text)) (td_records db)\<rparr>
        in (TemplateEdit text, template_log tf now actor ''delete_template_record''
              (''Deleted record '' @ record_text @ '' from template '' @ template_label_for False 0 text db1) db1))"

subsection \<open>Variables\<close>

definition template_variables :: "string list" where
  "template_variables =
     [''ZONE'', ''IP'', ''IP6'', ''MX_HOST'', ''TTL'', ''REFRESH'', ''RETRY'', ''EXPIRE'', ''MINIMUM'']"

definition template_var_defaults :: "(string \<times> string) list" where
  "template_var_defaults =
     [(''REFRESH'', ''10800''), (''RETRY'', ''3600''), (''EXPIRE'', ''604800''), (''MINIMUM'', ''3600'')]"

type_synonym template_vars = "(string \<times> string) list"

definition collect_template_vars :: "web_form \<Rightarrow> template_vars" where
  "collect_template_vars f =
     concat (map (\<lambda>v. let val = trim_space (form_value f (''var_'' @ v)) in if val = [] then [] else [(v, val)])
       template_variables)"

text \<open>The value of a variable after the merge of the defaults under the given ones.\<close>

definition merged_var :: "template_vars \<Rightarrow> string \<Rightarrow> string option" where
  "merged_var vars v =
     (case map_of vars v of
        Some val \<Rightarrow> if val = [] then map_of template_var_defaults v else Some val
      | None \<Rightarrow> map_of template_var_defaults v)"

definition template_var_pairs :: "template_vars \<Rightarrow> (string \<times> string) list" where
  "template_var_pairs vars =
     (let extras = sort (filter (\<lambda>v. v \<notin> set template_variables \<and> merged_var vars v \<noteq> None)
                (remdups (map fst vars)))
      in List.map_filter (\<lambda>v. map_option (Pair v) (merged_var vars v)) (template_variables @ extras))"

definition placeholder :: "string \<Rightarrow> string" where
  "placeholder v = ''{{'' @ v @ ''}}''"

function replace_vars :: "(string \<times> string) list \<Rightarrow> string \<Rightarrow> string" where
  "replace_vars ps s =
     (case s of [] \<Rightarrow> []
      | c # cs \<Rightarrow>
          (case find (\<lambda>(v, val). has_prefix s (placeholder v)) ps of
             None \<Rightarrow> c # replace_vars ps cs
           | Some (v, val) \<Rightarrow> val @ replace_vars ps (drop (length (placeholder v)) s)))"
  by pat_completeness auto
termination
  by (relation "measure (\<lambda>(ps, s). length s)") (auto simp: placeholder_def)

definition var_char :: "char \<Rightarrow> bool" where
  "var_char c \<longleftrightarrow> is_upper c \<or> is_digit c \<or> c = CHR ''_''"

text \<open>The variables of the placeholders left in a text, from left to right.\<close>

function leftover_vars :: "string \<Rightarrow> string list" where
  "leftover_vars s =
     (case s of [] \<Rightarrow> []
      | c # cs \<Rightarrow>
          (let v = takeWhile var_char (drop 2 s) in
           if has_prefix s ''{{'' \<and> v \<noteq> [] \<and> has_prefix (drop (2 + length v) s) ''}}''
           then v # leftover_vars (drop (4 + length v) s)
           else leftover_vars cs))"
  by pat_completeness auto
termination
  by (relation "measure length") (auto split: if_splits)

declare replace_vars.simps [simp del] leftover_vars.simps [simp del]

subsection \<open>Substitution\<close>

datatype template_error = TeInvalid nat validation_error | TeMissing "string list"

definition template_owner :: "string \<Rightarrow> string \<Rightarrow> string" where
  "template_owner zone_id name =
     (if name = ''@'' then zone_id else if \<not> has_suffix name ''.'' then name @ ''.'' @ zone_id else name)"

definition template_row :: "string \<Rightarrow> template_vars \<Rightarrow> template_record \<Rightarrow> rrset \<times> string list \<times> verdict" where
  "template_row zone_id vars r =
     (let rtype = canonical_record_type (tr_type r);
          name0 = replace_vars (template_var_pairs vars) (tr_name r);
          content = replace_vars (template_var_pairs vars) (tr_content r);
          missing = leftover_vars (name0 @ '' '' @ content);
          name = template_owner zone_id name0;
          bad = (if missing = [] then validate_parsed_record rtype name content (tr_priority r) else None)
      in case prepare_record_content rtype content (tr_priority r) of
        (c, p) \<Rightarrow>
          (\<lparr>rr_name = name, rr_type = rtype, rr_ttl = tr_ttl r, rr_changetype = [],
            rr_records = [plain_record c p (tr_disabled r)], rr_comments = None\<rparr>, missing, bad))"

fun template_rows ::
  "string \<Rightarrow> template_vars \<Rightarrow> nat \<Rightarrow> template_record list \<Rightarrow> template_error + (rrset list \<times> string list)" where
  "template_rows zone_id vars i [] = Inr ([], [])"
| "template_rows zone_id vars i (r # rs) =
     (case template_row zone_id vars r of
        (rr, missing, bad) \<Rightarrow>
          (case bad of
             Some e \<Rightarrow> Inl (TeInvalid (i + 1) e)
           | None \<Rightarrow>
               (case template_rows zone_id vars (i + 1) rs of
                  Inl e \<Rightarrow> Inl e
                | Inr (rrs, ms) \<Rightarrow> Inr (rr # rrs, missing @ ms))))"

definition template_group :: "rrset list \<Rightarrow> string \<Rightarrow> rrset" where
  "template_group rrs k =
     (let mine = filter (\<lambda>rr. rrset_key_string rr = k) rrs
      in (hd mine)\<lparr>rr_records := dedup_records_by_content (concat (map rr_records mine))\<rparr>)"

definition group_template_rrsets :: "rrset list \<Rightarrow> rrset list" where
  "group_template_rrsets rrs =
     (if length rrs < 2 then rrs
      else map (template_group rrs) (first_keys [] (map rrset_key_string rrs)))"

definition substitute_template_records ::
  "string \<Rightarrow> template_record list \<Rightarrow> template_vars \<Rightarrow> template_error + rrset list" where
  "substitute_template_records zone_id records vars =
     (case template_rows zone_id vars 0 records of
        Inl e \<Rightarrow> Inl e
      | Inr (rrs, missing) \<Rightarrow>
          if missing \<noteq> [] then Inl (TeMissing (sort (remdups missing)))
          else Inr (group_template_rrsets rrs))"

subsection \<open>Application to a zone\<close>

definition read_form :: "rrset \<Rightarrow> rrset" where
  "read_form rr = rr\<lparr>rr_records := map (\<lambda>r.
     case split_priority (rr_type rr) (ri_content r) of
       (p, c, ok) \<Rightarrow> if ok then r\<lparr>ri_priority := p, ri_content := c\<rparr> else r) (rr_records rr)\<rparr>"

definition with_zone_var :: "string \<Rightarrow> template_vars \<Rightarrow> template_vars" where
  "with_zone_var zone vars = (if map_of vars ''ZONE'' = None then (''ZONE'', zone) # vars else vars)"

text \<open>What the application sends, from the template's rows and the listed record sets.\<close>

definition template_patch ::
  "string \<Rightarrow> template_record list \<Rightarrow> template_vars \<Rightarrow> rrset list \<Rightarrow> (template_error + web_error) + rrset list" where
  "template_patch zone records vars existing =
     (case substitute_template_records zone records (with_zone_var zone vars) of
        Inl e \<Rightarrow> Inl (Inl e)
      | Inr rrs \<Rightarrow>
          (case merge_batch_rrsets (map read_form rrs) existing of
             Inl e \<Rightarrow> Inl (Inr e)
           | Inr merged \<Rightarrow> Inr (finalize_batch_rrsets merged [])))"

datatype apply_reply =
    ApplyNoTemplate | ApplyNoRecords | ApplyRejected template_error | ApplyConflict web_error
  | ApplyFailed stage | ApplyDone string

definition apply_template_to_zone ::
  "'p pdns \<Rightarrow> (string \<Rightarrow> rrset list \<Rightarrow> 'p \<Rightarrow> bool \<times> 'p) \<Rightarrow> svc_faults \<Rightarrow> template_faults \<Rightarrow> user \<Rightarrow> string
   \<Rightarrow> web_form \<Rightarrow> template_db \<Rightarrow> 'p svc \<Rightarrow> apply_reply \<times> 'p svc" where
  "apply_template_to_zone pd patch sf tf user zone f db s =
     (case atoi (trim_space (form_value f ''template_id'')) of
        None \<Rightarrow> (ApplyNoTemplate, s)
      | Some tid \<Rightarrow>
          let records = get_template_records (tf_query tf) tid db in
          if records = [] then (ApplyNoRecords, s)
          else case substitute_template_records zone records (with_zone_var zone (collect_template_vars f)) of
            Inl e \<Rightarrow> (ApplyRejected e, s)
          | Inr _ \<Rightarrow>
              if sf_lock sf then (ApplyFailed StageLock, s)
              else case pd_list pd zone (sv_pdns s) of
                None \<Rightarrow> (ApplyFailed StageFetch, s)
              | Some existing \<Rightarrow>
                  (case template_patch zone records (collect_template_vars f) existing of
                     Inl (Inl e) \<Rightarrow> (ApplyRejected e, s)
                   | Inl (Inr e) \<Rightarrow> (ApplyConflict e, s)
                   | Inr out \<Rightarrow>
                       (case patch zone out (sv_pdns s) of
                          (ok, p) \<Rightarrow>
                            if \<not> ok then (ApplyFailed StagePatch, s\<lparr>sv_pdns := p\<rparr>)
                            else (ApplyDone (''/zones/'' @ zone), log_activity (sf_log sf)
                              \<lparr>ae_user_id = u_id user, ae_zone_id = Some zone, ae_action = ''apply_template'',
                               ae_details = ''Applied template '' @ trim_space (form_value f ''template_id''),
                               ae_old_list = None, ae_old = None, ae_new = None\<rparr> (s\<lparr>sv_pdns := p\<rparr>)))))"

subsection \<open>Built-in templates\<close>

definition builtin_row :: "string \<Rightarrow> string \<Rightarrow> string \<Rightarrow> int \<Rightarrow> int \<Rightarrow> template_record" where
  "builtin_row name rtype content ttl priority =
     \<lparr>tr_id = 0, tr_template = 0, tr_name = name, tr_type = rtype, tr_content = content, tr_ttl = ttl,
      tr_priority = priority, tr_disabled = False\<rparr>"

definition builtin_ns :: "template_record list" where
  "builtin_ns =
     [builtin_row ''@'' ''NS'' ''ns1.{{ZONE}}'' 86400 0, builtin_row ''@'' ''NS'' ''ns2.{{ZONE}}'' 86400 0]"

definition builtin_soa :: template_record where
  "builtin_soa = builtin_row ''@'' ''SOA'' ''ns1.{{ZONE}} hostmaster.{{ZONE}} 1 10800 3600 604800 3600'' 3600 0"

definition builtin_templates :: "(string \<times> string \<times> template_record list) list" where
  "builtin_templates =
     [(''standard'', ''SOA + NS records only'',
        builtin_row ''@'' ''SOA''
          ''ns1.{{ZONE}} hostmaster.{{ZONE}} 1 {{REFRESH}} {{RETRY}} {{EXPIRE}} {{MINIMUM}}'' 3600 0 # builtin_ns),
      (''mail'', ''SOA + NS + MX + SPF + DKIM + DMARC'',
        builtin_soa # builtin_ns
        @ [builtin_row ''@'' ''MX'' ''{{MX_HOST}}'' 3600 10, builtin_row ''@'' ''TXT'' ''v=spf1 mx ~all'' 3600 0,
           builtin_row ''*._domainkey'' ''TXT'' ''v=DKIM1; k=rsa; p=REPLACE_WITH_PUBLIC_KEY'' 3600 0,
           builtin_row ''_dmarc'' ''TXT'' (''v=DMARC1; p=none; rua=mailto:dmarc@'' @ ''{{ZONE}}'') 3600 0]),
      (''web'', ''SOA + NS + A/AAAA + CNAME www'',
        builtin_soa # builtin_ns
        @ [builtin_row ''@'' ''A'' ''{{IP}}'' 3600 0, builtin_row ''@'' ''AAAA'' ''{{IP6}}'' 3600 0,
           builtin_row ''www'' ''CNAME'' ''{{ZONE}}'' 3600 0]),
      (''redirect'', ''SOA + NS + A + URL redirect'',
        builtin_soa # builtin_ns @ [builtin_row ''@'' ''A'' ''{{IP}}'' 3600 0])]"

text \<open>The seed adds the templates whose name is not taken and stops at the first failed statement:
  the insert of the template, or of one of its records, after the ones before it are stored.\<close>

datatype seed_fault = SeedOk | SeedTemplateFails | SeedRecordFails nat

definition seed_one :: "string \<Rightarrow> string \<Rightarrow> template_record list \<Rightarrow> template_db \<Rightarrow> template_db" where
  "seed_one name desc recs db =
     (let tid = td_next db; rid = td_next_record db in
      db\<lparr>td_templates := td_templates db @
           [\<lparr>tp_id = tid, tp_name = name, tp_description = desc, tp_builtin = True\<rparr>],
         td_next := tid + 1,
         td_records := td_records db @
           map (\<lambda>(j, r). r\<lparr>tr_id := rid + int j, tr_template := tid\<rparr>) (enumerate 0 recs),
         td_next_record := rid + int (length recs)\<rparr>)"

fun seed_templates ::
  "(nat \<Rightarrow> seed_fault) \<Rightarrow> nat \<Rightarrow> (string \<times> string \<times> template_record list) list \<Rightarrow> template_db
   \<Rightarrow> bool \<times> template_db" where
  "seed_templates fl i [] db = (True, db)"
| "seed_templates fl i ((name, desc, recs) # bs) db =
     (if list_ex (\<lambda>t. tp_name t = name) (td_templates db) then seed_templates fl (Suc i) bs db
      else case fl i of
        SeedOk \<Rightarrow> seed_templates fl (Suc i) bs (seed_one name desc recs db)
      | SeedTemplateFails \<Rightarrow> (False, db)
      | SeedRecordFails n \<Rightarrow> (False, seed_one name desc (take n recs) db))"

definition seed_builtin_templates :: "(nat \<Rightarrow> seed_fault) \<Rightarrow> template_db \<Rightarrow> bool \<times> template_db" where
  "seed_builtin_templates fl db = seed_templates fl 0 builtin_templates db"

end
