(* ===== verification/WebZones.thy ===== *)
theory WebZones
  imports Templates Paging ZoneExport
begin

section \<open>Zone pages of the web interface\<close>

text \<open>
  Models \<^verbatim>\<open>internal/handlers/zones.go\<close>: the rows and the order of the zone view, its record
  search, the zone list, creation with a template, single and bulk deletion, rectification,
  notification, metadata and the link back from an error page.  The concurrent fetches of the
  zone view only read, so they are one read each.  The administrator check of these routes is
  the router's.
\<close>

subsection \<open>Rows of the zone view\<close>

record zone_record_row =
  zr_name :: string
  zr_type :: string
  zr_ttl :: int
  zr_comments :: "comment_patch option"
  zr_record :: record_info

definition flatten_records :: "rrset list \<Rightarrow> zone_record_row list" where
  "flatten_records rrs = concat (map (\<lambda>rr. map (\<lambda>rec.
     \<lparr>zr_name = rr_name rr, zr_type = rr_type rr, zr_ttl = rr_ttl rr, zr_comments = rr_comments rr,
      zr_record = rec\<rparr>) (rr_records rr)) rrs)"

definition count_records :: "rrset list \<Rightarrow> nat" where
  "count_records rrs = sum_list (map (\<lambda>rr. length (rr_records rr)) rrs)"

definition view_before :: "string \<Rightarrow> rrset \<Rightarrow> rrset \<Rightarrow> bool" where
  "view_before zone_name a b =
     (if rr_type a = ''SOA'' \<and> rr_type b \<noteq> ''SOA'' then True
      else if rr_type b = ''SOA'' \<and> rr_type a \<noteq> ''SOA'' then False
      else if rr_type a = ''NS'' \<and> rr_type b \<noteq> ''NS'' then True
      else if rr_type b = ''NS'' \<and> rr_type a \<noteq> ''NS'' then False
      else let a_is_apex = (rr_name a = zone_name); b_is_apex = (rr_name b = zone_name) in
        if a_is_apex \<and> \<not> b_is_apex then True
        else if \<not> a_is_apex \<and> b_is_apex then False
        else if rr_name a \<noteq> rr_name b then rr_name a < rr_name b
        else rr_type a < rr_type b)"

definition sort_zone_records :: "string \<Rightarrow> rrset list \<Rightarrow> rrset list" where
  "sort_zone_records zone_name = sort_stable (view_before zone_name)"

definition record_search :: "string \<Rightarrow> string \<Rightarrow> rrset \<Rightarrow> bool" where
  "record_search search zone_name rr =
     (let name = to_lower (rr_name rr); text = to_lower search in
      if search = ''@'' then name = to_lower zone_name
      else contains_str name text \<or> contains_str (to_lower (rr_type rr)) text
        \<or> list_ex (\<lambda>rec. contains_str (to_lower (ri_content rec)) text) (rr_records rr))"

definition zone_view_rows ::
  "string \<Rightarrow> string \<Rightarrow> string \<Rightarrow> string \<Rightarrow> rrset list \<Rightarrow> (zone_record_row list \<times> page_info) option" where
  "zone_view_rows search0 page_text per_page_text zone_name records =
     (let search = trim_space search0;
          found = (if search = [] then records else filter (record_search search zone_name) records);
          (page, per_page) = parse_pagination_params page_text per_page_text 10
      in paginate (flatten_records (sort_zone_records zone_name found)) page per_page)"

text \<open>The zone's activity: \<open>rows\<close> are its log rows, newest first.\<close>

definition activity_log_all_cap :: nat where
  "activity_log_all_cap = 1000"

definition zone_activity_logs :: "bool \<Rightarrow> bool \<Rightarrow> 'l list \<Rightarrow> int \<Rightarrow> int \<Rightarrow> 'l list \<times> int" where
  "zone_activity_logs count_fails query_fails rows page per_page =
     (if count_fails \<or> query_fails then ([], 0)
      else if per_page > 0 then
        (case fetch_page rows page per_page of None \<Rightarrow> ([], 0) | Some ls \<Rightarrow> (ls, int (length rows)))
      else (take activity_log_all_cap rows, int (length rows)))"

definition zone_page ::
  "'p pdns \<Rightarrow> string \<Rightarrow> string \<Rightarrow> string \<Rightarrow> string \<Rightarrow> 'p svc
   \<Rightarrow> stage + (zone \<times> (zone_record_row list \<times> page_info) option)" where
  "zone_page pd zone search page_text per_page_text s =
     (case pd_get_zone pd zone (sv_pdns s) of
        None \<Rightarrow> Inl StageZoneAccess
      | Some z \<Rightarrow>
          (case pd_list pd zone (sv_pdns s) of
             None \<Rightarrow> Inl StageFetch
           | Some records \<Rightarrow> Inr (z, zone_view_rows search page_text per_page_text (z_name z) records)))"

subsection \<open>The zone list\<close>

definition web_list_zones ::
  "query_end \<Rightarrow> (string \<Rightarrow> bool) \<Rightarrow> grant_db \<Rightarrow> user option \<Rightarrow> ('i \<Rightarrow> zone) \<Rightarrow> 'i list option
   \<Rightarrow> string \<Rightarrow> string \<Rightarrow> string \<Rightarrow> stage + ('i list \<times> page_info) option" where
  "web_list_zones q scans db user zone_of listed search0 page_text per_page_text =
     (case listed of
        None \<Rightarrow> Inl StageZoneList
      | Some zones \<Rightarrow>
          (case filter_zones_with_info_for_user q scans db user zone_of zones of
             Inl st \<Rightarrow> Inl st
           | Inr visible \<Rightarrow>
               let search = trim_space search0;
                   found = (if search = [] then visible
                     else filter (\<lambda>z. contains_str (to_lower (z_name (zone_of z))) (to_lower search)) visible);
                   (page, per_page) = parse_pagination_params page_text per_page_text 10
               in Inr (paginate found page per_page)))"

subsection \<open>Creation\<close>

datatype zone_reply =
    ZrNameRequired | ZrName validation_error | ZrKind validation_error | ZrRequest zone_create_error
  | ZrTemplateText string | ZrTemplateGone | ZrTemplateEmpty string
  | ZrCreateFailed | ZrTemplateFailed string "template_error option" | ZrCreated

definition comma_list :: "string \<Rightarrow> string list" where
  "comma_list s = filter (\<lambda>x. x \<noteq> []) (map trim_space (split_on CHR '','' s))"

definition default_kind :: "string \<Rightarrow> string" where
  "default_kind kind = (if kind = [] then ''Native'' else kind)"

definition zone_form_request :: "web_form \<Rightarrow> zone_reply + zone_create_request" where
  "zone_form_request f =
     (let name = trim_space (form_value f ''name'');
          kind = default_kind (trim_space (form_value f ''kind''));
          nameservers = trim_space (form_value f ''nameservers'');
          masters = trim_space (form_value f ''masters'')
      in if name = [] then Inl ZrNameRequired
         else case validate_domain_name name of
           Some e \<Rightarrow> Inl (ZrName e)
         | None \<Rightarrow>
             (case validate_zone_kind kind of
                Some e \<Rightarrow> Inl (ZrKind e)
              | None \<Rightarrow>
                  let req = \<lparr>zc_name = normalize_zone_name name, zc_kind = kind,
                        zc_nameservers = (if nameservers = [] then []
                          else map normalize_zone_name (comma_list nameservers)),
                        zc_masters = (if masters = [] then [] else comma_list masters), zc_catalog = []\<rparr>
                  in (case validate_zone_create req of Inl e \<Rightarrow> Inl (ZrRequest e) | Inr _ \<Rightarrow> Inr req)))"

text \<open>The rows of the selected template; none when no template is selected.\<close>

definition zone_form_template ::
  "template_faults \<Rightarrow> template_db \<Rightarrow> web_form \<Rightarrow> zone_reply + template_record list" where
  "zone_form_template tf db f =
     (let text = trim_space (form_value f ''template_id'') in
      if text = [] then Inr []
      else case atoi text of
        None \<Rightarrow> Inl (ZrTemplateText text)
      | Some tid \<Rightarrow>
          let label = get_template_name (tf_query tf) tid db;
              records = get_template_records (tf_query tf) tid db
          in if label = [] then Inl ZrTemplateGone
             else if records = [] then Inl (ZrTemplateEmpty label)
             else Inr records)"

definition web_create_zone ::
  "'p pdns \<Rightarrow> (string \<Rightarrow> rrset list \<Rightarrow> 'p \<Rightarrow> bool \<times> 'p) \<Rightarrow> svc_faults \<Rightarrow> template_faults \<Rightarrow> user
   \<Rightarrow> web_form \<Rightarrow> template_db \<Rightarrow> 'p svc \<Rightarrow> zone_reply \<times> 'p svc" where
  "web_create_zone pd patch sf tf user f db s =
     (case zone_form_request f of
        Inl e \<Rightarrow> (e, s)
      | Inr req \<Rightarrow>
          (case zone_form_template tf db f of
             Inl e \<Rightarrow> (e, s)
           | Inr records \<Rightarrow>
               (case pd_create_zone pd req (sv_pdns s) of
                  (None, p) \<Rightarrow> (ZrCreateFailed, s\<lparr>sv_pdns := p\<rparr>)
                | (Some z, p) \<Rightarrow>
                    let s1 = log_activity (sf_log sf)
                          \<lparr>ae_user_id = u_id user, ae_zone_id = Some (z_id z), ae_action = ''create_zone'',
                           ae_details = ''Created zone '' @ z_name z @ '' (kind: '' @ z_kind z @ '')'',
                           ae_old_list = None, ae_old = None, ae_new = None\<rparr> (s\<lparr>sv_pdns := p\<rparr>)
                    in if records = [] then (ZrCreated, s1)
                       else case substitute_template_records (z_id z) records
                              (with_zone_var (z_name z) (collect_template_vars f)) of
                         Inl e \<Rightarrow> (ZrTemplateFailed (z_name z) (Some e), s1)
                       | Inr rrsets \<Rightarrow>
                           (case patch (z_id z) rrsets (sv_pdns s1) of
                              (ok, p1) \<Rightarrow>
                                (if ok then ZrCreated else ZrTemplateFailed (z_name z) None,
                                 s1\<lparr>sv_pdns := p1\<rparr>)))))"

subsection \<open>Deletion\<close>

definition delete_one_zone :: "'p pdns \<Rightarrow> svc_faults \<Rightarrow> user \<Rightarrow> string \<Rightarrow> 'p svc \<Rightarrow> bool \<times> 'p svc" where
  "delete_one_zone pd sf user zone s =
     (case pd_delete_zone pd zone (sv_pdns s) of
        (False, p) \<Rightarrow> (False, s\<lparr>sv_pdns := p\<rparr>)
      | (True, p) \<Rightarrow> (True, log_activity (sf_log sf)
          \<lparr>ae_user_id = u_id user, ae_zone_id = Some zone, ae_action = ''delete_zone'',
           ae_details = ''Deleted zone '' @ zone, ae_old_list = None, ae_old = None, ae_new = None\<rparr>
          (s\<lparr>sv_pdns := p, sv_grants := purge_zone_group_grants (sf_purge sf) zone (sv_grants s)\<rparr>)))"

definition web_delete_zone :: "'p pdns \<Rightarrow> svc_faults \<Rightarrow> user \<Rightarrow> string \<Rightarrow> 'p svc \<Rightarrow> bool \<times> 'p svc" where
  "web_delete_zone pd sf user zone s = (if zone = [] then (True, s) else delete_one_zone pd sf user zone s)"

definition selected_zone_ids :: "string list \<Rightarrow> string list" where
  "selected_zone_ids raw = first_keys [] (filter (\<lambda>x. x \<noteq> []) (map trim_space raw))"

text \<open>Several zones, each with its own faults; the answer lists the deleted and the failed ones.\<close>

fun bulk_delete_zones_loop ::
  "'p pdns \<Rightarrow> (string \<Rightarrow> svc_faults) \<Rightarrow> user \<Rightarrow> string list \<Rightarrow> 'p svc \<Rightarrow> (string list \<times> string list) \<times> 'p svc" where
  "bulk_delete_zones_loop pd sf user [] s = (([], []), s)"
| "bulk_delete_zones_loop pd sf user (z # zs) s =
     (case delete_one_zone pd (sf z) user z s of
        (ok, s1) \<Rightarrow>
          (case bulk_delete_zones_loop pd sf user zs s1 of
             ((done, failed), s2) \<Rightarrow> (if ok then (z # done, failed) else (done, z # failed), s2)))"

definition bulk_delete_zones ::
  "'p pdns \<Rightarrow> (string \<Rightarrow> svc_faults) \<Rightarrow> user \<Rightarrow> string list \<Rightarrow> 'p svc
   \<Rightarrow> (string list \<times> string list) option \<times> 'p svc" where
  "bulk_delete_zones pd sf user raw s =
     (let ids = selected_zone_ids raw in
      if ids = [] then (None, s)
      else case bulk_delete_zones_loop pd sf user ids s of (r, s') \<Rightarrow> (Some r, s'))"

subsection \<open>Rectification, notification, metadata\<close>

datatype zone_action_reply =
    ZaKindRequired | ZaKind validation_error | ZaValueRequired | ZaFailed | ZaDone string

definition zone_audit :: "svc_faults \<Rightarrow> user \<Rightarrow> string \<Rightarrow> string \<Rightarrow> string \<Rightarrow> 'p svc \<Rightarrow> 'p svc" where
  "zone_audit sf user zone action details = log_activity (sf_log sf)
     \<lparr>ae_user_id = u_id user, ae_zone_id = Some zone, ae_action = action, ae_details = details,
      ae_old_list = None, ae_old = None, ae_new = None\<rparr>"

definition rectify_zone ::
  "(string \<Rightarrow> 'p \<Rightarrow> bool \<times> 'p) \<Rightarrow> svc_faults \<Rightarrow> user \<Rightarrow> string \<Rightarrow> 'p svc \<Rightarrow> zone_action_reply \<times> 'p svc" where
  "rectify_zone rectify sf user zone s =
     (case rectify zone (sv_pdns s) of
        (ok, p) \<Rightarrow>
          if \<not> ok then (ZaFailed, s\<lparr>sv_pdns := p\<rparr>)
          else (ZaDone (''/zones/'' @ zone),
            zone_audit sf user zone ''rectify_zone'' (''Rectified zone '' @ zone) (s\<lparr>sv_pdns := p\<rparr>)))"

definition notify_zone ::
  "(string \<Rightarrow> 'p \<Rightarrow> bool \<times> 'p) \<Rightarrow> string \<Rightarrow> 'p svc \<Rightarrow> zone_action_reply \<times> 'p svc" where
  "notify_zone notify zone s =
     (case notify zone (sv_pdns s) of
        (ok, p) \<Rightarrow> (if ok then ZaDone (''/zones/'' @ zone) else ZaFailed, s\<lparr>sv_pdns := p\<rparr>))"

definition metadata_lines :: "string \<Rightarrow> string list" where
  "metadata_lines raw = filter (\<lambda>v. v \<noteq> []) (map trim_space (split_on newline_ch raw))"

definition create_metadata ::
  "(string \<Rightarrow> string \<Rightarrow> string list \<Rightarrow> 'p \<Rightarrow> bool \<times> 'p) \<Rightarrow> svc_faults \<Rightarrow> user \<Rightarrow> string \<Rightarrow> web_form \<Rightarrow> 'p svc
   \<Rightarrow> zone_action_reply \<times> 'p svc" where
  "create_metadata set_metadata sf user zone f s =
     (let kind = trim_space (form_value f ''kind'');
          raw = trim_space (form_value f ''values'');
          vals = metadata_lines raw
      in if kind = [] then (ZaKindRequired, s)
         else case validate_metadata_kind kind of
           Some e \<Rightarrow> (ZaKind e, s)
         | None \<Rightarrow>
             if raw = [] \<or> vals = [] then (ZaValueRequired, s)
             else case set_metadata zone kind vals (sv_pdns s) of
               (ok, p) \<Rightarrow>
                 if \<not> ok then (ZaFailed, s\<lparr>sv_pdns := p\<rparr>)
                 else (ZaDone (''/zones/'' @ zone), zone_audit sf user zone ''create_metadata''
                   (''Set metadata '' @ kind @ '' on zone '' @ zone) (s\<lparr>sv_pdns := p\<rparr>)))"

definition delete_metadata ::
  "(string \<Rightarrow> string \<Rightarrow> 'p \<Rightarrow> bool \<times> 'p) \<Rightarrow> svc_faults \<Rightarrow> user \<Rightarrow> string \<Rightarrow> web_form \<Rightarrow> 'p svc
   \<Rightarrow> zone_action_reply \<times> 'p svc" where
  "delete_metadata remove_metadata sf user zone f s =
     (let kind = trim_space (form_value f ''kind'') in
      if kind = [] then (ZaKindRequired, s)
      else case validate_metadata_kind kind of
        Some e \<Rightarrow> (ZaKind e, s)
      | None \<Rightarrow>
          (case remove_metadata zone kind (sv_pdns s) of
             (ok, p) \<Rightarrow>
               if \<not> ok then (ZaFailed, s\<lparr>sv_pdns := p\<rparr>)
               else (ZaDone (''/zones/'' @ zone), zone_audit sf user zone ''delete_metadata''
                 (''Deleted metadata '' @ kind @ '' from zone '' @ zone) (s\<lparr>sv_pdns := p\<rparr>))))"

definition get_metadata_kinds :: "string list" where
  "get_metadata_kinds =
     [''ALLOW-AXFR-FROM'', ''ALLOW-DNSUPDATE-FROM'', ''ALSO-NOTIFY'', ''AXFR-MASTER-TSIG'',
      ''AXFR-SOURCE'', ''FORWARD-DNSSEC'', ''GSS-ACCEPTOR-PRINCIPAL'',
      ''GSS-ALLOW-AXFR-PRINCIPALS'', ''IXFR'', ''LUA-AXFR-SCRIPT'', ''NOTIFY-DNSUPDATE'',
      ''NSEC3NARROW'', ''NSEC3PARAM'', ''PRESIGNED'', ''PUBLISH-CDNSKEY'', ''PUBLISH-CDS'',
      ''SOA-EDIT'', ''SOA-EDIT-API'', ''SOA-EDIT-DNSUPDATE'', ''TSIG-ALLOW-AXFR'',
      ''TSIG-ALLOW-DNSUPDATE'']"

subsection \<open>The link back\<close>

text \<open>\<open>parse\<close> is \<^verbatim>\<open>url.Parse\<close>, which may fail; the handler reads three parts of its result.\<close>

record parsed_url =
  pu_host :: string
  pu_path :: string
  pu_raw_query :: string

definition back_url :: "(string \<Rightarrow> parsed_url option) \<Rightarrow> string \<Rightarrow> string \<Rightarrow> string" where
  "back_url parse host ref =
     (let fallback = ''/dashboard'' in
      if ref = [] then fallback
      else case parse ref of
        None \<Rightarrow> fallback
      | Some u \<Rightarrow>
          if pu_host u \<noteq> [] \<and> pu_host u \<noteq> host then fallback
          else if \<not> has_prefix (pu_path u) ''/'' then fallback
          else if has_prefix (pu_path u) ''//'' \<or> has_prefix (pu_path u) [CHR ''/'', CHR 0x5C] then fallback
          else pu_path u @ (if pu_raw_query u \<noteq> [] then ''?'' @ pu_raw_query u else []))"

section \<open>Properties of the zone pages\<close>

lemma view_before_key:
  "view_before zn a b \<longleftrightarrow>
     (type_rank (rr_type a), rr_name a \<noteq> zn, rr_name a, rr_type a)
       < (type_rank (rr_type b), rr_name b \<noteq> zn, rr_name b, rr_type b)"
  by (auto simp: view_before_def type_rank_def less_prod_def' Let_def)

lemma sort_zone_records_key:
  "sort_zone_records zn = sort_key (\<lambda>rr. (type_rank (rr_type rr), rr_name rr \<noteq> zn, rr_name rr, rr_type rr))"
  unfolding sort_zone_records_def by (intro ext sort_stable_sort_key view_before_key)

lemma flatten_records_simps [simp]:
  "flatten_records [] = []"
  "flatten_records (rr # rrs) = map (\<lambda>rec. \<lparr>zr_name = rr_name rr, zr_type = rr_type rr, zr_ttl = rr_ttl rr,
      zr_comments = rr_comments rr, zr_record = rec\<rparr>) (rr_records rr) @ flatten_records rrs"
  by (simp_all add: flatten_records_def)

lemma length_flatten_records: "length (flatten_records rrs) = count_records rrs"
  by (induction rrs) (simp_all add: count_records_def)

lemma mset_flatten_records: "mset rrs = mset rrs' \<Longrightarrow> mset (flatten_records rrs) = mset (flatten_records rrs')"
proof -
  have "mset (flatten_records xs) = sum_mset (image_mset (\<lambda>rr. mset (flatten_records [rr])) (mset xs))" for xs
    by (induction xs) simp_all
  then show "mset rrs = mset rrs' \<Longrightarrow> ?thesis" by simp
qed

text \<open>The rows of the zone view are exactly the records of the zone, each once, with the name,
  type, time to live and comments of its record set, in the order of one key: SOA, then NS, then
  the zone apex, then name and type; record sets with one key keep their order.  The capacity
  the code reserves is the number of rows, so the page count is over rows.\<close>

theorem zone_view_exact:
  "mset (flatten_records (sort_zone_records zn rrs)) = mset (flatten_records rrs)
   \<and> length (flatten_records rrs) = count_records rrs
   \<and> sort_zone_records zn rrs
       = sort_key (\<lambda>rr. (type_rank (rr_type rr), rr_name rr \<noteq> zn, rr_name rr, rr_type rr)) rrs
   \<and> \<not> (view_before zn a b \<and> view_before zn b a)
   \<and> (\<not> view_before zn a b \<and> \<not> view_before zn b a \<longleftrightarrow> rr_name a = rr_name b \<and> rr_type a = rr_type b)"
proof -
  have "mset (flatten_records (sort_zone_records zn rrs)) = mset (flatten_records rrs)"
    by (rule mset_flatten_records) (simp add: sort_zone_records_key)
  then show ?thesis
    by (simp add: length_flatten_records sort_zone_records_key view_before_key not_less)
      (auto simp: less_prod_def' type_rank_def split: if_splits)
qed

end
