(* ===== verification/TemplateLaws.thy ===== *)
theory TemplateLaws
  imports Templates WebRecordLaws
begin

section \<open>Properties of the zone templates\<close>

text \<open>
  The substitution is one pass whose result does not depend on the order of the variables; what
  leaves it is complete, valid and free of doubled record sets.  Three defects of the application
  to a live zone and of the seed are shown on concrete inputs.
\<close>

subsection \<open>Variables\<close>

lemma find_SomeD: "find P xs = Some x \<Longrightarrow> x \<in> set xs \<and> P x"
  by (induction xs) (auto split: if_splits)

lemma replace_vars_Nil [simp]: "replace_vars ps [] = []"
  by (simp add: replace_vars.simps)

lemma replace_vars_Cons:
  "replace_vars ps (c # cs) =
     (case find (\<lambda>(v, val). has_prefix (c # cs) (placeholder v)) ps of
        None \<Rightarrow> c # replace_vars ps cs
      | Some (v, val) \<Rightarrow> val @ replace_vars ps (drop (length (placeholder v)) (c # cs)))"
  by (subst replace_vars.simps) simp

definition plain_var :: "string \<Rightarrow> bool" where
  "plain_var v \<longleftrightarrow> CHR ''}'' \<notin> set v"

lemma placeholder_prefix_inj:
  assumes "has_prefix s (placeholder v)" "has_prefix s (placeholder w)" "plain_var v" "plain_var w"
  shows "v = w"
proof -
  from assms(1,2) obtain a b where e: "v @ ''}}'' @ a = w @ ''}}'' @ b"
    by (auto simp: has_prefix_def prefix_def placeholder_def)
  have t: "takeWhile (\<lambda>c. c \<noteq> CHR ''}'') (x @ ''}}'' @ y) = x" if "plain_var x" for x y
    using that by (subst takeWhile_append2) (auto simp: plain_var_def)
  show ?thesis using arg_cong [OF e, of "takeWhile (\<lambda>c. c \<noteq> CHR ''}'')"] assms(3,4) by (simp only: t)
qed

lemma find_placeholder_set:
  assumes "set ps = set qs" "distinct (map fst ps)" "\<forall>p\<in>set ps. plain_var (fst p)"
  shows "find (\<lambda>(v, val). has_prefix s (placeholder v)) ps = find (\<lambda>(v, val). has_prefix s (placeholder v)) qs"
proof -
  let ?P = "\<lambda>(v, val). has_prefix s (placeholder v)"
  have uniq: "p = q" if "p \<in> set ps" "q \<in> set ps" "?P p" "?P q" for p q
  proof -
    have "fst p = fst q"
      using that assms(3) placeholder_prefix_inj [of s "fst p" "fst q"] by (auto simp: case_prod_unfold)
    with that assms(2) show ?thesis by (auto simp: distinct_map dest: inj_onD)
  qed
  show ?thesis
  proof (cases "find ?P ps")
    case None
    then have "find ?P qs = None" using assms(1) by (simp add: find_None_iff)
    with None show ?thesis by simp
  next
    case (Some p)
    from find_SomeD [OF this] have p: "p \<in> set ps" "?P p" by auto
    then have "find ?P qs \<noteq> None" using assms(1) by (auto simp: find_None_iff)
    then obtain q where q: "find ?P qs = Some q" by auto
    from find_SomeD [OF this] have "q \<in> set qs" "?P q" by auto
    with uniq p assms(1) Some q show ?thesis by metis
  qed
qed

lemma replace_vars_order:
  assumes "set ps = set qs" "distinct (map fst ps)" "\<forall>p\<in>set ps. plain_var (fst p)"
  shows "replace_vars ps s = replace_vars qs s"
proof (induction s rule: length_induct)
  case (1 s)
  note ih = this
  show ?case
  proof (cases s)
    case (Cons c cs)
    have tail: "replace_vars ps cs = replace_vars qs cs" using ih Cons by simp
    have rest: "replace_vars ps (drop (length (placeholder v)) (c # cs))
        = replace_vars qs (drop (length (placeholder v)) (c # cs))" for v
      using ih Cons by (simp add: placeholder_def)
    show ?thesis
      unfolding Cons replace_vars_Cons find_placeholder_set [OF assms, of "c # cs"] tail rest ..
  qed simp
qed

lemma no_prefix_plain: "CHR ''{'' \<notin> set a \<Longrightarrow> a \<noteq> [] \<Longrightarrow> \<not> has_prefix (a @ s) (placeholder v)"
  by (cases a) (auto simp: has_prefix_def prefix_def placeholder_def)

lemma replace_vars_plain:
  "CHR ''{'' \<notin> set a \<Longrightarrow> replace_vars ps (a @ s) = a @ replace_vars ps s"
proof (induction a)
  case (Cons c a)
  have "find (\<lambda>(v, val). has_prefix ((c # a) @ s) (placeholder v)) ps = None"
    using Cons.prems no_prefix_plain [of "c # a" s] by (auto simp: find_None_iff)
  with Cons show ?case by (simp add: replace_vars_Cons)
qed simp

lemma replace_vars_placeholder:
  assumes "distinct (map fst ps)" "\<forall>p\<in>set ps. plain_var (fst p)" "(v, val) \<in> set ps"
  shows "replace_vars ps (placeholder v @ s) = val @ replace_vars ps s"
proof -
  have pre: "has_prefix (placeholder v @ s) (placeholder v)" by (simp add: has_prefix_def)
  have "find (\<lambda>(v', val). has_prefix (placeholder v @ s) (placeholder v')) ps \<noteq> None"
    using assms(3) pre by (auto simp: find_None_iff)
  then obtain w val' where f: "find (\<lambda>(v', val). has_prefix (placeholder v @ s) (placeholder v')) ps = Some (w, val')"
    by auto
  from find_SomeD [OF this] have w: "(w, val') \<in> set ps" "has_prefix (placeholder v @ s) (placeholder w)" by auto
  with placeholder_prefix_inj [OF pre w(2)] assms have "w = v" by force
  with w assms have vv: "val' = val" by (metis eq_key_imp_eq_value)
  obtain c cs where e: "placeholder v @ s = c # cs" by (simp add: placeholder_def)
  have "replace_vars ps (c # cs) = val @ replace_vars ps (drop (length (placeholder v)) (c # cs))"
    using f [unfolded e] \<open>w = v\<close> vv by (simp add: replace_vars_Cons)
  moreover have "drop (length (placeholder v)) (c # cs) = s" unfolding e [symmetric] by simp
  ultimately show ?thesis by (simp add: e)
qed

text \<open>The substitution of variables is a single pass, determined by the variables alone: for
  variables without closing braces its result does not depend on the order in which they are
  tried, text without an opening brace is copied, and a placeholder is replaced by its value as it
  is, the value not being scanned again.\<close>

theorem substitution_single_pass:
  assumes "distinct (map fst ps)" "\<forall>p\<in>set ps. plain_var (fst p)"
    and "set ps = set qs" "(v, val) \<in> set ps" "CHR ''{'' \<notin> set a"
  shows "replace_vars ps s = replace_vars qs s"
    and "replace_vars ps (a @ placeholder v @ s) = a @ val @ replace_vars ps s"
  using replace_vars_order [OF assms(3,1,2)] replace_vars_placeholder [OF assms(1,2,4)]
    replace_vars_plain [OF assms(5)] by simp_all

theorem substitution_single_pass_witness:
  "replace_vars [(''IP'', ''{{ZONE}}''), (''ZONE'', ''b.'')] (''x'' @ placeholder ''IP'' @ ''.{{ZONE}}'')
     = ''x{{ZONE}}'' @ replace_vars [(''IP'', ''{{ZONE}}''), (''ZONE'', ''b.'')] ''.{{ZONE}}''
   \<and> replace_vars [(''IP'', ''{{ZONE}}''), (''ZONE'', ''b.'')] ''.{{ZONE}}''
     = replace_vars [(''ZONE'', ''b.''), (''IP'', ''{{ZONE}}'')] ''.{{ZONE}}''"
proof -
  let ?ps = "[(''IP'', ''{{ZONE}}''), (''ZONE'', ''b.'')]" and ?qs = "[(''ZONE'', ''b.''), (''IP'', ''{{ZONE}}'')]"
  have "distinct (map fst ?ps)" "\<forall>p\<in>set ?ps. plain_var (fst p)" "set ?ps = set ?qs"
    "(''IP'', ''{{ZONE}}'') \<in> set ?ps" "CHR ''{'' \<notin> set ''x''"
    by (simp, simp add: plain_var_def, simp add: insert_commute, simp_all)
  note h = substitution_single_pass [OF this]
  have "replace_vars ?ps (''x'' @ placeholder ''IP'' @ ''.{{ZONE}}'') = ''x'' @ ''{{ZONE}}'' @ replace_vars ?ps ''.{{ZONE}}''"
    by (rule h(2))
  moreover have "replace_vars ?ps ''.{{ZONE}}'' = replace_vars ?qs ''.{{ZONE}}''" by (rule h(1))
  ultimately show ?thesis by (simp only: append.simps)
qed

subsection \<open>Substitution\<close>

lemma template_rows_Inr:
  "template_rows zone vars i rs = Inr (rrs, ms) \<longleftrightarrow>
     (\<forall>r\<in>set rs. snd (snd (template_row zone vars r)) = None)
     \<and> rrs = map (\<lambda>r. fst (template_row zone vars r)) rs
     \<and> ms = concat (map (\<lambda>r. fst (snd (template_row zone vars r))) rs)"
proof (induction rs arbitrary: i rrs ms)
  case (Cons r rs)
  obtain rr m b where row: "template_row zone vars r = (rr, m, b)" by (cases "template_row zone vars r") auto
  show ?case
  proof (cases "template_rows zone vars (i + 1) rs")
    case (Inl e)
    with Cons.IH [of "i + 1"] have "\<not> (\<forall>r\<in>set rs. snd (snd (template_row zone vars r)) = None)" by auto
    with Inl row show ?thesis by (auto split: option.split)
  next
    case (Inr q)
    obtain rrs' ms' where q: "q = (rrs', ms')" by (cases q)
    from Cons.IH [of "i + 1" rrs' ms'] Inr q
    have "\<forall>r\<in>set rs. snd (snd (template_row zone vars r)) = None"
      "rrs' = map (\<lambda>r. fst (template_row zone vars r)) rs"
      "ms' = concat (map (\<lambda>r. fst (snd (template_row zone vars r))) rs)" by auto
    with Inr q row show ?thesis by (auto split: option.split)
  qed
qed auto

lemma first_keys_set: "set (first_keys seen ks) = set ks - set seen \<and> distinct (first_keys seen ks)"
proof (induction ks arbitrary: seen)
  case (Cons k ks)
  then show ?case using Cons.IH [of seen] Cons.IH [of "k # seen"] by auto
qed simp

lemma key_updates [simp]:
  "rrset_key_string (rr\<lparr>rr_records := rs\<rparr>) = rrset_key_string rr"
  "rrset_key_string (rr\<lparr>rr_ttl := t\<rparr>) = rrset_key_string rr"
  "rrset_key_string (rr\<lparr>rr_comments := c\<rparr>) = rrset_key_string rr"
  by (simp_all add: rrset_key_string_def)

lemma template_group_key:
  assumes "k \<in> set (map rrset_key_string rrs)"
  shows "rrset_key_string (template_group rrs k) = k"
proof -
  from assms have "filter (\<lambda>rr. rrset_key_string rr = k) rrs \<noteq> []" by (auto simp: filter_empty_conv)
  then have "hd (filter (\<lambda>rr. rrset_key_string rr = k) rrs) \<in> set (filter (\<lambda>rr. rrset_key_string rr = k) rrs)"
    by (rule hd_in_set)
  then show ?thesis by (simp add: template_group_def Let_def)
qed

lemma dedup_contents:
  "set (map ri_content (dedup_records_by_content rs)) = set (map ri_content rs)"
  "distinct (map ri_content (dedup_records_by_content rs))"
  by (simp_all add: dedup_eq_loop dedup_loop_contents dedup_loop_distinct)

lemma group_template_spec:
  assumes "\<forall>rr\<in>set rrs. length (rr_records rr) = 1"
  shows "distinct (map rrset_key_string (group_template_rrsets rrs))"
    and "\<forall>rr\<in>set (group_template_rrsets rrs). distinct (map ri_content (rr_records rr))"
    and "rr \<in> set rrs \<Longrightarrow> r \<in> set (rr_records rr) \<Longrightarrow>
      \<exists>out\<in>set (group_template_rrsets rrs). rrset_key_string out = rrset_key_string rr
         \<and> ri_content r \<in> set (map ri_content (rr_records out))"
proof -
  let ?ks = "first_keys [] (map rrset_key_string rrs)"
  have ks: "set ?ks = set (map rrset_key_string rrs)" "distinct ?ks"
    using first_keys_set [of "[]" "map rrset_key_string rrs"] by auto
  have mk: "map rrset_key_string (map (template_group rrs) ?ks) = ?ks"
    using ks(1) by (auto simp: template_group_key intro!: map_idI)
  have short: "length rrs < 2 \<Longrightarrow> \<exists>x. rrs = [x] \<or> rrs = []" by (cases rrs) auto
  show "distinct (map rrset_key_string (group_template_rrsets rrs))"
    using short ks(2) mk by (auto simp: group_template_rrsets_def simp del: map_map)
  show "\<forall>rr\<in>set (group_template_rrsets rrs). distinct (map ri_content (rr_records rr))"
    using assms by (auto simp: group_template_rrsets_def template_group_def dedup_contents Let_def length_Suc_conv)
  assume rr: "rr \<in> set rrs" "r \<in> set (rr_records rr)"
  show "\<exists>out\<in>set (group_template_rrsets rrs). rrset_key_string out = rrset_key_string rr
         \<and> ri_content r \<in> set (map ri_content (rr_records out))"
  proof (cases "length rrs < 2")
    case True
    with rr show ?thesis by (auto simp: group_template_rrsets_def)
  next
    case False
    let ?out = "template_group rrs (rrset_key_string rr)"
    have "rrset_key_string rr \<in> set ?ks" using ks(1) rr by auto
    then have "?out \<in> set (group_template_rrsets rrs)" using False by (auto simp: group_template_rrsets_def)
    moreover have "rrset_key_string ?out = rrset_key_string rr" using rr by (intro template_group_key) auto
    moreover have "ri_content r \<in> set (map ri_content (rr_records ?out))"
      using rr by (auto simp: template_group_def dedup_contents [unfolded set_map] Let_def)
    ultimately show ?thesis by blast
  qed
qed

lemma template_row_single: "length (rr_records (fst (template_row zone vars r))) = 1"
  by (simp add: template_row_def Let_def split: prod.split)

lemma substitute_distinct:
  assumes "substitute_template_records zone records vars = Inr rrs"
  shows "distinct (map rrset_key_string rrs)"
proof -
  obtain raw ms where r: "template_rows zone vars 0 records = Inr (raw, ms)" "rrs = group_template_rrsets raw"
    using assms by (auto simp: substitute_template_records_def split: sum.splits if_splits)
  have "\<forall>rr\<in>set raw. length (rr_records rr) = 1" using r(1) by (auto simp: template_rows_Inr template_row_single)
  then show ?thesis using group_template_spec(1) r(2) by blast
qed

text \<open>What the substitution of a template returns can be sent.  No placeholder of a variable is
  left in any row, every row passes the validation of imported records, no two record sets share
  name and type and none holds a content twice, and the content of every row is in the record set
  of its name and type.  When variables are missing the error names exactly those, sorted.\<close>

theorem template_substitution_exact:
  "case substitute_template_records zone records vars of
     Inr rrs \<Rightarrow>
       (\<forall>r\<in>set records. let row = template_row zone vars r in
          fst (snd row) = [] \<and> snd (snd row) = None
          \<and> (\<forall>x\<in>set (rr_records (fst row)). \<exists>rr\<in>set rrs. rrset_key_string rr = rrset_key_string (fst row)
               \<and> ri_content x \<in> set (map ri_content (rr_records rr))))
       \<and> distinct (map rrset_key_string rrs)
       \<and> (\<forall>rr\<in>set rrs. distinct (map ri_content (rr_records rr)))
   | Inl (TeMissing ms) \<Rightarrow> ms \<noteq> [] \<and> sorted ms \<and> distinct ms
       \<and> set ms = (\<Union>r\<in>set records. set (fst (snd (template_row zone vars r))))
   | Inl (TeInvalid i e) \<Rightarrow> True"
proof (cases "template_rows zone vars 0 records")
  case (Inl e)
  have "\<And>ms. template_rows zone vars i records \<noteq> Inl (TeMissing ms)" for i
    by (induction records arbitrary: i) (auto split: prod.split option.split sum.split)
  with Inl show ?thesis by (cases e) (auto simp: substitute_template_records_def)
next
  case (Inr q)
  obtain rrs ms where q: "q = (rrs, ms)" by (cases q)
  from Inr q have rows: "\<forall>r\<in>set records. snd (snd (template_row zone vars r)) = None"
    "rrs = map (\<lambda>r. fst (template_row zone vars r)) records"
    "ms = concat (map (\<lambda>r. fst (snd (template_row zone vars r))) records)"
    by (auto simp: template_rows_Inr)
  have one: "\<forall>rr\<in>set rrs. length (rr_records rr) = 1" using rows(2) by (auto simp: template_row_single)
  show ?thesis
  proof (cases "ms = []")
    case True
    with rows(3) have "\<forall>r\<in>set records. fst (snd (template_row zone vars r)) = []" by auto
    with True Inr q rows group_template_spec [OF one] show ?thesis
      by (auto simp: substitute_template_records_def Let_def)
  next
    case False
    then have "sort (remdups ms) \<noteq> []" by (metis set_empty set_remdups set_sort)
    moreover have "set (sort (remdups ms)) = (\<Union>r\<in>set records. set (fst (snd (template_row zone vars r))))"
      unfolding rows(3) by simp
    ultimately show ?thesis using False Inr q
      by (simp add: substitute_template_records_def)
  qed
qed

subsection \<open>Application and seed\<close>

lemma read_form_simps [simp]:
  "rrset_key_string (read_form rr) = rrset_key_string rr" "rr_ttl (read_form rr) = rr_ttl rr"
  "rr_name (read_form rr) = rr_name rr" "rr_type (read_form rr) = rr_type rr"
  by (simp_all add: read_form_def rrset_key_string_def)

lemma no_conflict_distinct:
  assumes "distinct (map rrset_key_string rrs)"
  shows "\<not> ttl_conflict rrs"
proof
  assume "ttl_conflict rrs"
  then obtain r r' where "r \<in> set rrs" "r' \<in> set rrs" "rrset_key_string r = rrset_key_string r'" "r \<noteq> r'"
    unfolding ttl_conflict_def by blast
  with assms show False by (auto simp: distinct_map dest: inj_onD)
qed

lemma rows_of_distinct:
  assumes "distinct (map rrset_key_string rrs)" "rr \<in> set rrs"
  shows "rows_of rrs (rrset_key_string rr) = [rr]"
  using assms
proof (induction rrs)
  case (Cons x xs)
  show ?case
  proof (cases "x = rr")
    case True
    with Cons.prems have "\<forall>y\<in>set xs. rrset_key_string y \<noteq> rrset_key_string rr" by (auto simp: image_iff)
    with True show ?thesis by (simp add: rows_of_def filter_empty_conv)
  next
    case False
    with Cons have "rrset_key_string x \<noteq> rrset_key_string rr" "rr \<in> set xs" by force+
    with Cons show ?thesis by (simp add: rows_of_def)
  qed
qed simp

definition listed_records :: "rrset list \<Rightarrow> rrset \<Rightarrow> record_info list" where
  "listed_records existing rr =
     (case listed_set existing (rrset_key_string rr) of None \<Rightarrow> [] | Some ex \<Rightarrow> rr_records ex)"

lemma template_patch_sets:
  assumes "substitute_template_records zone records (with_zone_var zone vars) = Inr rrs"
    and "distinct (map rrset_key_string rrs)"
    and "\<forall>rr\<in>set rrs. 0 \<le> rr_ttl rr" "no_blank existing" "no_blank (map read_form rrs)" "rr \<in> set rrs"
  shows "\<exists>out s. template_patch zone records vars existing = Inr out \<and> s \<in> set out
     \<and> rrset_key_string s = rrset_key_string rr
     \<and> rr_records s = dedup_records_by_content (map (prepare_record (rr_type s))
          (listed_records existing rr @ rr_records (read_form rr)))
     \<and> (rr_ttl rr > 0 \<longrightarrow> rr_ttl s = rr_ttl rr)
     \<and> (\<forall>ex. listed_set existing (rrset_key_string rr) = Some ex \<longrightarrow> rr_type s = rr_type ex)"
proof -
  let ?rows = "map read_form rrs" and ?k = "rrset_key_string rr"
  have d: "distinct (map rrset_key_string ?rows)" using assms(2) by (simp add: o_def)
  have init: "batch_progress existing [] = []" "\<not> ttl_conflict []"
    by (simp_all add: batch_progress_def batch_keys_def ttl_conflict_def)
  have "\<forall>r\<in>set ?rows. 0 \<le> rr_ttl r" using assms(3) by simp
  from merge_rows_progress [OF this assms(4,5) init(2)] no_conflict_distinct [OF d] init(1)
  have "merge_rows existing ?rows [] = Inr (batch_progress existing ?rows)" by simp
  then have m: "merge_batch_rrsets ?rows existing = Inr (map (\<lambda>k. (k, batch_set existing ?rows k)) (batch_keys ?rows))"
    by (simp add: merge_batch_rrsets_def batch_progress_def o_def)
  let ?s = "finalize_rrset [] (?k, batch_set existing ?rows ?k)"
  have rows: "rows_of ?rows ?k = [read_form rr]"
    using rows_of_distinct [OF d, of "read_form rr"] assms(6) by simp
  then have "?k \<in> set (batch_keys ?rows)" by (simp add: set_batch_keys)
  then have "?s \<in> set (finalize_batch_rrsets (map (\<lambda>k. (k, batch_set existing ?rows k)) (batch_keys ?rows)) [])"
    by (auto simp: finalize_batch_rrsets_def)
  moreover have "template_patch zone records vars existing
      = Inr (finalize_batch_rrsets (map (\<lambda>k. (k, batch_set existing ?rows k)) (batch_keys ?rows)) [])"
    by (simp add: template_patch_def assms(1) m)
  moreover have "listed_set existing ?k = Some ex \<Longrightarrow> rrset_key_string ex = ?k" for ex
    using find_SomeD [of "\<lambda>x. rrset_key_string x = ?k" "rev existing" ex] by (simp add: listed_set_def)
  then have "rrset_key_string ?s = ?k"
    by (cases "listed_set existing ?k") (simp_all add: finalize_rrset_def batch_set_def rows Let_def)
  moreover have "rr_records ?s = dedup_records_by_content (map (prepare_record (rr_type ?s))
      (listed_records existing rr @ rr_records (read_form rr)))"
    by (simp add: finalize_rrset_def batch_set_def rows Let_def listed_records_def split: option.split)
  moreover have "rr_ttl rr > 0 \<longrightarrow> rr_ttl ?s = rr_ttl rr"
    by (simp add: finalize_rrset_def batch_set_def rows Let_def explicit_ttl_def)
  moreover have "\<forall>ex. listed_set existing ?k = Some ex \<longrightarrow> rr_type ?s = rr_type ex"
    by (simp add: finalize_rrset_def batch_set_def Let_def)
  ultimately show ?thesis by blast
qed

text \<open>Applying a template to a zone in service loses nothing: for every record set the template
  yields, the patch holds a set of that name and type whose contents are those of the listed set
  and those of the template, in wire form.  The template's time to live replaces the listed one.\<close>

theorem template_application_adds:
  assumes "substitute_template_records zone records (with_zone_var zone vars) = Inr rrs"
    and "\<forall>rr\<in>set rrs. 0 \<le> rr_ttl rr" "no_blank existing" "no_blank (map read_form rrs)" "rr \<in> set rrs"
  shows "\<exists>out s. template_patch zone records vars existing = Inr out \<and> s \<in> set out
     \<and> rrset_key_string s = rrset_key_string rr
     \<and> set (map ri_content (rr_records s)) = ri_content ` prepare_record (rr_type s)
          ` (set (listed_records existing rr) \<union> set (rr_records (read_form rr)))
     \<and> (rr_ttl rr > 0 \<longrightarrow> rr_ttl s = rr_ttl rr)"
proof -
  have "distinct (map rrset_key_string rrs)"
    using assms(1) substitute_distinct by blast
  from template_patch_sets [OF assms(1) this assms(2-5)] obtain out s where
    o: "template_patch zone records vars existing = Inr out" "s \<in> set out" "rrset_key_string s = rrset_key_string rr"
      "rr_records s = dedup_records_by_content (map (prepare_record (rr_type s))
          (listed_records existing rr @ rr_records (read_form rr)))" "rr_ttl rr > 0 \<longrightarrow> rr_ttl s = rr_ttl rr"
    by blast
  have "set (map ri_content (rr_records s)) = ri_content ` prepare_record (rr_type s)
          ` (set (listed_records existing rr) \<union> set (rr_records (read_form rr)))"
    unfolding o(4) dedup_contents(1) by (simp add: image_Un image_image)
  with o show ?thesis by blast
qed

definition live_zone :: "rrset list" where
  "live_zone =
     [\<lparr>rr_name = ''b.'', rr_type = ''SOA'', rr_ttl = 60, rr_changetype = [],
       rr_records = [plain_record ''n.b. h.b. 7 1 1 1 1'' 0 False], rr_comments = None\<rparr>,
      \<lparr>rr_name = ''www.b.'', rr_type = ''A'', rr_ttl = 60, rr_changetype = [],
       rr_records = [plain_record ''192.0.2.1'' 0 False], rr_comments = None\<rparr>]"

definition www_set :: rrset where
  "www_set = \<lparr>rr_name = ''www.b.'', rr_type = ''A'', rr_ttl = 300, rr_changetype = [],
     rr_records = [plain_record ''192.0.2.9'' 0 False], rr_comments = None\<rparr>"

lemma www_substituted:
  "substitute_template_records ''b.'' [builtin_row ''www'' ''A'' ''{{IP}}'' 300 0]
     (with_zone_var ''b.'' [(''IP'', ''192.0.2.9'')]) = Inr [www_set]"
  by code_simp

lemma live_zone_blank: "no_blank live_zone" "no_blank (map read_form [www_set])"
  by code_simp+

theorem template_application_adds_witness:
  "\<exists>out s. template_patch ''b.'' [builtin_row ''www'' ''A'' ''{{IP}}'' 300 0] [(''IP'', ''192.0.2.9'')] live_zone = Inr out
     \<and> s \<in> set out \<and> rr_ttl s = 300"
  using template_application_adds [OF www_substituted _ live_zone_blank, of www_set]
  by (simp add: www_set_def) blast

text \<open>A template that carries an SOA record cannot be applied to a zone in service, and every
  built-in template carries one for the zone itself: the zone's SOA stays beside the template's
  whenever their contents differ, so the patch holds a set of at least two SOA records.\<close>

theorem template_doubles_soa:
  assumes "substitute_template_records zone records (with_zone_var zone vars) = Inr rrs"
    and "\<forall>rr\<in>set rrs. 0 \<le> rr_ttl rr" "no_blank existing" "no_blank (map read_form rrs)" "soa \<in> set rrs"
    and "listed_set existing (rrset_key_string soa) = Some ex" "x \<in> set (rr_records ex)"
    and "y \<in> set (rr_records (read_form soa))"
    and "ri_content (prepare_record (rr_type ex) x) \<noteq> ri_content (prepare_record (rr_type ex) y)"
  shows "(\<exists>out s. template_patch zone records vars existing = Inr out \<and> s \<in> set out
       \<and> rrset_key_string s = rrset_key_string soa \<and> 2 \<le> length (rr_records s))
     \<and> (\<forall>(name, desc, rs)\<in>set builtin_templates. \<exists>r\<in>set rs. tr_type r = ''SOA'' \<and> tr_name r = ''@'')"
proof
  have "distinct (map rrset_key_string rrs)"
    using assms(1) substitute_distinct by blast
  from template_patch_sets [OF assms(1) this assms(2-5)] obtain out s where
    o: "template_patch zone records vars existing = Inr out" "s \<in> set out" "rrset_key_string s = rrset_key_string soa"
      "rr_records s = dedup_records_by_content (map (prepare_record (rr_type s))
          (listed_records existing soa @ rr_records (read_form soa)))" "rr_type s = rr_type ex"
    using assms(6) by blast
  have "{ri_content (prepare_record (rr_type s) x), ri_content (prepare_record (rr_type s) y)}
      \<subseteq> set (map ri_content (rr_records s))"
    using assms(6-8) unfolding o(4) dedup_contents(1) by (auto simp: listed_records_def)
  then have "card {ri_content (prepare_record (rr_type s) x), ri_content (prepare_record (rr_type s) y)}
      \<le> card (set (map ri_content (rr_records s)))" by (intro card_mono) auto
  also have "\<dots> \<le> length (rr_records s)" by (metis card_length length_map)
  finally have "2 \<le> length (rr_records s)" using assms(9) o(5) by simp
  with o show "\<exists>out s. template_patch zone records vars existing = Inr out \<and> s \<in> set out
       \<and> rrset_key_string s = rrset_key_string soa \<and> 2 \<le> length (rr_records s)" by blast
  show "\<forall>(name, desc, rs)\<in>set builtin_templates. \<exists>r\<in>set rs. tr_type r = ''SOA'' \<and> tr_name r = ''@''"
    by (simp add: builtin_templates_def builtin_soa_def builtin_row_def)
qed

lemma soa_fields: "str_fields ''n.b. h.b. 1 2 3 4 5'' = [''n.b.'', ''h.b.'', ''1'', ''2'', ''3'', ''4'', ''5'']"
  by code_simp

lemma soa_parts:
  "validate_qualified_target ''n.b.'' = None" "validate_qualified_target ''h.b.'' = None"
  "validate_record_name ''b.'' = None" "validate_record_type ''SOA'' = None"
  "validate_record_priority ''SOA'' 0 = None" "canonical_record_type ''SOA'' = ''SOA''"
  "prepare_record_content ''SOA'' ''n.b. h.b. 1 2 3 4 5'' 0 = (''n.b. h.b. 1 2 3 4 5'', 0)"
  "replace_vars (template_var_pairs (with_zone_var ''b.'' [])) ''n.b. h.b. 1 2 3 4 5'' = ''n.b. h.b. 1 2 3 4 5''"
  "replace_vars (template_var_pairs (with_zone_var ''b.'' [])) ''@'' = ''@''"
  "leftover_vars ''@ n.b. h.b. 1 2 3 4 5'' = []"
  by code_simp+

lemma soa_content: "validate_record_content ''SOA'' ''n.b. h.b. 1 2 3 4 5'' = None"
  by (simp add: content_check_soa validate_soa_def soa_fields soa_parts in_field_def and_then_def
      parse_uint_def parse_digits_def is_digit_def ord_def digits_val_def digit_val_def)

definition soa_set :: rrset where
  "soa_set = \<lparr>rr_name = ''b.'', rr_type = ''SOA'', rr_ttl = 3600, rr_changetype = [],
     rr_records = [plain_record ''n.b. h.b. 1 2 3 4 5'' 0 False], rr_comments = None\<rparr>"

lemma soa_substituted:
  "substitute_template_records ''b.'' [builtin_row ''@'' ''SOA'' ''n.b. h.b. 1 2 3 4 5'' 3600 0] (with_zone_var ''b.'' [])
   = Inr [soa_set]"
  by (simp add: substitute_template_records_def template_row_def builtin_row_def soa_parts soa_content
      validate_parsed_record_def and_then_def template_owner_def group_template_rrsets_def soa_set_def)

lemma soa_not_blank: "no_blank (map read_form [soa_set])"
  by code_simp

theorem template_doubles_soa_witness:
  "\<exists>out s. template_patch ''b.'' [builtin_row ''@'' ''SOA'' ''n.b. h.b. 1 2 3 4 5'' 3600 0] [] live_zone = Inr out
     \<and> s \<in> set out \<and> rrset_key_string s = ''b.|SOA'' \<and> 2 \<le> length (rr_records s)"
proof -
  let ?x = "plain_record ''n.b. h.b. 7 1 1 1 1'' 0 False" and ?y = "plain_record ''n.b. h.b. 1 2 3 4 5'' 0 False"
  have l: "listed_set live_zone (rrset_key_string soa_set) = Some (live_zone ! 0)"
    by (simp add: listed_set_def live_zone_def soa_set_def rrset_key_string_def)
  have x: "?x \<in> set (rr_records (live_zone ! 0))" by (simp add: live_zone_def)
  have y: "?y \<in> set (rr_records (read_form soa_set))" by code_simp
  have ne: "ri_content (prepare_record (rr_type (live_zone ! 0)) ?x) \<noteq> ri_content (prepare_record (rr_type (live_zone ! 0)) ?y)"
    by code_simp
  have "rrset_key_string soa_set = ''b.|SOA''" "\<forall>rr\<in>set [soa_set]. 0 \<le> rr_ttl rr"
    by (simp_all add: soa_set_def rrset_key_string_def)
  with template_doubles_soa [OF soa_substituted _ live_zone_blank(1) soa_not_blank _ l x y ne]
  show ?thesis by simp
qed

text \<open>A template row whose name has capital letters replaces a live record set: the name is not
  lowered, so the merge does not find the set it belongs to, and the set that is sent for it holds
  the template's record alone.\<close>

theorem template_capital_name_replaces:
  "case template_patch ''b.'' [builtin_row ''WWW'' ''A'' ''192.0.2.9'' 60 0] [] live_zone of Inl _ \<Rightarrow> False
   | Inr out \<Rightarrow> map (\<lambda>rr. (to_lower (rr_name rr), map ri_content (rr_records rr))) out = [(''www.b.'', [''192.0.2.9''])]
       \<and> map (map ri_content \<circ> rr_records) (case template_patch ''b.'' [builtin_row ''www'' ''A'' ''192.0.2.9'' 60 0] [] live_zone
           of Inr out' \<Rightarrow> out' | Inl _ \<Rightarrow> []) = [[''192.0.2.1'', ''192.0.2.9'']]"
  by code_simp

definition standard_records :: "template_record list" where
  "standard_records = snd (snd (builtin_templates ! 0))"

definition empty_template_db :: template_db where
  "empty_template_db = \<lparr>td_templates = [], td_next = 1, td_records = [], td_next_record = 1,
     td_accounts = \<lparr>adb_users = [], adb_next_user = 1, adb_history = [], adb_next_history = 1,
       adb_attempts = [], adb_log = []\<rparr>\<rparr>"

lemma find_append: "find P (xs @ ys) = (case find P xs of None \<Rightarrow> find P ys | Some x \<Rightarrow> Some x)"
  by (induction xs) auto

lemma seed_keeps:
  "find_template tid db = Some t \<Longrightarrow> tid < td_next db \<Longrightarrow>
   find_template tid (snd (seed_templates fl i bs db)) = Some t
   \<and> filter (\<lambda>r. tr_template r = tid) (td_records (snd (seed_templates fl i bs db)))
     = filter (\<lambda>r. tr_template r = tid) (td_records db)"
proof (induction fl i bs db rule: seed_templates.induct)
  case (2 fl i name desc recs bs db)
  have new: "filter (\<lambda>r. tr_template r = tid) (map (\<lambda>(j, r). r\<lparr>tr_id := f j, tr_template := n\<rparr>) xs) = []"
    if "tid < n" for f n and xs :: "(nat \<times> template_record) list"
    using that by (induction xs) auto
  have one: "find_template tid (seed_one name desc rs db) = Some t \<and> tid < td_next (seed_one name desc rs db)
      \<and> filter (\<lambda>r. tr_template r = tid) (td_records (seed_one name desc rs db))
        = filter (\<lambda>r. tr_template r = tid) (td_records db)" for rs
    using "2.prems" by (simp add: seed_one_def find_template_def Let_def find_append new)
  show ?case
  proof (cases "list_ex (\<lambda>t. tp_name t = name) (td_templates db)")
    case True
    with 2 show ?thesis by simp
  next
    case False
    with one "2.IH"(2) [OF False] "2.prems" show ?thesis by (cases "fl i") simp_all
  qed
qed simp

text \<open>A built-in template whose seed was interrupted stays incomplete.  The template and its
  records are stored by separate statements, and the next starts look only for the name: a
  template left without some of its records never gets them.\<close>

theorem interrupted_seed_stays:
  assumes "fl 0 = SeedRecordFails n" "n < 3"
  shows "let db = snd (seed_builtin_templates fl empty_template_db);
             db' = fold (\<lambda>fl' d. snd (seed_builtin_templates fl' d)) later db
    in \<not> fst (seed_builtin_templates fl empty_template_db)
       \<and> get_template_name False 1 db' = ''standard'' \<and> length (get_template_records False 1 db') = n"
proof -
  let ?db = "snd (seed_builtin_templates fl empty_template_db)"
  let ?t = "\<lparr>tp_id = 1, tp_name = ''standard'', tp_description = ''SOA + NS records only'', tp_builtin = True\<rparr>"
  have s: "seed_builtin_templates fl empty_template_db
      = (False, seed_one ''standard'' ''SOA + NS records only'' (take n standard_records) empty_template_db)"
    using assms by (simp add: seed_builtin_templates_def builtin_templates_def standard_records_def
        empty_template_db_def)
  have l: "length standard_records = 3" by (simp add: standard_records_def builtin_templates_def builtin_ns_def)
  have base: "find_template 1 ?db = Some ?t" "1 < td_next ?db"
      "length (filter (\<lambda>r. tr_template r = 1) (td_records ?db)) = n"
  proof -
    show "find_template 1 ?db = Some ?t" "1 < td_next ?db"
      by (simp_all only: s snd_conv) (simp_all add: seed_one_def find_template_def empty_template_db_def)
    have "filter (\<lambda>r. tr_template r = 1) (td_records ?db) = td_records ?db"
      by (simp only: s snd_conv) (auto simp: seed_one_def empty_template_db_def Let_def filter_id_conv)
    then show "length (filter (\<lambda>r. tr_template r = 1) (td_records ?db)) = n"
      using assms(2) l by (simp only: s snd_conv) (simp add: seed_one_def empty_template_db_def Let_def)
  qed
  have "find_template 1 (fold (\<lambda>fl' d. snd (seed_builtin_templates fl' d)) later d) = Some ?t
      \<and> filter (\<lambda>r. tr_template r = 1) (td_records (fold (\<lambda>fl' d. snd (seed_builtin_templates fl' d)) later d))
        = filter (\<lambda>r. tr_template r = 1) (td_records d)"
    if "find_template 1 d = Some ?t" "1 < td_next d" for d
    using that
  proof (induction later arbitrary: d)
    case (Cons fl' later)
    have n: "td_next d \<le> td_next (snd (seed_templates fl' i bs d))" for i bs
      by (induction fl' i bs d rule: seed_templates.induct)
        (auto simp: seed_one_def Let_def split: seed_fault.split)
    from seed_keeps [OF Cons.prems, of fl' 0 builtin_templates] n [of 0 builtin_templates] Cons
    show ?case by (simp add: seed_builtin_templates_def)
  qed simp
  with base s show ?thesis
    by (simp add: get_template_name_def get_template_records_def Let_def)
qed

theorem interrupted_seed_stays_witness:
  "length (get_template_records False 1 (snd (seed_builtin_templates (\<lambda>_. SeedOk)
     (snd (seed_builtin_templates (\<lambda>_. SeedRecordFails 1) empty_template_db))))) = 1"
  using interrupted_seed_stays [of "\<lambda>_. SeedRecordFails 1" 1 "[\<lambda>_. SeedOk]"] by (simp add: Let_def)

end
