(* ===== verification/WebZoneLaws.thy ===== *)
theory WebZoneLaws
  imports WebZones TemplateLaws
begin

section \<open>Properties of the zone handlers\<close>

text \<open>
  What creation with a template, bulk deletion and the link of the error page guarantee, over the
  definitions of \<^verbatim>\<open>WebZones\<close>.
\<close>

subsection \<open>Creation\<close>

definition zone_refusal :: "zone_reply \<Rightarrow> bool" where
  "zone_refusal r = (case r of ZrCreated \<Rightarrow> False | ZrCreateFailed \<Rightarrow> False | ZrTemplateFailed _ _ \<Rightarrow> False | _ \<Rightarrow> True)"

lemma validate_zone_create_kept:
  "validate_zone_create req = Inr req' \<Longrightarrow> zc_kind req \<noteq> [] \<Longrightarrow> req' = req"
  by (simp add: validate_zone_create_def Let_def split: option.splits if_splits)

lemma zone_form_request_cases:
  "case zone_form_request f of
     Inl e \<Rightarrow> zone_refusal e
   | Inr req \<Rightarrow> zc_name req = normalize_zone_name (trim_space (form_value f ''name''))
       \<and> validate_zone_create req = Inr req"
proof (cases "zone_form_request f")
  case (Inl e)
  then show ?thesis
    by (simp add: zone_form_request_def zone_refusal_def Let_def split: if_splits option.splits sum.splits) auto
next
  case (Inr req)
  then have "zc_kind req = default_kind (trim_space (form_value f ''kind''))"
    "zc_name req = normalize_zone_name (trim_space (form_value f ''name''))"
    "\<exists>r. validate_zone_create req = Inr r"
    by (auto simp: zone_form_request_def Let_def split: option.splits sum.splits if_split_asm)
  with Inr show ?thesis using validate_zone_create_kept [of req] by (auto simp: default_kind_def)
qed

lemma zone_form_template_refusal: "zone_form_template tf db f = Inl e \<Longrightarrow> zone_refusal e"
  by (auto simp: zone_form_template_def zone_refusal_def Let_def split: if_splits option.splits)

lemma log_activity_pdns [simp]:
  "sv_pdns (log_activity b e s) = sv_pdns s" "sv_grants (log_activity b e s) = sv_grants s"
  by (simp_all add: log_activity_def)

text \<open>The handler by its four outcomes.\<close>

lemma web_create_zone_refused:
  "zone_form_request f = Inl e \<or> (\<exists>req. zone_form_request f = Inr req) \<and> zone_form_template tf db f = Inl e
    \<Longrightarrow> web_create_zone pd patch sf tf user f db s = (e, s) \<and> zone_refusal e"
  using zone_form_request_cases [of f] zone_form_template_refusal [of tf db f e]
  by (auto simp: web_create_zone_def)


text \<open>A template that lacks a variable is found out after the zone exists.  The handler checks the
  selected template before it creates the zone, but not that its placeholders have values: with
  the built-in web template and no address the zone is created, logged and left without any of
  the template's records.\<close>

theorem template_gap_leaves_zone:
  assumes "zone_form_request f = Inr req" "zone_form_template tf db f = Inr records" "records \<noteq> []"
    "pd_create_zone pd req (sv_pdns s) = (Some z, p)"
    "substitute_template_records (z_id z) records (with_zone_var (z_name z) (collect_template_vars f))
       = Inl (TeMissing missing)"
  shows "fst (web_create_zone pd patch sf tf user f db s) = ZrTemplateFailed (z_name z) (Some (TeMissing missing))
    \<and> sv_pdns (snd (web_create_zone pd patch sf tf user f db s)) = p"
  using assms by (simp add: web_create_zone_def Let_def)

definition gap_form :: web_form where
  "gap_form k = (if k = ''name'' then [''b''] else if k = ''template_id'' then [''1''] else [])"

definition gap_db :: template_db where
  "gap_db = \<lparr>td_templates = [\<lparr>tp_id = 1, tp_name = ''web'', tp_description = [], tp_builtin = True\<rparr>], td_next = 2,
     td_records = [(builtin_row ''@'' ''A'' ''{{IP}}'' 3600 0)\<lparr>tr_template := 1\<rparr>], td_next_record = 1,
     td_accounts = td_accounts empty_template_db\<rparr>"

definition zone_names_pdns :: "string list pdns" where
  "zone_names_pdns = \<lparr>pd_list = (\<lambda>_ _. None), pd_list_one = (\<lambda>_ _ _ _. None), pd_update = (\<lambda>_ _ p. (True, p)),
     pd_delete = (\<lambda>_ _ _ p. (True, p)), pd_list_zones = (\<lambda>_. None), pd_get_zone = (\<lambda>_ _. None),
     pd_create_zone = (\<lambda>req p. (Some \<lparr>z_id = zc_name req, z_name = zc_name req, z_kind = zc_kind req, z_serial = 0\<rparr>,
        zc_name req # p)),
     pd_delete_zone = (\<lambda>z p. (z \<in> set p, removeAll z p)), pd_statistics = (\<lambda>_. None)\<rparr>"

theorem template_gap_leaves_zone_witness:
  "\<forall>u. (\<lambda>r. fst r = ZrTemplateFailed ''b.'' (Some (TeMissing [''IP''])) \<and> sv_pdns (snd r) = [''b.''])
     (web_create_zone zone_names_pdns (\<lambda>_ _ p. (True, p)) \<lparr>sf_query = QueryOk, sf_lock = False, sf_log = False, sf_purge = False\<rparr>
        \<lparr>tf_write = False, tf_query = False, tf_log = False, tf_typed = False\<rparr> u gap_form gap_db
        \<lparr>sv_pdns = [], sv_log = [], sv_grants = \<lparr>gd_members = [], gd_zones = []\<rparr>\<rparr>)"
proof -
  let ?req = "\<lparr>zc_name = ''b.'', zc_kind = ''Native'', zc_nameservers = [], zc_masters = [], zc_catalog = []\<rparr>"
  let ?rec = "[(builtin_row ''@'' ''A'' ''{{IP}}'' 3600 0)\<lparr>tr_template := 1\<rparr>]"
  have "zone_form_request gap_form = Inr ?req" by code_simp
  moreover have "zone_form_template \<lparr>tf_write = False, tf_query = False, tf_log = False, tf_typed = False\<rparr> gap_db gap_form = Inr ?rec"
    by code_simp
  moreover have "substitute_template_records ''b.'' ?rec (with_zone_var ''b.'' (collect_template_vars gap_form))
      = Inl (TeMissing [''IP''])" by code_simp
  ultimately show ?thesis
    using template_gap_leaves_zone [of gap_form ?req _ gap_db ?rec zone_names_pdns
        "\<lparr>sv_pdns = [], sv_log = [], sv_grants = \<lparr>gd_members = [], gd_zones = []\<rparr>\<rparr>"
        "\<lparr>z_id = ''b.'', z_name = ''b.'', z_kind = ''Native'', z_serial = 0\<rparr>" "[''b.'']" "[''IP'']"]
    by (simp add: zone_names_pdns_def)
qed

subsection \<open>Deletion\<close>

lemma delete_one_zone_cases:
  "case delete_one_zone pd sf user z s of (ok, s') \<Rightarrow>
     (if ok then map ae_zone_id (sv_log s') = map ae_zone_id (sv_log s)
            @ (if sf_log sf then [] else [if z = [] then None else Some z])
          \<and> sv_grants s' = purge_zone_group_grants (sf_purge sf) z (sv_grants s)
      else sv_log s' = sv_log s \<and> sv_grants s' = sv_grants s)"
  by (auto simp: delete_one_zone_def log_activity_def split: prod.split bool.split)

lemma purge_grants_absent:
  "gd_zones (purge_zone_group_grants f z db) = filter (\<lambda>(g, y). f \<or> y \<noteq> normalize_zone_name z) (gd_zones db)"
  by (auto simp: purge_zone_group_grants_def intro!: filter_True [symmetric])

lemma bulk_delete_zones_loop_exact:
  "case bulk_delete_zones_loop pd sf user zs s of ((done_zones, failed), s') \<Rightarrow>
     mset (done_zones @ failed) = mset zs \<and> subseq done_zones zs \<and> subseq failed zs
     \<and> map ae_zone_id (sv_log s') = map ae_zone_id (sv_log s)
         @ map (\<lambda>z. if z = [] then None else Some z) (filter (\<lambda>z. \<not> sf_log (sf z)) done_zones)
     \<and> gd_zones (sv_grants s') = filter (\<lambda>(g, y). \<not> list_ex (\<lambda>z. \<not> sf_purge (sf z) \<and> y = normalize_zone_name z) done_zones)
         (gd_zones (sv_grants s))"
proof (induction zs arbitrary: s)
  case (Cons z zs)
  obtain ok s1 where o: "delete_one_zone pd (sf z) user z s = (ok, s1)" by (cases "delete_one_zone pd (sf z) user z s")
  obtain dz failed s2 where l: "bulk_delete_zones_loop pd sf user zs s1 = ((dz, failed), s2)" by (metis prod.exhaust)
  from Cons.IH [of s1] delete_one_zone_cases [where pd = pd and sf = "sf z" and user = user and z = z and s = s] show ?case
    by (cases ok) (auto simp: o l purge_grants_absent filter_filter intro!: filter_cong)
qed (simp add: list_ex_iff)

text \<open>A bulk deletion.  The selection loses its blanks and repetitions; every zone left in it is
  answered as deleted or as failed, never both; the log gets one row per deleted zone, in the
  order of the selection, whose log write worked; and the grants that go are those of the deleted
  zones, under their canonical names, whose purge worked.\<close>

theorem bulk_delete_zones_exact:
  "case bulk_delete_zones pd sf user raw s of
     (None, s') \<Rightarrow> list_all (\<lambda>x. trim_space x = []) raw \<and> s' = s
   | (Some (done_zones, failed), s') \<Rightarrow>
       set done_zones \<union> set failed = trim_space ` set raw - {[]}
       \<and> distinct (done_zones @ failed) \<and> done_zones @ failed \<noteq> []
       \<and> map ae_zone_id (sv_log s') = map ae_zone_id (sv_log s)
           @ map Some (filter (\<lambda>z. \<not> sf_log (sf z)) done_zones)
       \<and> gd_zones (sv_grants s')
           = filter (\<lambda>(g, y). \<not> list_ex (\<lambda>z. \<not> sf_purge (sf z) \<and> y = normalize_zone_name z) done_zones)
               (gd_zones (sv_grants s))"
proof -
  let ?ids = "selected_zone_ids raw"
  have ids: "set ?ids = trim_space ` set raw - {[]}" "distinct ?ids"
    using first_keys_set [of "[]" "filter (\<lambda>x. x \<noteq> []) (map trim_space raw)"]
    by (auto simp: selected_zone_ids_def)
  show ?thesis
  proof (cases "?ids = []")
    case True
    with ids show ?thesis by (auto simp: bulk_delete_zones_def list_all_iff)
  next
    case False
    obtain dz failed s' where l: "bulk_delete_zones_loop pd sf user ?ids s = ((dz, failed), s')" by (metis prod.exhaust)
    have m: "mset (dz @ failed) = mset ?ids" and rest:
      "map ae_zone_id (sv_log s') = map ae_zone_id (sv_log s)
         @ map (\<lambda>z. if z = [] then None else Some z) (filter (\<lambda>z. \<not> sf_log (sf z)) dz)"
      "gd_zones (sv_grants s') = filter (\<lambda>(g, y). \<not> list_ex (\<lambda>z. \<not> sf_purge (sf z) \<and> y = normalize_zone_name z) dz)
         (gd_zones (sv_grants s))"
      using bulk_delete_zones_loop_exact [where pd = pd and sf = sf and user = user and zs = ?ids and s = s] by (simp_all add: l)
    from m have "set (dz @ failed) = set ?ids" "distinct (dz @ failed)" "dz @ failed \<noteq> []"
      using ids(2) False by (metis mset_eq_setD, metis mset_eq_imp_distinct_iff, auto)
    moreover from calculation(1) ids(1) have "map (\<lambda>z. if z = [] then None else Some z) (filter (\<lambda>z. \<not> sf_log (sf z)) dz)
        = map Some (filter (\<lambda>z. \<not> sf_log (sf z)) dz)" by auto
    ultimately show ?thesis using False rest ids(1) by (simp add: bulk_delete_zones_def l)
  qed
qed

subsection \<open>The link back\<close>

text \<open>The link of the error page stays on the site, whatever the \<^verbatim>\<open>Referer\<close> header and the URL parser
  say: it is a rooted path that begins neither with two slashes nor with a slash and a
  backslash, and a referer of another host is never used.\<close>

theorem back_url_stays:
  "(\<exists>r. back_url parse host ref = CHR ''/'' # r \<and> (r = [] \<or> hd r \<noteq> CHR ''/'' \<and> hd r \<noteq> CHR 0x5C))
   \<and> (back_url parse host ref = ''/dashboard''
      \<or> (\<exists>u. parse ref = Some u \<and> (pu_host u = [] \<or> pu_host u = host) \<and> has_prefix (back_url parse host ref) (pu_path u)))"
proof (cases "parse ref")
  case (Some u)
  have "\<exists>r. p @ q = CHR ''/'' # r \<and> (r = [] \<or> hd r \<noteq> CHR ''/'' \<and> hd r \<noteq> CHR 0x5C)"
    if "has_prefix p ''/''" "\<not> has_prefix p ''//''" "\<not> has_prefix p [CHR ''/'', CHR 0x5C]"
      "q = [] \<or> hd q = CHR ''?''" for p q
    using that by (cases p; cases "tl p"; cases q) (auto simp: has_prefix_def)
  with Some show ?thesis
    by (fastforce simp: back_url_def Let_def has_prefix_def)
qed (simp add: back_url_def Let_def)

end
