(* ===== verification/PdnsClient.thy ===== *)
theory PdnsClient
  imports Sso ZoneExport Paging
begin

section \<open>The PowerDNS client\<close>

text \<open>
  Models \<^verbatim>\<open>internal/pdns/client.go\<close> and \<^verbatim>\<open>internal/pdns/errors.go\<close>.  A method builds a request, which
  \<open>send\<close> carries out on the state of the network: it fails, or gives a status, a body and whether the
  body could be read.  The decoder of a response is an argument; an encoded request body is a value
  of the type \<open>json\<close>.  An empty record list stands for Go's nil slice, which is how the callers
  build a deletion.
\<close>

subsection \<open>Errors\<close>

datatype upstream_error =
    UpNotFound | UpValidation | UpConflict | UpUnauthorized | UpLuaDisabled
  | UpStatus int | UpTransport | UpRead | UpDecode | UpOther

definition http_error :: "int \<Rightarrow> string \<Rightarrow> upstream_error" where
  "http_error status raw =
     (if status = 404 then UpNotFound
      else if status = 400 \<or> status = 422 then UpValidation
      else if status = 409 then UpConflict
      else if status = 401 \<or> status = 403 then UpUnauthorized
      else if status = 500 \<and> contains_str (to_lower raw) ''enable-lua-record-updates'' then UpLuaDisabled
      else UpStatus status)"

text \<open>The message of a failure: the field of PowerDNS's own error body, or the text of the status.\<close>

definition extract_error_message :: "(string \<Rightarrow> string option) \<Rightarrow> string \<Rightarrow> string" where
  "extract_error_message error_field body = (case error_field body of None \<Rightarrow> [] | Some e \<Rightarrow> trim_space e)"

definition error_detail :: "(string \<Rightarrow> string option) \<Rightarrow> (int \<Rightarrow> string) \<Rightarrow> int \<Rightarrow> string \<Rightarrow> string" where
  "error_detail error_field status_text status body =
     (let d = extract_error_message error_field body in if d = [] then status_text status else d)"

subsection \<open>Requests\<close>

record client =
  pc_base_url :: string
  pc_server_id :: string

record http_request =
  hr_method :: string
  hr_url :: string
  hr_body :: "json option"

datatype http_result = SendFails | Reply int "string option"

definition trim_right_slash :: "string \<Rightarrow> string" where
  "trim_right_slash s = rev (dropWhile (\<lambda>c. c = CHR ''/'') (rev s))"

definition new_client :: "string \<Rightarrow> string \<Rightarrow> client" where
  "new_client api_url server_id =
     (let base = trim_right_slash api_url in
      \<lparr>pc_base_url = (if has_suffix base ''/api/v1'' then base else base @ ''/api/v1''), pc_server_id = server_id\<rparr>)"

definition max_pdns_response_bytes :: int where
  "max_pdns_response_bytes = 64 * 2 ^ 20"

definition read_limited_body :: "int \<Rightarrow> string option \<Rightarrow> string option" where
  "read_limited_body limit body =
     (case body of None \<Rightarrow> None | Some b \<Rightarrow> if int (length b) > limit then None else Some b)"

definition http_do ::
  "(http_request \<Rightarrow> 'n \<Rightarrow> http_result \<times> 'n) \<Rightarrow> client \<Rightarrow> string \<Rightarrow> string \<Rightarrow> json option \<Rightarrow> 'n
   \<Rightarrow> (upstream_error + string \<times> int) \<times> 'n" where
  "http_do send c meth path body n =
     (case send \<lparr>hr_method = meth, hr_url = pc_base_url c @ path, hr_body = body\<rparr> n of
        (SendFails, n') \<Rightarrow> (Inl UpTransport, n')
      | (Reply status b, n') \<Rightarrow>
          (case read_limited_body max_pdns_response_bytes b of
             None \<Rightarrow> (Inl UpRead, n')
           | Some text \<Rightarrow> (Inr (text, status), n')))"

definition do_ok ::
  "(http_request \<Rightarrow> 'n \<Rightarrow> http_result \<times> 'n) \<Rightarrow> client \<Rightarrow> string \<Rightarrow> string \<Rightarrow> json option \<Rightarrow> 'n
   \<Rightarrow> upstream_error option \<times> 'n" where
  "do_ok send c meth path body n =
     (case http_do send c meth path body n of
        (Inl e, n') \<Rightarrow> (Some e, n')
      | (Inr (text, status), n') \<Rightarrow>
          (if status < 200 \<or> status \<ge> 300 then Some (http_error status text) else None, n'))"

definition do_unmarshal ::
  "(string \<Rightarrow> 'a option) \<Rightarrow> (http_request \<Rightarrow> 'n \<Rightarrow> http_result \<times> 'n) \<Rightarrow> client \<Rightarrow> string \<Rightarrow> string \<Rightarrow> json option
   \<Rightarrow> 'n \<Rightarrow> (upstream_error + 'a) \<times> 'n" where
  "do_unmarshal decode send c meth path body n =
     (case http_do send c meth path body n of
        (Inl e, n') \<Rightarrow> (Inl e, n')
      | (Inr (text, status), n') \<Rightarrow>
          (if status < 200 \<or> status \<ge> 300 then Inl (http_error status text)
           else case decode text of None \<Rightarrow> Inl UpDecode | Some v \<Rightarrow> Inr v, n'))"

subsection \<open>Paths\<close>

text \<open>\<^verbatim>\<open>url.PathEscape\<close>.\<close>

definition path_plain :: "char \<Rightarrow> bool" where
  "path_plain c \<longleftrightarrow> is_alnum c \<or> c \<in> {CHR ''-'', CHR ''_'', CHR ''.'', CHR ''~'', CHR ''$'', CHR ''&'',
     CHR ''+'', CHR ''='', CHR '':'', CHR ''@''}"

definition path_escape :: "string \<Rightarrow> string" where
  "path_escape s = concat (map (\<lambda>c.
     if path_plain c then [c] else [CHR ''%'', upper_hex (ord c div 16), upper_hex (ord c mod 16)]) s)"

definition server_path :: "client \<Rightarrow> string" where
  "server_path c = ''/servers/'' @ path_escape (pc_server_id c)"

definition zone_path :: "client \<Rightarrow> string \<Rightarrow> string" where
  "zone_path c zone_id = server_path c @ ''/zones/'' @ path_escape zone_id"

subsection \<open>Zones\<close>

type_synonym 'n http_send = "http_request \<Rightarrow> 'n \<Rightarrow> http_result \<times> 'n"

definition client_get_server where
  "client_get_server decode send c = do_unmarshal decode send c ''GET'' (server_path c) None"

definition client_health_check :: "(string \<Rightarrow> 'a option) \<Rightarrow> 'n http_send \<Rightarrow> client \<Rightarrow> 'n \<Rightarrow> upstream_error option \<times> 'n" where
  "client_health_check decode send c n =
     (case client_get_server decode send c n of (Inl e, n') \<Rightarrow> (Some e, n') | (Inr _, n') \<Rightarrow> (None, n'))"

definition client_get_statistics where
  "client_get_statistics decode send c = do_unmarshal decode send c ''GET'' (server_path c @ ''/statistics'') None"

definition client_list_zones where
  "client_list_zones decode send c = do_unmarshal decode send c ''GET'' (server_path c @ ''/zones?rrsets=false'') None"

definition client_list_zones_with_info ::
  "(string \<Rightarrow> zone list option) \<Rightarrow> (zone \<Rightarrow> 'i) \<Rightarrow> 'n http_send \<Rightarrow> client \<Rightarrow> 'n \<Rightarrow> (upstream_error + 'i list) \<times> 'n" where
  "client_list_zones_with_info decode wrap send c n =
     (case client_list_zones decode send c n of
        (Inl e, n') \<Rightarrow> (Inl e, n') | (Inr zs, n') \<Rightarrow> (Inr (map wrap zs), n'))"

definition client_get_zone where
  "client_get_zone decode send c zone_id = do_unmarshal decode send c ''GET'' (zone_path c zone_id) None"

definition json_strings :: "string list \<Rightarrow> json" where
  "json_strings ss = JArr (map JStr ss)"

definition zone_create_body :: "zone_create_request \<Rightarrow> json" where
  "zone_create_body req0 =
     (let req = (if zc_kind req0 = [] then req0\<lparr>zc_kind := ''Native''\<rparr> else req0) in
      JObj ([(''name'', JStr (zc_name req)), (''kind'', JStr (zc_kind req))]
        @ (if zc_nameservers req = [] then [] else [(''nameservers'', json_strings (zc_nameservers req))])
        @ (if zc_masters req = [] then [] else [(''masters'', json_strings (zc_masters req))])
        @ (if zc_catalog req = [] then [] else [(''catalog'', JStr (zc_catalog req))])))"

definition client_create_zone where
  "client_create_zone decode send c req =
     do_unmarshal decode send c ''POST'' (server_path c @ ''/zones'') (Some (zone_create_body req))"

definition client_delete_zone where
  "client_delete_zone send c zone_id = do_ok send c ''DELETE'' (zone_path c zone_id) None"

subsection \<open>Records\<close>

definition rrsets_path :: "client \<Rightarrow> string \<Rightarrow> string \<Rightarrow> string \<Rightarrow> string" where
  "rrsets_path c zone_id name rtype =
     zone_path c zone_id @
     (if name \<noteq> [] then ''?rrset_name='' @ query_escape name
        @ (if rtype \<noteq> [] then ''&rrset_type='' @ query_escape rtype else []) else [])"

definition list_zone_rrsets ::
  "(string \<Rightarrow> rrset list option) \<Rightarrow> 'n http_send \<Rightarrow> client \<Rightarrow> string \<Rightarrow> string \<Rightarrow> string \<Rightarrow> 'n
   \<Rightarrow> (upstream_error + rrset list) \<times> 'n" where
  "list_zone_rrsets decode send c zone_id name rtype n =
     (case do_unmarshal decode send c ''GET'' (rrsets_path c zone_id name rtype) None n of
        (Inl e, n') \<Rightarrow> (Inl e, n')
      | (Inr rrs, n') \<Rightarrow> (Inr (map listed_rrset rrs), n'))"

definition comment_json :: "comment \<Rightarrow> json" where
  "comment_json cm = JObj ([(''content'', JStr (cm_content cm)), (''account'', JStr (cm_account cm))]
     @ (if cm_modified_at cm = 0 then [] else [(''modified_at'', JNum (dec_int (cm_modified_at cm)))]))"

definition comments_json :: "comment_patch \<Rightarrow> json" where
  "comments_json p = (case marshal_comments p of WireNull \<Rightarrow> JNull | WireArray cs \<Rightarrow> JArr (map comment_json cs))"

definition patch_record_json :: "record_info \<Rightarrow> json" where
  "patch_record_json r = JObj [(''content'', JStr (ri_content r)), (''disabled'', JBool (ri_disabled r))]"

definition patch_rrset_json :: "rrset \<Rightarrow> json" where
  "patch_rrset_json rr = JObj
     ([(''name'', JStr (rr_name rr)), (''type'', JStr (rr_type rr)), (''ttl'', JNum (dec_int (rr_ttl rr)))]
      @ (if rr_changetype rr = [] then [] else [(''changetype'', JStr (rr_changetype rr))])
      @ [(''records'', if rr_records rr = [] then JNull else JArr (map patch_record_json (rr_records rr)))]
      @ (case rr_comments rr of None \<Rightarrow> [] | Some p \<Rightarrow> [(''comments'', comments_json p)]))"

definition patch_zone :: "'n http_send \<Rightarrow> client \<Rightarrow> string \<Rightarrow> rrset list \<Rightarrow> 'n \<Rightarrow> upstream_error option \<times> 'n" where
  "patch_zone send c zone_id rrs =
     do_ok send c ''PATCH'' (zone_path c zone_id) (Some (JObj [(''rrsets'', JArr (map patch_rrset_json rrs))]))"

definition client_update_record where
  "client_update_record send c zone_id rr = patch_zone send c zone_id [rr\<lparr>rr_changetype := ''REPLACE''\<rparr>]"

definition client_delete_record where
  "client_delete_record send c zone_id name rtype = patch_zone send c zone_id
     [\<lparr>rr_name = name, rr_type = rtype, rr_ttl = 0, rr_changetype = ''DELETE'', rr_records = [], rr_comments = None\<rparr>]"

definition client_create_records :: "'n http_send \<Rightarrow> client \<Rightarrow> string \<Rightarrow> rrset list \<Rightarrow> 'n \<Rightarrow> upstream_error option \<times> 'n" where
  "client_create_records send c zone_id rrs n =
     (if rrs = [] then (None, n)
      else patch_zone send c zone_id (map (rr_changetype_update (\<lambda>_. ''REPLACE'')) rrs) n)"

definition client_patch_records :: "'n http_send \<Rightarrow> client \<Rightarrow> string \<Rightarrow> rrset list \<Rightarrow> 'n \<Rightarrow> upstream_error option \<times> 'n" where
  "client_patch_records send c zone_id rrs n =
     (if rrs = [] then (None, n)
      else patch_zone send c zone_id
        (map (rr_changetype_update (\<lambda>t. if t = [] then ''REPLACE'' else t)) rrs) n)"

subsection \<open>Zone actions, metadata and keys\<close>

definition client_rectify_zone where
  "client_rectify_zone send c zone_id = do_ok send c ''PUT'' (zone_path c zone_id @ ''/rectify'') None"

definition client_notify_slaves where
  "client_notify_slaves send c zone_id = do_ok send c ''PUT'' (zone_path c zone_id @ ''/notify'') None"

definition client_get_metadata where
  "client_get_metadata decode send c zone_id = do_unmarshal decode send c ''GET'' (zone_path c zone_id @ ''/metadata'') None"

definition client_set_metadata where
  "client_set_metadata send c zone_id kind vals =
     do_ok send c ''PUT'' (zone_path c zone_id @ ''/metadata/'' @ path_escape kind)
       (Some (JObj [(''metadata'', json_strings vals)]))"

definition client_delete_metadata where
  "client_delete_metadata send c zone_id kind =
     do_ok send c ''DELETE'' (zone_path c zone_id @ ''/metadata/'' @ path_escape kind) None"

record tsig_key =
  tk_name :: string
  tk_id :: string
  tk_algorithm :: string
  tk_key :: string
  tk_type :: string

definition tsig_json :: "tsig_key \<Rightarrow> json" where
  "tsig_json k = JObj [(''name'', JStr (tk_name k)), (''id'', JStr (tk_id k)), (''algorithm'', JStr (tk_algorithm k)),
     (''key'', JStr (tk_key k)), (''type'', JStr (tk_type k))]"

definition client_list_tsig_keys where
  "client_list_tsig_keys decode send c = do_unmarshal decode send c ''GET'' (server_path c @ ''/tsigkeys'') None"

definition client_get_tsig_key where
  "client_get_tsig_key decode send c kid =
     do_unmarshal decode send c ''GET'' (server_path c @ ''/tsigkeys/'' @ path_escape kid) None"

definition client_create_tsig_key where
  "client_create_tsig_key decode send c k =
     do_unmarshal decode send c ''POST'' (server_path c @ ''/tsigkeys'') (Some (tsig_json k))"

definition client_update_tsig_key where
  "client_update_tsig_key send c kid k =
     do_ok send c ''PUT'' (server_path c @ ''/tsigkeys/'' @ path_escape kid) (Some (tsig_json k))"

definition client_delete_tsig_key where
  "client_delete_tsig_key send c kid = do_ok send c ''DELETE'' (server_path c @ ''/tsigkeys/'' @ path_escape kid) None"

definition client_list_cryptokeys where
  "client_list_cryptokeys decode send c zone_id =
     do_unmarshal decode send c ''GET'' (zone_path c zone_id @ ''/cryptokeys'') None"

definition client_create_cryptokey where
  "client_create_cryptokey decode send c zone_id key_type active algorithm =
     do_unmarshal decode send c ''POST'' (zone_path c zone_id @ ''/cryptokeys'')
       (Some (JObj [(''keytype'', JStr key_type), (''active'', JBool active), (''algorithm'', JStr algorithm)]))"

definition client_toggle_cryptokey where
  "client_toggle_cryptokey send c zone_id key_id active =
     do_ok send c ''PUT'' (zone_path c zone_id @ ''/cryptokeys/'' @ dec_int key_id) (Some (JObj [(''active'', JBool active)]))"

definition client_delete_cryptokey where
  "client_delete_cryptokey send c zone_id key_id =
     do_ok send c ''DELETE'' (zone_path c zone_id @ ''/cryptokeys/'' @ dec_int key_id) None"

section \<open>Properties of the client\<close>

subsection \<open>Escaping\<close>

definition escape_with :: "(char \<Rightarrow> string) \<Rightarrow> string \<Rightarrow> string" where
  "escape_with enc s = concat (map enc s)"

text \<open>An encoding of single characters that starts each code with the character itself or with a
  marker is injective when the marker codes have equal length and none stands for itself.\<close>

definition escape_code :: "(char \<Rightarrow> string) \<Rightarrow> bool" where
  "escape_code enc \<longleftrightarrow> inj enc \<and> (\<forall>c. \<exists>x y. enc c = [CHR ''%'', x, y] \<or> enc c = [c] \<and> c \<noteq> CHR ''%'' \<or> enc c = ''+'' \<and> c \<noteq> CHR ''%'')"

lemma escape_code_first:
  assumes "escape_code enc" "enc c @ s = enc d @ t"
  shows "c = d \<and> s = t"
proof -
  have "inj enc" using assms(1) by (simp add: escape_code_def)
  moreover obtain x y x' y' where
    "enc c = [CHR ''%'', x, y] \<or> enc c = [c] \<and> c \<noteq> CHR ''%'' \<or> enc c = ''+'' \<and> c \<noteq> CHR ''%''"
    "enc d = [CHR ''%'', x', y'] \<or> enc d = [d] \<and> d \<noteq> CHR ''%'' \<or> enc d = ''+'' \<and> d \<noteq> CHR ''%''"
    using assms(1) unfolding escape_code_def by meson
  moreover have "enc c = enc d \<and> s = t" using calculation(2,3) assms(2) by (elim disjE conjE) simp_all
  ultimately show ?thesis by (auto dest: injD)
qed

lemma escape_with_inj:
  assumes "escape_code enc"
  shows "escape_with enc s = escape_with enc t \<longleftrightarrow> s = t"
proof
  show "escape_with enc s = escape_with enc t \<Longrightarrow> s = t"
  proof (induction s arbitrary: t)
    case Nil
    have "enc c \<noteq> []" for c using assms unfolding escape_code_def by (metis list.distinct(1))
    with Nil show ?case by (cases t) (auto simp: escape_with_def)
  next
    case (Cons c s)
    have "enc c \<noteq> []" using assms unfolding escape_code_def by (metis list.distinct(1))
    with Cons.prems obtain d u where t: "t = d # u" by (cases t) (auto simp: escape_with_def)
    from Cons.prems have "enc c @ escape_with enc s = enc d @ escape_with enc u" by (simp add: t escape_with_def)
    from escape_code_first [OF assms this] Cons.IH show ?case by (simp add: t)
  qed
qed simp

lemma upper_hex_inj: "n < 16 \<Longrightarrow> m < 16 \<Longrightarrow> upper_hex n = upper_hex m \<longleftrightarrow> n = m"
proof -
  have "distinct (map upper_hex [0..<16])" by code_simp
  then have "inj_on upper_hex (set [0..<16])" by (simp add: distinct_map)
  then show "n < 16 \<Longrightarrow> m < 16 \<Longrightarrow> ?thesis" by (auto simp: inj_on_def)
qed

lemma ord_div_16: "ord c div 16 < 16"
  using ord_lt [of c] by (simp add: div_less_iff_less_mult del: ord_lt)

lemma hex_pair_inj:
  "upper_hex (ord c div 16) = upper_hex (ord d div 16) \<and> upper_hex (ord c mod 16) = upper_hex (ord d mod 16) \<longleftrightarrow> c = d"
proof -
  have "ord c div 16 < 16" "ord d div 16 < 16" by (simp_all add: ord_div_16)
  then have "upper_hex (ord c div 16) = upper_hex (ord d div 16) \<and> upper_hex (ord c mod 16) = upper_hex (ord d mod 16)
      \<longleftrightarrow> ord c div 16 = ord d div 16 \<and> ord c mod 16 = ord d mod 16" by (simp add: upper_hex_inj)
  also have "\<dots> \<longleftrightarrow> ord c = ord d" by (metis div_mult_mod_eq)
  finally show ?thesis by (simp add: ord_eq_iff)
qed

lemma escape_codes:
  "escape_code (\<lambda>c. if path_plain c then [c] else [CHR ''%'', upper_hex (ord c div 16), upper_hex (ord c mod 16)])"
proof -
  have "\<not> path_plain (CHR ''%'')" by code_simp
  then show ?thesis
    unfolding escape_code_def inj_def using hex_pair_inj by (auto split: if_splits)
qed

lemma path_escape_inj: "path_escape s = path_escape t \<longleftrightarrow> s = t"
  using escape_with_inj [OF escape_codes, of s t] by (simp add: path_escape_def escape_with_def)

lemma upper_hex_plain: "n < 16 \<Longrightarrow> path_plain (upper_hex n)"
proof -
  have "list_all (\<lambda>n. path_plain (upper_hex n)) [0..<16]"
    by (simp add: upt_rec path_plain_def upper_hex_def char_defs)
  then show "n < 16 \<Longrightarrow> ?thesis" by (simp add: list_all_iff)
qed

lemma path_escape_chars: "c \<in> set (path_escape s) \<Longrightarrow> path_plain c \<or> c = CHR ''%''"
  using upper_hex_plain ord_div_16 by (auto simp: path_escape_def split: if_splits)

lemma path_escape_no_slash [simp]: "CHR ''/'' \<notin> set (path_escape s)"
proof
  assume "CHR ''/'' \<in> set (path_escape s)"
  from path_escape_chars [OF this] have "path_plain (CHR ''/'') \<or> CHR ''/'' = CHR ''%''" .
  moreover have "\<not> path_plain (CHR ''/'')" by code_simp
  ultimately show False by simp
qed

text \<open>C40: A zone identifier is one segment of a PowerDNS path.  Whatever it contains,
  the path has the segments of the API, the escaped server and the escaped zone and no others, with
  no query and no fragment; and different servers or zones have different paths.\<close>

theorem zone_path_confined:
  "split_on CHR ''/'' (zone_path c z)
     = [[], ''servers'', path_escape (pc_server_id c), ''zones'', path_escape z]
   \<and> CHR ''?'' \<notin> set (zone_path c z) \<and> CHR ''#'' \<notin> set (zone_path c z)
   \<and> (zone_path c z = zone_path c' z' \<longleftrightarrow> pc_server_id c = pc_server_id c' \<and> z = z')"
proof -
  have j: "zone_path c z = join_with ''/'' [[], ''servers'', path_escape (pc_server_id c), ''zones'', path_escape z]" for c z
    by (simp add: zone_path_def server_path_def)
  have s: "split_on CHR ''/'' (zone_path c z) = [[], ''servers'', path_escape (pc_server_id c), ''zones'', path_escape z]" for c z
    unfolding j by (rule split_on_join) (auto simp: list_all_iff)
  have n: "\<not> path_plain (CHR ''?'')" "\<not> path_plain (CHR ''#'')" by code_simp+
  have "CHR ''?'' \<notin> set (path_escape x)" "CHR ''#'' \<notin> set (path_escape x)" for x
    using path_escape_chars [of "CHR ''?''" x] path_escape_chars [of "CHR ''#''" x] n by auto
  moreover have "zone_path c z = zone_path c' z' \<longleftrightarrow> pc_server_id c = pc_server_id c' \<and> z = z'"
  proof
    assume "zone_path c z = zone_path c' z'"
    with s [of c z] s [of c' z'] show "pc_server_id c = pc_server_id c' \<and> z = z'" by (simp add: path_escape_inj)
  qed (simp add: zone_path_def server_path_def)
  ultimately show ?thesis using s by (simp add: zone_path_def server_path_def)
qed

text \<open>A dot segment is not escaped, though: a server or proxy that resolves it leaves the zones.\<close>

lemma dot_segment_passes: "zone_path c ''..'' = server_path c @ ''/zones/..''"
  by (simp add: zone_path_def path_escape_def path_plain_def)

subsection \<open>Outcomes\<close>

text \<open>The client reports a write as done exactly when the server answered it with a success status
  and a body within the limit.  An answer of another status is an error of the class of that
  status, and only a 404 is reported as a missing resource, only a 401 or a 403 as refused
  credentials.\<close>

theorem client_outcome_exact:
  "case send \<lparr>hr_method = meth, hr_url = pc_base_url c @ path, hr_body = body\<rparr> n of
     (SendFails, n') \<Rightarrow> do_ok send c meth path body n = (Some UpTransport, n')
   | (Reply status b, n') \<Rightarrow>
       snd (do_ok send c meth path body n) = n'
       \<and> (fst (do_ok send c meth path body n) = None
            \<longleftrightarrow> 200 \<le> status \<and> status < 300 \<and> (\<exists>text. b = Some text \<and> int (length text) \<le> 64 * 2 ^ 20))
       \<and> (fst (do_ok send c meth path body n) = Some UpNotFound
            \<longleftrightarrow> status = 404 \<and> (\<exists>text. b = Some text \<and> int (length text) \<le> 64 * 2 ^ 20))
       \<and> (fst (do_ok send c meth path body n) = Some UpUnauthorized
            \<longleftrightarrow> status \<in> {401, 403} \<and> (\<exists>text. b = Some text \<and> int (length text) \<le> 64 * 2 ^ 20))"
  by (auto simp: do_ok_def http_do_def read_limited_body_def http_error_def max_pdns_response_bytes_def
      split: prod.split http_result.split option.split)

text \<open>The bodies of a patch carry no priority, and an empty batch sends nothing.\<close>

lemma empty_patch_sends_nothing:
  "client_create_records send c z [] n = (None, n)" "client_patch_records send c z [] n = (None, n)"
  by (simp_all add: client_create_records_def client_patch_records_def)

end
