(* ===== verification/RestApi.thy ===== *)
theory RestApi
  imports PdnsClient
begin

section \<open>The REST API\<close>

text \<open>
  Models \<^verbatim>\<open>internal/handlers/api.go\<close> over the DNS service.  A decoded body is an argument,
  \<^const>\<open>None\<close> when the decoder refused it.  The service reports a failed PowerDNS call without
  its class; the class of the one call that failed is the argument \<open>up\<close>.  A reply is a status with a
  code or a value; the texts of the messages are not modelled.
\<close>

datatype 'a rest_reply = RestError int string | RestOk int 'a

definition pdns_error_status :: "upstream_error \<Rightarrow> string \<Rightarrow> int \<times> string" where
  "pdns_error_status e not_found_code =
     (case e of
        UpNotFound \<Rightarrow> (404, not_found_code)
      | UpValidation \<Rightarrow> (400, ''VALIDATION_ERROR'')
      | UpConflict \<Rightarrow> (409, ''CONFLICT'')
      | UpUnauthorized \<Rightarrow> (502, ''UPSTREAM_AUTH_ERROR'')
      | UpLuaDisabled \<Rightarrow> (400, ''LUA_UPDATES_DISABLED'')
      | _ \<Rightarrow> (500, ''INTERNAL_ERROR''))"

definition write_service_authz_error :: "service_error \<Rightarrow> (int \<times> string) option" where
  "write_service_authz_error e =
     (case e of
        Forbidden \<Rightarrow> Some (403, ''FORBIDDEN'')
      | StageFailed StageZoneAccess \<Rightarrow> Some (500, ''INTERNAL_ERROR'')
      | _ \<Rightarrow> None)"

text \<open>\<^verbatim>\<open>errors.Is\<close> on a service error: the lock and the lookup of the grants fail in the database.\<close>

definition error_class :: "upstream_error \<Rightarrow> service_error \<Rightarrow> upstream_error" where
  "error_class up e =
     (case e of
        Upstream \<Rightarrow> up
      | StageFailed st \<Rightarrow> if st = StageLock \<or> st = StageZoneAccess then UpOther else up
      | Forbidden \<Rightarrow> UpOther)"

definition rest_failure :: "upstream_error \<Rightarrow> string \<Rightarrow> service_error \<Rightarrow> 'a rest_reply" where
  "rest_failure up not_found_code e =
     (case write_service_authz_error e of
        Some (st, code) \<Rightarrow> RestError st code
      | None \<Rightarrow> (case pdns_error_status (error_class up e) not_found_code of (st, code) \<Rightarrow> RestError st code))"

subsection \<open>Zones\<close>

definition api_list_zones ::
  "'p pdns \<Rightarrow> svc_faults \<Rightarrow> (string \<Rightarrow> bool) \<Rightarrow> upstream_error \<Rightarrow> user option \<Rightarrow> 'p svc \<Rightarrow> zone list rest_reply" where
  "api_list_zones pd sf scans up user s =
     (case list_zones pd sf scans user s of
        Inr zs \<Rightarrow> RestOk 200 zs
      | Inl e \<Rightarrow>
          (case write_service_authz_error e of
             Some (st, code) \<Rightarrow> RestError st code
           | None \<Rightarrow>
               if error_class up e = UpUnauthorized then RestError 502 ''UPSTREAM_AUTH_ERROR''
               else RestError 500 ''INTERNAL_ERROR''))"

definition api_get_zone ::
  "'p pdns \<Rightarrow> svc_faults \<Rightarrow> upstream_error \<Rightarrow> user option \<Rightarrow> string \<Rightarrow> 'p svc \<Rightarrow> zone rest_reply" where
  "api_get_zone pd sf up user zone s =
     (case get_zone pd sf user zone s of
        Inr z \<Rightarrow> RestOk 200 z
      | Inl e \<Rightarrow> rest_failure up ''ZONE_NOT_FOUND'' e)"

definition api_create_zone ::
  "'p pdns \<Rightarrow> svc_faults \<Rightarrow> upstream_error \<Rightarrow> user option \<Rightarrow> zone_create_request option \<Rightarrow> 'p svc
   \<Rightarrow> zone rest_reply \<times> 'p svc" where
  "api_create_zone pd sf up user body s =
     (case body of
        None \<Rightarrow> (RestError 400 ''INVALID_JSON'', s)
      | Some req0 \<Rightarrow>
          (case validate_zone_create req0 of
             Inl _ \<Rightarrow> (RestError 400 ''VALIDATION_ERROR'', s)
           | Inr req \<Rightarrow>
               (case create_zone pd sf user req SourceAPI s of
                  (Inl e, s') \<Rightarrow> (rest_failure up ''ZONE_CREATE_ERROR'' e, s')
                | (Inr z, s') \<Rightarrow> (RestOk 201 z, s'))))"

definition api_delete_zone ::
  "'p pdns \<Rightarrow> svc_faults \<Rightarrow> upstream_error \<Rightarrow> user option \<Rightarrow> string \<Rightarrow> 'p svc \<Rightarrow> unit rest_reply \<times> 'p svc" where
  "api_delete_zone pd sf up user zone s =
     (case delete_zone pd sf user zone SourceAPI s of
        (Some e, s') \<Rightarrow> (rest_failure up ''ZONE_NOT_FOUND'' e, s')
      | (None, s') \<Rightarrow> (RestOk 200 (), s'))"

subsection \<open>Records\<close>

definition api_list_records ::
  "'p pdns \<Rightarrow> svc_faults \<Rightarrow> upstream_error \<Rightarrow> user option \<Rightarrow> string \<Rightarrow> string \<Rightarrow> string \<Rightarrow> 'p svc \<Rightarrow> rrset list rest_reply" where
  "api_list_records pd sf up user zone name0 rtype0 s =
     (let name = trim_space name0; rtype = trim_space (to_upper rtype0) in
      if rtype \<noteq> [] \<and> name = [] then RestError 400 ''VALIDATION_ERROR''
      else case list_records pd sf user zone (if name \<noteq> [] then normalize_record_name name zone else name) rtype s of
        Inr rrs \<Rightarrow> RestOk 200 rrs
      | Inl e \<Rightarrow> rest_failure up ''RECORD_NOT_FOUND'' e)"

record export_reply =
  xr_body :: string
  xr_content_type :: string
  xr_filename :: string

definition api_export_zone ::
  "'p pdns \<Rightarrow> svc_faults \<Rightarrow> upstream_error \<Rightarrow> user option \<Rightarrow> string \<Rightarrow> string \<Rightarrow> 'p svc \<Rightarrow> export_reply rest_reply" where
  "api_export_zone pd sf up user zone format0 s =
     (let f = to_lower (trim_space format0); format = (if f = [] then ''bind'' else f) in
      if format \<noteq> ''bind'' \<and> format \<noteq> ''csv'' then RestError 400 ''VALIDATION_ERROR''
      else case export_zone pd (sf_query sf) user zone format s of
        Inl (ExportRefused e) \<Rightarrow> rest_failure up ''ZONE_NOT_FOUND'' e
      | Inl (UnknownFormat _) \<Rightarrow> RestError 500 ''INTERNAL_ERROR''
      | Inr (body, _) \<Rightarrow> RestOk 200
          \<lparr>xr_body = body, xr_content_type = (if format = ''csv'' then ''text/csv'' else ''text/dns''),
           xr_filename = to_lower (trim_suffix (trim_suffix zone ''.'') ''/'') @ ''.''
             @ (if format = ''csv'' then ''csv'' else ''zone'')\<rparr>)"

definition api_create_record ::
  "'p pdns \<Rightarrow> svc_faults \<Rightarrow> upstream_error \<Rightarrow> user option \<Rightarrow> string \<Rightarrow> rrset option \<Rightarrow> 'p svc
   \<Rightarrow> unit rest_reply \<times> 'p svc" where
  "api_create_record pd sf up user zone body s =
     (case body of
        None \<Rightarrow> (RestError 400 ''INVALID_JSON'', s)
      | Some rr0 \<Rightarrow>
          (case validate_record_set rr0 zone of
             Inl _ \<Rightarrow> (RestError 400 ''VALIDATION_ERROR'', s)
           | Inr rr \<Rightarrow>
               (case create_record pd sf user zone rr SourceAPI s of
                  (Some e, s') \<Rightarrow>
                    (rest_failure up (if e = StageFailed StageFetch then ''ZONE_NOT_FOUND'' else ''RECORD_ERROR'') e, s')
                | (None, s') \<Rightarrow> (RestOk 201 (), s'))))"

definition clear_comments :: "bool \<Rightarrow> rrset \<Rightarrow> rrset" where
  "clear_comments clear rr = (if clear then rr\<lparr>rr_comments := Some \<lparr>cp_items = [], cp_clear = True\<rparr>\<rparr> else rr)"

definition api_update_record ::
  "'p pdns \<Rightarrow> svc_faults \<Rightarrow> upstream_error \<Rightarrow> user option \<Rightarrow> string \<Rightarrow> (rrset \<times> bool option) option \<Rightarrow> 'p svc
   \<Rightarrow> unit rest_reply \<times> 'p svc" where
  "api_update_record pd sf up user zone body s =
     (case body of
        None \<Rightarrow> (RestError 400 ''INVALID_JSON'', s)
      | Some (rr0, clear) \<Rightarrow>
          (case prepare_validated_record_set (clear_comments (clear = Some True) rr0) zone of
             Inl _ \<Rightarrow> (RestError 400 ''VALIDATION_ERROR'', s)
           | Inr rr \<Rightarrow>
               (case update_record pd sf user zone rr SourceAPI s of
                  (Some e, s') \<Rightarrow> (rest_failure up ''RECORD_ERROR'' e, s')
                | (None, s') \<Rightarrow> (RestOk 200 (), s'))))"

text \<open>The key of a deletion, as both the REST and the MCP transport read it.\<close>

definition record_key :: "string \<Rightarrow> string \<Rightarrow> string \<Rightarrow> validation_error + string \<times> string" where
  "record_key zone name rtype0 =
     (let rtype = canonical_record_type rtype0 in
      case validate_record_type rtype of
        Some e \<Rightarrow> Inl e
      | None \<Rightarrow>
          (case validate_record_name name of
             Some e \<Rightarrow> Inl e
           | None \<Rightarrow> Inr (normalize_record_name name zone, rtype)))"

definition api_delete_record ::
  "'p pdns \<Rightarrow> svc_faults \<Rightarrow> upstream_error \<Rightarrow> user option \<Rightarrow> string \<Rightarrow> (string \<times> string) option \<Rightarrow> 'p svc
   \<Rightarrow> unit rest_reply \<times> 'p svc" where
  "api_delete_record pd sf up user zone body s =
     (case body of
        None \<Rightarrow> (RestError 400 ''INVALID_JSON'', s)
      | Some (name0, rtype0) \<Rightarrow>
          (case record_key zone name0 rtype0 of
             Inl _ \<Rightarrow> (RestError 400 ''VALIDATION_ERROR'', s)
           | Inr (name, rtype) \<Rightarrow>
               (case delete_record pd sf user zone name rtype SourceAPI s of
                  (Some e, s') \<Rightarrow> (rest_failure up ''RECORD_ERROR'' e, s')
                | (None, s') \<Rightarrow> (RestOk 200 (), s'))))"

definition api_stats ::
  "'p pdns \<Rightarrow> svc_faults \<Rightarrow> (string \<Rightarrow> bool) \<Rightarrow> upstream_error \<Rightarrow> user option \<Rightarrow> 'p svc
   \<Rightarrow> (string list \<times> nat) rest_reply" where
  "api_stats pd sf scans up user s =
     (case stats pd sf scans user s of
        Inr r \<Rightarrow> RestOk 200 r
      | Inl (StageFailed StageStatistics) \<Rightarrow> RestError 500 ''STATS_ERROR''
      | Inl (StageFailed StageZoneList) \<Rightarrow>
          (case pdns_error_status up ''STATS_ERROR'' of (st, code) \<Rightarrow> RestError st code)
      | Inl (StageFailed _) \<Rightarrow> RestError 500 ''INTERNAL_ERROR''
      | Inl _ \<Rightarrow> RestError 500 ''STATS_ERROR'')"

section \<open>Properties of the REST API\<close>

lemma rest_failure_not_ok [simp]: "rest_failure up c e \<noteq> RestOk st v"
  by (simp add: rest_failure_def split: option.split prod.split)

lemma rest_failure_status:
  "rest_failure up c e = RestError st code \<Longrightarrow> st \<in> {400, 403, 404, 409, 500, 502} \<and> (st = 404 \<longrightarrow> up = UpNotFound \<and> code = c)
     \<and> (st = 403 \<longleftrightarrow> e = Forbidden)"
  by (auto simp: rest_failure_def write_service_authz_error_def pdns_error_status_def error_class_def
      split: service_error.splits stage.splits upstream_error.splits if_splits)

end
