(* ===== verification/Mcp.thy ===== *)
theory Mcp
  imports RestApi WebRecords
begin

section \<open>The MCP server\<close>

text \<open>
  Models \<^verbatim>\<open>internal/mcpserver\<close>: the error codes, the read and write tools, the zone resource, the cut of
  large exports, the guard of the origin and the choice of the tool set by the scope of the key.  The
  protocol library is not modelled: a tool is a function from its decoded input to its result.
  \<open>scope\<close> and \<open>user\<close> are what the API-key middleware left in the context.
\<close>

subsection \<open>Errors\<close>

definition map_service_error :: "upstream_error \<Rightarrow> string \<Rightarrow> service_error \<Rightarrow> string" where
  "map_service_error up not_found_code e =
     (case e of
        Forbidden \<Rightarrow> ''FORBIDDEN''
      | StageFailed StageZoneAccess \<Rightarrow> ''INTERNAL_ERROR''
      | _ \<Rightarrow>
          if e = StageFailed StageFetch \<and> up = UpNotFound then ''ZONE_NOT_FOUND''
          else (case error_class up e of
             UpNotFound \<Rightarrow> not_found_code
           | UpValidation \<Rightarrow> ''VALIDATION_ERROR''
           | UpConflict \<Rightarrow> ''CONFLICT''
           | UpUnauthorized \<Rightarrow> ''UPSTREAM_AUTH_ERROR''
           | UpLuaDisabled \<Rightarrow> ''LUA_UPDATES_DISABLED''
           | _ \<Rightarrow> ''INTERNAL_ERROR''))"

definition tool_write_scope :: "api_key_scope option \<Rightarrow> string option" where
  "tool_write_scope scope = (if scope = Some ScopeMCPWrite then None else Some ''FORBIDDEN'')"

definition user_from_context :: "user option \<Rightarrow> string + user" where
  "user_from_context user = (case user of Some u \<Rightarrow> Inr u | None \<Rightarrow> Inl ''UNAUTHORIZED'')"

definition canonical_zone_arg :: "string \<Rightarrow> string + string" where
  "canonical_zone_arg zone =
     (case validate_domain_name zone of Some _ \<Rightarrow> Inl ''VALIDATION_ERROR'' | None \<Rightarrow> Inr (normalize_zone_name zone))"

subsection \<open>Read tools\<close>

definition tool_list_zones ::
  "'p pdns \<Rightarrow> svc_faults \<Rightarrow> (string \<Rightarrow> bool) \<Rightarrow> upstream_error \<Rightarrow> user option \<Rightarrow> 'p svc \<Rightarrow> string + zone list" where
  "tool_list_zones pd sf scans up user s =
     (case user_from_context user of
        Inl e \<Rightarrow> Inl e
      | Inr u \<Rightarrow> (case list_zones pd sf scans (Some u) s of
          Inl e \<Rightarrow> Inl (map_service_error up ''ZONE_NOT_FOUND'' e) | Inr zs \<Rightarrow> Inr zs))"

definition tool_get_zone ::
  "'p pdns \<Rightarrow> svc_faults \<Rightarrow> upstream_error \<Rightarrow> user option \<Rightarrow> string \<Rightarrow> 'p svc \<Rightarrow> string + zone" where
  "tool_get_zone pd sf up user zone0 s =
     (case user_from_context user of
        Inl e \<Rightarrow> Inl e
      | Inr u \<Rightarrow> (case canonical_zone_arg zone0 of
          Inl e \<Rightarrow> Inl e
        | Inr zone \<Rightarrow> (case get_zone pd sf (Some u) zone s of
            Inl e \<Rightarrow> Inl (map_service_error up ''ZONE_NOT_FOUND'' e) | Inr z \<Rightarrow> Inr z)))"

definition tool_list_records ::
  "'p pdns \<Rightarrow> svc_faults \<Rightarrow> upstream_error \<Rightarrow> user option \<Rightarrow> string \<Rightarrow> string \<Rightarrow> string \<Rightarrow> 'p svc \<Rightarrow> string + rrset list" where
  "tool_list_records pd sf up user zone0 name rtype0 s =
     (case user_from_context user of
        Inl e \<Rightarrow> Inl e
      | Inr u \<Rightarrow> (case canonical_zone_arg zone0 of
          Inl e \<Rightarrow> Inl e
        | Inr zone \<Rightarrow>
            let rtype = canonical_record_type rtype0 in
            if rtype \<noteq> [] \<and> name = [] then Inl ''VALIDATION_ERROR''
            else case list_records pd sf (Some u) zone
                (if name \<noteq> [] then normalize_record_name name zone else name) rtype s of
              Inl e \<Rightarrow> Inl (map_service_error up ''ZONE_NOT_FOUND'' e) | Inr rrs \<Rightarrow> Inr rrs))"

definition tool_get_stats ::
  "'p pdns \<Rightarrow> svc_faults \<Rightarrow> (string \<Rightarrow> bool) \<Rightarrow> upstream_error \<Rightarrow> user option \<Rightarrow> 'p svc \<Rightarrow> string + string list \<times> nat" where
  "tool_get_stats pd sf scans up user s =
     (case user_from_context user of
        Inl e \<Rightarrow> Inl e
      | Inr u \<Rightarrow> (case stats pd sf scans (Some u) s of
          Inl e \<Rightarrow> Inl (map_service_error up ''ZONE_NOT_FOUND'' e) | Inr r \<Rightarrow> Inr r))"

definition tool_list_record_types :: "user option \<Rightarrow> string + string list" where
  "tool_list_record_types user = (case user_from_context user of Inl e \<Rightarrow> Inl e | Inr _ \<Rightarrow> Inr record_types)"

subsection \<open>The cut of large exports\<close>

definition max_resource_bytes :: nat where
  "max_resource_bytes = 2 ^ 20"

definition export_rest_path :: "string \<Rightarrow> string \<Rightarrow> string" where
  "export_rest_path zone format = ''/api/v1/zones/'' @ zone @ ''/export?format='' @ format"

text \<open>The text up to and with its last line feed; all of it when there is none, or only a leading one.\<close>

definition line_aligned :: "string \<Rightarrow> string" where
  "line_aligned text =
     (let k = rev (dropWhile (\<lambda>c. c \<noteq> newline_ch) (rev text)) in if length k \<le> 1 then text else k)"

fun take_csv_rows :: "nat \<Rightarrow> string \<Rightarrow> string list list \<Rightarrow> string" where
  "take_csv_rows budget out [] = out"
| "take_csv_rows budget out (row # rows) =
     (let out' = out @ csv_row row in
      if length out' > budget then out else take_csv_rows budget out' rows)"

text \<open>The rows \<^verbatim>\<open>encoding/csv\<close> reads before the first it refuses.  The first row sets the number of
  fields.\<close>

function csv_prefix :: "nat option \<Rightarrow> string list \<Rightarrow> string list list" where
  "csv_prefix width ls =
     (case ls of [] \<Rightarrow> []
      | l # rest \<Rightarrow>
          if end_of_line l then csv_prefix width rest
          else case csv_fields l rest of
            None \<Rightarrow> []
          | Some (fs, rest') \<Rightarrow>
              if (case width of None \<Rightarrow> False | Some k \<Rightarrow> length fs \<noteq> k) then []
              else fs # csv_prefix (Some (length fs)) rest')"
  by pat_completeness auto
termination
  by (relation "measure (length \<circ> snd)") (auto dest: csv_fields_shorter)

declare csv_prefix.simps [simp del]

definition truncate_csv_records :: "string \<Rightarrow> nat \<Rightarrow> string" where
  "truncate_csv_records text budget = take_csv_rows budget [] (csv_prefix None (csv_lines text))"

definition truncation_banner :: "nat \<Rightarrow> string \<Rightarrow> string" where
  "truncation_banner n zone =
     [newline_ch] @ ''; --- TRUNCATED at '' @ dec_int (int n) @ '' bytes (limit '' @ dec_int (int max_resource_bytes)
       @ ''): fetch the full export via GET '' @ export_rest_path zone ''bind'' @ '' ---'' @ [newline_ch]"

definition truncate_resource :: "string \<Rightarrow> string \<Rightarrow> string \<Rightarrow> string \<times> bool" where
  "truncate_resource text zone format =
     (if length text \<le> max_resource_bytes then (text, False)
      else if format \<noteq> ''bind'' then (truncate_csv_records text max_resource_bytes, True)
      else let cut' = line_aligned (take max_resource_bytes text)
           in (cut' @ truncation_banner (length cut') zone, True))"

record export_tool_output =
  eo_zone :: string
  eo_format :: string
  eo_record_count :: nat
  eo_content :: string
  eo_truncated :: bool
  eo_full_export :: string

definition tool_export_zone ::
  "'p pdns \<Rightarrow> svc_faults \<Rightarrow> upstream_error \<Rightarrow> user option \<Rightarrow> string \<Rightarrow> string \<Rightarrow> 'p svc \<Rightarrow> string + export_tool_output" where
  "tool_export_zone pd sf up user zone0 format0 s =
     (case user_from_context user of
        Inl e \<Rightarrow> Inl e
      | Inr u \<Rightarrow> (case canonical_zone_arg zone0 of
          Inl e \<Rightarrow> Inl e
        | Inr zone \<Rightarrow>
            let f = to_lower (trim_space format0); format = (if f = [] then ''bind'' else f) in
            if format \<noteq> ''bind'' \<and> format \<noteq> ''csv'' then Inl ''VALIDATION_ERROR''
            else case export_zone pd (sf_query sf) (Some u) zone format s of
              Inl (ExportRefused e) \<Rightarrow> Inl (map_service_error up ''ZONE_NOT_FOUND'' e)
            | Inl (UnknownFormat _) \<Rightarrow> Inl ''INTERNAL_ERROR''
            | Inr (body, n) \<Rightarrow>
                (case truncate_resource body zone format of
                   (content, truncated) \<Rightarrow> Inr
                     \<lparr>eo_zone = zone, eo_format = format, eo_record_count = n, eo_content = content,
                      eo_truncated = truncated, eo_full_export = (if truncated then export_rest_path zone format else [])\<rparr>)))"

subsection \<open>Write tools\<close>

record record_input =
  in_content :: string
  in_priority :: int
  in_disabled :: bool

definition build_rrset :: "string \<Rightarrow> string \<Rightarrow> int \<Rightarrow> record_input list \<Rightarrow> rrset" where
  "build_rrset name rtype ttl records =
     \<lparr>rr_name = name, rr_type = rtype, rr_ttl = ttl, rr_changetype = [],
      rr_records = map (\<lambda>r. plain_record (in_content r) (in_priority r) (in_disabled r)) records, rr_comments = None\<rparr>"

text \<open>What every write tool does first: the scope, the user, the zone.\<close>

definition write_tool ::
  "api_key_scope option \<Rightarrow> user option \<Rightarrow> string \<Rightarrow> (user \<Rightarrow> string \<Rightarrow> 'p svc \<Rightarrow> (string + 'a) \<times> 'p svc)
   \<Rightarrow> 'p svc \<Rightarrow> (string + 'a) \<times> 'p svc" where
  "write_tool scope user zone0 body s =
     (case tool_write_scope scope of
        Some e \<Rightarrow> (Inl e, s)
      | None \<Rightarrow> (case user_from_context user of
          Inl e \<Rightarrow> (Inl e, s)
        | Inr u \<Rightarrow> (case canonical_zone_arg zone0 of
            Inl e \<Rightarrow> (Inl e, s)
          | Inr zone \<Rightarrow> body u zone s)))"

definition tool_outcome ::
  "upstream_error \<Rightarrow> string \<Rightarrow> service_error option \<times> 'p svc \<Rightarrow> (string + unit) \<times> 'p svc" where
  "tool_outcome up not_found_code r =
     (case r of (Some e, s) \<Rightarrow> (Inl (map_service_error up not_found_code e), s) | (None, s) \<Rightarrow> (Inr (), s))"

definition tool_create_record ::
  "'p pdns \<Rightarrow> svc_faults \<Rightarrow> upstream_error \<Rightarrow> api_key_scope option \<Rightarrow> user option \<Rightarrow> string \<Rightarrow> string \<Rightarrow> string
   \<Rightarrow> int \<Rightarrow> record_input list \<Rightarrow> 'p svc \<Rightarrow> (string + unit) \<times> 'p svc" where
  "tool_create_record pd sf up scope user zone0 name rtype ttl records =
     write_tool scope user zone0 (\<lambda>u zone s.
       case validate_record_set (build_rrset name rtype ttl records) zone of
         Inl _ \<Rightarrow> (Inl ''VALIDATION_ERROR'', s)
       | Inr rr \<Rightarrow> tool_outcome up ''RECORD_NOT_FOUND'' (create_record pd sf (Some u) zone rr SourceMCP s))"

definition tool_update_record ::
  "'p pdns \<Rightarrow> svc_faults \<Rightarrow> upstream_error \<Rightarrow> api_key_scope option \<Rightarrow> user option \<Rightarrow> string \<Rightarrow> string \<Rightarrow> string
   \<Rightarrow> int \<Rightarrow> record_input list \<Rightarrow> bool \<Rightarrow> 'p svc \<Rightarrow> (string + unit) \<times> 'p svc" where
  "tool_update_record pd sf up scope user zone0 name rtype ttl records clear =
     write_tool scope user zone0 (\<lambda>u zone s.
       case prepare_validated_record_set (clear_comments clear (build_rrset name rtype ttl records)) zone of
         Inl _ \<Rightarrow> (Inl ''VALIDATION_ERROR'', s)
       | Inr rr \<Rightarrow> tool_outcome up ''RECORD_NOT_FOUND'' (update_record pd sf (Some u) zone rr SourceMCP s))"

definition tool_delete_record ::
  "'p pdns \<Rightarrow> svc_faults \<Rightarrow> upstream_error \<Rightarrow> api_key_scope option \<Rightarrow> user option \<Rightarrow> string \<Rightarrow> string \<Rightarrow> string
   \<Rightarrow> 'p svc \<Rightarrow> (string + unit) \<times> 'p svc" where
  "tool_delete_record pd sf up scope user zone0 name0 rtype0 =
     write_tool scope user zone0 (\<lambda>u zone s.
       case record_key zone name0 rtype0 of
         Inl _ \<Rightarrow> (Inl ''VALIDATION_ERROR'', s)
       | Inr (name, rtype) \<Rightarrow>
           tool_outcome up ''RECORD_NOT_FOUND'' (delete_record pd sf (Some u) zone name rtype SourceMCP s))"

definition tool_create_zone ::
  "'p pdns \<Rightarrow> svc_faults \<Rightarrow> upstream_error \<Rightarrow> api_key_scope option \<Rightarrow> user option \<Rightarrow> string \<Rightarrow> string
   \<Rightarrow> string list \<Rightarrow> string list \<Rightarrow> 'p svc \<Rightarrow> (string + zone) \<times> 'p svc" where
  "tool_create_zone pd sf up scope user name kind nameservers masters s =
     (case tool_write_scope scope of
        Some e \<Rightarrow> (Inl e, s)
      | None \<Rightarrow> (case user_from_context user of
          Inl e \<Rightarrow> (Inl e, s)
        | Inr u \<Rightarrow> (case validate_zone_create \<lparr>zc_name = name, zc_kind = kind, zc_nameservers = nameservers,
              zc_masters = masters, zc_catalog = []\<rparr> of
            Inl _ \<Rightarrow> (Inl ''VALIDATION_ERROR'', s)
          | Inr req \<Rightarrow> (case create_zone pd sf (Some u) req SourceMCP s of
              (Inl e, s') \<Rightarrow> (Inl (map_service_error up ''ZONE_NOT_FOUND'' e), s')
            | (Inr z, s') \<Rightarrow> (Inr z, s')))))"

definition tool_delete_zone ::
  "'p pdns \<Rightarrow> svc_faults \<Rightarrow> upstream_error \<Rightarrow> api_key_scope option \<Rightarrow> user option \<Rightarrow> string
   \<Rightarrow> 'p svc \<Rightarrow> (string + unit) \<times> 'p svc" where
  "tool_delete_zone pd sf up scope user zone0 =
     write_tool scope user zone0 (\<lambda>u zone s.
       tool_outcome up ''ZONE_NOT_FOUND'' (delete_zone pd sf (Some u) zone SourceMCP s))"

subsection \<open>The zone resource\<close>

text \<open>\<^verbatim>\<open>url.PathUnescape\<close>.\<close>

definition hex_value :: "char \<Rightarrow> nat option" where
  "hex_value c =
     (if is_digit c then Some (ord c - 48)
      else if 65 \<le> ord c \<and> ord c \<le> 70 then Some (ord c - 55)
      else if 97 \<le> ord c \<and> ord c \<le> 102 then Some (ord c - 87)
      else None)"

fun path_unescape :: "string \<Rightarrow> string option" where
  "path_unescape [] = Some []"
| "path_unescape (c # cs) =
     (if c \<noteq> CHR ''%'' then map_option (Cons c) (path_unescape cs)
      else case cs of
        x # y # rest \<Rightarrow>
          (case (hex_value x, hex_value y) of
             (Some a, Some b) \<Rightarrow> map_option (Cons (char_of (16 * a + b))) (path_unescape rest)
           | _ \<Rightarrow> None)
      | _ \<Rightarrow> None)"

definition zone_from_resource_uri :: "string \<Rightarrow> string + string" where
  "zone_from_resource_uri uri =
     (let pre = ''gozone://zones/'' in
      if \<not> has_prefix uri pre then Inl ''VALIDATION_ERROR''
      else case path_unescape (drop (length pre) uri) of
        None \<Rightarrow> Inl ''VALIDATION_ERROR''
      | Some zone \<Rightarrow> if zone = [] \<or> CHR ''/'' \<in> set zone then Inl ''VALIDATION_ERROR'' else Inr zone)"

definition read_zone_resource ::
  "'p pdns \<Rightarrow> svc_faults \<Rightarrow> upstream_error \<Rightarrow> user option \<Rightarrow> string \<Rightarrow> 'p svc \<Rightarrow> string + string" where
  "read_zone_resource pd sf up user uri s =
     (case user_from_context user of
        Inl e \<Rightarrow> Inl e
      | Inr u \<Rightarrow> (case zone_from_resource_uri uri of
          Inl e \<Rightarrow> Inl e
        | Inr zone0 \<Rightarrow>
            let zone = normalize_zone_name zone0 in
            case get_zone pd sf (Some u) zone s of
              Inl e \<Rightarrow> Inl (map_service_error up ''ZONE_NOT_FOUND'' e)
            | Inr z \<Rightarrow> (case list_records pd sf (Some u) zone [] [] s of
                Inl e \<Rightarrow> Inl (map_service_error up ''ZONE_NOT_FOUND'' e)
              | Inr rrs \<Rightarrow> Inr (fst (truncate_resource (render_zone_file z rrs) zone ''bind'')))))"

subsection \<open>The server\<close>

datatype tool_set = ReadTools | ReadWriteTools

definition server_for :: "bool \<Rightarrow> api_key_scope option \<Rightarrow> tool_set" where
  "server_for read_only scope =
     (if scope = Some ScopeMCPWrite \<and> \<not> read_only then ReadWriteTools else ReadTools)"

definition origin_allowed :: "string list \<Rightarrow> string \<Rightarrow> bool" where
  "origin_allowed allowed origin0 =
     (let origin = trim_space origin0 in
      origin = [] \<or> to_lower origin \<in> (\<lambda>x. to_lower (trim_space x)) ` set allowed)"

end
