(* ===== verification/TransportLaws.thy ===== *)
theory TransportLaws
  imports Mcp
begin

section \<open>Properties of the REST and MCP transports\<close>

text \<open>
  Both transports sit on one service.  The theorems say that they have the same effects and
  outcomes, and that a caller without access learns and changes nothing through either.
\<close>

subsection \<open>Codes\<close>

definition same_effect :: "'p svc \<Rightarrow> 'p svc \<Rightarrow> bool" where
  "same_effect s s' \<longleftrightarrow> sv_pdns s = sv_pdns s' \<and> sv_grants s = sv_grants s' \<and> length (sv_log s) = length (sv_log s')"

lemma same_effect_refl [simp]: "same_effect s s"
  by (simp add: same_effect_def)

lemma same_effect_sym: "same_effect s s' \<Longrightarrow> same_effect s' s"
  by (simp add: same_effect_def)

text \<open>The code a tool gives where the REST API gives \<open>c\<close>.\<close>

definition tool_code :: "string \<Rightarrow> string" where
  "tool_code c =
     (if c = ''RECORD_ERROR'' then ''RECORD_NOT_FOUND'' else if c = ''ZONE_CREATE_ERROR'' then ''ZONE_NOT_FOUND'' else c)"

definition agrees :: "'a rest_reply \<times> 'p svc \<Rightarrow> (string + 'a) \<times> 'p svc \<Rightarrow> bool" where
  "agrees rest tool \<longleftrightarrow> same_effect (snd rest) (snd tool) \<and>
     (case (fst rest, fst tool) of
        (RestOk _ v, Inr w) \<Rightarrow> v = w
      | (RestError _ c, Inl c') \<Rightarrow> c' = tool_code c
      | _ \<Rightarrow> False)"

lemma map_service_error_rest:
  "(rest_failure up c e :: 'a rest_reply) = RestError st code \<Longrightarrow>
   (if e = StageFailed StageFetch then c = ''ZONE_NOT_FOUND''
    else c \<in> {''RECORD_ERROR'', ''ZONE_CREATE_ERROR'', ''ZONE_NOT_FOUND''} \<and> d = tool_code c) \<Longrightarrow>
   map_service_error up d e = tool_code code"
  by (cases e; cases up)
    (auto simp: rest_failure_def write_service_authz_error_def pdns_error_status_def error_class_def
      map_service_error_def tool_code_def split: stage.splits if_splits)

lemma rest_failure_error: "\<exists>st code. rest_failure up c e = RestError st code"
  by (auto simp: rest_failure_def split: option.split prod.split)

lemma source_same_effect:
  "(case create_record pd sf u z rr src s of (e, s1) \<Rightarrow> case create_record pd sf u z rr src' s of (e', s2) \<Rightarrow> e = e' \<and> same_effect s1 s2)"
  "(case update_record pd sf u z rr src s of (e, s1) \<Rightarrow> case update_record pd sf u z rr src' s of (e', s2) \<Rightarrow> e = e' \<and> same_effect s1 s2)"
  "(case delete_record pd sf u z n t src s of (e, s1) \<Rightarrow> case delete_record pd sf u z n t src' s of (e', s2) \<Rightarrow> e = e' \<and> same_effect s1 s2)"
  "(case delete_zone pd sf u z src s of (e, s1) \<Rightarrow> case delete_zone pd sf u z src' s of (e', s2) \<Rightarrow> e = e' \<and> same_effect s1 s2)"
  "(case create_zone pd sf u req src s of (e, s1) \<Rightarrow> case create_zone pd sf u req src' s of (e', s2) \<Rightarrow> e = e' \<and> same_effect s1 s2)"
  by (auto simp: create_record_def update_record_def delete_record_def delete_zone_def create_zone_def
      same_effect_def log_activity_def Let_def split: option.split prod.split bool.split)

lemma agrees_outcome:
  assumes "fst r = fst t" "same_effect (snd r) (snd t)"
    and "\<And>e. fst r = Some e \<Longrightarrow> if e = StageFailed StageFetch then cf e = ''ZONE_NOT_FOUND''
      else cf e \<in> {''RECORD_ERROR'', ''ZONE_CREATE_ERROR'', ''ZONE_NOT_FOUND''} \<and> d = tool_code (cf e)"
  shows "agrees (case r of (Some e, s') \<Rightarrow> (rest_failure up (cf e) e, s') | (None, s') \<Rightarrow> (RestOk st (), s'))
    (tool_outcome up d t)"
proof (cases "fst r")
  case None
  with assms show ?thesis by (auto simp: agrees_def tool_outcome_def split: prod.split option.split)
next
  case (Some e)
  obtain st' code where f: "(rest_failure up (cf e) e :: unit rest_reply) = RestError st' code"
    using rest_failure_error by blast
  from map_service_error_rest [OF f assms(3) [OF Some]] have "map_service_error up d e = tool_code code" .
  with Some assms(1,2) f show ?thesis
    by (cases r; cases t) (auto simp: agrees_def tool_outcome_def)
qed

lemma no_fetch_stage:
  "fst (update_record pd sf u z rr src s) \<noteq> Some (StageFailed StageFetch)"
  "fst (delete_record pd sf u z n t src s) \<noteq> Some (StageFailed StageFetch)"
  "fst (delete_zone pd sf u z src s) \<noteq> Some (StageFailed StageFetch)"
  "fst (create_zone pd sf u req src s) \<noteq> Inl (StageFailed StageFetch)"
  by (auto simp: update_record_def delete_record_def delete_zone_def create_zone_def authorize_zone_def
      require_admin_def can_access_zone_def Let_def split: option.splits prod.splits sum.splits bool.splits query_end.splits)

lemma agrees_error: "agrees (RestError st c, s) (Inl (tool_code c), s)"
  by (simp add: agrees_def)

lemma tool_code_plain [simp]:
  "tool_code ''VALIDATION_ERROR'' = ''VALIDATION_ERROR''" "tool_code ''RECORD_ERROR'' = ''RECORD_NOT_FOUND''"
  "tool_code ''ZONE_NOT_FOUND'' = ''ZONE_NOT_FOUND''" "tool_code ''ZONE_CREATE_ERROR'' = ''ZONE_NOT_FOUND''"
  by (simp_all add: tool_code_def)

lemmas agrees_validation = agrees_error [of _ "''VALIDATION_ERROR''", unfolded tool_code_plain]

lemma write_tool_admitted:
  "canonical_zone_arg zone0 = Inr zone \<Longrightarrow> write_tool (Some ScopeMCPWrite) (Some u) zone0 body s = body u zone s"
  by (simp add: write_tool_def tool_write_scope_def user_from_context_def)

text \<open>C9: The MCP write tools and the REST endpoints are the same operations.  For a user with a key that
  may write, and a zone as the tools canonicalise it, each pair answers alike and leaves PowerDNS,
  the grants and the length of the log the same, whatever fails; where a call fails, the tool's code
  is the code of the REST API, except that a resource PowerDNS does not have is \<^verbatim>\<open>RECORD_NOT_FOUND\<close>
  for \<^verbatim>\<open>RECORD_ERROR\<close> and \<^verbatim>\<open>ZONE_NOT_FOUND\<close> for \<^verbatim>\<open>ZONE_CREATE_ERROR\<close>.\<close>

theorem mcp_matches_rest:
  assumes "canonical_zone_arg zone0 = Inr zone"
  shows "agrees (api_create_record pd sf up (Some u) zone (Some (build_rrset name rtype ttl records)) s)
      (tool_create_record pd sf up (Some ScopeMCPWrite) (Some u) zone0 name rtype ttl records s)
    \<and> agrees (api_update_record pd sf up (Some u) zone (Some (build_rrset name rtype ttl records, Some clear)) s)
      (tool_update_record pd sf up (Some ScopeMCPWrite) (Some u) zone0 name rtype ttl records clear s)
    \<and> agrees (api_delete_record pd sf up (Some u) zone (Some (name, rtype)) s)
      (tool_delete_record pd sf up (Some ScopeMCPWrite) (Some u) zone0 name rtype s)
    \<and> agrees (api_delete_zone pd sf up (Some u) zone s)
      (tool_delete_zone pd sf up (Some ScopeMCPWrite) (Some u) zone0 s)
    \<and> agrees (api_create_zone pd sf up (Some u) (Some \<lparr>zc_name = name, zc_kind = kind, zc_nameservers = ns, zc_masters = ms, zc_catalog = []\<rparr>) s)
      (tool_create_zone pd sf up (Some ScopeMCPWrite) (Some u) name kind ns ms s)"
proof (intro conjI)
  note admitted = write_tool_admitted [OF assms]
  show "agrees (api_create_record pd sf up (Some u) zone (Some (build_rrset name rtype ttl records)) s)
      (tool_create_record pd sf up (Some ScopeMCPWrite) (Some u) zone0 name rtype ttl records s)"
  proof (cases "validate_record_set (build_rrset name rtype ttl records) zone")
    case (Inr rr)
    have "agrees (case create_record pd sf (Some u) zone rr SourceAPI s of
        (Some e, s') \<Rightarrow> (rest_failure up (if e = StageFailed StageFetch then ''ZONE_NOT_FOUND'' else ''RECORD_ERROR'') e, s')
      | (None, s') \<Rightarrow> (RestOk 201 (), s'))
      (tool_outcome up ''RECORD_NOT_FOUND'' (create_record pd sf (Some u) zone rr SourceMCP s))"
      using source_same_effect(1) [of pd sf "Some u" zone rr SourceAPI s SourceMCP]
      by (intro agrees_outcome) (auto split: prod.splits dest: same_effect_sym)
    with Inr show ?thesis by (simp add: api_create_record_def tool_create_record_def admitted)
  qed (simp add: api_create_record_def tool_create_record_def admitted agrees_validation)
  show "agrees (api_update_record pd sf up (Some u) zone (Some (build_rrset name rtype ttl records, Some clear)) s)
      (tool_update_record pd sf up (Some ScopeMCPWrite) (Some u) zone0 name rtype ttl records clear s)"
  proof (cases "prepare_validated_record_set (clear_comments clear (build_rrset name rtype ttl records)) zone")
    case (Inr rr)
    have "agrees (case update_record pd sf (Some u) zone rr SourceAPI s of
        (Some e, s') \<Rightarrow> (rest_failure up ((\<lambda>_. ''RECORD_ERROR'') e) e, s') | (None, s') \<Rightarrow> (RestOk 200 (), s'))
      (tool_outcome up ''RECORD_NOT_FOUND'' (update_record pd sf (Some u) zone rr SourceMCP s))"
      using source_same_effect(2) [of pd sf "Some u" zone rr SourceAPI s SourceMCP] no_fetch_stage(1) [of pd sf "Some u" zone rr SourceAPI s]
      by (intro agrees_outcome) (auto split: prod.splits dest: same_effect_sym)
    with Inr show ?thesis by (simp add: api_update_record_def tool_update_record_def admitted)
  qed (simp add: api_update_record_def tool_update_record_def admitted agrees_validation)
  show "agrees (api_delete_record pd sf up (Some u) zone (Some (name, rtype)) s)
      (tool_delete_record pd sf up (Some ScopeMCPWrite) (Some u) zone0 name rtype s)"
  proof (cases "record_key zone name rtype")
    case (Inr k)
    have "agrees (case delete_record pd sf (Some u) zone (fst k) (snd k) SourceAPI s of
        (Some e, s') \<Rightarrow> (rest_failure up ((\<lambda>_. ''RECORD_ERROR'') e) e, s') | (None, s') \<Rightarrow> (RestOk 200 (), s'))
      (tool_outcome up ''RECORD_NOT_FOUND'' (delete_record pd sf (Some u) zone (fst k) (snd k) SourceMCP s))"
      using source_same_effect(3) [of pd sf "Some u" zone "fst k" "snd k" SourceAPI s SourceMCP] no_fetch_stage(2) [of pd sf "Some u" zone "fst k" "snd k" SourceAPI s]
      by (intro agrees_outcome) (auto split: prod.splits dest: same_effect_sym)
    with Inr show ?thesis by (cases k) (simp add: api_delete_record_def tool_delete_record_def admitted)
  qed (simp add: api_delete_record_def tool_delete_record_def admitted agrees_validation)
  have "agrees (case delete_zone pd sf (Some u) zone SourceAPI s of
      (Some e, s') \<Rightarrow> (rest_failure up ((\<lambda>_. ''ZONE_NOT_FOUND'') e) e, s') | (None, s') \<Rightarrow> (RestOk 200 (), s'))
    (tool_outcome up ''ZONE_NOT_FOUND'' (delete_zone pd sf (Some u) zone SourceMCP s))"
    using source_same_effect(4) [of pd sf "Some u" zone SourceAPI s SourceMCP] no_fetch_stage(3) [of pd sf "Some u" zone SourceAPI s]
    by (intro agrees_outcome) (auto split: prod.splits dest: same_effect_sym)
  then show "agrees (api_delete_zone pd sf up (Some u) zone s)
      (tool_delete_zone pd sf up (Some ScopeMCPWrite) (Some u) zone0 s)"
    by (simp add: api_delete_zone_def tool_delete_zone_def admitted)
  let ?req = "\<lparr>zc_name = name, zc_kind = kind, zc_nameservers = ns, zc_masters = ms, zc_catalog = []\<rparr>"
  show "agrees (api_create_zone pd sf up (Some u) (Some ?req) s)
      (tool_create_zone pd sf up (Some ScopeMCPWrite) (Some u) name kind ns ms s)"
  proof (cases "validate_zone_create ?req")
    case (Inr req)
    obtain r s1 r' s2 where c: "create_zone pd sf (Some u) req SourceAPI s = (r, s1)"
      "create_zone pd sf (Some u) req SourceMCP s = (r', s2)" by (metis prod.exhaust)
    with source_same_effect(5) [of pd sf "Some u" req SourceAPI s SourceMCP] no_fetch_stage(4) [of pd sf "Some u" req SourceAPI s]
    have same: "r' = r" "same_effect s1 s2" "r \<noteq> Inl (StageFailed StageFetch)" by (auto dest: same_effect_sym)
    show ?thesis
    proof (cases r)
      case (Inl e)
      obtain st' code where f: "(rest_failure up ''ZONE_CREATE_ERROR'' e :: zone rest_reply) = RestError st' code"
        using rest_failure_error by blast
      from map_service_error_rest [OF f, of "''ZONE_NOT_FOUND''"] Inl same have
        "map_service_error up ''ZONE_NOT_FOUND'' e = tool_code code" by simp
      with Inl Inr c same f show ?thesis
        by (simp add: api_create_zone_def tool_create_zone_def tool_write_scope_def user_from_context_def agrees_def)
    qed (use Inr c same in \<open>simp add: api_create_zone_def tool_create_zone_def tool_write_scope_def user_from_context_def agrees_def\<close>)
  qed (simp add: api_create_zone_def tool_create_zone_def tool_write_scope_def user_from_context_def agrees_validation)
qed

lemma sample_zone_arg: "canonical_zone_arg ''B'' = Inr ''b.''"
  by code_simp

theorem mcp_matches_rest_witness:
  "\<forall>pd sf up u s. agrees (api_delete_zone pd sf up (Some u) ''b.'' s) (tool_delete_zone pd sf up (Some ScopeMCPWrite) (Some u) ''B'' s)"
  using mcp_matches_rest [OF sample_zone_arg] by blast

subsection \<open>Callers without access\<close>

text \<open>What the service answers a caller who is refused, before it asks PowerDNS anything.\<close>

definition refused :: "query_end \<Rightarrow> grant_db \<Rightarrow> user \<Rightarrow> string \<Rightarrow> service_error \<Rightarrow> bool" where
  "refused q db u zone e \<longleftrightarrow> authorize_zone q db (Some u) zone = Some e"

lemma stranger_refused:
  assumes "\<not> can_manage_dns u" "\<not> has_grant db (u_id u) zone"
  shows "\<exists>e\<in>{Forbidden, StageFailed StageZoneAccess}. refused q db u zone e"
  using assms by (cases q) (auto simp: refused_def authorize_zone_def can_access_zone_def)

lemma refused_service:
  assumes "refused (sf_query sf) (sv_grants s) u zone e"
  shows "get_zone pd sf (Some u) zone s = Inl e" "list_records pd sf (Some u) zone n t s = Inl e"
    "create_record pd sf (Some u) zone rr src s = (Some e, s)" "update_record pd sf (Some u) zone rr src s = (Some e, s)"
    "delete_record pd sf (Some u) zone n t src s = (Some e, s)"
    "f = ''bind'' \<or> f = ''csv'' \<Longrightarrow> export_zone pd (sf_query sf) (Some u) zone f s = Inl (ExportRefused e)"
  using assms by (simp_all add: refused_def get_zone_def list_records_def create_record_def update_record_def
      delete_record_def export_zone_def)

lemma refused_failure:
  "e \<in> {Forbidden, StageFailed StageZoneAccess} \<Longrightarrow> rest_failure up c e = rest_failure up' c' e
   \<and> map_service_error up d e = map_service_error up' d' e"
  by (auto simp: rest_failure_def write_service_authz_error_def map_service_error_def)


definition plain_user :: user where
  "plain_user = \<lparr>u_id = 7, u_username = ''eve'', u_role = ''user'', u_enabled = True, u_locked_until = None,
     u_must_change_password = False, u_tokens_valid_after = 0, u_credential_version = 1, u_manual_lock_until = 0\<rparr>"


text \<open>A key without the scope \<^verbatim>\<open>mcp:write\<close> changes nothing through MCP: the server of its tool set
  has no write tools, and every write tool refuses it before it looks at its arguments.\<close>

theorem mcp_scope_enforced:
  assumes "scope \<noteq> Some ScopeMCPWrite"
  shows "server_for read_only scope = ReadTools
    \<and> tool_create_record pd sf up scope user zone n t ttl recs s = (Inl ''FORBIDDEN'', s)
    \<and> tool_update_record pd sf up scope user zone n t ttl recs clear s = (Inl ''FORBIDDEN'', s)
    \<and> tool_delete_record pd sf up scope user zone n t s = (Inl ''FORBIDDEN'', s)
    \<and> tool_create_zone pd sf up scope user n kind ns ms s = (Inl ''FORBIDDEN'', s)
    \<and> tool_delete_zone pd sf up scope user zone s = (Inl ''FORBIDDEN'', s)"
  using assms by (simp add: server_for_def tool_create_record_def tool_update_record_def tool_delete_record_def
      tool_create_zone_def tool_delete_zone_def write_tool_def tool_write_scope_def)

theorem mcp_scope_enforced_witness:
  "\<forall>pd sf up user s. tool_delete_zone pd sf up (Some ScopeMCPRead) user ''b.'' s = (Inl ''FORBIDDEN'', s)"
proof (intro allI)
  fix pd sf up user s
  show "tool_delete_zone pd sf up (Some ScopeMCPRead) user ''b.'' s = (Inl ''FORBIDDEN'', s)"
    by (rule mcp_scope_enforced [THEN conjunct2, THEN conjunct2, THEN conjunct2, THEN conjunct2, THEN conjunct2]) simp
qed

subsection \<open>Large exports\<close>

lemma csv_prefix_of_records:
  "csv_records ls = Some rs \<Longrightarrow> list_all (\<lambda>r. length r = w) rs \<Longrightarrow> width = None \<or> width = Some w
   \<Longrightarrow> csv_prefix width ls = rs"
proof (induction ls arbitrary: rs width rule: csv_records.induct)
  case 1
  then show ?case by (simp add: csv_prefix.simps)
next
  case (2 l ls)
  show ?case
  proof (cases "end_of_line l")
    case True
    with 2 show ?thesis by (simp add: csv_prefix.simps [of _ "l # ls"])
  next
    case False
    with "2.prems"(1) obtain fs r rs' where
      f: "csv_fields l ls = Some (fs, r)" "csv_records r = Some rs'" "rs = fs # rs'"
      by (auto split: option.splits)
    with "2.prems" have "csv_prefix (Some w) r = rs'" using "2.IH"(2) [OF False f(1) refl f(2)] by simp
    with False f "2.prems" show ?thesis by (auto simp: csv_prefix.simps [of _ "l # ls"])
  qed
qed

fun fitting_rows :: "nat \<Rightarrow> string list list \<Rightarrow> string list list" where
  "fitting_rows budget [] = []"
| "fitting_rows budget (row # rows) =
     (if length (csv_row row) > budget then [] else row # fitting_rows (budget - length (csv_row row)) rows)"

lemma take_csv_rows_fitting:
  "length out \<le> budget \<Longrightarrow>
   take_csv_rows budget out rows = out @ concat (map csv_row (fitting_rows (budget - length out) rows))"
  by (induction rows arbitrary: out) (auto simp: Let_def)

lemma fitting_rows_length: "length (concat (map csv_row (fitting_rows budget rows))) \<le> budget"
proof (induction rows arbitrary: budget)
  case (Cons row rows)
  show ?case using Cons [of "budget - length (csv_row row)"] by auto
qed simp

lemma fitting_rows_prefix: "\<exists>k. fitting_rows budget rows = take k rows"
proof (induction rows arbitrary: budget)
  case (Cons row rows)
  then obtain k where "fitting_rows (budget - length (csv_row row)) rows = take k rows" by blast
  then have "fitting_rows budget (row # rows) = take (if length (csv_row row) > budget then 0 else Suc k) (row # rows)" by simp
  then show ?case by blast
qed simp

lemma line_aligned_take: "\<exists>k\<le>length text. line_aligned text = take k text"
proof -
  let ?k = "rev (dropWhile (\<lambda>c. c \<noteq> newline_ch) (rev text))"
  have "text = ?k @ rev (takeWhile (\<lambda>c. c \<noteq> newline_ch) (rev text))"
    by (metis rev_append rev_rev_ident takeWhile_dropWhile_id)
  then have "?k = take (length ?k) text" "length ?k \<le> length text" by (metis append_eq_conv_conj, metis length_append le_add1)
  then show ?thesis unfolding line_aligned_def Let_def by (metis order_refl take_all)
qed

lemma truncate_resource_cases:
  "(length text \<le> 2 ^ 20 \<longrightarrow> truncate_resource text zone format = (text, False))
   \<and> (length text > 2 ^ 20 \<longrightarrow>
       (\<exists>k\<le>2 ^ 20. truncate_resource text zone ''bind'' = (take k text @ truncation_banner k zone, True))
       \<and> length (fst (truncate_resource text zone ''csv'')) \<le> 2 ^ 20
       \<and> (\<forall>rows. csv_read_all text = Some rows \<longrightarrow>
            (\<exists>k. truncate_resource text zone ''csv'' = (concat (map csv_row (take k rows)), True)
               \<and> (k < length rows \<longrightarrow> length (concat (map csv_row (take (Suc k) rows))) > 2 ^ 20))))"
proof -
  let ?m = "max_resource_bytes"
  have m: "?m = 2 ^ 20" by (simp add: max_resource_bytes_def)
  have bind: "\<exists>k\<le>?m. truncate_resource text zone ''bind'' = (take k text @ truncation_banner k zone, True)"
    if long: "length text > ?m"
  proof -
    obtain k where k: "k \<le> length (take ?m text)" "line_aligned (take ?m text) = take k (take ?m text)"
      using line_aligned_take by blast
    with long have "k \<le> ?m" "line_aligned (take ?m text) = take k text" "length (take k text) = k" by (auto simp: min_def)
    with long show ?thesis by (auto simp: truncate_resource_def Let_def)
  qed
  have csv: "truncate_resource text zone ''csv'' = (concat (map csv_row (fitting_rows ?m (csv_prefix None (csv_lines text)))), True)"
    if "length text > ?m"
    using that take_csv_rows_fitting [of "[]" ?m] by (simp add: truncate_resource_def truncate_csv_records_def)
  have last: "\<exists>k. fitting_rows b rows = take k rows \<and> (k < length rows \<longrightarrow> length (concat (map csv_row (take (Suc k) rows))) > b)" for b rows
  proof (induction rows arbitrary: b)
    case (Cons row rows)
    show ?case
    proof (cases "length (csv_row row) > b")
      case True
      then show ?thesis by (intro exI [of _ 0]) simp
    next
      case False
      with Cons [of "b - length (csv_row row)"] obtain k where
        "fitting_rows (b - length (csv_row row)) rows = take k rows"
        "k < length rows \<longrightarrow> length (concat (map csv_row (take (Suc k) rows))) > b - length (csv_row row)" by blast
      with False show ?thesis by (intro exI [of _ "Suc k"]) auto
    qed
  qed simp
  have rows: "csv_prefix None (csv_lines text) = rows" if "csv_read_all text = Some rows" for rows
    using that csv_prefix_of_records [of "csv_lines text" rows "length (hd rows)" None]
    by (simp add: csv_read_all_def split: option.splits if_splits)
  have "\<exists>k. truncate_resource text zone ''csv'' = (concat (map csv_row (take k rows)), True)
      \<and> (k < length rows \<longrightarrow> length (concat (map csv_row (take (Suc k) rows))) > ?m)"
    if "csv_read_all text = Some rows" "length text > ?m" for rows
  proof -
    obtain k where "fitting_rows ?m rows = take k rows"
      "k < length rows \<longrightarrow> length (concat (map csv_row (take (Suc k) rows))) > ?m" using last by blast
    with csv [OF that(2)] rows [OF that(1)] show ?thesis by (intro exI [of _ k]) simp
  qed
  moreover have "length (fst (truncate_resource text zone ''csv'')) \<le> ?m" if "length text > ?m"
    using csv [OF that] fitting_rows_length [of ?m] by simp
  moreover have "length text \<le> ?m \<Longrightarrow> truncate_resource text zone format = (text, False)"
    by (simp add: truncate_resource_def)
  ultimately show ?thesis using bind unfolding m [symmetric] by blast
qed

text \<open>A large export is cut at a line and within its limit.  A text of at most one mebibyte is
  returned whole; a longer BIND text is a prefix of at most that length, followed by one comment line
  that names the full export; a longer CSV text that the CSV reader accepts is the longest run of
  its first rows that fits, each row whole.\<close>

theorem truncate_resource_exact:
  "if length text \<le> 2 ^ 20 then truncate_resource text zone format = (text, False)
   else (\<exists>k. k \<le> 2 ^ 20 \<and> truncate_resource text zone ''bind'' = (take k text @ truncation_banner k zone, True))
     \<and> length (fst (truncate_resource text zone ''csv'')) \<le> 2 ^ 20
     \<and> (case csv_read_all text of None \<Rightarrow> True | Some rows \<Rightarrow>
          \<exists>k. truncate_resource text zone ''csv'' = (concat (map csv_row (take k rows)), True)
            \<and> (length rows \<le> k \<or> length (concat (map csv_row (take (Suc k) rows))) > 2 ^ 20))"
proof (cases "length text \<le> 2 ^ 20")
  case True
  with truncate_resource_cases [of "text" zone format] show ?thesis by simp
next
  case False
  with truncate_resource_cases [of "text" zone format] show ?thesis
    by (cases "csv_read_all text") (auto simp: not_le not_less intro: leI)
qed

end
