(* ===== verification/RateLimit.thy ===== *)
theory RateLimit
  imports AuthMw "HOL-Library.AList" "HOL-Library.Signed_Division"
begin

section \<open>Rate limiting\<close>

text \<open>
  Models \<^verbatim>\<open>internal/database/rate_limit.go\<close>, \<^verbatim>\<open>internal/middleware/dbratelimit.go\<close> and
  \<^verbatim>\<open>ratelimit.go\<close>, the keys of \<^verbatim>\<open>cmd/ratelimit.go\<close> and the order of the login limiters in
  \<^verbatim>\<open>cmd/router.go\<close>.  The token bucket of \<^verbatim>\<open>golang.org/x/time/rate\<close> is a parameter: \<open>fresh\<close> is a new
  bucket, \<open>take_token\<close> asks it for a token at a time.
\<close>

subsection \<open>The counters of the database\<close>

type_synonym counters = "((string \<times> time) \<times> nat) list"

definition hits :: "counters \<Rightarrow> string \<Rightarrow> time \<Rightarrow> nat" where
  "hits c key w = (case map_of c (key, w) of None \<Rightarrow> 0 | Some n \<Rightarrow> n)"

definition rate_limit_hit_upsert :: "string \<Rightarrow> time \<Rightarrow> counters \<Rightarrow> counters" where
  "rate_limit_hit_upsert key w c = AList.update (key, w) (hits c key w + 1) c"

text \<open>What may fail: the upsert, or reading the count after it.  A dialect with \<^verbatim>\<open>RETURNING\<close> runs one
  statement, whose count may be lost after it took effect; the other runs both in a transaction.\<close>

datatype hit_fault = HitOk | UpsertFails | ReadFails

definition hit_rate_limit ::
  "bool \<Rightarrow> hit_fault \<Rightarrow> string \<Rightarrow> time \<Rightarrow> nat \<Rightarrow> counters \<Rightarrow> bool option \<times> counters" where
  "hit_rate_limit returns_count fault key w limit c =
     (let c' = rate_limit_hit_upsert key w c in
      case fault of
        UpsertFails \<Rightarrow> (None, c)
      | ReadFails \<Rightarrow> (None, if returns_count then c' else c)
      | HitOk \<Rightarrow> (Some (hits c' key w \<le> limit), c'))"

definition purge_rate_limit_counters :: "bool \<Rightarrow> time \<Rightarrow> counters \<Rightarrow> nat option \<times> counters" where
  "purge_rate_limit_counters fails older c =
     (if fails then (None, c)
      else let kept = filter (\<lambda>((k, w), n). \<not> w < older) c in (Some (length c - length kept), kept))"

subsection \<open>The limiter of the cluster\<close>

definition db_rate_limit_window :: time where
  "db_rate_limit_window = minute"

definition window_of :: "time \<Rightarrow> time" where
  "window_of now = now div db_rate_limit_window * db_rate_limit_window"

text \<open>\<open>later\<close> is the time when the refusal is written.\<close>

definition retry_after :: "time \<Rightarrow> time \<Rightarrow> int" where
  "retry_after w later = (w + db_rate_limit_window - later) sdiv second + 1"

datatype limit_reply = Pass | TooMany int

definition db_limit ::
  "bool \<Rightarrow> hit_fault \<Rightarrow> nat \<Rightarrow> string \<Rightarrow> time \<Rightarrow> time \<Rightarrow> counters \<Rightarrow> limit_reply \<times> counters" where
  "db_limit returns_count fault limit key now later c =
     (if key = [] then (Pass, c)
      else case hit_rate_limit returns_count fault key (window_of now) limit c of
        (None, c') \<Rightarrow> (Pass, c')
      | (Some ok, c') \<Rightarrow> (if ok then Pass else TooMany (retry_after (window_of now) later), c'))"

subsection \<open>Keys\<close>

definition max_username_length :: nat where
  "max_username_length = 32"

definition empty_username_rate_limit_key :: string where
  "empty_username_rate_limit_key = ''<empty-username>''"

definition login_username_key :: "string \<Rightarrow> string" where
  "login_username_key form_username =
     (let username = to_lower (trim_space form_username) in
      if username = [] \<or> length username > max_username_length then empty_username_rate_limit_key else username)"

text \<open>The address the proxy middleware resolved, or else the host of the remote address, which
  \<^verbatim>\<open>net.SplitHostPort\<close> may refuse.\<close>

definition extract_ip :: "string \<Rightarrow> string option \<Rightarrow> string \<Rightarrow> string" where
  "extract_ip client_ip host remote_addr =
     (if client_ip \<noteq> [] then client_ip else case host of Some h \<Rightarrow> h | None \<Rightarrow> remote_addr)"

definition extract_api_key :: "request \<Rightarrow> string" where
  "extract_api_key r =
     (if rq_api_key r \<noteq> [] then rq_api_key r
      else if length (rq_authorization r) > 7 \<and> has_prefix (rq_authorization r) ''Bearer ''
      then drop 7 (rq_authorization r) else [])"

text \<open>The database limiters of a password login, in order; \<open>user_limit\<close> is the configured ceiling,
  where 0 leaves its limiter out.  Both draw on the one table.\<close>

definition login_ip_limit :: nat where
  "login_ip_limit = 5"

definition login_limits ::
  "bool \<Rightarrow> hit_fault \<Rightarrow> hit_fault \<Rightarrow> nat \<Rightarrow> string \<Rightarrow> string \<Rightarrow> time \<Rightarrow> time \<Rightarrow> counters \<Rightarrow> limit_reply \<times> counters" where
  "login_limits returns_count ip_fault user_fault user_limit ip form_username now later c =
     (case db_limit returns_count ip_fault login_ip_limit ip now later c of
        (TooMany n, c') \<Rightarrow> (TooMany n, c')
      | (Pass, c') \<Rightarrow>
          if user_limit = 0 then (Pass, c')
          else db_limit returns_count user_fault user_limit (login_username_key form_username) now later c')"

subsection \<open>The limiter of one instance\<close>

type_synonym 'b limiters = "(string \<times> 'b \<times> time) list"

definition limiter_ttl :: time where
  "limiter_ttl = 5 * minute"

definition limiter_allow ::
  "(nat \<Rightarrow> 'b) \<Rightarrow> (time \<Rightarrow> 'b \<Rightarrow> bool \<times> 'b) \<Rightarrow> nat \<Rightarrow> string \<Rightarrow> time \<Rightarrow> 'b limiters \<Rightarrow> bool \<times> 'b limiters" where
  "limiter_allow fresh take_token n key now ls =
     (let b = (case map_of ls key of None \<Rightarrow> fresh n | Some (b, _) \<Rightarrow> b) in
      case take_token now b of (ok, b') \<Rightarrow> (ok, AList.update key (b', now) ls))"

definition limiter_cleanup :: "time \<Rightarrow> 'b limiters \<Rightarrow> 'b limiters" where
  "limiter_cleanup now ls = filter (\<lambda>(k, b, seen). \<not> now - seen > limiter_ttl) ls"

definition limiter_gate ::
  "(nat \<Rightarrow> 'b) \<Rightarrow> (time \<Rightarrow> 'b \<Rightarrow> bool \<times> 'b) \<Rightarrow> nat \<Rightarrow> string \<Rightarrow> time \<Rightarrow> 'b limiters \<Rightarrow> limit_reply \<times> 'b limiters" where
  "limiter_gate fresh take_token n key now ls =
     (if key = [] then (Pass, ls)
      else case limiter_allow fresh take_token n key now ls of
        (ok, ls') \<Rightarrow> (if ok then Pass else TooMany 60, ls'))"

section \<open>Properties of rate limiting\<close>

subsection \<open>The budget of the cluster\<close>

lemma hits_upsert:
  "hits (rate_limit_hit_upsert key w c) k v = (if k = key \<and> v = w then hits c key w + 1 else hits c k v)"
  by (simp add: hits_def rate_limit_hit_upsert_def update_conv')

lemma map_of_kept: "older \<le> w \<Longrightarrow> map_of (filter (\<lambda>((k, w), n). \<not> w < older) c) (k, w) = map_of (c :: counters) (k, w)"
  by (induction c) auto

lemma hits_purge: "older \<le> w \<Longrightarrow> hits (snd (purge_rate_limit_counters fails older c)) k w = hits c k w"
  using map_of_kept [of older w c k] by (simp add: purge_rate_limit_counters_def hits_def Let_def)

datatype limit_event = Hit hit_fault string time time | Purge bool time

text \<open>What the limiters of a cluster do with a sequence of requests and purges: for every counted
  request its key, its time and whether it was admitted.\<close>

fun run_limiter :: "bool \<Rightarrow> nat \<Rightarrow> limit_event list \<Rightarrow> counters \<Rightarrow> (string \<times> time \<times> bool) list" where
  "run_limiter returns_count limit [] c = []"
| "run_limiter returns_count limit (Purge fails older # es) c =
     run_limiter returns_count limit es (snd (purge_rate_limit_counters fails older c))"
| "run_limiter returns_count limit (Hit fault key now later # es) c =
     (case db_limit returns_count fault limit key now later c of
        (reply, c') \<Rightarrow>
          (if fault = HitOk \<and> key \<noteq> [] then [(key, now, reply = Pass)] else [])
            @ run_limiter returns_count limit es c')"

definition purges_before :: "time \<Rightarrow> limit_event list \<Rightarrow> bool" where
  "purges_before w es = list_all (\<lambda>e. case e of Purge _ older \<Rightarrow> older \<le> w | _ \<Rightarrow> True) es"

lemma run_limiter_budget:
  "purges_before w es \<Longrightarrow>
   length (filter (\<lambda>(k, t, ok). k = key \<and> window_of t = w \<and> ok) (run_limiter rc limit es c)) \<le> limit - hits c key w"
proof (induction es arbitrary: c)
  case (Cons e es)
  have p: "purges_before w es" using Cons.prems by (simp add: purges_before_def)
  show ?case
  proof (cases e)
    case (Purge fails older)
    then show ?thesis using Cons.IH [OF p, of "snd (purge_rate_limit_counters fails older c)"] Cons.prems
      by (simp add: hits_purge purges_before_def)
  next
    case (Hit fault k now later)
    show ?thesis
    proof (cases "k = []")
      case True
      with Hit Cons.IH [OF p, of c] show ?thesis by (simp add: db_limit_def)
    next
      case False
      let ?c = "rate_limit_hit_upsert k (window_of now) c"
      note ih = Cons.IH [OF p, of c] Cons.IH [OF p, of ?c]
      have grow: "hits c key w \<le> hits ?c key w" by (simp add: hits_upsert)
      show ?thesis
      proof (cases "fault = HitOk \<and> k = key \<and> window_of now = w")
        case True
        with False ih Hit show ?thesis
          by (auto simp: db_limit_def hit_rate_limit_def hits_upsert Let_def)
      next
        case other: False
        with False ih grow Hit show ?thesis
          by (cases fault) (auto simp: db_limit_def hit_rate_limit_def Let_def)
      qed
    qed
  qed
qed (simp add: purges_before_def)

lemma window_of_bounds: "window_of t \<le> t \<and> t < window_of t + minute"
proof -
  have "t div m * m \<le> t \<and> t < t div m * m + m" if "0 < m" for m :: int
    using pos_mod_bound [OF that, of t] pos_mod_sign [OF that, of t] div_mult_mod_eq [of t m] by linarith
  from this [of minute] show ?thesis by (simp add: window_of_def db_rate_limit_window_def)
qed

lemma two_windows:
  assumes "t \<le> x" "x < t + minute"
  shows "window_of x = window_of t \<or> window_of x = window_of t + minute"
proof -
  have "0 < minute" by simp
  with assms have "t div minute \<le> x div minute" "x div minute \<le> (t + minute) div minute" by (auto intro: zdiv_mono1)
  moreover have "(t + minute) div minute = t div minute + 1" by simp
  ultimately have "x div minute = t div minute \<or> x div minute = t div minute + 1" by linarith
  then show ?thesis by (auto simp: window_of_def db_rate_limit_window_def algebra_simps)
qed

text \<open>C19: The budget of the cluster holds.  However requests of all instances interleave with failing
  statements and with purges of earlier windows, at most \<open>limit\<close> requests that were counted for a
  key are admitted in a window, and at most twice that many in any stretch of a minute.\<close>

theorem cluster_budget:
  assumes "purges_before (window_of t) es"
  shows "length (filter (\<lambda>(k, x, ok). k = key \<and> window_of x = window_of t \<and> ok) (run_limiter rc limit es c)) \<le> limit
    \<and> length (filter (\<lambda>(k, x, ok). k = key \<and> t \<le> x \<and> x < t + minute \<and> ok) (run_limiter rc limit es c)) \<le> 2 * limit"
proof -
  let ?r = "run_limiter rc limit es c"
  let ?in = "\<lambda>w. filter (\<lambda>(k, x, ok). k = key \<and> window_of x = w \<and> ok) ?r"
  have later: "purges_before (window_of t + minute) es"
    using assms by (auto simp: purges_before_def list_all_iff split: limit_event.splits)
  have b: "length (?in (window_of t)) \<le> limit" "length (?in (window_of t + minute)) \<le> limit"
    using run_limiter_budget [OF assms, of key rc limit c] run_limiter_budget [OF later, of key rc limit c] by linarith+
  have sub: "length (filter P xs) \<le> length (filter Q xs) + length (filter R xs)"
    if "\<And>y. P y \<Longrightarrow> Q y \<or> R y" for P Q R and xs :: "(string \<times> time \<times> bool) list"
    using that by (induction xs) auto
  have "length (filter (\<lambda>(k, x, ok). k = key \<and> t \<le> x \<and> x < t + minute \<and> ok) ?r)
      \<le> length (?in (window_of t)) + length (?in (window_of t + minute))"
    using two_windows by (intro sub) auto
  with b show ?thesis by linarith
qed

theorem cluster_budget_witness:
  "length (filter (\<lambda>(k, x, ok). k = ''a'' \<and> window_of x = window_of 0 \<and> ok)
     (run_limiter True 2 [Hit HitOk ''a'' 0 0, Purge False (- minute), Hit ReadFails ''a'' 1 1, Hit HitOk ''a'' 2 2] [])) \<le> 2"
  using cluster_budget [of 0 "[Hit HitOk ''a'' 0 0, Purge False (- minute), Hit ReadFails ''a'' 1 1, Hit HitOk ''a'' 2 2]"
      "''a''" True 2 "[]"]
  by (simp add: purges_before_def window_of_def)

text \<open>A refused client that waits the announced seconds is in the next window, and is never told to
  wait more than 61 seconds, when the refusal is written within the window.\<close>

lemma retry_after_exact:
  assumes "window_of now \<le> later" "later < window_of now + minute"
  shows "1 \<le> retry_after (window_of now) later \<and> retry_after (window_of now) later \<le> 61
    \<and> window_of now + minute < later + retry_after (window_of now) later * second"
proof -
  let ?d = "window_of now + minute - later"
  have d: "0 < ?d" "?d \<le> minute" using assms by simp_all
  have r: "retry_after (window_of now) later = ?d div second + 1"
    using d by (simp add: retry_after_def db_rate_limit_window_def signed_divide_int_def sgn_if)
  have "?d < (?d div second + 1) * second"
    using pos_mod_bound [of second ?d] div_mult_mod_eq [of ?d second] by (simp add: algebra_simps)
  moreover have "0 \<le> ?d div second" "?d div second \<le> minute div second"
    using d by (simp add: pos_imp_zdiv_nonneg_iff, intro zdiv_mono1) simp_all
  ultimately show ?thesis unfolding r by (simp add: algebra_simps)
qed

subsection \<open>Keys\<close>

lemma trim_space_to_lower: "trim_space (to_lower x) = to_lower (trim_space x)"
  by (simp add: trim_space_def trim_left_def trim_right_def to_lower_def rev_map dropWhile_map o_def)

lemma username_key_not_sentinel:
  "validate_username u = None \<Longrightarrow> to_lower u \<noteq> empty_username_rate_limit_key \<and> u \<noteq> [] \<and> length u \<le> 32"
proof
  assume v: "validate_username u = None"
  then have r: "username_regex u" "u \<noteq> []" by (simp_all add: validate_username_def split: if_splits)
  then have letter: "is_upper (hd u) \<or> is_lower (hd u)" by (simp add: username_regex_def)
  have "\<not> is_upper (CHR ''<'')" "\<not> is_lower (CHR ''<'')" by code_simp+
  with letter have "hd u \<noteq> CHR ''<''" by metis
  moreover have "lower_char d = CHR ''<'' \<longleftrightarrow> d = CHR ''<''" for d
    by (rule lower_char_eq_nonletter) (simp add: ord_def)
  ultimately have "hd (to_lower u) \<noteq> CHR ''<''" using r(2) by (simp add: to_lower_def hd_map)
  then show "to_lower u \<noteq> empty_username_rate_limit_key" by (metis empty_username_rate_limit_key_def list.sel(1))
  show "u \<noteq> [] \<and> length u \<le> 32" using r by (simp add: username_regex_def)
qed

text \<open>The key of the attempted username is never empty, never longer than the longest username,
  the same for every spelling of one username, and the shared key of the missing usernames is
  no account's key.\<close>

theorem login_username_key_exact:
  "login_username_key x \<noteq> [] \<and> length (login_username_key x) \<le> 32
   \<and> login_username_key (to_lower x) = login_username_key x
   \<and> (if validate_username (trim_space x) = None
       then login_username_key x = to_lower (trim_space x) \<and> login_username_key x \<noteq> empty_username_rate_limit_key
       else True)"
proof -
  have "length empty_username_rate_limit_key = 16" by (simp add: empty_username_rate_limit_key_def)
  moreover have "validate_username (trim_space x) \<noteq> None \<or> to_lower (trim_space x) \<noteq> empty_username_rate_limit_key
      \<and> trim_space x \<noteq> [] \<and> length (trim_space x) \<le> 32"
    using username_key_not_sentinel by blast
  ultimately show ?thesis
    by (auto simp: login_username_key_def Let_def max_username_length_def trim_space_to_lower empty_username_rate_limit_key_def)
qed

subsection \<open>One table for two kinds of keys\<close>

definition attack :: "nat \<Rightarrow> counters" where
  "attack n = ((\<lambda>c. snd (login_limits True HitOk HitOk 10 ''198.51.100.1'' ''203.0.113.7'' 0 0 c)) ^^ n) []"

text \<open>A client can lock out another address.  The limiter of addresses and the limiter of usernames
  count in one table without telling their keys apart, and a login form may name anything: five
  attempts from one address, with another address as the username, use up the budget of that
  address, whose next login is refused.\<close>

theorem username_exhausts_address:
  "list_all (\<lambda>n. fst (login_limits True HitOk HitOk 10 ''198.51.100.1'' ''203.0.113.7'' 0 0 (attack n)) = Pass) [0..<5]
   \<and> fst (login_limits True HitOk HitOk 10 ''203.0.113.7'' ''alice'' 1 1 (attack 5)) = TooMany 60
   \<and> fst (login_limits True HitOk HitOk 10 ''203.0.113.7'' ''alice'' 1 1 []) = Pass"
proof -
  have k: "login_username_key ''203.0.113.7'' = ''203.0.113.7''" "login_username_key ''alice'' = ''alice''" by code_simp+
  note d = login_limits_def db_limit_def hit_rate_limit_def rate_limit_hit_upsert_def hits_def window_of_def
    login_ip_limit_def db_rate_limit_window_def retry_after_def signed_divide_int_def k Let_def
  have step: "snd (login_limits True HitOk HitOk 10 ''198.51.100.1'' ''203.0.113.7'' 0 0 [])
      = [((''198.51.100.1'', 0), 1), ((''203.0.113.7'', 0), 1)]"
    "snd (login_limits True HitOk HitOk 10 ''198.51.100.1'' ''203.0.113.7'' 0 0 [((''198.51.100.1'', 0), n), ((''203.0.113.7'', 0), n)])
      = [((''198.51.100.1'', 0), Suc n), ((''203.0.113.7'', 0), Suc n)]" if "n < 5" for n
    using that by (simp_all add: d)
  have a: "attack 0 = []" "attack (Suc n) = (if n < 5 then [((''198.51.100.1'', 0), Suc n), ((''203.0.113.7'', 0), Suc n)] else attack (Suc n))" for n
  proof -
    have "n < 5 \<Longrightarrow> attack (Suc n) = [((''198.51.100.1'', 0), Suc n), ((''203.0.113.7'', 0), Suc n)]" for n
    proof (induction n)
      case 0
      then show ?case using step(1) [of 0] by (simp add: attack_def)
    next
      case (Suc n)
      then show ?case using step(2) [of "Suc n"] by (simp add: attack_def)
    qed
    then show "attack (Suc n) = (if n < 5 then [((''198.51.100.1'', 0), Suc n), ((''203.0.113.7'', 0), Suc n)] else attack (Suc n))" by simp
  qed (simp add: attack_def)
  have five: "attack 5 = [((''198.51.100.1'', 0), 5), ((''203.0.113.7'', 0), 5)]" using a(2) [of 4] by simp
  have "fst (login_limits True HitOk HitOk 10 ''198.51.100.1'' ''203.0.113.7'' 0 0 (attack n)) = Pass" if "n < 5" for n
    using that a(1) a(2) [of "n - 1"] by (cases n) (simp_all add: d)
  then show ?thesis by (simp add: list_all_iff five) (simp add: d)
qed

subsection \<open>Eviction\<close>

datatype limiter_event = Ask string time | Sweep time

fun limiter_event_time :: "limiter_event \<Rightarrow> time" where
  "limiter_event_time (Ask _ t) = t"
| "limiter_event_time (Sweep t) = t"

text \<open>The answers of one limiter, with its cleanups or as if they never ran.\<close>

fun run_instance ::
  "bool \<Rightarrow> (nat \<Rightarrow> 'b) \<Rightarrow> (time \<Rightarrow> 'b \<Rightarrow> bool \<times> 'b) \<Rightarrow> nat \<Rightarrow> limiter_event list \<Rightarrow> 'b limiters \<Rightarrow> limit_reply list" where
  "run_instance sweeps fresh take_token n [] ls = []"
| "run_instance sweeps fresh take_token n (Sweep now # es) ls =
     run_instance sweeps fresh take_token n es (if sweeps then limiter_cleanup now ls else ls)"
| "run_instance sweeps fresh take_token n (Ask key now # es) ls =
     (case limiter_gate fresh take_token n key now ls of
        (r, ls') \<Rightarrow> r # run_instance sweeps fresh take_token n es ls')"

definition swept_like :: "(time \<Rightarrow> 'b \<Rightarrow> bool \<times> 'b) \<Rightarrow> time \<Rightarrow> 'b limiters \<Rightarrow> 'b limiters \<Rightarrow> bool" where
  "swept_like take_token now ls ls' \<longleftrightarrow> distinct (map fst ls) \<and>
     (\<forall>k b seen. map_of ls' k = Some (b, seen) \<longrightarrow> (\<exists>b0. b = snd (take_token seen b0))) \<and>
     (\<forall>k. map_of ls k = map_of ls' k \<or>
        map_of ls k = None \<and> (\<exists>b seen. map_of ls' k = Some (b, seen) \<and> seen + minute \<le> now))"

lemma map_of_filter_distinct:
  "distinct (map fst xs) \<Longrightarrow>
   map_of (filter P xs) k = (case map_of xs k of None \<Rightarrow> None | Some v \<Rightarrow> if P (k, v) then Some v else None)"
proof (induction xs)
  case (Cons x xs)
  have "k \<notin> fst ` set xs \<Longrightarrow> map_of xs k = None" by (simp add: map_of_eq_None_iff)
  with Cons show ?case by (cases x) (auto split: option.splits)
qed simp

lemma swept_like_sweep:
  assumes "swept_like take_token now ls ls'" "now \<le> t"
  shows "swept_like take_token t (limiter_cleanup t ls) ls'"
proof -
  have d: "distinct (map fst ls)" using assms(1) by (simp add: swept_like_def)
  have k: "map_of (limiter_cleanup t ls) k = (case map_of ls k of None \<Rightarrow> None
      | Some (b, seen) \<Rightarrow> if t - seen > limiter_ttl then None else Some (b, seen))" for k
    using map_of_filter_distinct [OF d] by (auto simp: limiter_cleanup_def split: option.splits)
  have "map_of (limiter_cleanup t ls) k = map_of ls' k \<or>
      map_of (limiter_cleanup t ls) k = None \<and> (\<exists>b seen. map_of ls' k = Some (b, seen) \<and> seen + minute \<le> t)" for k
  proof -
    have "map_of ls k = map_of ls' k \<or> map_of ls k = None \<and> (\<exists>b seen. map_of ls' k = Some (b, seen) \<and> seen + minute \<le> now)"
      using assms(1) unfolding swept_like_def by blast
    then show ?thesis
    proof
      assume e: "map_of ls k = map_of ls' k"
      show ?thesis
      proof (cases "map_of ls k")
        case None
        with e k [of k] show ?thesis by simp
      next
        case (Some v)
        obtain b seen where v: "v = (b, seen)" by (cases v)
        show ?thesis
        proof (cases "t - seen > limiter_ttl")
          case True
          with Some v e k [of k] show ?thesis by (simp add: limiter_ttl_def)
        next
          case False
          with Some v e k [of k] show ?thesis by simp
        qed
      qed
    next
      assume "map_of ls k = None \<and> (\<exists>b seen. map_of ls' k = Some (b, seen) \<and> seen + minute \<le> now)"
      with k [of k] assms(2) show ?thesis by auto
    qed
  qed
  moreover have "distinct (map fst (limiter_cleanup t ls))"
    using d by (simp add: limiter_cleanup_def distinct_map_filter)
  ultimately show ?thesis using assms(1) unfolding swept_like_def by blast
qed

lemma swept_like_gate:
  assumes law: "\<And>b t t'. t + minute \<le> t' \<Longrightarrow> take_token t' (snd (take_token t b)) = take_token t' (fresh n)"
    and s: "swept_like take_token now ls ls'" and t: "now \<le> t"
  shows "fst (limiter_gate fresh take_token n key t ls) = fst (limiter_gate fresh take_token n key t ls')
    \<and> swept_like take_token t (snd (limiter_gate fresh take_token n key t ls)) (snd (limiter_gate fresh take_token n key t ls'))"
proof (cases "key = []")
  case True
  have "swept_like take_token t ls ls'" using s t unfolding swept_like_def by (meson order_trans)
  with True show ?thesis by (simp add: limiter_gate_def)
next
  case False
  let ?b = "\<lambda>ls. case map_of ls key of None \<Rightarrow> fresh n | Some (b, _) \<Rightarrow> b"
  have same: "take_token t (?b ls) = take_token t (?b ls')"
  proof -
    have "map_of ls key = map_of ls' key \<or> map_of ls key = None \<and> (\<exists>b seen. map_of ls' key = Some (b, seen) \<and> seen + minute \<le> now)"
      using s unfolding swept_like_def by blast
    then show ?thesis
    proof
      assume "map_of ls key = None \<and> (\<exists>b seen. map_of ls' key = Some (b, seen) \<and> seen + minute \<le> now)"
      then obtain b seen where e: "map_of ls key = None" "map_of ls' key = Some (b, seen)" "seen + minute \<le> now" by blast
      obtain b0 where "b = snd (take_token seen b0)" using s e(2) unfolding swept_like_def by blast
      with law [of seen t b0] e t show ?thesis by simp
    qed simp
  qed
  have "swept_like take_token t (AList.update key (snd (take_token t (?b ls)), t) ls)
      (AList.update key (snd (take_token t (?b ls')), t) ls')"
    using s t unfolding swept_like_def same
    by (auto simp: update_conv' distinct_update split: if_splits intro: order_trans)
  with False same show ?thesis by (simp add: limiter_gate_def limiter_allow_def Let_def case_prod_beta)
qed

text \<open>Evicting idle entries changes no answer.  If a bucket that was not asked for a minute answers
  like a new one, which is when the bucket has refilled, a limiter with its cleanups answers every
  sequence of requests, in the order of their times, as one that keeps every entry for ever.\<close>

theorem eviction_unobservable:
  assumes "\<And>b t t'. t + minute \<le> t' \<Longrightarrow> take_token t' (snd (take_token t b)) = take_token t' (fresh n)"
    and "sorted (map limiter_event_time es)"
  shows "run_instance True fresh take_token n es [] = run_instance False fresh take_token n es []"
proof -
  have "swept_like take_token now ls ls' \<Longrightarrow> sorted (map limiter_event_time es) \<Longrightarrow> list_all (\<lambda>e. now \<le> limiter_event_time e) es \<Longrightarrow>
      run_instance True fresh take_token n es ls = run_instance False fresh take_token n es ls'" for now es ls ls'
  proof (induction es arbitrary: now ls ls')
    case (Cons e es)
    have later: "list_all (\<lambda>e'. limiter_event_time e \<le> limiter_event_time e') es" and srt: "sorted (map limiter_event_time es)" and now: "now \<le> limiter_event_time e"
      using Cons.prems by (simp_all add: list_all_iff)
    show ?case
    proof (cases e)
      case (Ask key t)
      with swept_like_gate [where fresh = fresh and take_token = take_token and n = n and key = key and t = t,
          OF assms(1) Cons.prems(1)] now
      have g: "fst (limiter_gate fresh take_token n key t ls) = fst (limiter_gate fresh take_token n key t ls')"
        "swept_like take_token t (snd (limiter_gate fresh take_token n key t ls)) (snd (limiter_gate fresh take_token n key t ls'))"
        by auto
      from Cons.IH [OF g(2) srt] later Ask g(1) show ?thesis by (simp add: case_prod_beta)
    next
      case (Sweep t)
      with Cons.IH [OF swept_like_sweep [OF Cons.prems(1), of t] srt] now later show ?thesis by simp
    qed
  qed simp
  moreover have "swept_like take_token (case es of [] \<Rightarrow> 0 | e # _ \<Rightarrow> limiter_event_time e) [] []" by (simp add: swept_like_def)
  moreover have "list_all (\<lambda>e. (case es of [] \<Rightarrow> 0 | e # _ \<Rightarrow> limiter_event_time e) \<le> limiter_event_time e) es"
    using assms(2) by (cases es) (auto simp: list_all_iff)
  ultimately show ?thesis using assms(2) by blast
qed

definition one_per_minute :: "time \<Rightarrow> time option \<Rightarrow> bool \<times> time option" where
  "one_per_minute t b = (case b of None \<Rightarrow> True | Some s \<Rightarrow> s + minute \<le> t, Some t)"

theorem eviction_unobservable_witness:
  "run_instance True (\<lambda>_. None) one_per_minute 1 [Ask ''a'' 0, Ask ''a'' 1, Sweep (10 * minute), Ask ''a'' (10 * minute)] []
   = run_instance False (\<lambda>_. None) one_per_minute 1 [Ask ''a'' 0, Ask ''a'' 1, Sweep (10 * minute), Ask ''a'' (10 * minute)] []"
  using eviction_unobservable [of one_per_minute "\<lambda>_. None" 1
      "[Ask ''a'' 0, Ask ''a'' 1, Sweep (10 * minute), Ask ''a'' (10 * minute)]"]
  by (simp add: one_per_minute_def)

end
