(* ===== verification/ApiKeys.thy ===== *)
theory ApiKeys
  imports LoginLaws OidcState Paging Templates
begin

section \<open>API keys\<close>

text \<open>
  Models \<^verbatim>\<open>internal/handlers/api_keys.go\<close>: the table of a user's own keys, its page, the
  creation and the deletions.  The digest is the argument \<open>sha\<close>, the random bytes are an argument,
  \<^const>\<open>None\<close> where their source fails; \<open>created\<close> is the time the database writes.  A key is kept by the
  middleware as \<open>keys_view\<close> reads it.
\<close>

subsection \<open>The table\<close>

record stored_key =
  sk_id :: int
  sk_user :: int
  sk_hash :: string
  sk_description :: string
  sk_scope :: string
  sk_last_used :: "time option"
  sk_created :: time
  sk_expires :: "time option"
  sk_version :: int

record key_db =
  kd_accounts :: account_db
  kd_keys :: "stored_key list"
  kd_next :: int

definition owned :: "int \<Rightarrow> key_db \<Rightarrow> stored_key list" where
  "owned uid db = filter (\<lambda>k. sk_user k = uid) (kd_keys db)"

definition key_of_hash :: "string \<Rightarrow> key_db \<Rightarrow> stored_key option" where
  "key_of_hash h db = find (\<lambda>k. sk_hash k = h) (kd_keys db)"

text \<open>The row the middleware reads for a presented key.\<close>

definition key_row :: "stored_key \<Rightarrow> api_key_row" where
  "key_row k = \<lparr>ak_user_id = sk_user k, ak_scope = sk_scope k, ak_created_at = Some (sk_created k),
     ak_expires_at = sk_expires k, ak_credential_version = sk_version k\<rparr>"

definition keys_view :: "key_db \<Rightarrow> string \<rightharpoonup> api_key_row" where
  "keys_view db h = map_option key_row (key_of_hash h db)"

text \<open>The hash is unique.\<close>

definition insert_key :: "stored_key \<Rightarrow> key_db \<Rightarrow> key_db option" where
  "insert_key k db =
     (if key_of_hash (sk_hash k) db \<noteq> None then None
      else Some (db\<lparr>kd_keys := kd_keys db @ [k\<lparr>sk_id := kd_next db\<rparr>], kd_next := kd_next db + 1\<rparr>))"

definition delete_own_key :: "int \<Rightarrow> int \<Rightarrow> key_db \<Rightarrow> nat \<times> key_db" where
  "delete_own_key i uid db =
     (let kept = filter (\<lambda>k. \<not> (sk_id k = i \<and> sk_user k = uid)) (kd_keys db)
      in (length (kd_keys db) - length kept, db\<lparr>kd_keys := kept\<rparr>))"

subsection \<open>What the form may ask\<close>

definition hash_api_key :: "(string \<Rightarrow> string) \<Rightarrow> string \<Rightarrow> string" where
  "hash_api_key sha raw = hex_encode (sha raw)"

definition generate_api_key :: "(string \<Rightarrow> string) \<Rightarrow> string option \<Rightarrow> (string \<times> string) option" where
  "generate_api_key sha rnd =
     map_option (\<lambda>b. let raw = ''gozone_'' @ b64_encode b in (raw, hash_api_key sha raw)) rnd"

definition api_key_expiry_choices :: "int list" where
  "api_key_expiry_choices = [0, 30, 90, 365]"

definition parse_api_key_expiry_days :: "string \<Rightarrow> int option" where
  "parse_api_key_expiry_days submitted =
     (if submitted = [] then Some 0
      else case atoi (trim_space submitted) of
        None \<Rightarrow> None
      | Some days \<Rightarrow> if days \<in> set api_key_expiry_choices then Some days else None)"

definition parse_api_key_scope_choice :: "string \<Rightarrow> bool \<Rightarrow> api_key_scope option" where
  "parse_api_key_scope_choice submitted mcp_enabled =
     (case parse_api_key_scope (trim_space submitted) of
        None \<Rightarrow> None
      | Some scope \<Rightarrow> if \<not> mcp_enabled \<and> scope_surface scope = SurfaceMCP then None else Some scope)"

subsection \<open>Creation\<close>

datatype key_call = KcBegin | KcLock | KcCount | KcInsert | KcDelete | KcLog | KcCommit

type_synonym key_calls = "key_call \<Rightarrow> bool"

datatype key_reply =
    KeysPage string | KeyCreated string | BadExpiry | GenerateFailed | KeyServerError

definition lock_user_row :: "bool \<Rightarrow> int \<Rightarrow> account_db \<Rightarrow> int option" where
  "lock_user_row fails uid db = (if fails then None else map_option ac_version (find_account uid db))"

definition expiry_detail :: "int \<Rightarrow> string" where
  "expiry_detail days = (if days > 0 then ''expires in '' @ dec_int days @ '' days'' else ''no expiry'')"

definition create_api_key_tx ::
  "int \<Rightarrow> key_calls \<Rightarrow> time \<Rightarrow> int \<Rightarrow> int \<Rightarrow> string \<Rightarrow> stored_key \<Rightarrow> key_db \<Rightarrow> key_reply \<times> key_db" where
  "create_api_key_tx max_keys fl now uid days raw k db =
     (if fl KcBegin then (KeyServerError, db)
      else case lock_user_row (fl KcLock) uid (kd_accounts db) of
        None \<Rightarrow> (KeyServerError, db)
      | Some version \<Rightarrow>
          if max_keys > 0 \<and> fl KcCount then (KeyServerError, db)
          else if max_keys > 0 \<and> int (length (owned uid db)) \<ge> max_keys then (KeysPage ''error=limit_reached'', db)
          else case (if fl KcInsert then None else insert_key (k\<lparr>sk_version := version\<rparr>) db) of
            None \<Rightarrow> (KeyServerError, db)
          | Some db' \<Rightarrow>
              (case add_log (fl KcLog) now (Some uid) ''create_api_key''
                  (''Created API key: '' @ sk_description k @ '' ['' @ sk_scope k @ ''] ('' @ expiry_detail days @ '')'')
                  (kd_accounts db') of
                 None \<Rightarrow> (KeyServerError, db)
               | Some acc \<Rightarrow>
                   if fl KcCommit then (KeyServerError, db)
                   else (KeyCreated raw, db'\<lparr>kd_accounts := acc\<rparr>)))"

record key_form =
  kf_description :: string
  kf_expires_in :: string
  kf_scope :: string

definition create_api_key ::
  "(string \<Rightarrow> string) \<Rightarrow> bool \<Rightarrow> int \<Rightarrow> key_calls \<Rightarrow> string option \<Rightarrow> time \<Rightarrow> time \<Rightarrow> int \<Rightarrow> key_form \<Rightarrow> key_db
    \<Rightarrow> key_reply \<times> key_db" where
  "create_api_key sha mcp_enabled max_keys fl rnd now created uid f db =
     (let description = (let d = trim_space (kf_description f) in if d = [] then ''API Key'' else d) in
      case parse_api_key_expiry_days (kf_expires_in f) of
        None \<Rightarrow> (BadExpiry, db)
      | Some days \<Rightarrow>
          (case parse_api_key_scope_choice (kf_scope f) mcp_enabled of
             None \<Rightarrow> (KeysPage ''error=invalid_scope'', db)
           | Some scope \<Rightarrow>
               (case generate_api_key sha rnd of
                  None \<Rightarrow> (GenerateFailed, db)
                | Some (raw, h) \<Rightarrow>
                    create_api_key_tx max_keys fl now uid days raw
                      \<lparr>sk_id = 0, sk_user = uid, sk_hash = h, sk_description = description,
                       sk_scope = scope_string scope, sk_last_used = None, sk_created = created,
                       sk_expires = (if days > 0 then Some (now + days * day) else None), sk_version = 0\<rparr> db)))"

subsection \<open>Deletion\<close>

definition deleted_detail :: "int \<Rightarrow> string" where
  "deleted_detail i = ''Deleted API key '' @ dec_int i"

definition delete_api_key :: "key_calls \<Rightarrow> time \<Rightarrow> int \<Rightarrow> string \<Rightarrow> key_db \<Rightarrow> key_reply \<times> key_db" where
  "delete_api_key fl now uid key_id db =
     (case atoi (trim_space key_id) of
        None \<Rightarrow> (KeysPage ''error=not_found'', db)
      | Some i \<Rightarrow>
          if i \<le> 0 then (KeysPage ''error=not_found'', db)
          else if fl KcBegin \<or> fl KcDelete then (KeyServerError, db)
          else case delete_own_key i uid db of
            (n, db') \<Rightarrow>
              if n = 0 then (KeysPage ''error=not_found'', db)
              else (case add_log (fl KcLog) now (Some uid) ''delete_api_key'' (deleted_detail i) (kd_accounts db') of
                 None \<Rightarrow> (KeyServerError, db)
               | Some acc \<Rightarrow>
                   if fl KcCommit then (KeyServerError, db)
                   else (KeysPage ''flash=deleted'', db'\<lparr>kd_accounts := acc\<rparr>)))"

definition selected_keys :: "string list \<Rightarrow> string list" where
  "selected_keys raw = first_keys [] (filter (\<lambda>x. x \<noteq> []) (map trim_space raw))"

text \<open>The loop of the transaction: the number of keys deleted and the identifiers that failed.
  The deletions and log rows take their own faults.\<close>

fun bulk_delete_keys_loop ::
  "(string \<Rightarrow> key_calls) \<Rightarrow> time \<Rightarrow> int \<Rightarrow> string list \<Rightarrow> key_db \<Rightarrow> (nat \<times> string list \<times> key_db) option" where
  "bulk_delete_keys_loop fl now uid [] db = Some (0, [], db)"
| "bulk_delete_keys_loop fl now uid (s # ss) db =
     (let skip = map_option (\<lambda>(n, failed, db'). (n, s # failed, db')) (bulk_delete_keys_loop fl now uid ss db) in
      case atoi s of
        None \<Rightarrow> skip
      | Some i \<Rightarrow>
          if i \<le> 0 then skip
          else if fl s KcDelete then None
          else case delete_own_key i uid db of
            (n, db') \<Rightarrow>
              if n = 0 then skip
              else (case add_log (fl s KcLog) now (Some uid) ''delete_api_key'' (deleted_detail i) (kd_accounts db') of
                 None \<Rightarrow> None
               | Some acc \<Rightarrow>
                   map_option (\<lambda>(n, failed, db''). (Suc n, failed, db''))
                     (bulk_delete_keys_loop fl now uid ss (db'\<lparr>kd_accounts := acc\<rparr>))))"

datatype bulk_key_reply = BadKeyForm | NoKeySelected | BulkKeysError | KeysDeleted nat "string list"

text \<open>\<open>form\<close> is \<^const>\<open>None\<close> when the body cannot be parsed.\<close>

definition bulk_delete_api_keys ::
  "key_calls \<Rightarrow> (string \<Rightarrow> key_calls) \<Rightarrow> time \<Rightarrow> int \<Rightarrow> string list option \<Rightarrow> key_db \<Rightarrow> bulk_key_reply \<times> key_db" where
  "bulk_delete_api_keys fl each now uid form db =
     (case form of
        None \<Rightarrow> (BadKeyForm, db)
      | Some raw \<Rightarrow>
          if selected_keys raw = [] then (NoKeySelected, db)
          else if fl KcBegin then (BulkKeysError, db)
          else case bulk_delete_keys_loop each now uid (selected_keys raw) db of
            None \<Rightarrow> (BulkKeysError, db)
          | Some (n, failed, db') \<Rightarrow>
              if fl KcCommit then (BulkKeysError, db) else (KeysDeleted n failed, db'))"

subsection \<open>The page\<close>

definition allow_listed_code :: "string \<Rightarrow> string list \<Rightarrow> string" where
  "allow_listed_code code allowed = (if code \<in> set allowed then code else [])"

definition api_key_valid_flash_codes :: "string list" where
  "api_key_valid_flash_codes = [''created'', ''deleted'']"

definition api_key_valid_error_codes :: "string list" where
  "api_key_valid_error_codes = [''not_found'', ''limit_reached'', ''invalid_scope'']"

record keys_page =
  kp_keys :: "stored_key list"
  kp_info :: page_info
  kp_flash :: string
  kp_error :: string

record keys_query =
  kq_search :: string
  kq_page :: string
  kq_per_page :: string
  kq_flash :: string
  kq_error :: string

text \<open>The rows of the page, newest first; \<^const>\<open>None\<close> is the error page of a failed query.\<close>

definition list_api_keys :: "bool \<Rightarrow> int \<Rightarrow> keys_query \<Rightarrow> key_db \<Rightarrow> keys_page option" where
  "list_api_keys fails uid q db =
     (if fails then None
      else
        let rows = sort_key (\<lambda>k. - sk_created k)
              (filter (\<lambda>k. sk_user k = uid \<and> search_matches (kq_search q) [''description''] [sk_description k]) (kd_keys db));
            (page, per_page) = parse_pagination_params (kq_page q) (kq_per_page q) 10
        in map_option (\<lambda>ks. \<lparr>kp_keys = ks, kp_info = page_info_from_total (int (length rows)) page per_page,
             kp_flash = allow_listed_code (kq_flash q) api_key_valid_flash_codes,
             kp_error = allow_listed_code (kq_error q) api_key_valid_error_codes\<rparr>)
           (fetch_page rows page per_page))"

section \<open>Properties of API keys\<close>

subsection \<open>Runs\<close>

datatype key_op =
    MintKey key_calls "string option" time time int key_form
  | DropKey key_calls time int string
  | DropKeys key_calls "string \<Rightarrow> key_calls" time int "string list option"

fun key_step :: "(string \<Rightarrow> string) \<Rightarrow> bool \<Rightarrow> int \<Rightarrow> key_op \<Rightarrow> key_db \<Rightarrow> key_db" where
  "key_step sha mcp mx (MintKey fl rnd now created uid f) db = snd (create_api_key sha mcp mx fl rnd now created uid f db)"
| "key_step sha mcp mx (DropKey fl now uid s) db = snd (delete_api_key fl now uid s db)"
| "key_step sha mcp mx (DropKeys fl each now uid form) db = snd (bulk_delete_api_keys fl each now uid form db)"

definition key_run :: "(string \<Rightarrow> string) \<Rightarrow> bool \<Rightarrow> int \<Rightarrow> key_op list \<Rightarrow> key_db \<Rightarrow> key_db" where
  "key_run sha mcp mx ops db = foldl (\<lambda>d op. key_step sha mcp mx op d) db ops"

fun key_actor :: "key_op \<Rightarrow> int" where
  "key_actor (MintKey fl rnd now created uid f) = uid"
| "key_actor (DropKey fl now uid s) = uid"
| "key_actor (DropKeys fl each now uid form) = uid"

fun drops_keys :: "int \<Rightarrow> key_op \<Rightarrow> bool" where
  "drops_keys u (MintKey fl rnd now created uid f) = False"
| "drops_keys u (DropKey fl now uid s) = (uid = u)"
| "drops_keys u (DropKeys fl each now uid form) = (uid = u)"

subsection \<open>What an operation does to the table\<close>

lemma create_api_key_tx_cases:
  assumes "create_api_key_tx mx fl now uid days raw k db = (r, db')"
  shows "db' = db \<and> (\<forall>x. r \<noteq> KeyCreated x)
    \<or> (\<exists>a. r = KeyCreated raw \<and> find_account uid (kd_accounts db) = Some a
         \<and> (mx > 0 \<longrightarrow> int (length (owned uid db)) < mx) \<and> key_of_hash (sk_hash k) db = None
         \<and> kd_keys db' = kd_keys db @ [k\<lparr>sk_version := ac_version a, sk_id := kd_next db\<rparr>] \<and> kd_next db' = kd_next db + 1)"
proof (cases "fl KcBegin \<or> (mx > 0 \<and> (fl KcCount \<or> mx \<le> int (length (owned uid db))))")
  case True
  with assms show ?thesis by (auto simp: create_api_key_tx_def split: option.splits if_splits)
next
  case False
  then show ?thesis
    using assms
    by (auto simp: create_api_key_tx_def insert_key_def lock_user_row_def not_le split: option.splits if_splits)
qed

definition minted_key :: "(string \<Rightarrow> string) \<Rightarrow> string \<Rightarrow> time \<Rightarrow> time \<Rightarrow> int \<Rightarrow> key_form \<Rightarrow> int \<Rightarrow> api_key_scope \<Rightarrow> account \<Rightarrow> int \<Rightarrow> stored_key" where
  "minted_key sha raw now created uid f days scope a i =
     \<lparr>sk_id = i, sk_user = uid, sk_hash = hash_api_key sha raw,
      sk_description = (if trim_space (kf_description f) = [] then ''API Key'' else trim_space (kf_description f)),
      sk_scope = scope_string scope, sk_last_used = None, sk_created = created,
      sk_expires = (if days > 0 then Some (now + days * day) else None), sk_version = ac_version a\<rparr>"

lemma create_api_key_cases:
  assumes "create_api_key sha mcp mx fl rnd now created uid f db = (r, db')"
  obtains (kept) "db' = db" "\<And>raw. r \<noteq> KeyCreated raw"
  | (minted) raw days scope a where "r = KeyCreated raw"
      "parse_api_key_expiry_days (kf_expires_in f) = Some days"
      "parse_api_key_scope_choice (kf_scope f) mcp = Some scope"
      "find_account uid (kd_accounts db) = Some a"
      "mx > 0 \<longrightarrow> int (length (owned uid db)) < mx" "key_of_hash (hash_api_key sha raw) db = None"
      "kd_keys db' = kd_keys db @ [minted_key sha raw now created uid f days scope a (kd_next db)]"
      "kd_next db' = kd_next db + 1"
proof (cases "parse_api_key_expiry_days (kf_expires_in f) = None \<or> parse_api_key_scope_choice (kf_scope f) mcp = None \<or> rnd = None")
  case True
  with assms kept show thesis
    by (auto simp: create_api_key_def generate_api_key_def Let_def split: option.splits)
next
  case False
  then obtain days scope b where d: "parse_api_key_expiry_days (kf_expires_in f) = Some days"
    "parse_api_key_scope_choice (kf_scope f) mcp = Some scope" "rnd = Some b" by auto
  let ?raw = "''gozone_'' @ b64_encode b"
  have "create_api_key_tx mx fl now uid days ?raw
      \<lparr>sk_id = 0, sk_user = uid, sk_hash = hash_api_key sha ?raw,
       sk_description = (if trim_space (kf_description f) = [] then ''API Key'' else trim_space (kf_description f)),
       sk_scope = scope_string scope, sk_last_used = None, sk_created = created,
       sk_expires = (if days > 0 then Some (now + days * day) else None), sk_version = 0\<rparr> db = (r, db')"
    using assms by (simp add: create_api_key_def generate_api_key_def d Let_def)
  from create_api_key_tx_cases [OF this] show thesis
    using kept minted [OF _ d(1,2)] by (fastforce simp: minted_key_def)
qed

text \<open>A deletion of a user keeps the other users' keys, and keeps of his own a sublist.\<close>

definition trims :: "int \<Rightarrow> key_db \<Rightarrow> key_db \<Rightarrow> bool" where
  "trims uid db db' \<longleftrightarrow> (\<exists>P. kd_keys db' = filter (\<lambda>k. sk_user k \<noteq> uid \<or> P k) (kd_keys db)) \<and> kd_next db' = kd_next db"

lemma trims_refl [simp]: "trims uid db db"
  unfolding trims_def by (intro conjI exI [of _ "\<lambda>_. True"]) simp_all

lemma trims_trans: "trims uid d d' \<Longrightarrow> trims uid d' d'' \<Longrightarrow> trims uid d d''"
proof -
  assume "trims uid d d'" "trims uid d' d''"
  then obtain P Q where "kd_keys d' = filter (\<lambda>k. sk_user k \<noteq> uid \<or> P k) (kd_keys d)"
    "kd_keys d'' = filter (\<lambda>k. sk_user k \<noteq> uid \<or> Q k) (kd_keys d')" "kd_next d'' = kd_next d"
    by (auto simp: trims_def)
  moreover from this have "kd_keys d'' = filter (\<lambda>k. sk_user k \<noteq> uid \<or> P k \<and> Q k) (kd_keys d)"
    by (auto intro: filter_cong)
  ultimately show ?thesis unfolding trims_def by (intro conjI exI [of _ "\<lambda>k. P k \<and> Q k"])
qed

lemma delete_own_key_trims: "delete_own_key i uid db = (n, db') \<Longrightarrow> trims uid db (db'\<lparr>kd_accounts := acc\<rparr>)"
  unfolding trims_def delete_own_key_def Let_def
  by (intro conjI exI [of _ "\<lambda>k. sk_id k \<noteq> i"]) (auto intro: filter_cong)

lemma delete_api_key_trims: "trims uid db (snd (delete_api_key fl now uid s db))"
  using delete_own_key_trims by (fastforce simp: delete_api_key_def split: option.splits prod.splits)

lemma bulk_loop_trims:
  "bulk_delete_keys_loop fl now uid ss db = Some (n, failed, db') \<Longrightarrow> trims uid db db'"
proof (induction ss arbitrary: db n failed)
  case (Cons s ss)
  obtain m d where d: "\<And>i. atoi s = Some i \<Longrightarrow> delete_own_key i uid db = (m, d)"
    by (cases "atoi s") (auto, metis surj_pair)
  have step: "trims uid (d\<lparr>kd_accounts := acc\<rparr>) db' \<Longrightarrow> trims uid db db'" if "atoi s = Some i" for i acc
    using trims_trans [OF delete_own_key_trims [OF d [OF that]]] by blast
  with Cons.prems Cons.IH d show ?case
    by (auto simp: Let_def split: option.splits if_splits) blast
qed simp

lemma bulk_trims: "trims uid db (snd (bulk_delete_api_keys fl each now uid form db))"
  using bulk_loop_trims by (fastforce simp: bulk_delete_api_keys_def split: option.splits prod.splits)

lemma trims_owned: "trims uid db db' \<Longrightarrow> length (owned u db') \<le> length (owned u db)"
proof -
  assume "trims uid db db'"
  then obtain P where "kd_keys db' = filter (\<lambda>k. sk_user k \<noteq> uid \<or> P k) (kd_keys db)" by (auto simp: trims_def)
  then have "owned u db' = filter (\<lambda>k. sk_user k \<noteq> uid \<or> P k) (owned u db)"
    by (auto simp: owned_def conj_commute intro: filter_cong)
  then show ?thesis by simp
qed

lemma trims_others: "trims uid db db' \<Longrightarrow> filter (\<lambda>k. sk_user k \<noteq> uid) (kd_keys db') = filter (\<lambda>k. sk_user k \<noteq> uid) (kd_keys db)"
  by (auto simp: trims_def intro: filter_cong)

subsection \<open>The cap\<close>

lemma key_step_cap:
  assumes "0 < mx"
  shows "int (length (owned u (key_step sha mcp mx op db))) \<le> max mx (int (length (owned u db)))"
proof (cases op)
  case (MintKey fl rnd now created uid f)
  obtain r db' where c: "create_api_key sha mcp mx fl rnd now created uid f db = (r, db')" by (metis surj_pair)
  then show ?thesis
  proof (cases rule: create_api_key_cases)
    case kept
    with c MintKey show ?thesis by simp
  next
    case (minted raw days scope a)
    with assms have "int (length (owned uid db)) < mx" by simp
    with c MintKey minted(7) show ?thesis by (auto simp: owned_def minted_key_def)
  qed
next
  case (DropKey fl now uid s)
  with trims_owned [OF delete_api_key_trims] show ?thesis by (simp add: le_max_iff_disj)
next
  case (DropKeys fl each now uid form)
  with trims_owned [OF bulk_trims] show ?thesis by (simp add: le_max_iff_disj)
qed

text \<open>Nobody gets past the cap.  Whatever creations and deletions all users make, one after the
  other as the lock of the owner's row orders them, and whichever statements fail, no user owns
  more keys than the configured cap, unless he already did.\<close>

theorem key_cap_holds:
  assumes "0 < mx"
  shows "int (length (owned u (key_run sha mcp mx ops db))) \<le> max mx (int (length (owned u db)))"
proof (induction ops arbitrary: db)
  case (Cons op ops)
  have "int (length (owned u (key_run sha mcp mx (op # ops) db))) \<le> max mx (int (length (owned u (key_step sha mcp mx op db))))"
    using Cons by (simp add: key_run_def)
  also have "\<dots> \<le> max mx (int (length (owned u db)))" using key_step_cap [OF assms, of u sha mcp op db] by simp
  finally show ?case .
qed (simp add: key_run_def)

subsection \<open>Other users' keys\<close>

definition own_rows :: "int \<Rightarrow> key_db \<Rightarrow> key_db" where
  "own_rows uid db = db\<lparr>kd_keys := owned uid db\<rparr>"

lemma own_rows_simps [simp]: "kd_accounts (own_rows uid db) = kd_accounts db" "kd_next (own_rows uid db) = kd_next db"
  "own_rows uid (db\<lparr>kd_accounts := acc\<rparr>) = own_rows uid db\<lparr>kd_accounts := acc\<rparr>"
  by (simp_all add: own_rows_def owned_def)

lemma delete_own_key_own:
  "delete_own_key i uid (own_rows uid db) = (case delete_own_key i uid db of (n, db') \<Rightarrow> (n, own_rows uid db'))"
proof -
  let ?P = "\<lambda>k. \<not> (sk_id k = i \<and> sk_user k = uid)"
  have n: "length xs - length (filter ?P xs) = length (filter (\<lambda>k. sk_id k = i \<and> sk_user k = uid) xs)" for xs
    using sum_length_filter_compl [of ?P xs] by simp
  have "filter (\<lambda>k. sk_id k = i \<and> sk_user k = uid) (owned uid db) = filter (\<lambda>k. sk_id k = i \<and> sk_user k = uid) (kd_keys db)"
    by (auto simp: owned_def intro: filter_cong)
  then have "length (owned uid db) - length (filter ?P (owned uid db)) = length (kd_keys db) - length (filter ?P (kd_keys db))"
    by (simp only: n)
  moreover have "filter ?P (owned uid db) = filter (\<lambda>k. sk_user k = uid) (filter ?P (kd_keys db))"
    by (auto simp: owned_def intro: filter_cong)
  ultimately show ?thesis by (simp add: delete_own_key_def own_rows_def owned_def Let_def)
qed

lemma bulk_loop_own:
  "bulk_delete_keys_loop fl now uid ss (own_rows uid db)
   = map_option (\<lambda>(n, failed, db'). (n, failed, own_rows uid db')) (bulk_delete_keys_loop fl now uid ss db)"
proof (induction ss arbitrary: db)
  case (Cons s ss)
  show ?case
    by (auto simp: Let_def delete_own_key_own Cons.IH own_rows_simps(3) [symmetric] option.map_comp o_def case_prod_beta
        simp del: own_rows_simps(3) intro!: map_option_cong split: option.split)
qed simp

text \<open>C27: The keys of other users are out of reach and out of sight.  No operation of a user touches
  another user's row, and what a deletion, a bulk deletion or the page answers is the same whether
  or not the table has rows of others: an identifier of a foreign key is answered as one that does
  not exist.\<close>

theorem keys_are_private:
  "filter (\<lambda>k. sk_user k \<noteq> key_actor op) (kd_keys (key_step sha mcp mx op db)) = filter (\<lambda>k. sk_user k \<noteq> key_actor op) (kd_keys db)
   \<and> fst (delete_api_key fl now uid s db) = fst (delete_api_key fl now uid s (own_rows uid db))
   \<and> fst (bulk_delete_api_keys fl each now uid form db) = fst (bulk_delete_api_keys fl each now uid form (own_rows uid db))
   \<and> list_api_keys fails uid q db = list_api_keys fails uid q (own_rows uid db)"
proof (intro conjI)
  show "filter (\<lambda>k. sk_user k \<noteq> key_actor op) (kd_keys (key_step sha mcp mx op db)) = filter (\<lambda>k. sk_user k \<noteq> key_actor op) (kd_keys db)"
  proof (cases op)
    case (MintKey fl rnd now created uid f)
    obtain r db' where c: "create_api_key sha mcp mx fl rnd now created uid f db = (r, db')" by (metis surj_pair)
    then show ?thesis by (cases rule: create_api_key_cases) (use MintKey c in \<open>simp_all add: minted_key_def\<close>)
  qed (simp_all add: trims_others [OF delete_api_key_trims] trims_others [OF bulk_trims])
  show "fst (delete_api_key fl now uid s db) = fst (delete_api_key fl now uid s (own_rows uid db))"
  proof -
    obtain n d where "delete_own_key i uid db = (n, d)" if "atoi (trim_space s) = Some i" for i
      by (cases "atoi (trim_space s)") (auto, metis surj_pair)
    then show ?thesis by (auto simp: delete_api_key_def delete_own_key_own split: option.splits)
  qed
  show "fst (bulk_delete_api_keys fl each now uid form db) = fst (bulk_delete_api_keys fl each now uid form (own_rows uid db))"
    by (auto simp: bulk_delete_api_keys_def bulk_loop_own split: option.splits)
  show "list_api_keys fails uid q db = list_api_keys fails uid q (own_rows uid db)"
    by (auto simp: list_api_keys_def own_rows_def owned_def filter_filter intro!: arg_cong [where f = "sort_key _"])
qed

subsection \<open>The life of a key\<close>

definition keys_ok :: "key_db \<Rightarrow> bool" where
  "keys_ok db \<longleftrightarrow> distinct (map sk_hash (kd_keys db)) \<and> distinct (map sk_id (kd_keys db))
     \<and> list_all (\<lambda>k. sk_id k < kd_next db) (kd_keys db)"

lemma key_of_hash_unique: "distinct (map sk_hash (kd_keys db)) \<Longrightarrow> k \<in> set (kd_keys db) \<Longrightarrow> key_of_hash (sk_hash k) db = Some k"
proof -
  have "distinct (map sk_hash ks) \<Longrightarrow> k \<in> set ks \<Longrightarrow> find (\<lambda>x. sk_hash x = sk_hash k) ks = Some k" for ks
    by (induction ks) (auto simp: image_iff)
  then show "distinct (map sk_hash (kd_keys db)) \<Longrightarrow> k \<in> set (kd_keys db) \<Longrightarrow> key_of_hash (sk_hash k) db = Some k"
    by (simp add: key_of_hash_def)
qed

lemma key_of_hash_None: "key_of_hash h db = None \<longleftrightarrow> h \<notin> sk_hash ` set (kd_keys db)"
  by (auto simp: key_of_hash_def find_None_iff)

lemma trims_ok: "trims uid db db' \<Longrightarrow> keys_ok db \<Longrightarrow> keys_ok db'"
  by (auto simp: trims_def keys_ok_def distinct_map_filter list_all_iff)

lemma create_ok: "create_api_key sha mcp mx fl rnd now created uid f db = (r, db') \<Longrightarrow> keys_ok db \<Longrightarrow> keys_ok db'"
proof -
  assume c: "create_api_key sha mcp mx fl rnd now created uid f db = (r, db')" and ok: "keys_ok db"
  from c show ?thesis
  proof (cases rule: create_api_key_cases)
    case (minted raw days scope a)
    let ?k = "minted_key sha raw now created uid f days scope a (kd_next db)"
    have "sk_hash ?k \<notin> sk_hash ` set (kd_keys db)" "sk_id ?k = kd_next db"
      using minted(6) by (simp_all add: key_of_hash_None minted_key_def)
    moreover have "kd_next db \<notin> sk_id ` set (kd_keys db)" "list_all (\<lambda>k. sk_id k < kd_next db + 1) (kd_keys db)"
      using ok by (force simp: keys_ok_def list_all_iff)+
    ultimately show ?thesis using ok minted(7,8) by (simp add: keys_ok_def)
  qed (use ok in simp)
qed

lemma key_step_ok: "keys_ok db \<Longrightarrow> keys_ok (key_step sha mcp mx op db)"
  using trims_ok [OF delete_api_key_trims] trims_ok [OF bulk_trims]
  by (cases op) (simp_all, metis create_ok prod.collapse)

lemma key_step_keeps:
  assumes "keys_ok db" "k \<in> set (kd_keys db)" "\<not> drops_keys (sk_user k) op"
  shows "k \<in> set (kd_keys (key_step sha mcp mx op db))"
proof (cases op)
  case (MintKey fl rnd now created uid f)
  obtain r db' where c: "create_api_key sha mcp mx fl rnd now created uid f db = (r, db')" by (metis surj_pair)
  then show ?thesis by (cases rule: create_api_key_cases) (use MintKey c assms in simp_all)
next
  case (DropKey fl now uid s)
  with delete_api_key_trims [of uid db fl now s] assms show ?thesis by (auto simp: trims_def)
next
  case (DropKeys fl each now uid form)
  with bulk_trims [of uid db fl each now form] assms show ?thesis by (auto simp: trims_def)
qed

lemma key_run_keeps:
  "keys_ok db \<Longrightarrow> k \<in> set (kd_keys db) \<Longrightarrow> list_all (\<lambda>op. \<not> drops_keys (sk_user k) op) ops
   \<Longrightarrow> keys_ok (key_run sha mcp mx ops db) \<and> k \<in> set (kd_keys (key_run sha mcp mx ops db))"
  by (induction ops arbitrary: db) (simp_all add: key_run_def key_step_ok key_step_keeps)

lemma minted_expiry: "parse_api_key_expiry_days s = Some d \<Longrightarrow> d \<in> {0, 30, 90, 365}"
  by (auto simp: parse_api_key_expiry_days_def api_key_expiry_choices_def split: option.splits if_splits)

text \<open>C26: A new key does what its form asked, for its owner, and nothing else.  After any operations of
  all users in which its owner deletes none of his keys, a request with the key is admitted exactly
  as the owner, with the chosen scope, on the surface of that scope, no later than the chosen
  number of days after the creation if that is not zero, while the owner is enabled and not locked
  and has not rotated his credentials since; an MCP scope is only ever given while MCP is enabled.\<close>

theorem minted_key_exact:
  assumes "keys_ok db" "create_api_key sha mcp mx fl rnd now created uid f db = (KeyCreated raw, db')"
    and "list_all (\<lambda>op. \<not> drops_keys uid op) ops" "presented_key r = raw"
  shows "\<exists>days\<in>{0, 30, 90, 365}. \<exists>scope a. parse_api_key_expiry_days (kf_expires_in f) = Some days
    \<and> parse_api_key_scope (trim_space (kf_scope f)) = Some scope \<and> (scope_surface scope = SurfaceMCP \<longrightarrow> mcp)
    \<and> find_account uid (kd_accounts db) = Some a
    \<and> (\<forall>surface kf t ad u s. api_key_auth (hash_api_key sha) surface kf t (keys_view (key_run sha mcp mx ops db')) ad r = ApiAdmit u s \<longleftrightarrow>
         raw \<noteq> [] \<and> \<not> kf_key kf \<and> \<not> kf_user kf \<and> \<not> kf_lock kf \<and> (days = 0 \<or> t \<le> now + days * day)
         \<and> ad_users ad uid = Some u \<and> u_enabled u \<and> u_manual_lock_until u \<le> t
         \<and> u_credential_version u \<le> ac_version a \<and> u_tokens_valid_after u \<le> created
         \<and> s = scope \<and> surface = scope_surface scope)"
  using assms(2)
proof (cases rule: create_api_key_cases)
  case kept
  then show ?thesis by blast
next
  case (minted raw' days scope a)
  let ?k = "minted_key sha raw now created uid f days scope a (kd_next db)"
  have raw: "raw' = raw" using minted(1) by simp
  have k: "?k \<in> set (kd_keys db')" using minted raw by simp
  have "list_all (\<lambda>op. \<not> drops_keys (sk_user ?k) op) ops" using assms(3) by (simp add: minted_key_def)
  from key_run_keeps [OF create_ok [OF assms(2,1)] k this]
  have "key_of_hash (sk_hash ?k) (key_run sha mcp mx ops db') = Some ?k" by (auto simp: keys_ok_def intro: key_of_hash_unique)
  then have row: "keys_view (key_run sha mcp mx ops db') (hash_api_key sha raw) = Some (key_row ?k)"
    by (simp add: keys_view_def minted_key_def)
  have scope: "parse_api_key_scope (trim_space (kf_scope f)) = Some scope" "scope_surface scope = SurfaceMCP \<longrightarrow> mcp"
    using minted(3) by (auto simp: parse_api_key_scope_choice_def split: option.splits if_splits)
  have days: "days \<in> {0, 30, 90, 365}" using minted_expiry [OF minted(2)] .
  have "api_key_auth (hash_api_key sha) surface kf t (keys_view (key_run sha mcp mx ops db')) ad r = ApiAdmit u s \<longleftrightarrow>
         raw \<noteq> [] \<and> \<not> kf_key kf \<and> \<not> kf_user kf \<and> \<not> kf_lock kf \<and> (days = 0 \<or> t \<le> now + days * day)
         \<and> ad_users ad uid = Some u \<and> u_enabled u \<and> u_manual_lock_until u \<le> t
         \<and> u_credential_version u \<le> ac_version a \<and> u_tokens_valid_after u \<le> created
         \<and> s = scope \<and> surface = scope_surface scope" for surface kf t ad u s
    using days unfolding api_key_admission assms(4) row
    by (auto simp: key_row_def minted_key_def parse_scope_string)
  note admitted = this
  show ?thesis
    by (rule bexI [OF _ days], rule exI [of _ scope], rule exI [of _ a], intro conjI allI)
      (rule minted(2) scope minted(4) admitted)+
qed

text \<open>A table, a form and a request for the witnesses.\<close>

definition sample_key_db :: key_db where
  "sample_key_db = \<lparr>kd_accounts = sample_accounts, kd_keys = [], kd_next = 1\<rparr>"

definition sample_key_form :: key_form where
  "sample_key_form = \<lparr>kf_description = [], kf_expires_in = ''30'', kf_scope = '' API:write ''\<rparr>"

definition sample_raw_key :: string where
  "sample_raw_key = ''gozone_'' @ b64_encode ''k''"

lemma sample_key_created:
  "fst (create_api_key (\<lambda>s. s) False 1 (\<lambda>_. False) (Some ''k'') 0 0 1 sample_key_form sample_key_db) = KeyCreated sample_raw_key"
proof -
  have "parse_api_key_expiry_days (kf_expires_in sample_key_form) = Some 30"
    "parse_api_key_scope_choice (kf_scope sample_key_form) False = Some ScopeAPIWrite" by code_simp+
  then show ?thesis
    by (simp add: create_api_key_def generate_api_key_def create_api_key_tx_def lock_user_row_def insert_key_def key_of_hash_def
        owned_def add_log_def find_account_def sample_key_db_def sample_accounts_def sample_account_def sample_raw_key_def Let_def)
qed

theorem key_cap_holds_witness:
  "length (owned 1 (key_run (\<lambda>s. s) False 1 [MintKey (\<lambda>_. False) (Some ''k'') 0 0 1 sample_key_form,
     MintKey (\<lambda>_. False) (Some ''l'') 1 1 1 sample_key_form] sample_key_db)) \<le> 1"
  using key_cap_holds [of 1 1 "\<lambda>s. s" False "[MintKey (\<lambda>_. False) (Some ''k'') 0 0 1 sample_key_form,
     MintKey (\<lambda>_. False) (Some ''l'') 1 1 1 sample_key_form]" sample_key_db]
  by (simp add: sample_key_db_def owned_def)

theorem minted_key_exact_witness:
  "\<exists>a. find_account 1 sample_accounts = Some a
    \<and> api_key_auth (hash_api_key (\<lambda>s. s)) SurfaceAPI \<lparr>kf_key = False, kf_user = False, kf_lock = False\<rparr> (30 * day)
        (keys_view (snd (create_api_key (\<lambda>s. s) False 1 (\<lambda>_. False) (Some ''k'') 0 0 1 sample_key_form sample_key_db)))
        (accounts_view Map.empty sample_accounts) (sample_request\<lparr>rq_api_key := sample_raw_key\<rparr>)
      = ApiAdmit (user_of_account a) ScopeAPIWrite"
proof -
  let ?db = "snd (create_api_key (\<lambda>s. s) False 1 (\<lambda>_. False) (Some ''k'') 0 0 1 sample_key_form sample_key_db)"
  have c: "create_api_key (\<lambda>s. s) False 1 (\<lambda>_. False) (Some ''k'') 0 0 1 sample_key_form sample_key_db = (KeyCreated sample_raw_key, ?db)"
    using sample_key_created by (metis prod.collapse)
  have ok: "keys_ok sample_key_db" by (simp add: keys_ok_def sample_key_db_def)
  have p: "presented_key (sample_request\<lparr>rq_api_key := sample_raw_key\<rparr>) = sample_raw_key"
    by (simp add: presented_key_def sample_raw_key_def)
  have e: "parse_api_key_expiry_days (kf_expires_in sample_key_form) = Some 30"
    "parse_api_key_scope (trim_space (kf_scope sample_key_form)) = Some ScopeAPIWrite" by code_simp+
  have a: "find_account 1 sample_accounts = Some (sample_account 1 ''root'' ''admin'')"
    by (simp add: find_account_def sample_accounts_def sample_account_def)
  have n: "key_run (\<lambda>s. s) False 1 [] ?db = ?db" by (simp add: key_run_def)
  show ?thesis
    using minted_key_exact [OF ok c _ p, of "[]"] unfolding n
    by (auto simp: e a sample_key_db_def accounts_view_def user_of_account_def sample_account_def
        sample_raw_key_def scope_surface_def)
qed

end
