(* ===== verification/Config.thy ===== *)
theory Config
  imports Validators GoNet OidcState Paging
begin

section \<open>Configuration\<close>

text \<open>
  Models \<^verbatim>\<open>internal/config/config.go\<close>: the defaults, the environment overrides, the secret
  and the keys derived from it, and the validation, in the order of \<^verbatim>\<open>Load\<close>.  The YAML decoder
  (\<open>decode\<close>, which overlays a text on a configuration), \<^verbatim>\<open>url.Parse\<close> and HKDF are parameters.
  An \<^verbatim>\<open>int\<close> is a 64-bit integer; \<^verbatim>\<open>os.Getenv\<close> is a function to strings, empty when
  the variable is not set.
\<close>

subsection \<open>Sections\<close>

record oidc_provider_section =
  opc_name :: string
  opc_display_name :: string
  opc_issuer_url :: string
  opc_client_id :: string
  opc_client_secret :: string
  opc_scopes :: "string list"

record server_section =
  srv_host :: string
  srv_port :: int
  srv_secret_key :: string
  srv_app_name :: string
  srv_secure_cookies :: bool
  srv_trusted_proxies :: "string list"
  srv_external_url :: string
  srv_jwt_key :: string
  srv_csrf_key :: string
  srv_oidc_state_key :: string
  srv_shutdown_timeout_seconds :: int
  srv_require_secret_key :: bool

record database_section =
  dbc_driver :: string
  dbc_dsn :: string

record powerdns_section =
  pdc_api_url :: string
  pdc_api_key :: string
  pdc_server_id :: string

record auth_section =
  auc_session_duration_hours :: int
  auc_bcrypt_cost :: int
  auc_idle_timeout_minutes :: int
  auc_absolute_session_timeout_hours :: int
  auc_max_api_keys_per_user :: int

record logging_section =
  lgc_level :: string

record admin_section =
  adm_username :: string
  adm_password :: string
  adm_email :: string
  adm_first_name :: string
  adm_last_name :: string

record activity_section =
  avc_retention_days :: int
  avc_batch_size :: int

record login_lock_section =
  llc_max_failed_attempts :: int
  llc_lockout_duration_minutes :: int
  llc_username_rate_limit_per_minute :: int
  llc_attempts_retention_hours :: int

record password_section =
  pwc_min_length :: int
  pwc_max_length :: int
  pwc_require_uppercase :: bool
  pwc_require_lowercase :: bool
  pwc_require_digit :: bool
  pwc_require_special :: bool
  pwc_history_size :: int
  pwc_max_age_days :: int
  pwc_expiry_warn_days :: int

record oidc_section =
  oic_enabled :: bool
  oic_allow_local_login :: bool
  oic_auto_provision :: bool
  oic_require_verified_email :: bool
  oic_default_role :: string
  oic_scopes :: "string list"
  oic_providers :: "oidc_provider_section list"
  oic_role_claim :: string
  oic_admin_role_values :: "string list"
  oic_group_claim :: string
  oic_group_mapping :: "(string \<times> string) list"
  oic_allowed_email_domains :: "string list"
  oic_jwks_cache_ttl_minutes :: int

record mcp_section =
  mcc_enabled :: bool
  mcc_path :: string
  mcc_read_only :: bool
  mcc_allowed_origins :: "string list"

record config =
  cf_server :: server_section
  cf_database :: database_section
  cf_powerdns :: powerdns_section
  cf_auth :: auth_section
  cf_logging :: logging_section
  cf_admin :: admin_section
  cf_activity :: activity_section
  cf_login_lock :: login_lock_section
  cf_password :: password_section
  cf_oidc :: oidc_section
  cf_mcp :: mcp_section

definition default_secret_key :: string where
  "default_secret_key = ''change-me-to-a-random-secret''"

definition default_admin_pw :: string where
  "default_admin_pw = ''admin''"

definition default_bcrypt_cost :: int where "default_bcrypt_cost = 12"

definition default_max_api_keys :: int where "default_max_api_keys = 10"

definition default_config :: config where
  "default_config =
     \<lparr>cf_server = \<lparr>srv_host = ''0.0.0.0'', srv_port = 8080, srv_secret_key = default_secret_key,
        srv_app_name = ''GoZone'', srv_secure_cookies = False, srv_trusted_proxies = [], srv_external_url = [],
        srv_jwt_key = [], srv_csrf_key = [], srv_oidc_state_key = [], srv_shutdown_timeout_seconds = 30,
        srv_require_secret_key = False\<rparr>,
      cf_database = \<lparr>dbc_driver = ''sqlite3'', dbc_dsn = ''./data/gozone.db''\<rparr>,
      cf_powerdns = \<lparr>pdc_api_url = ''http://localhost:8081'', pdc_api_key = ''changeme'', pdc_server_id = ''localhost''\<rparr>,
      cf_auth = \<lparr>auc_session_duration_hours = 24, auc_bcrypt_cost = default_bcrypt_cost, auc_idle_timeout_minutes = 30,
        auc_absolute_session_timeout_hours = 24, auc_max_api_keys_per_user = default_max_api_keys\<rparr>,
      cf_logging = \<lparr>lgc_level = ''info''\<rparr>,
      cf_admin = \<lparr>adm_username = ''admin'', adm_password = default_admin_pw, adm_email = ''admin'' @ CHR 0x40 # ''gozone.local'',
        adm_first_name = ''Admin'', adm_last_name = ''User''\<rparr>,
      cf_activity = \<lparr>avc_retention_days = 90, avc_batch_size = 1000\<rparr>,
      cf_login_lock = \<lparr>llc_max_failed_attempts = 10, llc_lockout_duration_minutes = 15,
        llc_username_rate_limit_per_minute = 5, llc_attempts_retention_hours = 24\<rparr>,
      cf_password = \<lparr>pwc_min_length = 8, pwc_max_length = 72, pwc_require_uppercase = True, pwc_require_lowercase = True,
        pwc_require_digit = True, pwc_require_special = True, pwc_history_size = 0, pwc_max_age_days = 0, pwc_expiry_warn_days = 0\<rparr>,
      cf_oidc = \<lparr>oic_enabled = False, oic_allow_local_login = True, oic_auto_provision = False,
        oic_require_verified_email = True, oic_default_role = ''user'', oic_scopes = [''openid'', ''profile'', ''email''],
        oic_providers = [], oic_role_claim = [], oic_admin_role_values = [], oic_group_claim = [],
        oic_group_mapping = [], oic_allowed_email_domains = [], oic_jwks_cache_ttl_minutes = 60\<rparr>,
      cf_mcp = \<lparr>mcc_enabled = False, mcc_path = ''/mcp'', mcc_read_only = True, mcc_allowed_origins = []\<rparr>\<rparr>"

definition config_policy :: "password_section \<Rightarrow> password_policy" where
  "config_policy p = \<lparr>min_length = pwc_min_length p, require_uppercase = pwc_require_uppercase p,
     require_lowercase = pwc_require_lowercase p, require_digit = pwc_require_digit p,
     require_special = pwc_require_special p, max_length = pwc_max_length p\<rparr>"

subsection \<open>Environment overrides\<close>

datatype config_error =
    FileError | YamlError | EnvError string | SecretRequired | RandomError | DeriveError | Invalid string

type_synonym env = "string \<Rightarrow> string"

datatype env_override =
    StrOverride string "string \<Rightarrow> config \<Rightarrow> config"
  | IntOverride string "int \<Rightarrow> config \<Rightarrow> config"
  | BoolOverride string "bool \<Rightarrow> config \<Rightarrow> config"
  | SliceOverride string "string list \<Rightarrow> config \<Rightarrow> config"

definition env_bool :: "string \<Rightarrow> bool option" where
  "env_bool v =
     (let w = to_lower (trim_space v) in
      if w \<in> set [''1'', ''t'', ''true'', ''yes'', ''on''] then Some True
      else if w \<in> set [''0'', ''f'', ''false'', ''no'', ''off''] then Some False
      else None)"

definition split_non_empty :: "string \<Rightarrow> string list" where
  "split_non_empty s = filter (\<lambda>r. r \<noteq> []) (map trim_space (split_on (CHR '','') s))"

fun apply_override :: "env \<Rightarrow> env_override \<Rightarrow> config \<Rightarrow> config_error + config" where
  "apply_override env (StrOverride n f) c = Inr (if env n = [] then c else f (env n) c)"
| "apply_override env (IntOverride n f) c =
     (if env n = [] then Inr c
      else case atoi (env n) of None \<Rightarrow> Inl (EnvError n) | Some i \<Rightarrow> Inr (f i c))"
| "apply_override env (BoolOverride n f) c =
     (if env n = [] then Inr c
      else case env_bool (env n) of None \<Rightarrow> Inl (EnvError n) | Some b \<Rightarrow> Inr (f b c))"
| "apply_override env (SliceOverride n f) c = Inr (if env n = [] then c else f (split_non_empty (env n)) c)"

definition env_overrides :: "env_override list" where
  "env_overrides =
   [
    StrOverride ''GOZONE_SERVER_HOST'' (\<lambda>v. cf_server_update (srv_host_update (\<lambda>_. v))),
    IntOverride ''GOZONE_SERVER_PORT'' (\<lambda>v. cf_server_update (srv_port_update (\<lambda>_. v))),
    StrOverride ''GOZONE_APP_NAME'' (\<lambda>v. cf_server_update (srv_app_name_update (\<lambda>_. v))),
    StrOverride ''GOZONE_SECRET_KEY'' (\<lambda>v. cf_server_update (srv_secret_key_update (\<lambda>_. v))),
    BoolOverride ''GOZONE_SECURE_COOKIES'' (\<lambda>v. cf_server_update (srv_secure_cookies_update (\<lambda>_. v))),
    BoolOverride ''GOZONE_REQUIRE_SECRET_KEY'' (\<lambda>v. cf_server_update (srv_require_secret_key_update (\<lambda>_. v))),
    StrOverride ''GOZONE_EXTERNAL_URL'' (\<lambda>v. cf_server_update (srv_external_url_update (\<lambda>_. v))),
    IntOverride ''GOZONE_SHUTDOWN_TIMEOUT'' (\<lambda>v. cf_server_update (srv_shutdown_timeout_seconds_update (\<lambda>_. v))),
    SliceOverride ''GOZONE_TRUSTED_PROXIES'' (\<lambda>v. cf_server_update (srv_trusted_proxies_update (\<lambda>_. v))),
    StrOverride ''GOZONE_DB_DRIVER'' (\<lambda>v. cf_database_update (dbc_driver_update (\<lambda>_. v))),
    StrOverride ''GOZONE_DB_DSN'' (\<lambda>v. cf_database_update (dbc_dsn_update (\<lambda>_. v))),
    StrOverride ''GOZONE_PDNS_API_URL'' (\<lambda>v. cf_powerdns_update (pdc_api_url_update (\<lambda>_. v))),
    StrOverride ''GOZONE_PDNS_API_KEY'' (\<lambda>v. cf_powerdns_update (pdc_api_key_update (\<lambda>_. v))),
    StrOverride ''GOZONE_PDNS_SERVER_ID'' (\<lambda>v. cf_powerdns_update (pdc_server_id_update (\<lambda>_. v))),
    IntOverride ''GOZONE_SESSION_DURATION'' (\<lambda>v. cf_auth_update (auc_session_duration_hours_update (\<lambda>_. v))),
    IntOverride ''GOZONE_IDLE_TIMEOUT_MINUTES'' (\<lambda>v. cf_auth_update (auc_idle_timeout_minutes_update (\<lambda>_. v))),
    IntOverride ''GOZONE_ABSOLUTE_SESSION_TIMEOUT_HOURS'' (\<lambda>v. cf_auth_update (auc_absolute_session_timeout_hours_update (\<lambda>_. v))),
    IntOverride ''GOZONE_MAX_API_KEYS'' (\<lambda>v. cf_auth_update (auc_max_api_keys_per_user_update (\<lambda>_. v))),
    IntOverride ''GOZONE_BCRYPT_COST'' (\<lambda>v. cf_auth_update (auc_bcrypt_cost_update (\<lambda>_. v))),
    StrOverride ''GOZONE_ADMIN_USERNAME'' (\<lambda>v. cf_admin_update (adm_username_update (\<lambda>_. v))),
    StrOverride ''GOZONE_ADMIN_PASSWORD'' (\<lambda>v. cf_admin_update (adm_password_update (\<lambda>_. v))),
    StrOverride ''GOZONE_ADMIN_EMAIL'' (\<lambda>v. cf_admin_update (adm_email_update (\<lambda>_. v))),
    StrOverride ''GOZONE_ADMIN_FIRST_NAME'' (\<lambda>v. cf_admin_update (adm_first_name_update (\<lambda>_. v))),
    StrOverride ''GOZONE_ADMIN_LAST_NAME'' (\<lambda>v. cf_admin_update (adm_last_name_update (\<lambda>_. v))),
    IntOverride ''GOZONE_ACTIVITY_RETENTION_DAYS'' (\<lambda>v. cf_activity_update (avc_retention_days_update (\<lambda>_. v))),
    IntOverride ''GOZONE_ACTIVITY_BATCH_SIZE'' (\<lambda>v. cf_activity_update (avc_batch_size_update (\<lambda>_. v))),
    IntOverride ''GOZONE_LOGIN_MAX_FAILED_ATTEMPTS'' (\<lambda>v. cf_login_lock_update (llc_max_failed_attempts_update (\<lambda>_. v))),
    IntOverride ''GOZONE_LOGIN_LOCKOUT_MINUTES'' (\<lambda>v. cf_login_lock_update (llc_lockout_duration_minutes_update (\<lambda>_. v))),
    IntOverride ''GOZONE_LOGIN_USERNAME_RATE_PER_MINUTE'' (\<lambda>v. cf_login_lock_update (llc_username_rate_limit_per_minute_update (\<lambda>_. v))),
    IntOverride ''GOZONE_LOGIN_ATTEMPTS_RETENTION_HOURS'' (\<lambda>v. cf_login_lock_update (llc_attempts_retention_hours_update (\<lambda>_. v))),
    IntOverride ''GOZONE_PASSWORD_MIN_LENGTH'' (\<lambda>v. cf_password_update (pwc_min_length_update (\<lambda>_. v))),
    IntOverride ''GOZONE_PASSWORD_MAX_LENGTH'' (\<lambda>v. cf_password_update (pwc_max_length_update (\<lambda>_. v))),
    IntOverride ''GOZONE_PASSWORD_HISTORY_SIZE'' (\<lambda>v. cf_password_update (pwc_history_size_update (\<lambda>_. v))),
    BoolOverride ''GOZONE_PASSWORD_REQUIRE_UPPERCASE'' (\<lambda>v. cf_password_update (pwc_require_uppercase_update (\<lambda>_. v))),
    BoolOverride ''GOZONE_PASSWORD_REQUIRE_LOWERCASE'' (\<lambda>v. cf_password_update (pwc_require_lowercase_update (\<lambda>_. v))),
    BoolOverride ''GOZONE_PASSWORD_REQUIRE_DIGIT'' (\<lambda>v. cf_password_update (pwc_require_digit_update (\<lambda>_. v))),
    BoolOverride ''GOZONE_PASSWORD_REQUIRE_SPECIAL'' (\<lambda>v. cf_password_update (pwc_require_special_update (\<lambda>_. v))),
    IntOverride ''GOZONE_PASSWORD_MAX_AGE_DAYS'' (\<lambda>v. cf_password_update (pwc_max_age_days_update (\<lambda>_. v))),
    IntOverride ''GOZONE_PASSWORD_EXPIRY_WARN_DAYS'' (\<lambda>v. cf_password_update (pwc_expiry_warn_days_update (\<lambda>_. v))),
    StrOverride ''GOZONE_LOG_LEVEL'' (\<lambda>v. cf_logging_update (lgc_level_update (\<lambda>_. v))),
    BoolOverride ''GOZONE_OIDC_ENABLED'' (\<lambda>v. cf_oidc_update (oic_enabled_update (\<lambda>_. v))),
    BoolOverride ''GOZONE_OIDC_ALLOW_LOCAL_LOGIN'' (\<lambda>v. cf_oidc_update (oic_allow_local_login_update (\<lambda>_. v))),
    BoolOverride ''GOZONE_OIDC_AUTO_PROVISION'' (\<lambda>v. cf_oidc_update (oic_auto_provision_update (\<lambda>_. v))),
    BoolOverride ''GOZONE_OIDC_REQUIRE_VERIFIED_EMAIL'' (\<lambda>v. cf_oidc_update (oic_require_verified_email_update (\<lambda>_. v))),
    StrOverride ''GOZONE_OIDC_DEFAULT_ROLE'' (\<lambda>v. cf_oidc_update (oic_default_role_update (\<lambda>_. v))),
    SliceOverride ''GOZONE_OIDC_SCOPES'' (\<lambda>v. cf_oidc_update (oic_scopes_update (\<lambda>_. v))),
    StrOverride ''GOZONE_OIDC_ROLE_CLAIM'' (\<lambda>v. cf_oidc_update (oic_role_claim_update (\<lambda>_. v))),
    SliceOverride ''GOZONE_OIDC_ADMIN_ROLE_VALUES'' (\<lambda>v. cf_oidc_update (oic_admin_role_values_update (\<lambda>_. v))),
    SliceOverride ''GOZONE_OIDC_ALLOWED_EMAIL_DOMAINS'' (\<lambda>v. cf_oidc_update (oic_allowed_email_domains_update (\<lambda>_. v))),
    StrOverride ''GOZONE_OIDC_GROUP_CLAIM'' (\<lambda>v. cf_oidc_update (oic_group_claim_update (\<lambda>_. v))),
    IntOverride ''GOZONE_OIDC_JWKS_CACHE_TTL_MINUTES'' (\<lambda>v. cf_oidc_update (oic_jwks_cache_ttl_minutes_update (\<lambda>_. v))),
    BoolOverride ''GOZONE_MCP_ENABLED'' (\<lambda>v. cf_mcp_update (mcc_enabled_update (\<lambda>_. v))),
    StrOverride ''GOZONE_MCP_PATH'' (\<lambda>v. cf_mcp_update (mcc_path_update (\<lambda>_. v))),
    BoolOverride ''GOZONE_MCP_READ_ONLY'' (\<lambda>v. cf_mcp_update (mcc_read_only_update (\<lambda>_. v))),
    SliceOverride ''GOZONE_MCP_ALLOWED_ORIGINS'' (\<lambda>v. cf_mcp_update (mcc_allowed_origins_update (\<lambda>_. v)))]"

fun apply_overrides :: "env \<Rightarrow> env_override list \<Rightarrow> config \<Rightarrow> config_error + config" where
  "apply_overrides env [] c = Inr c"
| "apply_overrides env (ov # os) c =
     (case apply_override env ov c of Inl e \<Rightarrow> Inl e | Inr c' \<Rightarrow> apply_overrides env os c')"

definition apply_oidc_provider_env :: "env \<Rightarrow> config \<Rightarrow> config" where
  "apply_oidc_provider_env env c =
     (let name = env ''GOZONE_OIDC_PROVIDER_NAME'';
          issuer = env ''GOZONE_OIDC_ISSUER_URL'';
          client_id = env ''GOZONE_OIDC_CLIENT_ID'';
          client_secret = env ''GOZONE_OIDC_CLIENT_SECRET'' in
      if oic_providers (cf_oidc c) \<noteq> [] then c
      else if name \<noteq> [] \<or> issuer \<noteq> [] \<or> client_id \<noteq> [] \<or> client_secret \<noteq> []
      then c\<lparr>cf_oidc := (cf_oidc c)\<lparr>oic_providers :=
        [\<lparr>opc_name = name, opc_display_name = [], opc_issuer_url = issuer, opc_client_id = client_id,
          opc_client_secret = client_secret, opc_scopes = []\<rparr>]\<rparr>\<rparr>
      else c)"

definition apply_env_overrides :: "env \<Rightarrow> config \<Rightarrow> config_error + config" where
  "apply_env_overrides env c =
     (case apply_overrides env env_overrides c of Inl e \<Rightarrow> Inl e | Inr c' \<Rightarrow> Inr (apply_oidc_provider_env env c'))"

subsection \<open>Addresses\<close>

text \<open>\<^verbatim>\<open>netip.ParseAddr\<close>: an IPv6 address may carry a zone.\<close>

datatype addr = Addr4 "nat list" | Addr6 "nat list" string

definition parse_addr :: "string \<Rightarrow> addr option" where
  "parse_addr s =
     (case dropWhile (\<lambda>c. c \<noteq> CHR ''.'' \<and> c \<noteq> CHR '':'' \<and> c \<noteq> CHR ''%'') s of
        [] \<Rightarrow> None
      | c # _ \<Rightarrow>
          if c = CHR ''.'' then map_option Addr4 (parse_ipv4_fields s)
          else if c = CHR '':'' then
            (let ip = takeWhile (\<lambda>c. c \<noteq> CHR ''%'') s; rest = dropWhile (\<lambda>c. c \<noteq> CHR ''%'') s in
             if rest = [CHR ''%''] then None
             else map_option (\<lambda>b. Addr6 b (tl rest)) (parse_ipv6 ip))
          else None)"

definition parse_prefix :: "string \<Rightarrow> (addr \<times> int) option" where
  "parse_prefix s =
     (if CHR ''/'' \<notin> set s then None
      else
        let bits_text = rev (takeWhile (\<lambda>c. c \<noteq> CHR ''/'') (rev s));
            ip = rev (tl (dropWhile (\<lambda>c. c \<noteq> CHR ''/'') (rev s))) in
        case parse_addr ip of
          None \<Rightarrow> None
        | Some a \<Rightarrow>
            if (case a of Addr6 _ zone \<Rightarrow> zone \<noteq> [] | Addr4 _ \<Rightarrow> False) then None
            else if length bits_text > 1 \<and> \<not> (is_digit (hd bits_text) \<and> hd bits_text \<noteq> CHR ''0'') then None
            else case atoi bits_text of
              None \<Rightarrow> None
            | Some b \<Rightarrow>
                if b < 0 \<or> b > (case a of Addr4 _ \<Rightarrow> 32 | Addr6 _ _ \<Rightarrow> 128) then None else Some (a, b))"

subsection \<open>Validation\<close>

record base_url =
  bu_scheme :: string
  bu_host :: string
  bu_path :: string

type_synonym url_parser = "string \<Rightarrow> base_url option"

definition http_url :: "base_url \<Rightarrow> bool" where
  "http_url u \<longleftrightarrow> bu_host u \<noteq> [] \<and> (bu_scheme u = ''http'' \<or> bu_scheme u = ''https'')"

fun first_invalid :: "(bool \<times> string) list \<Rightarrow> config_error option" where
  "first_invalid [] = None"
| "first_invalid ((bad, what) # cs) = (if bad then Some (Invalid what) else first_invalid cs)"

definition min_secret_key_length :: nat where
  "min_secret_key_length = 32"

definition database_drivers :: "string list" where
  "database_drivers = [''sqlite3'', ''mysql'', ''mariadb'', ''postgres'', ''postgresql'']"

definition validate_bounds :: "config \<Rightarrow> config_error option" where
  "validate_bounds c =
     (let s = cf_server c; a = cf_auth c; d = dbc_driver (cf_database c); v = cf_activity c;
          l = cf_login_lock c; p = cf_password c in
      first_invalid
        [(srv_port s \<le> 0, ''server.port''), (srv_port s < 1024, ''server.port''), (srv_port s > 65535, ''server.port''),
         (length (srv_secret_key s) < min_secret_key_length, ''server.secret_key''),
         (auc_bcrypt_cost a < 4 \<or> auc_bcrypt_cost a > 31, ''auth.bcrypt_cost''),
         (auc_session_duration_hours a \<le> 0, ''auth.session_duration_hours''),
         (auc_max_api_keys_per_user a < 0, ''auth.max_api_keys_per_user''),
         (auc_idle_timeout_minutes a < 0, ''auth.idle_timeout_minutes''),
         (auc_absolute_session_timeout_hours a < 0, ''auth.absolute_session_timeout_hours''),
         (auc_absolute_session_timeout_hours a > 0
            \<and> auc_absolute_session_timeout_hours a < auc_session_duration_hours a, ''auth.absolute_session_timeout_hours''),
         (d = [], ''database.driver''), (d \<notin> set database_drivers, ''database.driver''),
         (avc_retention_days v < 0, ''activity.retention_days''), (avc_batch_size v \<le> 0, ''activity.batch_size''),
         (llc_max_failed_attempts l < 0, ''login_lock.max_failed_attempts''),
         (llc_lockout_duration_minutes l < 0, ''login_lock.lockout_duration_minutes''),
         (llc_max_failed_attempts l > 0 \<and> llc_lockout_duration_minutes l = 0, ''login_lock.lockout_duration_minutes''),
         (llc_username_rate_limit_per_minute l < 0, ''login_lock.username_rate_limit_per_minute''),
         (llc_attempts_retention_hours l < 0, ''login_lock.attempts_retention_hours''),
         (llc_attempts_retention_hours l > 0 \<and> llc_max_failed_attempts l > 0
            \<and> i64 (llc_attempts_retention_hours l * 60) < llc_lockout_duration_minutes l, ''login_lock.attempts_retention_hours''),
         (pwc_min_length p < 0, ''password.min_length''), (pwc_min_length p > 256, ''password.min_length''),
         (pwc_max_length p < 0 \<or> pwc_max_length p > 72, ''password.max_length''),
         (pwc_history_size p < 0, ''password.history_size''), (pwc_max_age_days p < 0, ''password.max_age_days''),
         (pwc_expiry_warn_days p < 0, ''password.expiry_warn_days''),
         (pwc_max_age_days p > 0 \<and> pwc_expiry_warn_days p \<ge> pwc_max_age_days p, ''password.expiry_warn_days''),
         (srv_shutdown_timeout_seconds s \<le> 0, ''server.shutdown_timeout_seconds''),
         (list_ex (\<lambda>p. parse_prefix p = None) (srv_trusted_proxies s), ''server.trusted_proxies'')])"

definition validate_external_url :: "url_parser \<Rightarrow> config \<Rightarrow> config_error + config" where
  "validate_external_url parse c =
     (if srv_external_url (cf_server c) = [] then Inr c
      else case parse (srv_external_url (cf_server c)) of
        None \<Rightarrow> Inl (Invalid ''server.external_url'')
      | Some u \<Rightarrow>
          if \<not> http_url u \<or> bu_path u \<noteq> [] \<and> bu_path u \<noteq> ''/'' then Inl (Invalid ''server.external_url'')
          else Inr (c\<lparr>cf_server := (cf_server c)\<lparr>srv_external_url := bu_scheme u @ ''://'' @ bu_host u\<rparr>\<rparr>))"

definition strip_brackets :: "string \<Rightarrow> string" where
  "strip_brackets h =
     (if length h \<ge> 2 \<and> hd h = CHR ''['' \<and> last h = CHR '']'' then butlast (tl h) else h)"

definition validate_host :: "config \<Rightarrow> config_error + config" where
  "validate_host c =
     (let h = srv_host (cf_server c) in
      if h = [] then Inr c
      else if parse_addr (strip_brackets h) = None then Inl (Invalid ''server.host'')
      else Inr (c\<lparr>cf_server := (cf_server c)\<lparr>srv_host := strip_brackets h\<rparr>\<rparr>))"

definition log_levels :: "string list" where
  "log_levels = [''debug'', ''info'', ''warn'', ''error'']"

definition validate_services :: "url_parser \<Rightarrow> config \<Rightarrow> config_error option" where
  "validate_services parse c =
     first_invalid
       [(pdc_api_url (cf_powerdns c) = [], ''powerdns.api_url''),
        (case parse (pdc_api_url (cf_powerdns c)) of None \<Rightarrow> True | Some u \<Rightarrow> \<not> http_url u, ''powerdns.api_url''),
        (pdc_server_id (cf_powerdns c) = [], ''powerdns.server_id''), (dbc_dsn (cf_database c) = [], ''database.dsn''),
        (lgc_level (cf_logging c) \<notin> set log_levels, ''logging.level''),
        (validate_username (adm_username (cf_admin c)) \<noteq> None, ''admin.username'')]"

fun validate_providers :: "url_parser \<Rightarrow> string list \<Rightarrow> oidc_provider_section list \<Rightarrow> config_error option" where
  "validate_providers parse seen [] = None"
| "validate_providers parse seen (p # ps) =
     (case first_invalid
        [(opc_name p = [], ''oidc.providers.name''), (opc_name p \<in> set seen, ''oidc.providers.name''),
         (opc_issuer_url p = [], ''oidc.providers.issuer_url''),
         (case parse (opc_issuer_url p) of None \<Rightarrow> True | Some u \<Rightarrow> \<not> http_url u, ''oidc.providers.issuer_url''),
         (opc_client_id p = [], ''oidc.providers.client_id''), (opc_client_secret p = [], ''oidc.providers.client_secret'')] of
        Some e \<Rightarrow> Some e
      | None \<Rightarrow> validate_providers parse (opc_name p # seen) ps)"

fun normalize_domains :: "string list \<Rightarrow> config_error + string list" where
  "normalize_domains [] = Inr []"
| "normalize_domains (d # ds) =
     (let e = trim_prefix (to_lower (trim_space d)) [CHR 0x40] in
      if e = [] then normalize_domains ds
      else if list_ex (\<lambda>c. c \<in> set [CHR 0x40, CHR '' '', CHR 0x09]) e then Inl (Invalid ''oidc.allowed_email_domains'')
      else case normalize_domains ds of Inl x \<Rightarrow> Inl x | Inr es \<Rightarrow> Inr (e # es))"

definition validate_oidc :: "url_parser \<Rightarrow> config \<Rightarrow> config_error + config" where
  "validate_oidc parse c =
     (let o0 = cf_oidc c;
          o1 = (if oic_default_role o0 = [] then o0\<lparr>oic_default_role := ''user''\<rparr> else o0) in
      if \<not> oic_enabled o0 \<and> oic_providers o0 = [] then Inr c
      else if oic_default_role o0 \<noteq> [] \<and> validate_role (oic_default_role o0) \<noteq> None then Inl (Invalid ''oidc.default_role'')
      else case validate_providers parse [] (oic_providers o0) of
        Some e \<Rightarrow> Inl e
      | None \<Rightarrow>
          (case first_invalid
             [(oic_enabled o0 \<and> oic_providers o0 = [], ''oidc.providers''),
              (oic_role_claim o0 \<noteq> [] \<and> oic_admin_role_values o0 = [], ''oidc.admin_role_values''),
              (oic_group_claim o0 \<noteq> [] \<and> oic_group_mapping o0 = [], ''oidc.group_mapping'')] of
             Some e \<Rightarrow> Inl e
           | None \<Rightarrow>
               (case normalize_domains (oic_allowed_email_domains o0) of
                  Inl e \<Rightarrow> Inl e
                | Inr ds \<Rightarrow>
                    if oic_jwks_cache_ttl_minutes o0 < 0 then Inl (Invalid ''oidc.jwks_cache_ttl_minutes'')
                    else Inr (c\<lparr>cf_oidc := o1\<lparr>oic_allowed_email_domains := ds\<rparr>\<rparr>))))"

definition reserved_mcp_route_prefixes :: "string list" where
  "reserved_mcp_route_prefixes =
     [''/'', ''/api'', ''/auth'', ''/change-password'', ''/dashboard'', ''/health'', ''/login'', ''/logout'', ''/profile'',
      ''/stats'', ''/static'', ''/activity'', ''/templates'', ''/tsigkeys'', ''/users'', ''/groups'', ''/zones'', ''/favicon.ico'']"

definition validate_mcp :: "url_parser \<Rightarrow> config \<Rightarrow> config_error option" where
  "validate_mcp parse c =
     (let p = mcc_path (cf_mcp c) in
      first_invalid
        [(p = [] \<or> hd p \<noteq> CHR ''/'', ''mcp.path''), (p = ''/'', ''mcp.path''), (has_suffix p ''/'', ''mcp.path''),
         (list_ex (\<lambda>r. p = r \<or> has_prefix p (r @ ''/'')) reserved_mcp_route_prefixes, ''mcp.path''),
         (list_ex (\<lambda>x. case parse x of None \<Rightarrow> True | Some u \<Rightarrow> bu_scheme u = [] \<or> bu_host u = [] \<or> bu_path u \<noteq> [])
            (mcc_allowed_origins (cf_mcp c)), ''mcp.allowed_origins'')])"

definition validate :: "url_parser \<Rightarrow> config \<Rightarrow> config_error + config" where
  "validate parse c =
     (case validate_bounds c of Some e \<Rightarrow> Inl e
      | None \<Rightarrow> (case validate_external_url parse c of Inl e \<Rightarrow> Inl e
      | Inr c1 \<Rightarrow> (case validate_host c1 of Inl e \<Rightarrow> Inl e
      | Inr c2 \<Rightarrow> (case validate_services parse c2 of Some e \<Rightarrow> Inl e
      | None \<Rightarrow> (case validate_oidc parse c2 of Inl e \<Rightarrow> Inl e
      | Inr c3 \<Rightarrow> (case validate_mcp parse c3 of Some e \<Rightarrow> Inl e
      | None \<Rightarrow> Inr c3))))))"

subsection \<open>Load\<close>

definition placeholder_secret_prefixes :: "string list" where
  "placeholder_secret_prefixes = [''change-me'', ''changeme'']"

definition is_placeholder_secret :: "string \<Rightarrow> bool" where
  "is_placeholder_secret key \<longleftrightarrow>
     key = [] \<or> list_ex (\<lambda>p. has_prefix (to_lower key) p) placeholder_secret_prefixes"

definition generate_secret_key :: "string option \<Rightarrow> string option" where
  "generate_secret_key rnd = map_option hex_encode rnd"

type_synonym hkdf = "string \<Rightarrow> string \<Rightarrow> nat \<Rightarrow> string option"

definition derive_keys :: "hkdf \<Rightarrow> string \<Rightarrow> (string \<times> string) option" where
  "derive_keys hkdf master =
     (case hkdf master ''gozone-jwt'' 32 of None \<Rightarrow> None
      | Some jwt \<Rightarrow> (case hkdf master ''gozone-csrf'' 32 of None \<Rightarrow> None | Some csrf \<Rightarrow> Some (jwt, csrf)))"

datatype config_file = FileMissing | FileUnreadable | FileText string

definition read_config :: "(string \<Rightarrow> config \<Rightarrow> config option) \<Rightarrow> config_file \<Rightarrow> env \<Rightarrow> config_error + config" where
  "read_config decode file env =
     (case file of
        FileUnreadable \<Rightarrow> Inl FileError
      | FileMissing \<Rightarrow> apply_env_overrides env default_config
      | FileText t \<Rightarrow> (case decode t default_config of None \<Rightarrow> Inl YamlError | Some c \<Rightarrow> apply_env_overrides env c))"

definition settle_secret :: "string option \<Rightarrow> config \<Rightarrow> config_error + config" where
  "settle_secret rnd c =
     (if \<not> is_placeholder_secret (srv_secret_key (cf_server c)) then Inr c
      else if srv_require_secret_key (cf_server c) then Inl SecretRequired
      else case generate_secret_key rnd of
        None \<Rightarrow> Inl RandomError
      | Some key \<Rightarrow> Inr (c\<lparr>cf_server := (cf_server c)\<lparr>srv_secret_key := key\<rparr>\<rparr>))"

definition load ::
  "(string \<Rightarrow> config \<Rightarrow> config option) \<Rightarrow> hkdf \<Rightarrow> url_parser \<Rightarrow> config_file \<Rightarrow> env \<Rightarrow> string option
    \<Rightarrow> config_error + config" where
  "load decode hkdf parse file env rnd =
     (case read_config decode file env of Inl e \<Rightarrow> Inl e
      | Inr c0 \<Rightarrow> (case settle_secret rnd c0 of Inl e \<Rightarrow> Inl e
      | Inr c1 \<Rightarrow> (case derive_keys hkdf (srv_secret_key (cf_server c1)) of None \<Rightarrow> Inl DeriveError
      | Some (jwt, csrf) \<Rightarrow> (case hkdf (srv_secret_key (cf_server c1)) ''gozone-oidc-state'' 32 of None \<Rightarrow> Inl DeriveError
      | Some st \<Rightarrow> validate parse
          (c1\<lparr>cf_server := (cf_server c1)\<lparr>srv_jwt_key := jwt, srv_csrf_key := csrf, srv_oidc_state_key := st\<rparr>\<rparr>)))))"

end
