(* ===== verification/ConfigLaws.thy ===== *)
theory ConfigLaws
  imports Config
begin

section \<open>Properties of the configuration\<close>

text \<open>What a configuration that loads guarantees, the environment overrides, and the limits of
  the durations.\<close>

lemma first_invalid_None: "first_invalid cs = None \<longleftrightarrow> list_all (\<lambda>(bad, what). \<not> bad) cs"
  by (induction cs rule: first_invalid.induct) auto

declare first_invalid.simps [simp del]

subsection \<open>A configuration that loads\<close>

text \<open>What the checks mean.\<close>

definition provider_ok :: "url_parser \<Rightarrow> oidc_provider_section \<Rightarrow> bool" where
  "provider_ok parse p \<longleftrightarrow> opc_name p \<noteq> [] \<and> opc_client_id p \<noteq> [] \<and> opc_client_secret p \<noteq> []
     \<and> (\<exists>u. parse (opc_issuer_url p) = Some u \<and> http_url u)"

definition bounds_ok :: "config \<Rightarrow> bool" where
  "bounds_ok c \<longleftrightarrow>
     (let s = cf_server c; a = cf_auth c; l = cf_login_lock c; p = cf_password c in
      1024 \<le> srv_port s \<and> srv_port s \<le> 65535 \<and> 32 \<le> length (srv_secret_key s)
      \<and> 0 < srv_shutdown_timeout_seconds s
      \<and> list_all (\<lambda>p. parse_prefix p \<noteq> None) (srv_trusted_proxies s)
      \<and> 4 \<le> auc_bcrypt_cost a \<and> auc_bcrypt_cost a \<le> 31 \<and> 0 < auc_session_duration_hours a
      \<and> 0 \<le> auc_idle_timeout_minutes a \<and> 0 \<le> auc_max_api_keys_per_user a
      \<and> (auc_absolute_session_timeout_hours a = 0 \<or> auc_session_duration_hours a \<le> auc_absolute_session_timeout_hours a)
      \<and> dbc_driver (cf_database c) \<in> set database_drivers
      \<and> 0 \<le> avc_retention_days (cf_activity c) \<and> 0 < avc_batch_size (cf_activity c)
      \<and> 0 \<le> llc_max_failed_attempts l \<and> 0 \<le> llc_username_rate_limit_per_minute l
      \<and> (llc_max_failed_attempts l = 0 \<or> 0 < llc_lockout_duration_minutes l
           \<and> (llc_attempts_retention_hours l = 0 \<or> llc_lockout_duration_minutes l \<le> i64 (llc_attempts_retention_hours l * 60)))
      \<and> 0 \<le> pwc_min_length p \<and> pwc_min_length p \<le> 256 \<and> 0 \<le> pwc_max_length p \<and> pwc_max_length p \<le> 72
      \<and> 0 \<le> pwc_history_size p \<and> (pwc_max_age_days p = 0 \<or> pwc_expiry_warn_days p < pwc_max_age_days p))"

lemma validate_bounds_ok: "validate_bounds c = None \<Longrightarrow> bounds_ok c"
proof -
  have e: "list_ex P xs = (\<not> list_all (\<lambda>x. \<not> P x) xs)" for P and xs :: "string list" by (induction xs) auto
  assume "validate_bounds c = None"
  then show ?thesis
    unfolding validate_bounds_def Let_def first_invalid_None bounds_ok_def
    by (auto simp: min_secret_key_length_def e not_less)
qed

lemma http_issuer: "\<not> (case parse x of None \<Rightarrow> True | Some u \<Rightarrow> \<not> http_url u) \<longleftrightarrow> (\<exists>u. parse x = Some u \<and> http_url u)"
  by (auto split: option.split)

lemma validate_providers_ok:
  "validate_providers parse seen ps = None \<Longrightarrow>
     list_all (provider_ok parse) ps \<and> distinct (map opc_name ps) \<and> set (map opc_name ps) \<inter> set seen = {}"
proof (induction ps arbitrary: seen)
  case (Cons p ps)
  have p: "provider_ok parse p" "opc_name p \<notin> set seen" "validate_providers parse (opc_name p # seen) ps = None"
    using Cons.prems by (auto simp: first_invalid_None provider_ok_def http_issuer split: option.splits if_splits)
  with Cons.IH [OF p(3)] show ?case by auto
qed simp

definition domain_ok :: "string \<Rightarrow> bool" where
  "domain_ok e \<longleftrightarrow> e \<noteq> [] \<and> CHR 0x40 \<notin> set e \<and> CHR '' '' \<notin> set e \<and> to_lower e = e"

lemma normalize_domains_ok: "normalize_domains ds = Inr es \<Longrightarrow> list_all domain_ok es"
proof (induction ds arbitrary: es)
  case (Cons d ds)
  let ?e = "trim_prefix (to_lower (trim_space d)) [CHR 0x40]"
  have "to_lower (drop n y) = drop n (to_lower y)" for n y by (simp add: to_lower_def drop_map)
  then have low: "to_lower ?e = ?e" by (simp add: trim_prefix_def)
  show ?case
  proof (cases "?e = []")
    case True
    with Cons show ?thesis by simp
  next
    case False
    with Cons.prems obtain es' where e: "normalize_domains ds = Inr es'" "es = ?e # es'"
      "\<not> list_ex (\<lambda>c. c \<in> set [CHR 0x40, CHR '' '', CHR 0x09]) ?e"
      by (simp add: Let_def split: if_splits sum.splits)
    then have "CHR 0x40 \<notin> set ?e" "CHR '' '' \<notin> set ?e" by (auto simp: list_ex_iff)
    with low False Cons.IH [OF e(1)] e(2) show ?thesis by (simp add: domain_ok_def)
  qed
qed simp

definition oidc_ok :: "url_parser \<Rightarrow> oidc_section \<Rightarrow> bool" where
  "oidc_ok parse o1 \<longleftrightarrow> (\<not> oic_enabled o1 \<and> oic_providers o1 = []) \<or>
     (oic_providers o1 \<noteq> [] \<and> list_all (provider_ok parse) (oic_providers o1) \<and> distinct (map opc_name (oic_providers o1))
      \<and> validate_role (oic_default_role o1) = None
      \<and> list_all domain_ok (oic_allowed_email_domains o1)
      \<and> (oic_role_claim o1 = [] \<or> oic_admin_role_values o1 \<noteq> []) \<and> 0 \<le> oic_jwks_cache_ttl_minutes o1)"

lemma validate_oidc_ok:
  assumes "validate_oidc parse c = Inr c'"
  shows "oidc_ok parse (cf_oidc c') \<and> (\<exists>o1. c' = c\<lparr>cf_oidc := o1\<rparr>)"
proof (cases "\<not> oic_enabled (cf_oidc c) \<and> oic_providers (cf_oidc c) = []")
  case True
  with assms show ?thesis by (auto simp: validate_oidc_def oidc_ok_def intro: exI [of _ "cf_oidc c"])
next
  case False
  have user: "validate_role ''user'' = None" by code_simp
  have p: "validate_providers parse [] (oic_providers (cf_oidc c)) = None"
    and d: "oic_default_role (cf_oidc c) = [] \<or> validate_role (oic_default_role (cf_oidc c)) = None"
    using assms False by (auto simp: validate_oidc_def Let_def split: if_splits option.splits)
  from assms False p obtain ds where n: "normalize_domains (oic_allowed_email_domains (cf_oidc c)) = Inr ds"
    and f: "list_all (\<lambda>(bad, what). \<not> bad)
             [(oic_enabled (cf_oidc c) \<and> oic_providers (cf_oidc c) = [], ''oidc.providers''),
              (oic_role_claim (cf_oidc c) \<noteq> [] \<and> oic_admin_role_values (cf_oidc c) = [], ''oidc.admin_role_values''),
              (oic_group_claim (cf_oidc c) \<noteq> [] \<and> oic_group_mapping (cf_oidc c) = [], ''oidc.group_mapping'')]"
    and j: "0 \<le> oic_jwks_cache_ttl_minutes (cf_oidc c)"
    and c': "c' = c\<lparr>cf_oidc := (if oic_default_role (cf_oidc c) = [] then (cf_oidc c)\<lparr>oic_default_role := ''user''\<rparr>
        else cf_oidc c)\<lparr>oic_allowed_email_domains := ds\<rparr>\<rparr>"
    unfolding first_invalid_None [symmetric]
    by (auto simp: validate_oidc_def Let_def split: if_splits option.splits sum.splits)
  have "oidc_ok parse (cf_oidc c')"
    using f j d user False validate_providers_ok [OF p] normalize_domains_ok [OF n]
    by (auto simp: c' oidc_ok_def)
  with c' show ?thesis by blast
qed

definition mcp_ok :: "url_parser \<Rightarrow> mcp_section \<Rightarrow> bool" where
  "mcp_ok parse m \<longleftrightarrow> has_prefix (mcc_path m) ''/'' \<and> \<not> has_suffix (mcc_path m) ''/''
     \<and> list_all (\<lambda>r. mcc_path m \<noteq> r \<and> \<not> has_prefix (mcc_path m) (r @ ''/'')) reserved_mcp_route_prefixes
     \<and> list_all (\<lambda>x. \<exists>u. parse x = Some u \<and> bu_scheme u \<noteq> [] \<and> bu_host u \<noteq> [] \<and> bu_path u = []) (mcc_allowed_origins m)"

lemma validate_mcp_ok: "validate_mcp parse c = None \<Longrightarrow> mcp_ok parse (cf_mcp c)"
  unfolding validate_mcp_def Let_def first_invalid_None mcp_ok_def
  by (cases "mcc_path (cf_mcp c)") (auto simp: list_ex_iff list_all_iff has_prefix_def split: option.splits)

definition services_ok :: "url_parser \<Rightarrow> config \<Rightarrow> bool" where
  "services_ok parse c \<longleftrightarrow> (\<exists>u. parse (pdc_api_url (cf_powerdns c)) = Some u \<and> http_url u)
     \<and> pdc_server_id (cf_powerdns c) \<noteq> [] \<and> dbc_dsn (cf_database c) \<noteq> []
     \<and> lgc_level (cf_logging c) \<in> set log_levels \<and> validate_username (adm_username (cf_admin c)) = None"

definition server_ok :: "server_section \<Rightarrow> bool" where
  "server_ok s \<longleftrightarrow> (srv_host s = [] \<or> parse_addr (srv_host s) \<noteq> None)"

definition config_ok :: "url_parser \<Rightarrow> config \<Rightarrow> bool" where
  "config_ok parse c \<longleftrightarrow> bounds_ok c \<and> server_ok (cf_server c) \<and> services_ok parse c
     \<and> oidc_ok parse (cf_oidc c) \<and> mcp_ok parse (cf_mcp c)"

text \<open>What the validation may change: the external URL, the brackets of the host, and the section
  of the sign-on.\<close>

lemma validate_kept:
  assumes "validate parse c = Inr c'"
  obtains url host o1 where "c' = c\<lparr>cf_server := (cf_server c)\<lparr>srv_external_url := url, srv_host := host\<rparr>, cf_oidc := o1\<rparr>"
    "server_ok (cf_server c')" "services_ok parse c'" "oidc_ok parse (cf_oidc c')" "mcp_ok parse (cf_mcp c')" "bounds_ok c"
proof -
  from assms obtain c1 c2 where b: "validate_bounds c = None" "validate_external_url parse c = Inr c1"
    "validate_host c1 = Inr c2" "validate_services parse c2 = None" "validate_oidc parse c2 = Inr c'" "validate_mcp parse c' = None"
    by (auto simp: validate_def split: option.splits sum.splits)
  obtain url where c1: "c1 = c\<lparr>cf_server := (cf_server c)\<lparr>srv_external_url := url\<rparr>\<rparr>"
  proof (cases "srv_external_url (cf_server c) = []")
    case True
    with b(2) show thesis by (intro that [of "srv_external_url (cf_server c)"]) (simp add: validate_external_url_def)
  next
    case False
    with b(2) show thesis by (auto simp: validate_external_url_def split: option.splits if_splits intro: that)
  qed
  obtain host where c2: "c2 = c1\<lparr>cf_server := (cf_server c1)\<lparr>srv_host := host\<rparr>\<rparr>"
    and h: "server_ok (cf_server c2)"
  proof (cases "srv_host (cf_server c1) = []")
    case True
    with b(3) show thesis by (intro that [of "srv_host (cf_server c1)"]) (simp_all add: validate_host_def server_ok_def)
  next
    case False
    with b(3) show thesis by (auto simp: validate_host_def server_ok_def Let_def split: if_splits intro!: that)
  qed
  obtain o1 where c': "c' = c2\<lparr>cf_oidc := o1\<rparr>" and o: "oidc_ok parse (cf_oidc c')"
    using validate_oidc_ok [OF b(5)] by blast
  have s: "services_ok parse c2"
    using b(4) by (auto simp: validate_services_def first_invalid_None services_ok_def http_issuer split: option.splits)
  have e: "c' = c\<lparr>cf_server := (cf_server c)\<lparr>srv_external_url := url, srv_host := host\<rparr>, cf_oidc := o1\<rparr>"
    using c1 c2 c' by simp
  have "server_ok (cf_server c')" "services_ok parse c'" using h s c' by (simp_all add: services_ok_def)
  from that [OF e this o validate_mcp_ok [OF b(6)] validate_bounds_ok [OF b(1)]] show thesis .
qed

lemma hex_digit_not_h: "c \<in> set (hex_encode b) \<Longrightarrow> lower_char c \<noteq> CHR ''h''"
proof -
  have all: "lower_char (hex_digit n) \<noteq> CHR ''h''" if "n < 16" for n
  proof -
    have "ord (hex_digit n) \<noteq> 104" "\<not> is_upper (hex_digit n)" using that by (auto simp: hex_digit_def is_upper_def)
    moreover have "ord (CHR ''h'') = 104" by (simp add: ord_def)
    ultimately show ?thesis by (metis lower_char_def)
  qed
  assume "c \<in> set (hex_encode b)"
  then obtain x where "c = hex_digit (ord x div 16) \<or> c = hex_digit (ord x mod 16)" by (auto simp: hex_encode_def)
  moreover have "ord x div 16 < 16" using ord_lt [of x] by (simp add: less_mult_imp_div_less)
  ultimately show ?thesis using all [of "ord x div 16"] all [of "ord x mod 16"] by fastforce
qed

lemma hex_encode_length: "length (hex_encode b) = 2 * length b"
  by (induction b) (simp_all add: hex_encode_def)

lemma generated_secret_strong: "length b = 32 \<Longrightarrow> \<not> is_placeholder_secret (hex_encode b)"
proof -
  assume l: "length b = 32"
  let ?k = "hex_encode b"
  have k: "length ?k = 64" by (simp add: hex_encode_length l)
  then have "to_lower ?k ! 1 \<noteq> CHR ''h''" using hex_digit_not_h [of "?k ! 1" b] by (simp add: to_lower_def)
  moreover have "has_prefix s p \<Longrightarrow> 1 < length p \<Longrightarrow> s ! 1 = p ! 1" for s p :: string
    by (auto simp: has_prefix_def prefix_def nth_append)
  ultimately show ?thesis using k by (auto simp: is_placeholder_secret_def placeholder_secret_prefixes_def)
qed

lemma read_config_env: "read_config decode file env = Inr c \<Longrightarrow> \<exists>c0. apply_env_overrides env c0 = Inr c"
  by (auto simp: read_config_def split: config_file.splits option.splits)


text \<open>A parser, a derivation and an environment for the witnesses.\<close>

definition sample_parse :: url_parser where
  "sample_parse s = (if s = ''http://localhost:8081'' then Some \<lparr>bu_scheme = ''http'', bu_host = ''localhost:8081'', bu_path = []\<rparr> else None)"

definition sample_hkdf :: hkdf where
  "sample_hkdf master info n = Some (info @ master)"

lemma default_validates:
  assumes "parse ''http://localhost:8081'' = Some u" "http_url u" "32 \<le> length key"
  shows "validate parse (default_config\<lparr>cf_server := (cf_server default_config)\<lparr>srv_secret_key := key, srv_jwt_key := jwt,
      srv_csrf_key := csrf, srv_oidc_state_key := st\<rparr>\<rparr>)
    = Inr (default_config\<lparr>cf_server := (cf_server default_config)\<lparr>srv_secret_key := key, srv_jwt_key := jwt,
      srv_csrf_key := csrf, srv_oidc_state_key := st\<rparr>\<rparr>)"
proof -
  let ?c = "default_config\<lparr>cf_server := (cf_server default_config)\<lparr>srv_secret_key := key, srv_jwt_key := jwt,
      srv_csrf_key := csrf, srv_oidc_state_key := st\<rparr>\<rparr>"
  have i: "i64 1440 = 1440" by (simp add: i64_def)
  have b: "validate_bounds ?c = None"
    using assms(3) unfolding validate_bounds_def Let_def first_invalid_None
    by (simp add: default_config_def database_drivers_def default_bcrypt_cost_def default_max_api_keys_def
        min_secret_key_length_def i)
  have h: "parse_addr ''0.0.0.0'' = Some (Addr4 [0, 0, 0, 0])" "strip_brackets ''0.0.0.0'' = ''0.0.0.0''" by code_simp+
  have v: "validate_username ''admin'' = None" by code_simp
  have s: "validate_services parse ?c = None"
    using assms(1,2) v unfolding validate_services_def first_invalid_None
    by (simp add: default_config_def log_levels_def)
  have x: "\<not> has_suffix ''/mcp'' ''/''" by code_simp
  have m: "validate_mcp parse ?c = None"
    unfolding validate_mcp_def Let_def first_invalid_None
    using x by (simp add: default_config_def reserved_mcp_route_prefixes_def has_prefix_def)
  have f: "cf_server ?c = (cf_server default_config)\<lparr>srv_secret_key := key, srv_jwt_key := jwt,
      srv_csrf_key := csrf, srv_oidc_state_key := st\<rparr>"
    "srv_external_url (cf_server default_config) = []" "srv_host (cf_server default_config) = ''0.0.0.0''"
    "\<not> oic_enabled (cf_oidc ?c)" "oic_providers (cf_oidc ?c) = []"
    by (simp_all add: default_config_def)
  have e: "validate_external_url parse ?c = Inr ?c" "validate_host ?c = Inr ?c" "validate_oidc parse ?c = Inr ?c"
    using f h by (simp_all add: validate_external_url_def validate_host_def validate_oidc_def)
  show ?thesis unfolding validate_def b e s m option.case sum.case by simp
qed

lemma unset_overrides: "list_all (\<lambda>x. True) os \<Longrightarrow> apply_overrides (\<lambda>_. []) os c = Inr c"
proof (induction os)
  case (Cons x xs)
  then show ?case by (cases x) simp_all
qed simp

lemma unset_env: "apply_env_overrides (\<lambda>_. []) c = Inr c"
  using unset_overrides [of env_overrides c]
  by (simp add: apply_env_overrides_def apply_oidc_provider_env_def list_all_iff)

text \<open>The program starts without any configuration.  With no file and no variable set, and a URL
  parser that reads the default PowerDNS address, the configuration is the default one with a
  fresh secret and the keys derived from it, and it passes the validation.\<close>

theorem default_config_loads:
  assumes "parse ''http://localhost:8081'' = Some u" "http_url u" "length b = 32"
    and "hkdf (hex_encode b) ''gozone-jwt'' 32 = Some jwt" "hkdf (hex_encode b) ''gozone-csrf'' 32 = Some csrf"
      "hkdf (hex_encode b) ''gozone-oidc-state'' 32 = Some st"
  shows "load decode hkdf parse FileMissing (\<lambda>_. []) (Some b)
    = Inr (default_config\<lparr>cf_server := (cf_server default_config)\<lparr>srv_secret_key := hex_encode b, srv_jwt_key := jwt,
        srv_csrf_key := csrf, srv_oidc_state_key := st\<rparr>\<rparr>)"
proof -
  have "is_placeholder_secret (srv_secret_key (cf_server default_config))" "\<not> srv_require_secret_key (cf_server default_config)"
    unfolding default_config_def default_secret_key_def by code_simp+
  then have "settle_secret (Some b) default_config
      = Inr (default_config\<lparr>cf_server := (cf_server default_config)\<lparr>srv_secret_key := hex_encode b\<rparr>\<rparr>)"
    by (simp add: settle_secret_def generate_secret_key_def)
  moreover have "32 \<le> length (hex_encode b)" using assms(3) by (simp add: hex_encode_length)
  ultimately show ?thesis
    using default_validates [where parse = parse and u = u and key = "hex_encode b" and jwt = jwt and csrf = csrf and st = st] assms(1,2,4-6)
    by (simp add: load_def read_config_def unset_env derive_keys_def)
qed

theorem default_config_loads_witness:
  "\<exists>c. load (\<lambda>_ _. None) sample_hkdf sample_parse FileMissing (\<lambda>_. []) (Some (replicate 32 CHR ''k'')) = Inr c
     \<and> srv_port (cf_server c) = 8080"
  using default_config_loads [of sample_parse "\<lparr>bu_scheme = ''http'', bu_host = ''localhost:8081'', bu_path = []\<rparr>"
      "replicate 32 CHR ''k''" sample_hkdf]
  by (simp add: sample_parse_def http_url_def sample_hkdf_def default_config_def)


subsection \<open>Overrides that do not parse\<close>

fun unreadable :: "env \<Rightarrow> env_override \<Rightarrow> bool" where
  "unreadable env (IntOverride n f) \<longleftrightarrow> env n \<noteq> [] \<and> atoi (env n) = None"
| "unreadable env (BoolOverride n f) \<longleftrightarrow> env n \<noteq> [] \<and> env_bool (env n) = None"
| "unreadable env _ \<longleftrightarrow> False"

lemma apply_override_fails: "(\<exists>e. apply_override env x c = Inl e) \<longleftrightarrow> unreadable env x"
  by (cases x) (auto split: option.splits)

lemma apply_overrides_fails: "(\<exists>e. apply_overrides env xs c = Inl e) \<longleftrightarrow> list_ex (unreadable env) xs"
proof (induction xs arbitrary: c)
  case (Cons x xs)
  then show ?case using apply_override_fails [of env x c] by (auto split: sum.splits)
qed simp

text \<open>A mistyped override is never ignored.  The environment is refused exactly when some integer or
  boolean variable is set to a text that is neither, and the program then does not start, whatever the file says.\<close>

theorem mistyped_override_refused:
  "((\<exists>e. apply_env_overrides env c = Inl e) \<longleftrightarrow> list_ex (unreadable env) env_overrides)
   \<and> (if list_ex (unreadable env) env_overrides then \<exists>e. load decode hkdf parse file env rnd = Inl e else True)"
proof -
  have a: "(\<exists>e. apply_env_overrides env c = Inl e) \<longleftrightarrow> list_ex (unreadable env) env_overrides" for c
    using apply_overrides_fails [of env env_overrides c] by (auto simp: apply_env_overrides_def split: sum.splits)
  have "\<exists>e. load decode hkdf parse file env rnd = Inl e" if "list_ex (unreadable env) env_overrides"
  proof (cases "read_config decode file env")
    case (Inr c)
    with read_config_env obtain c0 where "apply_env_overrides env c0 = Inr c" by blast
    with a [of c0] that show ?thesis by auto
  qed (simp add: load_def)
  with a show ?thesis by simp
qed

subsection \<open>Durations\<close>

text \<open>\<^verbatim>\<open>time.Duration(h) * time.Hour\<close>, in 64 bits.\<close>

definition hours_duration :: "int \<Rightarrow> int" where
  "hours_duration h = i64 (h * 3600000000000)"

text \<open>The duration is the intended one up to 2562047 hours; the validation has no upper bound, and
  accepts session lengths whose duration is negative, so that every session has already expired.\<close>

lemma hours_duration_exact: "0 < h \<Longrightarrow> h \<le> 2562047 \<Longrightarrow> hours_duration h = h * 3600000000000"
  by (simp add: hours_duration_def i64_id int64_def)

theorem negative_session_accepted:
  "let c = default_config\<lparr>cf_auth := (cf_auth default_config)\<lparr>auc_session_duration_hours := 2562048,
         auc_absolute_session_timeout_hours := 0\<rparr>,
       cf_server := (cf_server default_config)\<lparr>srv_secret_key := replicate 32 CHR ''k''\<rparr>\<rparr> in
   validate_bounds c = None \<and> hours_duration (auc_session_duration_hours (cf_auth c)) < 0"
proof -
  have i: "i64 1440 = 1440" by (simp add: i64_def)
  show ?thesis
    unfolding validate_bounds_def Let_def first_invalid_None hours_duration_def
    by (simp add: default_config_def database_drivers_def default_bcrypt_cost_def default_max_api_keys_def
        min_secret_key_length_def i) (simp add: i64_def)
qed

subsection \<open>Passwords\<close>

text \<open>A password the configured policy accepts is never refused by bcrypt for its length, unless the
  check of the length is off.\<close>

lemma accepted_password_hashable:
  assumes "bounds_ok c" "pwc_max_length (cf_password c) \<noteq> 0" "validate_password classify pw (config_policy (cf_password c)) = None"
  shows "length pw \<le> 72"
  using assms by (auto simp: bounds_ok_def config_policy_def validate_password_def Let_def split: if_splits)

end
