(* ===== verification/Activity.thy ===== *)
theory Activity
  imports WebZones Accounts
begin

section \<open>The activity log pages\<close>

text \<open>
  Models \<^verbatim>\<open>internal/handlers/activity.go\<close>: which rows of the log a user sees, the filters of
  the page, its pages and the drop-down of actions.  A SQL clause is the condition on rows that it
  states; \<^verbatim>\<open>created_at\<close> is a time with nanoseconds, of which a database may store fewer.
\<close>

subsection \<open>Dates\<close>

definition leap_year :: "nat \<Rightarrow> bool" where
  "leap_year y \<longleftrightarrow> y mod 4 = 0 \<and> (y mod 100 \<noteq> 0 \<or> y mod 400 = 0)"

definition days_in :: "nat \<Rightarrow> nat \<Rightarrow> nat" where
  "days_in m y = (if m = 2 then (if leap_year y then 29 else 28) else if m \<in> set [4, 6, 9, 11] then 30 else 31)"

text \<open>Days since the first of January 1970.\<close>

definition day_number :: "nat \<Rightarrow> nat \<Rightarrow> nat \<Rightarrow> int" where
  "day_number y m d =
     int (365 * y + (y + 3) div 4 + (y + 399) div 400 + sum_list (map (\<lambda>i. days_in i y) [1..<m]) + d)
       - int ((y + 99) div 100) - 719529"

text \<open>\<^verbatim>\<open>time.Parse("2006-01-02", s)\<close>: midnight of the day, UTC.\<close>

definition parse_date :: "string \<Rightarrow> time option" where
  "parse_date s =
     (if length s \<noteq> 10 \<or> s ! 4 \<noteq> CHR ''-'' \<or> s ! 7 \<noteq> CHR ''-'' then None
      else case (parse_digits (take 4 s), parse_digits (take 2 (drop 5 s)), parse_digits (drop 8 s)) of
        (Some y, Some m, Some d) \<Rightarrow>
          if 1 \<le> m \<and> m \<le> 12 \<and> 1 \<le> d \<and> d \<le> days_in m y then Some (day_number y m d * (24 * 60 * minute)) else None
      | _ \<Rightarrow> None)"

subsection \<open>Rows\<close>

record activity_row =
  ar_id :: int
  ar_user :: "int option"
  ar_zone :: "string option"
  ar_action :: string
  ar_details :: string
  ar_old :: string
  ar_new :: string
  ar_created :: time

text \<open>The clause is \<^const>\<open>None\<close> when it is left out.\<close>

definition activity_log_visibility_clause :: "grant_db \<Rightarrow> user \<Rightarrow> (activity_row \<Rightarrow> bool) option" where
  "activity_log_visibility_clause grants u =
     (if can_manage_dns u then None
      else Some (\<lambda>r. ar_zone r = None \<and> ar_user r = Some (u_id u)
        \<or> (case ar_zone r of None \<Rightarrow> False | Some z \<Rightarrow> has_grant grants (u_id u) z)))"

text \<open>\<open>names\<close> are the usernames the join finds; a comparison with a null column holds for no row.\<close>

definition log_search_clause :: "(int \<rightharpoonup> string) \<Rightarrow> string \<Rightarrow> activity_row \<Rightarrow> bool" where
  "log_search_clause names search r =
     (let pattern = ''%'' @ to_lower (escape_like_pattern search) @ ''%'';
          like = (\<lambda>v. sql_like (to_lower v) pattern) in
      like (ar_action r) \<or> like (ar_details r)
      \<or> (case ar_zone r of None \<Rightarrow> False | Some z \<Rightarrow> like z)
      \<or> (case (case ar_user r of None \<Rightarrow> None | Some i \<Rightarrow> names i) of None \<Rightarrow> False | Some n \<Rightarrow> like n))"

record log_filter =
  lf_search :: string
  lf_action :: string
  lf_from :: string
  lf_to :: string

definition build_activity_log_query ::
  "(int \<rightharpoonup> string) \<Rightarrow> grant_db \<Rightarrow> user \<Rightarrow> log_filter \<Rightarrow> (activity_row \<Rightarrow> bool) list" where
  "build_activity_log_query names grants u f =
     (if lf_search f = [] then [] else [log_search_clause names (lf_search f)])
     @ (if lf_action f = [] then [] else [\<lambda>r. ar_action r = lf_action f])
     @ (case parse_date (lf_from f) of None \<Rightarrow> [] | Some t \<Rightarrow> [\<lambda>r. t \<le> ar_created r])
     @ (case parse_date (lf_to f) of None \<Rightarrow> []
        | Some t \<Rightarrow> [\<lambda>r. ar_created r \<le> t + (24 * 60 * minute - second)])
     @ (case activity_log_visibility_clause grants u of None \<Rightarrow> [] | Some c \<Rightarrow> [c])"

definition where_all :: "('r \<Rightarrow> bool) list \<Rightarrow> 'r list \<Rightarrow> 'r list" where
  "where_all cs = filter (\<lambda>r. list_all (\<lambda>c. c r) cs)"

subsection \<open>Queries\<close>

text \<open>The rows with the username of the join, newest first, and the number of all matches.\<close>

definition get_activity_logs ::
  "bool \<Rightarrow> bool \<Rightarrow> (int \<rightharpoonup> string) \<Rightarrow> grant_db \<Rightarrow> user \<Rightarrow> log_filter \<Rightarrow> int \<Rightarrow> int \<Rightarrow> activity_row list
    \<Rightarrow> (activity_row \<times> string) list \<times> int" where
  "get_activity_logs count_fails query_fails names grants u f page0 per_page rows =
     (if count_fails then ([], 0)
      else
        let matching = where_all (build_activity_log_query names grants u f) rows;
            total_rows = int (length matching);
            page = clamp_page_to_total (if page0 < 1 then 1 else page0) per_page total_rows;
            ordered = sort_key (\<lambda>r. - ar_created r) matching;
            offset = i64 (i64 (page - 1) * per_page);
            name = (\<lambda>r. case (case ar_user r of None \<Rightarrow> None | Some i \<Rightarrow> names i) of None \<Rightarrow> [] | Some n \<Rightarrow> n) in
        if query_fails \<or> per_page > 0 \<and> offset < 0 then ([], total_rows)
        else
          (map (\<lambda>r. (r, name r))
             (if per_page > 0 then take (nat per_page) (drop (nat offset) ordered) else take activity_log_all_cap ordered),
           total_rows))"

definition get_distinct_activity_actions ::
  "bool \<Rightarrow> grant_db \<Rightarrow> user \<Rightarrow> activity_row list \<Rightarrow> string list option" where
  "get_distinct_activity_actions fails grants u rows =
     (if fails then None
      else Some (sort (remdups (map ar_action
        (where_all (case activity_log_visibility_clause grants u of None \<Rightarrow> [] | Some c \<Rightarrow> [c]) rows)))))"

record activity_page =
  ap_logs :: "(activity_row \<times> string) list"
  ap_info :: page_info
  ap_filter :: log_filter
  ap_actions :: "string list"
  ap_extra :: "(string \<times> string) list"

text \<open>The faults are those of the query of the actions, of the count and of the rows.  A failed query
  leaves its part of the page empty.\<close>

definition activity_page_view ::
  "bool \<Rightarrow> bool \<Rightarrow> bool \<Rightarrow> (int \<rightharpoonup> string) \<Rightarrow> grant_db \<Rightarrow> user \<Rightarrow> log_filter \<Rightarrow> string \<Rightarrow> string \<Rightarrow> activity_row list
    \<Rightarrow> activity_page" where
  "activity_page_view actions_fail count_fails query_fails names grants u raw page_text per_page_text rows =
     (let f = \<lparr>lf_search = trim_space (lf_search raw), lf_action = trim_space (lf_action raw),
            lf_from = trim_space (lf_from raw), lf_to = trim_space (lf_to raw)\<rparr> in
      case parse_pagination_params page_text per_page_text 10 of (page, per_page) \<Rightarrow>
      case get_activity_logs count_fails query_fails names grants u f page per_page rows of (logs, total_rows) \<Rightarrow>
        \<lparr>ap_logs = logs, ap_info = page_info_from_total total_rows page per_page, ap_filter = f,
         ap_actions = (case get_distinct_activity_actions actions_fail grants u rows of None \<Rightarrow> [] | Some as \<Rightarrow> as),
         ap_extra = filter (\<lambda>(k, v). v \<noteq> []) [(''action'', lf_action f), (''from'', lf_from f), (''to'', lf_to f)]\<rparr>)"

section \<open>Properties of the activity log pages\<close>

subsection \<open>Confidentiality\<close>

definition visible_to :: "grant_db \<Rightarrow> user \<Rightarrow> activity_row \<Rightarrow> bool" where
  "visible_to grants u r \<longleftrightarrow> can_manage_dns u \<or> ar_zone r = None \<and> ar_user r = Some (u_id u)
     \<or> (\<exists>z. ar_zone r = Some z \<and> has_grant grants (u_id u) z)"

lemma clause_visible:
  "where_all (case activity_log_visibility_clause grants u of None \<Rightarrow> [] | Some c \<Rightarrow> [c]) = filter (visible_to grants u)"
proof
  fix xs
  show "where_all (case activity_log_visibility_clause grants u of None \<Rightarrow> [] | Some c \<Rightarrow> [c]) xs = filter (visible_to grants u) xs"
    by (auto simp: where_all_def activity_log_visibility_clause_def visible_to_def intro!: filter_cong split: option.splits)
qed

lemma where_all_append: "where_all (cs @ ds) xs = where_all cs (where_all ds xs)"
  by (auto simp: where_all_def intro: filter_cong)

lemma query_visible:
  "where_all (build_activity_log_query names grants u f) rows
   = where_all (build_activity_log_query names grants u f) (filter (visible_to grants u) rows)"
  unfolding build_activity_log_query_def where_all_append clause_visible by (simp add: filter_filter)

lemma matching_visible: "r \<in> set (where_all (build_activity_log_query names grants u f) rows) \<Longrightarrow> r \<in> set rows \<and> visible_to grants u r"
  by (subst (asm) query_visible) (simp add: where_all_def)

text \<open>C15: The log page shows a user nothing else than his own actions outside zones and the actions in
  zones he is granted, and nothing on the page depends on other rows: not the rows, their number,
  the page numbers, nor the actions offered as filters, whatever he searches and whatever fails.\<close>

theorem log_confidential:
  "list_all (\<lambda>(r, n). r \<in> set rows \<and> visible_to grants u r)
     (ap_logs (activity_page_view af cf qf names grants u raw page_text per_page_text rows))
   \<and> activity_page_view af cf qf names grants u raw page_text per_page_text rows
     = activity_page_view af cf qf names grants u raw page_text per_page_text (filter (visible_to grants u) rows)"
proof
  show "list_all (\<lambda>(r, n). r \<in> set rows \<and> visible_to grants u r)
     (ap_logs (activity_page_view af cf qf names grants u raw page_text per_page_text rows))"
  proof -
    have "r \<in> set rows \<and> visible_to grants u r"
      if "(r, n) \<in> set (fst (get_activity_logs cf qf names grants u f page per_page rows))" for r n f page per_page
      using that matching_visible [of r names grants u f rows]
      by (auto simp: get_activity_logs_def Let_def split: if_splits dest!: in_set_takeD in_set_dropD)
    then show ?thesis by (auto simp: activity_page_view_def list_all_iff Let_def case_prod_beta)
  qed
  have "get_activity_logs cf qf names grants u f page per_page rows
      = get_activity_logs cf qf names grants u f page per_page (filter (visible_to grants u) rows)" for f page per_page
    unfolding get_activity_logs_def by (subst query_visible) (rule refl)
  moreover have "get_distinct_activity_actions af grants u rows
      = get_distinct_activity_actions af grants u (filter (visible_to grants u) rows)"
    unfolding get_distinct_activity_actions_def clause_visible by (simp add: filter_filter)
  ultimately show "activity_page_view af cf qf names grants u raw page_text per_page_text rows
     = activity_page_view af cf qf names grants u raw page_text per_page_text (filter (visible_to grants u) rows)"
    unfolding activity_page_view_def by (simp only:)
qed

subsection \<open>The size of a page\<close>

lemma log_page_length:
  "length (fst (get_activity_logs cf qf names grants u f page pp rows)) \<le> (if pp > 0 then nat pp else 1000)"
  by (simp add: get_activity_logs_def Let_def activity_log_all_cap_def)

text \<open>The cap of the unpaged view does not hold for the log.  Without a page size at most 1000 rows are
  shown; but the page size comes from the query string and has no upper bound, and with one as
  large as the table the page loads every matching row, old and new values included.\<close>

theorem log_cap_bypassed:
  assumes "0 < pp" "int (length rows) \<le> pp"
  shows "map fst (fst (get_activity_logs False False names grants u f 1 pp rows))
      = sort_key (\<lambda>r. - ar_created r) (where_all (build_activity_log_query names grants u f) rows)
    \<and> length (fst (get_activity_logs False False names grants u f 1 0 rows)) \<le> 1000"
proof -
  let ?m = "where_all (build_activity_log_query names grants u f) rows"
  have "length ?m \<le> length rows" by (simp add: where_all_def)
  then have l: "length ?m \<le> nat pp" using assms by linarith
  have "1 \<le> page_count (int (length ?m)) pp" by (rule page_count_pos)
  then have "clamp_page_to_total 1 pp (int (length ?m)) = 1" by (simp add: clamp_page_to_total_def)
  then have "map fst (fst (get_activity_logs False False names grants u f 1 pp rows)) = sort_key (\<lambda>r. - ar_created r) ?m"
    using assms l by (simp add: get_activity_logs_def Let_def i64_id int64_def o_def)
  with log_page_length [of False False names grants u f 1 0 rows] show ?thesis by simp
qed

subsection \<open>Dates\<close>

lemma parse_date_examples:
  "parse_date ''1970-01-01'' = Some 0" "parse_date ''2024-02-29'' = Some (19782 * day)" "parse_date ''2023-02-29'' = None"
proof -
  have d: "parse_digits ''1970'' = Some 1970" "parse_digits ''2024'' = Some 2024" "parse_digits ''2023'' = Some 2023"
    "parse_digits ''01'' = Some 1" "parse_digits ''02'' = Some 2" "parse_digits ''29'' = Some 29"
    by code_simp+
  have n: "day_number 1970 1 1 = 0" "day_number 2024 2 29 = 19782"
    by (simp_all add: day_number_def days_in_def leap_year_def upt_rec)
  have m: "days_in 1 1970 = 31" "days_in 2 2024 = 29" "days_in 2 2023 = 28" by (simp_all add: days_in_def leap_year_def)
  show "parse_date ''1970-01-01'' = Some 0" "parse_date ''2024-02-29'' = Some (19782 * day)" "parse_date ''2023-02-29'' = None"
    using d n m by (simp_all add: parse_date_def)
qed

definition log_row_at :: "time \<Rightarrow> activity_row" where
  "log_row_at t = \<lparr>ar_id = 1, ar_user = Some 1, ar_zone = None, ar_action = ''login'', ar_details = [], ar_old = [],
     ar_new = [], ar_created = t\<rparr>"

definition leap_day_filter :: log_filter where
  "leap_day_filter = \<lparr>lf_search = [], lf_action = [], lf_from = ''2024-02-29'', lf_to = ''2024-02-29''\<rparr>"

definition leap_day :: time where "leap_day = 19782 * day"

lemma leap_day_rows:
  "can_manage_dns u \<Longrightarrow> where_all (build_activity_log_query names grants u leap_day_filter) rows
     = filter (\<lambda>r. leap_day \<le> ar_created r \<and> ar_created r \<le> leap_day + (day - second)) rows"
  using parse_date_examples(2)
  by (simp add: where_all_def build_activity_log_query_def activity_log_visibility_clause_def leap_day_filter_def leap_day_def)

text \<open>The last second of the last day is missing.  The range is meant to include the whole selected day
  and ends at its last whole second; an action half a second later is of that day, but is not listed,
  where the database keeps fractions of a second, as PostgreSQL does.\<close>

theorem last_second_missing:
  assumes "can_manage_dns u"
  shows "(leap_day + (day - 500000000)) div day = leap_day div day
    \<and> get_activity_logs False False names grants u leap_day_filter 1 0 [log_row_at (leap_day + (day - 500000000))] = ([], 0)
    \<and> map fst (fst (get_activity_logs False False names grants u leap_day_filter 1 0 [log_row_at (leap_day + (day - second))]))
        = [log_row_at (leap_day + (day - second))]"
proof -
  have "filter (\<lambda>r. leap_day \<le> ar_created r \<and> ar_created r \<le> leap_day + (day - second)) [log_row_at (leap_day + (day - 500000000))] = []"
    "filter (\<lambda>r. leap_day \<le> ar_created r \<and> ar_created r \<le> leap_day + (day - second)) [log_row_at (leap_day + (day - second))]
      = [log_row_at (leap_day + (day - second))]"
    by (simp_all add: log_row_at_def)
  moreover have "(leap_day + (day - 500000000)) div day = leap_day div day" by (simp add: leap_day_def)
  ultimately show ?thesis
    unfolding get_activity_logs_def leap_day_rows [OF assms] by (simp add: Let_def activity_log_all_cap_def)
qed

end
