(* ===== verification/Keys.thy ===== *)
theory Keys
  imports ApiKeys PdnsClient WebZones
begin

section \<open>TSIG keys and DNSSEC keys\<close>

text \<open>
  Models \<^verbatim>\<open>internal/handlers/tsigkeys.go\<close> and \<^verbatim>\<open>dnssec.go\<close> over a PowerDNS given by its
  operations.  The update of a TSIG key is also given as interleaved steps under the advisory
  lock of its key.  The random bytes are an argument; the state of the handlers is that of the
  service, whose log they write.
\<close>

subsection \<open>TSIG keys\<close>

record 'p tsig_api =
  ta_list :: "'p \<Rightarrow> tsig_key list option"
  ta_get :: "string \<Rightarrow> 'p \<Rightarrow> tsig_key option"
  ta_create :: "tsig_key \<Rightarrow> 'p \<Rightarrow> tsig_key option \<times> 'p"
  ta_update :: "string \<Rightarrow> tsig_key \<Rightarrow> 'p \<Rightarrow> bool \<times> 'p"
  ta_delete :: "string \<Rightarrow> 'p \<Rightarrow> bool \<times> 'p"

text \<open>\<^verbatim>\<open>base64.StdEncoding\<close>: the other two characters, and padding.\<close>

definition std_b64_encode :: "string \<Rightarrow> string" where
  "std_b64_encode s =
     (let cs = map (\<lambda>c. if c = CHR ''-'' then CHR ''+'' else if c = CHR ''_'' then CHR ''/'' else c) (b64_encode s)
      in cs @ replicate ((4 - length cs mod 4) mod 4) (CHR ''=''))"

definition generate_tsig_secret :: "string option \<Rightarrow> string option" where
  "generate_tsig_secret rnd = map_option std_b64_encode rnd"

definition tsig_algorithms :: "string list" where
  "tsig_algorithms = [''hmac-md5'', ''hmac-sha1'', ''hmac-sha256'', ''hmac-sha512'']"

text \<open>The loop of the listing: it counts the matching keys and stops at the end of the page.\<close>

fun tsig_window :: "('k \<Rightarrow> bool) \<Rightarrow> int \<Rightarrow> int \<Rightarrow> int \<Rightarrow> int \<Rightarrow> 'k list \<Rightarrow> 'k list" where
  "tsig_window P pp first stop idx [] = []"
| "tsig_window P pp first stop idx (k # ks) =
     (if \<not> P k then tsig_window P pp first stop idx ks
      else (if pp \<le> 0 \<or> first \<le> idx \<and> idx < stop then [k] else [])
        @ (if pp > 0 \<and> idx + 1 \<ge> stop then [] else tsig_window P pp first stop (idx + 1) ks))"

definition list_tsig_keys ::
  "'p tsig_api \<Rightarrow> string \<Rightarrow> string \<Rightarrow> string \<Rightarrow> 'p \<Rightarrow> (tsig_key list \<times> page_info) option" where
  "list_tsig_keys api search page_text per_page_text p =
     (case ta_list api p of
        None \<Rightarrow> None
      | Some keys \<Rightarrow>
          let matches = (\<lambda>k. name_matches search (tk_name k));
              (page, per_page) = parse_pagination_params page_text per_page_text 10;
              info = page_info_from_total (int (length (filter matches keys))) page per_page;
              first = i64 (i64 (pi_current info - 1) * pi_per_page info);
              stop = i64 (pi_current info * pi_per_page info)
          in Some (tsig_window matches per_page first stop 0 keys, info))"

datatype tsig_reply =
    TsigNameRequired | TsigNameInvalid | TsigAlgorithmRequired | TsigAlgorithmInvalid
  | TsigFailed | TsigPage "string option"

definition tsig_audit :: "bool \<Rightarrow> user \<Rightarrow> string \<Rightarrow> string \<Rightarrow> 'p svc \<Rightarrow> 'p svc" where
  "tsig_audit fails user action details = log_activity fails
     \<lparr>ae_user_id = u_id user, ae_zone_id = None, ae_action = action, ae_details = details,
      ae_old_list = None, ae_old = None, ae_new = None\<rparr>"

text \<open>The page carries the secret only when the server made it.\<close>

definition create_tsig_key ::
  "'p tsig_api \<Rightarrow> bool \<Rightarrow> string option \<Rightarrow> user \<Rightarrow> string \<Rightarrow> string \<Rightarrow> string \<Rightarrow> 'p svc \<Rightarrow> tsig_reply \<times> 'p svc" where
  "create_tsig_key api log_fails rnd user name0 algorithm0 key0 s =
     (let name = trim_space name0; algorithm = trim_space algorithm0; typed = trim_space key0 in
      if name = [] then (TsigNameRequired, s)
      else if validate_dns_name name \<noteq> None then (TsigNameInvalid, s)
      else if algorithm = [] then (TsigAlgorithmRequired, s)
      else if validate_tsig_algorithm algorithm \<noteq> None then (TsigAlgorithmInvalid, s)
      else case (if typed = [] then generate_tsig_secret rnd else Some typed) of
        None \<Rightarrow> (TsigFailed, s)
      | Some key \<Rightarrow>
          (case ta_create api \<lparr>tk_name = name, tk_id = [], tk_algorithm = algorithm, tk_key = key, tk_type = ''TSIGKey''\<rparr> (sv_pdns s) of
             (None, p) \<Rightarrow> (TsigFailed, s\<lparr>sv_pdns := p\<rparr>)
           | (Some k, p) \<Rightarrow>
               (TsigPage (if typed = [] then Some key else None),
                tsig_audit log_fails user ''create_tsigkey''
                  (''Created TSIG key '' @ tk_name k @ '' (alg: '' @ tk_algorithm k @ '')'') (s\<lparr>sv_pdns := p\<rparr>))))"

text \<open>The edit form never carries the material.\<close>

definition edit_tsig_key_page :: "'p tsig_api \<Rightarrow> string \<Rightarrow> 'p \<Rightarrow> tsig_key option" where
  "edit_tsig_key_page api kid p = map_option (\<lambda>k. k\<lparr>tk_key := []\<rparr>) (ta_get api kid p)"

definition tsig_lock_name :: "string \<Rightarrow> string" where
  "tsig_lock_name kid = ''tsigkey:'' @ kid"

definition tsig_put :: "'p tsig_api \<Rightarrow> string \<Rightarrow> string \<Rightarrow> string \<Rightarrow> 'p \<Rightarrow> bool \<times> 'p" where
  "tsig_put api kid algorithm key =
     ta_update api kid \<lparr>tk_name = kid, tk_id = [], tk_algorithm = algorithm, tk_key = key, tk_type = ''TSIGKey''\<rparr>"

definition update_tsig_key ::
  "'p tsig_api \<Rightarrow> bool \<Rightarrow> bool \<Rightarrow> user \<Rightarrow> string \<Rightarrow> string \<Rightarrow> string \<Rightarrow> 'p svc \<Rightarrow> tsig_reply \<times> 'p svc" where
  "update_tsig_key api lock_fails log_fails user kid algorithm0 key0 s =
     (let algorithm = trim_space algorithm0; typed = trim_space key0 in
      if algorithm = [] then (TsigAlgorithmRequired, s)
      else if validate_tsig_algorithm algorithm \<noteq> None then (TsigAlgorithmInvalid, s)
      else if lock_fails then (TsigFailed, s)
      else case (if typed = [] then map_option tk_key (ta_get api kid (sv_pdns s)) else Some typed) of
        None \<Rightarrow> (TsigFailed, s)
      | Some key \<Rightarrow>
          (case tsig_put api kid algorithm key (sv_pdns s) of
             (False, p) \<Rightarrow> (TsigFailed, s\<lparr>sv_pdns := p\<rparr>)
           | (True, p) \<Rightarrow>
               (TsigPage None,
                tsig_audit log_fails user ''update_tsigkey'' (''Updated TSIG key '' @ kid @ '' (alg: '' @ algorithm @ '')'')
                  (s\<lparr>sv_pdns := p\<rparr>))))"

definition deleted_tsig :: "bool \<Rightarrow> user \<Rightarrow> string \<Rightarrow> 'p svc \<Rightarrow> 'p svc" where
  "deleted_tsig log_fails user kid = tsig_audit log_fails user ''delete_tsigkey'' (''Deleted TSIG key '' @ kid)"

definition delete_tsig_key :: "'p tsig_api \<Rightarrow> bool \<Rightarrow> user \<Rightarrow> string \<Rightarrow> 'p svc \<Rightarrow> tsig_reply \<times> 'p svc" where
  "delete_tsig_key api log_fails user kid0 s =
     (let kid = trim_space kid0 in
      if kid = [] then (TsigPage None, s)
      else case ta_delete api kid (sv_pdns s) of
        (False, p) \<Rightarrow> (TsigFailed, s\<lparr>sv_pdns := p\<rparr>)
      | (True, p) \<Rightarrow> (TsigPage None, deleted_tsig log_fails user kid (s\<lparr>sv_pdns := p\<rparr>)))"

fun bulk_delete_tsig_loop ::
  "'p tsig_api \<Rightarrow> (string \<Rightarrow> bool) \<Rightarrow> user \<Rightarrow> string list \<Rightarrow> 'p svc \<Rightarrow> (nat \<times> string list) \<times> 'p svc" where
  "bulk_delete_tsig_loop api log_fails user [] s = ((0, []), s)"
| "bulk_delete_tsig_loop api log_fails user (kid # ks) s =
     (case ta_delete api kid (sv_pdns s) of
        (False, p) \<Rightarrow>
          (case bulk_delete_tsig_loop api log_fails user ks (s\<lparr>sv_pdns := p\<rparr>) of
             ((n, failed), s') \<Rightarrow> ((n, kid # failed), s'))
      | (True, p) \<Rightarrow>
          (case bulk_delete_tsig_loop api log_fails user ks (deleted_tsig (log_fails kid) user kid (s\<lparr>sv_pdns := p\<rparr>)) of
             ((n, failed), s') \<Rightarrow> ((Suc n, failed), s')))"

text \<open>\<^const>\<open>None\<close> is a refused form or an empty selection.\<close>

definition bulk_delete_tsig_keys ::
  "'p tsig_api \<Rightarrow> (string \<Rightarrow> bool) \<Rightarrow> user \<Rightarrow> string list option \<Rightarrow> 'p svc \<Rightarrow> (nat \<times> string list) option \<times> 'p svc" where
  "bulk_delete_tsig_keys api log_fails user form s =
     (case form of
        None \<Rightarrow> (None, s)
      | Some raw \<Rightarrow>
          if selected_keys raw = [] then (None, s)
          else case bulk_delete_tsig_loop api log_fails user (selected_keys raw) s of (r, s') \<Rightarrow> (Some r, s'))"

subsection \<open>Updates as steps\<close>

text \<open>The job of an update is its key, its algorithm and the typed material; \<open>tr_put\<close> lists the jobs
  in the order of their writes, with the outcome.\<close>

type_synonym tsig_job = "string \<times> string \<times> string"

datatype tsig_pc = TIdle | TLocked | TRead string | TDone bool

record 'p tsig_run =
  tr_p :: 'p
  tr_held :: "string \<rightharpoonup> nat"
  tr_pc :: "nat \<Rightarrow> tsig_pc"
  tr_put :: "(tsig_job \<times> bool) list"

inductive tsig_step :: "'p tsig_api \<Rightarrow> (nat \<Rightarrow> tsig_job) \<Rightarrow> 'p tsig_run \<Rightarrow> 'p tsig_run \<Rightarrow> bool"
  for api :: "'p tsig_api" and jobs :: "nat \<Rightarrow> tsig_job" where
  lock: "tr_pc s t = TIdle \<Longrightarrow> lock_zone (tsig_lock_name (fst (jobs t))) t (tr_held s) = Some h \<Longrightarrow>
    tsig_step api jobs s (s\<lparr>tr_held := h, tr_pc := (tr_pc s)(t := TLocked)\<rparr>)"
| typed: "tr_pc s t = TLocked \<Longrightarrow> snd (snd (jobs t)) \<noteq> [] \<Longrightarrow>
    tsig_step api jobs s (s\<lparr>tr_pc := (tr_pc s)(t := TRead (snd (snd (jobs t))))\<rparr>)"
| fetched: "tr_pc s t = TLocked \<Longrightarrow> snd (snd (jobs t)) = [] \<Longrightarrow> ta_get api (fst (jobs t)) (tr_p s) = Some k \<Longrightarrow>
    tsig_step api jobs s (s\<lparr>tr_pc := (tr_pc s)(t := TRead (tk_key k))\<rparr>)"
| fetch_fails: "tr_pc s t = TLocked \<Longrightarrow> snd (snd (jobs t)) = [] \<Longrightarrow>
    tsig_step api jobs s (s\<lparr>tr_held := unlock_zone (tsig_lock_name (fst (jobs t))) (tr_held s),
      tr_pc := (tr_pc s)(t := TDone False)\<rparr>)"
| put: "tr_pc s t = TRead m \<Longrightarrow> tsig_put api (fst (jobs t)) (fst (snd (jobs t))) m (tr_p s) = (ok, p) \<Longrightarrow>
    tsig_step api jobs s (s\<lparr>tr_p := p, tr_held := unlock_zone (tsig_lock_name (fst (jobs t))) (tr_held s),
      tr_pc := (tr_pc s)(t := TDone ok), tr_put := tr_put s @ [(jobs t, ok)]\<rparr>)"

inductive tsig_reach :: "'p tsig_api \<Rightarrow> (nat \<Rightarrow> tsig_job) \<Rightarrow> 'p \<Rightarrow> 'p tsig_run \<Rightarrow> bool"
  for api :: "'p tsig_api" and jobs :: "nat \<Rightarrow> tsig_job" and p0 :: 'p where
  start: "tsig_reach api jobs p0 \<lparr>tr_p = p0, tr_held = Map.empty, tr_pc = (\<lambda>_. TIdle), tr_put = []\<rparr>"
| move: "tsig_reach api jobs p0 s \<Longrightarrow> tsig_step api jobs s s' \<Longrightarrow> tsig_reach api jobs p0 s'"

subsection \<open>DNSSEC keys\<close>

record 'p cryptokey_api =
  ka_create :: "string \<Rightarrow> string \<Rightarrow> bool \<Rightarrow> string \<Rightarrow> 'p \<Rightarrow> int option \<times> 'p"
  ka_toggle :: "string \<Rightarrow> int \<Rightarrow> bool \<Rightarrow> 'p \<Rightarrow> bool \<times> 'p"
  ka_delete :: "string \<Rightarrow> int \<Rightarrow> 'p \<Rightarrow> bool \<times> 'p"
  ka_rectify :: "string \<Rightarrow> 'p \<Rightarrow> bool \<times> 'p"

datatype cryptokey_reply = CkBadType | CkBadAlgorithm | CkBadId | CkFailed | CkNotRectified | CkDone

text \<open>The end the three handlers share: the log row, then the rectification.\<close>

definition log_and_rectify ::
  "'p cryptokey_api \<Rightarrow> bool \<Rightarrow> user \<Rightarrow> string \<Rightarrow> string \<Rightarrow> string \<Rightarrow> 'p svc \<Rightarrow> cryptokey_reply \<times> 'p svc" where
  "log_and_rectify api log_fails user zone action details s =
     (let s' = log_activity log_fails
          \<lparr>ae_user_id = u_id user, ae_zone_id = Some zone, ae_action = action, ae_details = details,
           ae_old_list = None, ae_old = None, ae_new = None\<rparr> s in
      case ka_rectify api zone (sv_pdns s') of
        (ok, p) \<Rightarrow> (if ok then CkDone else CkNotRectified, s'\<lparr>sv_pdns := p\<rparr>))"

definition create_cryptokey ::
  "'p cryptokey_api \<Rightarrow> bool \<Rightarrow> user \<Rightarrow> string \<Rightarrow> string \<Rightarrow> string \<Rightarrow> 'p svc \<Rightarrow> cryptokey_reply \<times> 'p svc" where
  "create_cryptokey api log_fails user zone key_type algorithm0 s =
     (let algorithm = (if algorithm0 = [] then ''ecdsa256'' else algorithm0) in
      if key_type \<noteq> ''ksk'' \<and> key_type \<noteq> ''zsk'' then (CkBadType, s)
      else if validate_dnssec_algorithm algorithm \<noteq> None then (CkBadAlgorithm, s)
      else case ka_create api zone key_type True algorithm (sv_pdns s) of
        (None, p) \<Rightarrow> (CkFailed, s\<lparr>sv_pdns := p\<rparr>)
      | (Some kid, p) \<Rightarrow>
          log_and_rectify api log_fails user zone ''create_cryptokey''
            (''Created '' @ key_type @ '' key '' @ dec_int kid @ '' ('' @ algorithm @ '')'') (s\<lparr>sv_pdns := p\<rparr>))"

definition toggle_cryptokey ::
  "'p cryptokey_api \<Rightarrow> bool \<Rightarrow> user \<Rightarrow> string \<Rightarrow> string \<Rightarrow> string \<Rightarrow> 'p svc \<Rightarrow> cryptokey_reply \<times> 'p svc" where
  "toggle_cryptokey api log_fails user zone key_id active_text s =
     (case atoi key_id of
        None \<Rightarrow> (CkBadId, s)
      | Some i \<Rightarrow>
          if i \<le> 0 then (CkBadId, s)
          else
            let active = (active_text = ''true''); action = (if active then ''activate'' else ''deactivate'') in
            case ka_toggle api zone i active (sv_pdns s) of
              (False, p) \<Rightarrow> (CkFailed, s\<lparr>sv_pdns := p\<rparr>)
            | (True, p) \<Rightarrow>
                log_and_rectify api log_fails user zone (''cryptokey_'' @ action) (action @ '' key '' @ dec_int i) (s\<lparr>sv_pdns := p\<rparr>))"

definition delete_cryptokey ::
  "'p cryptokey_api \<Rightarrow> bool \<Rightarrow> user \<Rightarrow> string \<Rightarrow> string \<Rightarrow> 'p svc \<Rightarrow> cryptokey_reply \<times> 'p svc" where
  "delete_cryptokey api log_fails user zone key_id s =
     (case atoi key_id of
        None \<Rightarrow> (CkBadId, s)
      | Some i \<Rightarrow>
          if i \<le> 0 then (CkBadId, s)
          else case ka_delete api zone i (sv_pdns s) of
            (False, p) \<Rightarrow> (CkFailed, s\<lparr>sv_pdns := p\<rparr>)
          | (True, p) \<Rightarrow>
              log_and_rectify api log_fails user zone ''delete_cryptokey'' (''Deleted key '' @ dec_int i) (s\<lparr>sv_pdns := p\<rparr>))"

text \<open>\<open>invalidate\<close> empties the caches; it cannot fail.\<close>

definition clear_zone_cache :: "(string \<Rightarrow> 'p \<Rightarrow> 'p) \<Rightarrow> bool \<Rightarrow> user \<Rightarrow> string \<Rightarrow> 'p svc \<Rightarrow> 'p svc" where
  "clear_zone_cache invalidate log_fails user zone s =
     log_activity log_fails
       \<lparr>ae_user_id = u_id user, ae_zone_id = Some zone, ae_action = ''clear_zone_cache'',
        ae_details = ''Cleared cache for zone '' @ zone, ae_old_list = None, ae_old = None, ae_new = None\<rparr>
       (s\<lparr>sv_pdns := invalidate zone (sv_pdns s)\<rparr>)"

section \<open>Properties of TSIG and DNSSEC keys\<close>

subsection \<open>The listing\<close>

lemma tsig_window_take:
  "0 < pp \<Longrightarrow> 0 \<le> first \<Longrightarrow> idx < stop \<Longrightarrow> first \<le> stop \<Longrightarrow>
   tsig_window P pp first stop idx ks
     = drop (nat (first - idx)) (take (nat (stop - idx)) (filter P ks))"
proof (induction ks arbitrary: idx)
  case (Cons k ks)
  show ?case
  proof (cases "P k \<and> idx + 1 < stop")
    case True
    have n: "nat (stop - idx) = Suc (nat (stop - (idx + 1)))" using True by linarith
    have f: "idx < first \<Longrightarrow> nat (first - idx) = Suc (nat (first - (idx + 1)))" by linarith
    show ?thesis using Cons.IH [of "idx + 1"] Cons.prems True n f by (cases "idx < first") simp_all
  next
    case False
    then show ?thesis
    proof (cases "P k")
      case True
      with False Cons.prems have "stop = idx + 1" by linarith
      with True Cons.prems show ?thesis by (cases "first \<le> idx") (simp_all add: not_le)
    next
      case False
      with Cons show ?thesis by simp
    qed
  qed
qed simp

lemma tsig_window_all: "pp \<le> 0 \<Longrightarrow> tsig_window P pp first stop idx ks = filter P ks"
  by (induction ks arbitrary: idx) simp_all

text \<open>The listing of the TSIG keys is a page like any other: the loop, with its count and its early
  exit, gives the rows that a query with limit and offset over the matching keys gives, for every
  page and page size of the query string.\<close>

theorem tsig_list_exact:
  assumes "ta_list api p = Some keys" "int (length keys) < 2 ^ 62"
  shows "map_option fst (list_tsig_keys api search page_text per_page_text p)
    = (case parse_pagination_params page_text per_page_text 10 of (page, pp) \<Rightarrow>
         fetch_page (filter (\<lambda>k. name_matches search (tk_name k)) keys) page pp)"
proof -
  obtain page pp where pg: "parse_pagination_params page_text per_page_text 10 = (page, pp)" by (metis surj_pair)
  let ?ks = "filter (\<lambda>k. name_matches search (tk_name k)) keys"
  let ?n = "int (length ?ks)"
  let ?cur = "clamp_page_to_total page pp ?n"
  have n: "?n < 2 ^ 62" using assms(2) length_filter_le [of "\<lambda>k. name_matches search (tk_name k)" keys] by linarith
  have small: "pp < 2 ^ 63"
  proof -
    have "atoi x = Some v \<Longrightarrow> v < 2 ^ 63" for x v
      by (auto simp: atoi_def int64_def Let_def split: option.splits if_splits)
    with pg show ?thesis by (auto simp: parse_pagination_params_def Let_def split: if_splits option.splits)
  qed
  show ?thesis
  proof (cases "0 < pp")
    case False
    with assms(1) pg show ?thesis by (simp add: list_tsig_keys_def fetch_page_def tsig_window_all Let_def)
  next
    case True
    have cur: "1 \<le> ?cur" "?cur \<le> page_count ?n pp" using page_count_pos [of ?n pp] by (auto simp: clamp_page_to_total_def True)
    note bounds = page_start_bounds [of ?n pp ?cur]
    have first: "i64 (i64 (?cur - 1) * pp) = (?cur - 1) * pp" and low: "0 \<le> (?cur - 1) * pp"
      using bounds(1,2) n True small cur by auto
    have "(?cur - 1) * pp + pp < 2 ^ 63"
    proof (cases "?n = 0")
      case zero: True
      have "(?cur - 1) * pp \<le> ?n" using bounds(3) n True small cur by simp
      with low small show ?thesis unfolding zero by linarith
    next
      case False
      with bounds(4,5) n True small cur show ?thesis by auto
    qed
    moreover have "0 \<le> ?cur * pp" using cur(1) True by (intro mult_nonneg_nonneg) auto
    ultimately have stop: "i64 (?cur * pp) = ?cur * pp"
      by (intro i64_id) (simp add: int64_def left_diff_distrib)
    have d: "nat (?cur * pp) = nat ((?cur - 1) * pp) + nat pp"
      using low True by (simp add: nat_add_distrib [symmetric] algebra_simps)
    have "tsig_window (\<lambda>k. name_matches search (tk_name k)) pp ((?cur - 1) * pp) (?cur * pp) 0 keys
        = drop (nat ((?cur - 1) * pp)) (take (nat (?cur * pp)) ?ks)"
      using tsig_window_take [of pp "(?cur - 1) * pp" 0 "?cur * pp" "\<lambda>k. name_matches search (tk_name k)" keys]
        True low cur(1) by (simp add: algebra_simps)
    also have "\<dots> = take (nat pp) (drop (nat ((?cur - 1) * pp)) ?ks)"
      by (simp add: d drop_take)
    finally show ?thesis
      using assms(1) pg True low first stop
      by (simp add: list_tsig_keys_def fetch_page_def page_info_from_total_def Let_def)
  qed
qed

subsection \<open>Rotations survive\<close>

definition secret_of :: "'p tsig_api \<Rightarrow> string \<Rightarrow> 'p \<Rightarrow> string option" where
  "secret_of api kid p = map_option tk_key (ta_get api kid p)"

text \<open>The secret the last successful update with typed material left.\<close>

definition last_rotation :: "string \<Rightarrow> string option \<Rightarrow> (tsig_job \<times> bool) list \<Rightarrow> string option" where
  "last_rotation kid m0 puts =
     foldl (\<lambda>m (job, ok). if fst job = kid \<and> ok \<and> snd (snd job) \<noteq> [] then Some (snd (snd job)) else m) m0 puts"

definition tsig_ok :: "'p tsig_api \<Rightarrow> (nat \<Rightarrow> tsig_job) \<Rightarrow> 'p \<Rightarrow> 'p tsig_run \<Rightarrow> bool" where
  "tsig_ok api jobs p0 s \<longleftrightarrow>
     (\<forall>kid. last_rotation kid (secret_of api kid p0) (tr_put s) = secret_of api kid (tr_p s))
     \<and> (\<forall>t. tr_pc s t = TLocked \<longrightarrow> tr_held s (tsig_lock_name (fst (jobs t))) = Some t)
     \<and> (\<forall>t m. tr_pc s t = TRead m \<longrightarrow> tr_held s (tsig_lock_name (fst (jobs t))) = Some t
          \<and> (if snd (snd (jobs t)) = [] then secret_of api (fst (jobs t)) (tr_p s) = Some m else m = snd (snd (jobs t))))"

lemma tsig_lock_name_inj: "tsig_lock_name a = tsig_lock_name b \<longleftrightarrow> a = b"
  by (simp add: tsig_lock_name_def)

lemma tsig_ok_step:
  assumes law: "\<And>kid a m p ok p' kid'. tsig_put api kid a m p = (ok, p') \<Longrightarrow>
      secret_of api kid' p' = (if ok \<and> kid' = kid then Some m else secret_of api kid' p)"
    and step: "tsig_step api jobs s s'" and ok: "tsig_ok api jobs p0 s"
  shows "tsig_ok api jobs p0 s'"
proof -
  have held: "tr_held s (tsig_lock_name (fst (jobs t))) = Some t" if "tr_pc s t = TLocked \<or> (\<exists>m. tr_pc s t = TRead m)" for t
    using ok that by (auto simp: tsig_ok_def)
  from step show ?thesis
proof cases
  case (lock t h)
  then have free: "tr_held s (tsig_lock_name (fst (jobs t))) = None" "h = (tr_held s)(tsig_lock_name (fst (jobs t)) \<mapsto> t)"
    by (auto simp: lock_zone_def split: option.splits)
  have "fst (jobs t') \<noteq> fst (jobs t)" if "tr_pc s t' = TLocked \<or> (\<exists>m. tr_pc s t' = TRead m)" for t'
    using held [OF that] free(1) by auto
  with lock free ok show ?thesis by (auto simp: tsig_ok_def tsig_lock_name_inj)
next
  case (typed t)
  with ok show ?thesis by (auto simp: tsig_ok_def)
next
  case (fetched t k)
  then have "secret_of api (fst (jobs t)) (tr_p s) = Some (tk_key k)" by (simp add: secret_of_def)
  with fetched ok show ?thesis by (auto simp: tsig_ok_def)
next
  case (fetch_fails t)
  then have "tr_held s (tsig_lock_name (fst (jobs t))) = Some t" using held [of t] by simp
  then have "fst (jobs t') \<noteq> fst (jobs t)" if "tr_pc s t' = TLocked \<or> (\<exists>m. tr_pc s t' = TRead m)" "t' \<noteq> t" for t'
    using held [OF that(1)] that(2) by auto
  with fetch_fails ok show ?thesis by (auto simp: tsig_ok_def unlock_zone_def tsig_lock_name_inj)
next
  case (put t m pok p)
  have l: "tr_held s (tsig_lock_name (fst (jobs t))) = Some t"
    and m: "if snd (snd (jobs t)) = [] then secret_of api (fst (jobs t)) (tr_p s) = Some m else m = snd (snd (jobs t))"
    using ok put by (auto simp: tsig_ok_def)
  have sec: "secret_of api kid p = (if pok \<and> kid = fst (jobs t) then Some m else secret_of api kid (tr_p s))" for kid
    using law [OF put(3)] .
  have "last_rotation kid (secret_of api kid p0) (tr_put s @ [(jobs t, pok)]) = secret_of api kid p" for kid
    using ok m by (auto simp: sec last_rotation_def tsig_ok_def split: if_splits)
  moreover have "fst (jobs t') \<noteq> fst (jobs t)" if "tr_pc s t' = TLocked \<or> (\<exists>m. tr_pc s t' = TRead m)" "t' \<noteq> t" for t'
    using held [OF that(1)] l that(2) by auto
  ultimately show ?thesis
    using put ok by (auto simp: tsig_ok_def unlock_zone_def tsig_lock_name_inj sec)
qed
qed

text \<open>C16: A blank update never brings back an old secret.  However updates of TSIG keys interleave under
  the locks of their keys, and whichever fetches and writes fail, the secret of each key is at every
  moment the one the last successful rotation set, or the first if there was none: an update that
  only changes the algorithm echoes a secret that nobody replaced in between.  PowerDNS is assumed
  to keep what a successful write of a key says, and to leave all else.\<close>

theorem rotation_survives:
  assumes "\<And>kid a m p ok p' kid'. tsig_put api kid a m p = (ok, p') \<Longrightarrow>
      secret_of api kid' p' = (if ok \<and> kid' = kid then Some m else secret_of api kid' p)"
    and "tsig_reach api jobs p0 s"
  shows "secret_of api kid (tr_p s) = last_rotation kid (secret_of api kid p0) (tr_put s)"
proof -
  from assms(2) have "tsig_ok api jobs p0 s"
  proof induction
    case start
    show ?case by (simp add: tsig_ok_def last_rotation_def)
  next
    case (move s s')
    show ?case by (rule tsig_ok_step [OF _ move(2) move.IH]) (rule assms(1))
  qed
  then show ?thesis by (simp add: tsig_ok_def)
qed

definition one_key_api :: "(string \<rightharpoonup> tsig_key) tsig_api" where
  "one_key_api =
     \<lparr>ta_list = (\<lambda>p. Some []), ta_get = (\<lambda>kid p. p kid), ta_create = (\<lambda>k p. (None, p)),
      ta_update = (\<lambda>kid k p. (True, p(kid \<mapsto> k))), ta_delete = (\<lambda>kid p. (False, p))\<rparr>"

lemma one_key_put:
  "tsig_put one_key_api kid a m p = (ok, p') \<Longrightarrow>
   secret_of one_key_api kid' p' = (if ok \<and> kid' = kid then Some m else secret_of one_key_api kid' p)"
  by (auto simp: tsig_put_def one_key_api_def secret_of_def)

lemma typed_rotation_reached:
  assumes "snd (snd (jobs 0)) \<noteq> []"
  shows "\<exists>s. tsig_reach one_key_api jobs Map.empty s \<and> tr_put s = [(jobs 0, True)]"
proof -
  obtain kid a m where j: "jobs 0 = (kid, a, m)" "m \<noteq> []" using assms by (cases "jobs 0") auto
  let ?s1 = "\<lparr>tr_p = Map.empty, tr_held = [tsig_lock_name kid \<mapsto> 0], tr_pc = (\<lambda>_. TIdle)(0 := TLocked), tr_put = []\<rparr>"
  let ?s2 = "?s1\<lparr>tr_pc := (\<lambda>_. TIdle)(0 := TRead m)\<rparr>"
  have "tsig_reach one_key_api jobs Map.empty ?s1"
    by (rule tsig_reach.move [OF tsig_reach.start])
      (use tsig_step.lock [where t = 0 and h = "[tsig_lock_name kid \<mapsto> 0]" and api = one_key_api and jobs = jobs
        and s = "\<lparr>tr_p = Map.empty, tr_held = Map.empty, tr_pc = (\<lambda>_. TIdle), tr_put = []\<rparr>"] j
       in \<open>simp add: lock_zone_def\<close>)
  from tsig_reach.move [OF this tsig_step.typed [where t = 0]] have "tsig_reach one_key_api jobs Map.empty ?s2"
    by (simp add: j)
  from tsig_reach.move [OF this tsig_step.put [where t = 0 and m = m]] show ?thesis
    by (fastforce simp: j tsig_put_def one_key_api_def)
qed

lemma rotation_survives_witness:
  "\<exists>s :: (string \<rightharpoonup> tsig_key) tsig_run. tr_put s = [((''k'', ''hmac-sha256'', ''new''), True)] \<and> secret_of one_key_api ''k'' (tr_p s) = Some ''new''"
proof -
  obtain s where "tsig_reach one_key_api (\<lambda>_. (''k'', ''hmac-sha256'', ''new'')) Map.empty s"
      "tr_put s = [((''k'', ''hmac-sha256'', ''new''), True)]"
    using typed_rotation_reached [of "\<lambda>_. (''k'', ''hmac-sha256'', ''new'')"] by auto
  moreover from this have "secret_of one_key_api ''k'' (tr_p s)
      = last_rotation ''k'' (secret_of one_key_api ''k'' Map.empty) (tr_put s)"
    by (intro rotation_survives [OF one_key_put])
  ultimately show ?thesis by (auto simp: last_rotation_def)
qed

end
