(* ===== verification/Front.thy ===== *)
theory Front
  imports Config PdnsClient RateLimit
begin

section \<open>The front of the server\<close>

text \<open>
  Models what every request passes before it is routed: \<^verbatim>\<open>cmd/middleware.go\<close> (trusted proxies,
  the address and the scheme of the client), \<^verbatim>\<open>cmd/csrf.go\<close>, \<^verbatim>\<open>internal/middleware/security.go\<close>,
  \<^verbatim>\<open>bodylimit.go\<close> and \<^verbatim>\<open>error.go\<close>; and the error replies, the menu section and the readiness check
  of \<^verbatim>\<open>internal/handlers/handler.go\<close>, \<^verbatim>\<open>pdns_page.go\<close> and \<^verbatim>\<open>health.go\<close>.  The functions of
  \<^verbatim>\<open>net\<close>, \<^verbatim>\<open>net/netip\<close> and the vendored chi middleware that these use are written out.
\<close>

subsection \<open>Addresses\<close>

definition split_host_port :: "string \<Rightarrow> string option" where
  "split_host_port hp =
     (if CHR '':'' \<notin> set hp then None
      else
        let port = rev (takeWhile (\<lambda>c. c \<noteq> CHR '':'') (rev hp));
            before = take (length hp - length port - 1) hp in
        if hd hp = CHR ''['' then
          (let host = takeWhile (\<lambda>c. c \<noteq> CHR '']'') (tl hp); after = drop (length host + 2) hp in
           if CHR '']'' \<notin> set hp \<or> Suc (length host) \<noteq> length before - 1
             \<or> CHR ''['' \<in> set (tl hp) \<or> CHR '']'' \<in> set after then None
           else Some host)
        else if CHR '':'' \<in> set before \<or> CHR ''['' \<in> set hp \<or> CHR '']'' \<in> set hp then None
        else Some before)"

definition unmap :: "addr \<Rightarrow> addr" where
  "unmap a = (case a of Addr6 bs zone \<Rightarrow> (case to4 bs of Some v4 \<Rightarrow> Addr4 v4 | None \<Rightarrow> a) | Addr4 _ \<Rightarrow> a)"

definition without_zone :: "addr \<Rightarrow> addr" where
  "without_zone a = (case a of Addr6 bs zone \<Rightarrow> Addr6 bs [] | Addr4 _ \<Rightarrow> a)"

definition byte_bits :: "nat \<Rightarrow> bool list" where
  "byte_bits b = map (\<lambda>i. odd (b div 2 ^ (7 - i))) [0..<8]"

definition same_prefix :: "int \<Rightarrow> nat list \<Rightarrow> nat list \<Rightarrow> bool" where
  "same_prefix n as bs \<longleftrightarrow> take (nat n) (concat (map byte_bits as)) = take (nat n) (concat (map byte_bits bs))"

definition prefix_contains :: "addr \<times> int \<Rightarrow> addr \<Rightarrow> bool" where
  "prefix_contains p a \<longleftrightarrow>
     (case (p, a) of
        ((Addr4 bs, n), Addr4 cs) \<Rightarrow> same_prefix n bs cs
      | ((Addr6 bs _, n), Addr6 cs zone) \<Rightarrow> zone = [] \<and> same_prefix n bs cs
      | _ \<Rightarrow> False)"

subsection \<open>Trusted proxies\<close>

text \<open>The prefixes, or the number of the first entry that is none.\<close>

fun parse_proxies_from :: "nat \<Rightarrow> string list \<Rightarrow> nat + (addr \<times> int) list" where
  "parse_proxies_from i [] = Inr []"
| "parse_proxies_from i (e # es) =
     (case parse_prefix e of
        None \<Rightarrow> Inl i
      | Some p \<Rightarrow> (case parse_proxies_from (Suc i) es of Inl j \<Rightarrow> Inl j | Inr ps \<Rightarrow> Inr (p # ps)))"

definition parse_trusted_proxies :: "string list \<Rightarrow> nat + (addr \<times> int) list" where
  "parse_trusted_proxies = parse_proxies_from 1"

definition trusted_proxy :: "addr \<Rightarrow> (addr \<times> int) list \<Rightarrow> bool" where
  "trusted_proxy ip trusted \<longleftrightarrow> list_ex (\<lambda>p. prefix_contains p ip) trusted"

definition peer_host :: "string \<Rightarrow> string" where
  "peer_host remote_addr = (case split_host_port remote_addr of Some h \<Rightarrow> h | None \<Rightarrow> remote_addr)"

definition from_trusted_proxy :: "(addr \<times> int) list \<Rightarrow> string \<Rightarrow> bool" where
  "from_trusted_proxy trusted remote_addr \<longleftrightarrow>
     (case parse_addr (peer_host remote_addr) of None \<Rightarrow> False | Some ip \<Rightarrow> trusted_proxy (unmap ip) trusted)"

definition parse_remote_addr :: "string \<Rightarrow> addr option" where
  "parse_remote_addr remote_addr = map_option unmap (parse_addr (peer_host remote_addr))"

definition parse_header_addr :: "string \<Rightarrow> addr option" where
  "parse_header_addr s = map_option (\<lambda>a. without_zone (unmap a)) (parse_addr s)"

text \<open>The hops of \<^verbatim>\<open>X-Forwarded-For\<close> from the last line back, each line from its last comma back.\<close>

definition forwarded_hops :: "string list \<Rightarrow> string list" where
  "forwarded_hops header =
     filter (\<lambda>v. v \<noteq> []) (map trim_space (concat (map (\<lambda>h. rev (split_on CHR '','' h)) (rev header))))"

fun walk_hops :: "(addr \<times> int) list \<Rightarrow> string list \<Rightarrow> addr option" where
  "walk_hops trusted [] = None"
| "walk_hops trusted (v # vs) =
     (case parse_header_addr v of
        None \<Rightarrow> None
      | Some ip \<Rightarrow> if trusted_proxy ip trusted then walk_hops trusted vs else Some ip)"

definition client_ip_from_xff :: "(addr \<times> int) list \<Rightarrow> string \<Rightarrow> string list \<Rightarrow> addr option" where
  "client_ip_from_xff trusted remote_addr header =
     (case parse_remote_addr remote_addr of
        None \<Rightarrow> None
      | Some peer \<Rightarrow>
          if trusted_proxy (without_zone peer) trusted then walk_hops trusted (forwarded_hops header) else Some peer)"

definition client_ip_middleware :: "(addr \<times> int) list \<Rightarrow> string \<Rightarrow> string list \<Rightarrow> addr option" where
  "client_ip_middleware trusted remote_addr header =
     (if trusted = [] then parse_remote_addr remote_addr
      else if from_trusted_proxy trusted remote_addr then client_ip_from_xff trusted remote_addr header
      else parse_remote_addr remote_addr)"

definition forwarded_proto_is_https :: "string \<Rightarrow> bool" where
  "forwarded_proto_is_https header \<longleftrightarrow>
     header \<noteq> [] \<and> equal_fold (trim_space (takeWhile (\<lambda>c. c \<noteq> CHR '','') header)) ''https''"

text \<open>\<open>tls\<close> is whether the connection itself is encrypted.\<close>

definition https_resolver :: "(addr \<times> int) list \<Rightarrow> bool \<Rightarrow> string \<Rightarrow> string \<Rightarrow> bool" where
  "https_resolver trusted tls remote_addr proto =
     (if tls then True
      else if trusted \<noteq> [] \<and> from_trusted_proxy trusted remote_addr then forwarded_proto_is_https proto
      else False)"

text \<open>\<open>resolved\<close> is the flag the resolver left in the context.\<close>

definition is_https :: "bool \<Rightarrow> bool option \<Rightarrow> bool" where
  "is_https tls resolved = (if tls then True else case resolved of Some v \<Rightarrow> v | None \<Rightarrow> False)"

subsection \<open>The text of an address\<close>

fun hex_text :: "nat \<Rightarrow> string" where
  "hex_text n = (if n < 16 then [''0123456789abcdef'' ! n] else hex_text (n div 16) @ [''0123456789abcdef'' ! (n mod 16)])"

declare hex_text.simps [simp del]

fun groups16 :: "nat list \<Rightarrow> nat list" where
  "groups16 (a # b # bs) = (256 * a + b) # groups16 bs"
| "groups16 _ = []"

text \<open>The first of the longest runs of at least two zero groups.\<close>

definition zero_run :: "nat list \<Rightarrow> nat \<times> nat" where
  "zero_run gs =
     foldl (\<lambda>(s, e) i. let l = length (takeWhile (\<lambda>g. g = 0) (drop i gs)) in if 2 \<le> l \<and> e - s < l then (i, i + l) else (s, e))
       (8, 8) [0..<8]"

definition addr6_text :: "nat list \<Rightarrow> string" where
  "addr6_text bs =
     (let gs = groups16 bs in
      case zero_run gs of (s, e) \<Rightarrow>
        if s = 8 then join_with '':'' (map hex_text gs)
        else join_with '':'' (map hex_text (take s gs)) @ ''::'' @ join_with '':'' (map hex_text (drop e gs)))"

definition addr_text :: "addr \<Rightarrow> string" where
  "addr_text a =
     (case a of
        Addr4 bs \<Rightarrow> join_with ''.'' (map dec_nat bs)
      | Addr6 bs zone \<Rightarrow> addr6_text bs @ (if zone = [] then [] else ''%'' @ zone))"

definition get_client_ip :: "addr option \<Rightarrow> string" where
  "get_client_ip ip = (case ip of None \<Rightarrow> [] | Some a \<Rightarrow> addr_text a)"

subsection \<open>Headers, bodies and panics\<close>

definition permissions_policy :: string where
  "permissions_policy = ''accelerometer=(), ambient-light-sensor=(), camera=(), geolocation=(), gyroscope=(), magnetometer=(), microphone=(), payment=(), usb=()''"

definition security_headers :: "bool \<Rightarrow> (string \<times> string) list" where
  "security_headers https =
     [(''X-Content-Type-Options'', ''nosniff''), (''X-Frame-Options'', ''DENY''),
      (''Referrer-Policy'', ''strict-origin-when-cross-origin''),
      (''Content-Security-Policy'', [CHR ''d''] @ ''efault-src '' @ [CHR 0x27] @ ''self'' @ [CHR 0x27] @ ''; style-src '' @ [CHR 0x27] @ ''self'' @ [CHR 0x27]
         @ ''; script-src '' @ [CHR 0x27] @ ''self'' @ [CHR 0x27] @ ''; object-src '' @ [CHR 0x27] @ ''none'' @ [CHR 0x27]
         @ ''; base-uri '' @ [CHR 0x27] @ ''self'' @ [CHR 0x27] @ ''; frame-ancestors '' @ [CHR 0x27] @ ''none'' @ [CHR 0x27]
         @ ''; form-action '' @ [CHR 0x27] @ ''self'' @ [CHR 0x27]),
      (''Permissions-Policy'', permissions_policy)]
     @ (if https then [(''Strict-Transport-Security'', ''max-age=31536000; includeSubDomains'')] else [])"

definition default_body_limit :: nat where "default_body_limit = 2 ^ 20"

definition import_body_limit :: nat where "import_body_limit = 10 * 2 ^ 20"

definition body_limit :: "request \<Rightarrow> nat" where
  "body_limit r =
     (if rq_method r = ''POST'' \<and> has_suffix (rq_path r) ''/import'' then import_body_limit else default_body_limit)"

definition csrf_cookie_name :: string where "csrf_cookie_name = ''_gorilla_csrf''"

text \<open>The cookies of the response, after the flag was set once.\<close>

definition apply_secure_flag :: "bool \<Rightarrow> bool \<Rightarrow> string list \<Rightarrow> bool \<times> string list" where
  "apply_secure_flag https applied cookies =
     (if applied \<or> \<not> https then (True, cookies)
      else (True, map (\<lambda>c. if has_prefix c (csrf_cookie_name @ ''='') \<and> \<not> contains_str c ''; Secure'' then c @ ''; Secure'' else c)
              cookies))"

record app_error =
  ap_code :: nat
  ap_name :: string
  ap_message :: string

definition app_error_new :: "nat \<Rightarrow> string \<Rightarrow> string \<Rightarrow> string \<Rightarrow> app_error" where
  "app_error_new status name fallback message =
     \<lparr>ap_code = status, ap_name = name, ap_message = (if message = [] then fallback else message)\<rparr>"

definition err_not_found :: "string \<Rightarrow> app_error" where
  "err_not_found = app_error_new 404 ''NOT_FOUND'' ''resource not found''"

definition err_bad_request :: "string \<Rightarrow> app_error" where
  "err_bad_request = app_error_new 400 ''BAD_REQUEST'' ''bad request''"

definition err_unauthorized :: "string \<Rightarrow> app_error" where
  "err_unauthorized = app_error_new 401 ''UNAUTHORIZED'' ''unauthorized''"

definition err_forbidden :: "string \<Rightarrow> app_error" where
  "err_forbidden = app_error_new 403 ''FORBIDDEN'' ''forbidden''"

definition err_internal :: "string \<Rightarrow> app_error" where
  "err_internal = app_error_new 500 ''INTERNAL_ERROR'' ''internal server error''"

definition err_validation :: "string \<Rightarrow> app_error" where
  "err_validation = app_error_new 400 ''VALIDATION_ERROR'' ''validation error''"

text \<open>JSON for the API, with the numeric code or with the envelope, whose code is a string; or a text.\<close>

datatype error_body = JsonError app_error | JsonEnvelope nat string string | PlainError nat string

definition write_app_error :: "request \<Rightarrow> app_error \<Rightarrow> error_body" where
  "write_app_error r e = (if is_api_request r then JsonError e else PlainError (ap_code e) (ap_message e))"

definition write_api_error_envelope :: "nat \<Rightarrow> string \<Rightarrow> string \<Rightarrow> error_body" where
  "write_api_error_envelope status code label = JsonEnvelope status code label"

text \<open>A panic of a handler; \<^verbatim>\<open>isAPIRequest\<close> chooses the form of the reply.\<close>

definition error_handler :: "request \<Rightarrow> 'a option \<Rightarrow> error_body + 'a" where
  "error_handler r served =
     (case served of
        Some x \<Rightarrow> Inr x
      | None \<Rightarrow> 
          Inl (if is_api_request r then JsonError (err_internal ''internal server error'')
               else PlainError 500 ''Internal Server Error''))"

subsection \<open>Replies of the pages\<close>

datatype user_message =
    MsgInvalidRecords | MsgConflict | MsgNoTarget | MsgBadCredentials | MsgLuaDisabled
  | MsgInvalidRequest | MsgNotFound | MsgSeeLogs | MsgNone

definition pdns_user_facing_status :: "upstream_error \<Rightarrow> (nat \<times> user_message) option" where
  "pdns_user_facing_status e =
     (case e of
        UpValidation \<Rightarrow> Some (400, MsgInvalidRecords)
      | UpConflict \<Rightarrow> Some (409, MsgConflict)
      | UpNotFound \<Rightarrow> Some (404, MsgNoTarget)
      | UpUnauthorized \<Rightarrow> Some (502, MsgBadCredentials)
      | UpLuaDisabled \<Rightarrow> Some (400, MsgLuaDisabled)
      | _ \<Rightarrow> None)"

definition render_internal_error :: "upstream_error \<Rightarrow> nat \<times> user_message" where
  "render_internal_error e = (case pdns_user_facing_status e of Some r \<Rightarrow> r | None \<Rightarrow> (500, MsgNone))"

definition pdns_page_status :: "upstream_error \<Rightarrow> nat \<times> user_message" where
  "pdns_page_status e =
     (case e of
        UpNotFound \<Rightarrow> (404, MsgNotFound)
      | UpUnauthorized \<Rightarrow> (502, MsgBadCredentials)
      | UpValidation \<Rightarrow> (400, MsgInvalidRequest)
      | UpConflict \<Rightarrow> (409, MsgConflict)
      | _ \<Rightarrow> (500, MsgSeeLogs))"

definition section_from_template :: "string \<Rightarrow> string" where
  "section_from_template name0 =
     (let name = trim_suffix name0 ''.html'' in
      if name = ''login'' \<or> name = ''error'' then []
      else if name = ''dashboard'' then ''dashboard''
      else if name = ''activity'' then ''activity''
      else if name = ''zones'' \<or> has_prefix name ''zone_'' \<or> has_prefix name ''record_'' then ''zones''
      else if name = ''users'' \<or> has_prefix name ''user_'' then ''users''
      else if name = ''groups'' \<or> has_prefix name ''group_'' then ''groups''
      else if name = ''profile'' then ''profile''
      else if name = ''api_keys'' then ''apikeys''
      else if name = ''tsigkeys'' \<or> has_prefix name ''tsigkey_'' then ''tsigkeys''
      else if name = ''templates'' \<or> has_prefix name ''template_'' then ''templates''
      else [])"

record health_response =
  hr_status :: string
  hr_checks :: "(string \<times> string) list"

definition health_ready :: "bool \<Rightarrow> bool \<Rightarrow> nat \<times> health_response" where
  "health_ready db_ok pdns_ok =
     (let word = (\<lambda>ok. if ok then ''ok'' else ''error''); status = (if db_ok \<and> pdns_ok then ''ok'' else ''degraded'') in
      (if status \<noteq> ''ok'' then 503 else 200,
       \<lparr>hr_status = status, hr_checks = [(''database'', word db_ok), (''powerdns'', word pdns_ok)]\<rparr>))"

section \<open>Properties of the front\<close>

subsection \<open>Forged headers\<close>

lemma split_on_snoc:
  assumes "CHR '','' \<notin> set hop"
  shows "rev (split_on CHR '','' (line @ '','' @ hop)) = hop # rev (split_on CHR '','' line)"
proof -
  have "split_by (\<lambda>x. x = CHR '','') hop = [hop]" using assms by (intro split_by_no) auto
  then show ?thesis by (simp add: split_on_def split_by_append)
qed

lemma parse_addr_Nil: "parse_addr [] = None"
  by (simp add: parse_addr_def)

lemma contains_without_zone: "prefix_contains p a \<Longrightarrow> prefix_contains p (without_zone a)"
  by (cases p; cases "fst p"; cases a) (auto simp: prefix_contains_def without_zone_def)

lemma trusted_without_zone: "trusted_proxy a trusted \<Longrightarrow> trusted_proxy (without_zone a) trusted"
  using contains_without_zone by (auto simp: trusted_proxy_def list_ex_iff)

lemma split_host_port_examples:
  "split_host_port ''10.0.0.1:80'' = Some ''10.0.0.1''" "split_host_port ''[::1]:443'' = Some ''::1''"
  "split_host_port ''10.0.0.1'' = None" "split_host_port ''::1:80'' = None" "split_host_port ''[::1]'' = None"
  by code_simp+

lemma zoned_not_contained: "zone \<noteq> [] \<Longrightarrow> \<not> prefix_contains p (Addr6 bs zone)"
  by (cases p; cases "fst p") (auto simp: prefix_contains_def)

text \<open>A proxy on a link-local address is not recognised: its address carries a zone, which no prefix
  contains, although the middleware it calls then would leave the zone out.\<close>

theorem link_local_proxy_untrusted:
  "(case parse_addr (peer_host remote_addr) of Some (Addr6 bs zone) \<Rightarrow> to4 bs = None \<and> zone \<noteq> [] | _ \<Rightarrow> False)
   \<Longrightarrow> \<not> from_trusted_proxy trusted remote_addr"
  using zoned_not_contained
  by (auto simp: from_trusted_proxy_def unmap_def trusted_proxy_def list_ex_iff split: option.splits addr.splits)

lemma forwarded_hops_snoc:
  assumes "CHR '','' \<notin> set hop" "trim_space hop \<noteq> []"
  shows "forwarded_hops (lines @ [line @ '','' @ hop]) = trim_space hop # forwarded_hops (lines @ [line])"
  using assms by (simp add: forwarded_hops_def split_on_snoc del: append_Cons)

text \<open>C7: Neither address nor scheme of a client can be forged.  A connection from an address that is no
  trusted proxy is taken as it is, whatever the headers say; and behind a trusted proxy, which
  appends the address that it saw, that address counts if it is no proxy itself, whatever the
  client put into the header before.\<close>

theorem client_address_unforgeable:
  "(if from_trusted_proxy trusted remote_addr then True
    else client_ip_middleware trusted remote_addr header = parse_remote_addr remote_addr
      \<and> https_resolver trusted tls remote_addr proto = tls)
   \<and> (case parse_header_addr (trim_space hop) of
        None \<Rightarrow> True
      | Some ip \<Rightarrow>
          if from_trusted_proxy trusted remote_addr then
            (if CHR '','' \<in> set hop \<or> trusted_proxy ip trusted then True
             else client_ip_middleware trusted remote_addr (lines @ [line @ '','' @ hop]) = Some ip)
          else True)"
proof (intro conjI)
  show "if from_trusted_proxy trusted remote_addr then True
    else client_ip_middleware trusted remote_addr header = parse_remote_addr remote_addr
      \<and> https_resolver trusted tls remote_addr proto = tls"
    by (simp add: client_ip_middleware_def https_resolver_def)
next
  show "case parse_header_addr (trim_space hop) of
        None \<Rightarrow> True
      | Some ip \<Rightarrow>
          if from_trusted_proxy trusted remote_addr then
            (if CHR '','' \<in> set hop \<or> trusted_proxy ip trusted then True
             else client_ip_middleware trusted remote_addr (lines @ [line @ '','' @ hop]) = Some ip)
          else True"
  proof (cases "parse_header_addr (trim_space hop)")
    case (Some ip)
    show ?thesis
    proof (cases "from_trusted_proxy trusted remote_addr \<and> CHR '','' \<notin> set hop \<and> \<not> trusted_proxy ip trusted")
      case True
      then have "trusted \<noteq> []" by (auto simp: from_trusted_proxy_def trusted_proxy_def split: option.splits)
      from True obtain peer where p: "parse_addr (peer_host remote_addr) = Some peer" "trusted_proxy (unmap peer) trusted"
        by (auto simp: from_trusted_proxy_def split: option.splits)
      have "trusted_proxy (without_zone (unmap peer)) trusted" using trusted_without_zone [OF p(2)] .
      moreover have "trim_space hop \<noteq> []" using Some by (auto simp: parse_header_addr_def parse_addr_Nil)
      ultimately have "client_ip_middleware trusted remote_addr (lines @ [line @ '','' @ hop]) = Some ip"
        using True \<open>trusted \<noteq> []\<close> Some p
        by (simp add: client_ip_middleware_def client_ip_from_xff_def parse_remote_addr_def forwarded_hops_snoc del: append_Cons)
      with Some show ?thesis by simp
    qed (use Some in \<open>auto split: if_splits\<close>)
  qed simp
qed

end
