(* ===== verification/Routes.thy ===== *)
theory Routes
  imports Front
begin

section \<open>Routes and their guards\<close>

text \<open>
  Models \<^verbatim>\<open>cmd/router.go\<close> and \<^verbatim>\<open>cmd/routes.go\<close>: the table of routes with the middleware in front
  of each, and the way of a request through the router.  A handler is named by its Go method.  The
  search in the table is that of the vendored chi router: at each path segment the literal children
  are tried before the parameter and the parameter before the wildcard, with backtracking, and a
  parameter is empty only in front of another segment.  The verdict of the CSRF library on a request
  and the token bucket are parameters.
\<close>

subsection \<open>Patterns\<close>

datatype segment = Lit string | Param string | Wildcard

definition parse_segment :: "string \<Rightarrow> segment" where
  "parse_segment s =
     (if s = ''*'' then Wildcard
      else if has_prefix s ''{'' \<and> has_suffix s ''}'' then Param (butlast (tl s)) else Lit s)"

definition parse_pattern :: "string \<Rightarrow> segment list" where
  "parse_pattern p = map parse_segment (split_on CHR ''/'' p)"

fun after_lit :: "string \<Rightarrow> (segment list \<times> 'r) list \<Rightarrow> (segment list \<times> 'r) list" where
  "after_lit s [] = []"
| "after_lit s ((Lit t # p, r) # rs) = (if t = s then [(p, r)] else []) @ after_lit s rs"
| "after_lit s (_ # rs) = after_lit s rs"

fun after_param :: "(segment list \<times> 'r) list \<Rightarrow> (segment list \<times> 'r) list" where
  "after_param [] = []"
| "after_param ((Param n # p, r) # rs) = (p, r) # after_param rs"
| "after_param (_ # rs) = after_param rs"

text \<open>A pattern registered again replaces the handler.\<close>

fun last_with :: "segment list \<Rightarrow> (segment list \<times> 'r) list \<Rightarrow> 'r option" where
  "last_with p [] = None"
| "last_with p ((q, r) # rs) = (case last_with p rs of Some x \<Rightarrow> Some x | None \<Rightarrow> if q = p then Some r else None)"

text \<open>The route found, with the values of its parameters.\<close>

fun find_route :: "string list \<Rightarrow> (segment list \<times> 'r) list \<Rightarrow> (string list \<times> 'r) option" where
  "find_route [] rs = map_option (Pair []) (last_with [] rs)"
| "find_route (s # ss) rs =
     (case find_route ss (after_lit s rs) of
        Some x \<Rightarrow> Some x
      | None \<Rightarrow>
          (case (if s = [] \<and> ss = [] then None else find_route ss (after_param rs)) of
             Some (vs, r) \<Rightarrow> Some (s # vs, r)
           | None \<Rightarrow> map_option (Pair [join_with ''/'' (s # ss)]) (last_with [Wildcard] rs)))"

fun param_names :: "segment list \<Rightarrow> string list" where
  "param_names [] = []"
| "param_names (Param n # p) = n # param_names p"
| "param_names (Wildcard # p) = ''*'' # param_names p"
| "param_names (Lit s # p) = param_names p"

subsection \<open>The table\<close>

datatype guard =
    CsrfProtect | LoginIPLimit | DBLoginIPLimit | LoginUserLimit | DBLoginUserLimit
  | Authenticate | DNSAdminOnly | AdminOnly | ZoneAccess
  | APIIPLimit | APIKeyAuthentication api_key_surface | APIKeyLimit | WriteScope | CanonicalZone | HealthLimit

record route =
  rt_method :: string
  rt_pattern :: string
  rt_guards :: "guard list"
  rt_handler :: string

definition get :: "string \<Rightarrow> string \<Rightarrow> route" where
  "get p h = \<lparr>rt_method = ''GET'', rt_pattern = p, rt_guards = [], rt_handler = h\<rparr>"

definition post :: "string \<Rightarrow> string \<Rightarrow> route" where
  "post p h = \<lparr>rt_method = ''POST'', rt_pattern = p, rt_guards = [], rt_handler = h\<rparr>"

definition put :: "string \<Rightarrow> string \<Rightarrow> route" where
  "put p h = \<lparr>rt_method = ''PUT'', rt_pattern = p, rt_guards = [], rt_handler = h\<rparr>"

definition del :: "string \<Rightarrow> string \<Rightarrow> route" where
  "del p h = \<lparr>rt_method = ''DELETE'', rt_pattern = p, rt_guards = [], rt_handler = h\<rparr>"

text \<open>A group: its middleware in front of that of its routes.\<close>

definition under :: "guard list \<Rightarrow> route list \<Rightarrow> route list" where
  "under gs = map (\<lambda>r. r\<lparr>rt_guards := gs @ rt_guards r\<rparr>)"

definition dns_admin_routes :: "route list" where
  "dns_admin_routes = under [DNSAdminOnly]
    ([get ''/zones/new'' ''CreateZonePage'', post ''/zones/create'' ''CreateZone'', post ''/zones/delete'' ''DeleteZone'',
      post ''/zones/bulk-delete'' ''BulkDeleteZones'']
     @ under [ZoneAccess]
        [post ''/zones/{zone_id}/rectify'' ''RectifyZone'', post ''/zones/{zone_id}/notify'' ''NotifyZone'',
         post ''/zones/{zone_id}/cache/clear'' ''ClearZoneCache'',
         post ''/zones/{zone_id}/metadata/create'' ''CreateMetadata'',
         post ''/zones/{zone_id}/metadata/delete'' ''DeleteMetadata'',
         post ''/zones/{zone_id}/cryptokeys/create'' ''CreateCryptokey'',
         post ''/zones/{zone_id}/cryptokeys/{key_id}/toggle'' ''ToggleCryptokey'',
         post ''/zones/{zone_id}/cryptokeys/{key_id}/delete'' ''DeleteCryptokey'']
     @ [get ''/tsigkeys'' ''ListTSIGKeys'', get ''/tsigkeys/new'' ''CreateTSIGKeyPage'',
        post ''/tsigkeys/create'' ''CreateTSIGKey'', get ''/tsigkeys/{key_id}/edit'' ''EditTSIGKeyPage'',
        post ''/tsigkeys/{key_id}/update'' ''UpdateTSIGKey'', post ''/tsigkeys/delete'' ''DeleteTSIGKey'',
        post ''/tsigkeys/bulk-delete'' ''BulkDeleteTSIGKeys'',
        get ''/templates'' ''ListTemplates'', get ''/templates/new'' ''CreateTemplatePage'',
        post ''/templates/create'' ''CreateTemplate'', get ''/templates/{template_id}/edit'' ''EditTemplatePage'',
        post ''/templates/{template_id}/update'' ''UpdateTemplate'',
        post ''/templates/{template_id}/delete'' ''DeleteTemplate'',
        post ''/templates/bulk-delete'' ''BulkDeleteTemplates'',
        post ''/templates/{template_id}/records/add'' ''AddTemplateRecord'',
        post ''/templates/{template_id}/records/{record_id}/delete'' ''DeleteTemplateRecord''])"

definition identity_routes :: "route list" where
  "identity_routes = under [AdminOnly]
    [get ''/users'' ''ListUsers'', get ''/users/new'' ''CreateUserPage'', post ''/users/create'' ''CreateUser'',
     get ''/users/{user_id}/edit'' ''EditUserPage'', post ''/users/{user_id}/update'' ''UpdateUser'',
     post ''/users/{user_id}/lock'' ''LockUser'', post ''/users/{user_id}/unlock'' ''UnlockUser'',
     post ''/users/delete'' ''DeleteUser'', post ''/users/bulk-delete'' ''BulkDeleteUsers'',
     get ''/groups'' ''ListGroups'', get ''/groups/new'' ''CreateGroupPage'', post ''/groups/create'' ''CreateGroup'',
     get ''/groups/{group_id}/edit'' ''EditGroupPage'', post ''/groups/{group_id}/update'' ''UpdateGroup'',
     post ''/groups/{group_id}/delete'' ''DeleteGroup'', post ''/groups/bulk-delete'' ''BulkDeleteGroups'',
     post ''/groups/{group_id}/add-member'' ''AddMemberToGroup'',
     post ''/groups/{group_id}/remove-member'' ''RemoveMemberFromGroup'',
     post ''/groups/{group_id}/add-zone'' ''AddZoneToGroup'',
     post ''/groups/{group_id}/remove-zone'' ''RemoveZoneFromGroup'']"

definition mount_admin_routes :: "route list" where
  "mount_admin_routes = dns_admin_routes @ identity_routes"

definition session_routes :: "route list" where
  "session_routes = under [Authenticate]
    ([get ''/'' ''RedirectDashboard'', get ''/dashboard'' ''Dashboard'', get ''/activity'' ''ActivityPage'',
      post ''/logout'' ''Logout'', get ''/profile'' ''ProfilePage'', get ''/change-password'' ''ChangePasswordPage'',
      post ''/change-password'' ''ChangePassword'', get ''/profile/api-keys'' ''ListAPIKeys'',
      post ''/profile/api-keys/create'' ''CreateAPIKey'', post ''/profile/api-keys/delete'' ''DeleteAPIKey'',
      post ''/profile/api-keys/bulk-delete'' ''BulkDeleteAPIKeys'', get ''/zones'' ''ListZones'']
     @ under [ZoneAccess]
        [get ''/zones/{zone_id}'' ''ViewZone'', get ''/zones/{zone_id}/export'' ''ExportZone'',
         post ''/zones/{zone_id}/apply-template'' ''ApplyTemplateToZone'',
         get ''/zones/{zone_id}/records/new'' ''CreateRecordPage'',
         post ''/zones/{zone_id}/records/create'' ''CreateRecord'',
         post ''/zones/{zone_id}/records/batch-create'' ''BatchCreateRecords'',
         get ''/zones/{zone_id}/records/edit'' ''EditRecordPage'',
         post ''/zones/{zone_id}/records/update'' ''UpdateRecord'',
         post ''/zones/{zone_id}/records/inline-update'' ''InlineUpdateRecord'',
         post ''/zones/{zone_id}/records/delete'' ''DeleteRecord'',
         post ''/zones/{zone_id}/records/bulk-delete'' ''BulkDeleteRecords'',
         post ''/zones/{zone_id}/import'' ''ImportZone'']
     @ mount_admin_routes)"

text \<open>\<open>user_limit\<close> is \<^verbatim>\<open>login_lock.username_rate_limit_per_minute\<close>; 0 leaves the two limiters out.\<close>

definition login_chain :: "nat \<Rightarrow> guard list" where
  "login_chain user_limit = [LoginIPLimit, DBLoginIPLimit] @ (if user_limit > 0 then [LoginUserLimit, DBLoginUserLimit] else [])"

definition web_routes :: "nat \<Rightarrow> route list" where
  "web_routes user_limit = under [CsrfProtect]
    ([get ''/login'' ''LoginPage'']
     @ under (login_chain user_limit) [post ''/login'' ''Login'']
     @ under [LoginIPLimit, DBLoginIPLimit]
        [get ''/auth/oidc/{provider}/login'' ''OIDCLogin'', get ''/auth/oidc/{provider}/callback'' ''OIDCCallback'']
     @ session_routes)"

definition api_guards :: "guard list" where
  "api_guards = [APIIPLimit, APIKeyAuthentication SurfaceAPI, APIKeyLimit, WriteScope]"

definition api_routes :: "route list" where
  "api_routes =
     [get ''/zones'' ''APIListZones'', get ''/stats'' ''APIStats'']
     @ under [DNSAdminOnly, CanonicalZone]
        [post ''/zones'' ''APICreateZone'', del ''/zones/{zone_id}'' ''APIDeleteZone'']
     @ under [ZoneAccess]
        [get ''/zones/{zone_id}'' ''APIGetZone'', get ''/zones/{zone_id}/records'' ''APIListRecords'',
         get ''/zones/{zone_id}/export'' ''APIExportZone'', post ''/zones/{zone_id}/records'' ''APICreateRecord'',
         put ''/zones/{zone_id}/records'' ''APIUpdateRecord'', del ''/zones/{zone_id}/records'' ''APIDeleteRecord'']"

definition plain_routes :: "route list" where
  "plain_routes =
     [get ''/static/*'' ''StaticFile'', get ''/favicon.ico'' ''Favicon'', get ''/health'' ''Health'',
      get ''/health/live'' ''HealthLive'']
     @ under [HealthLimit] [get ''/health/ready'' ''HealthReady'']"

definition mcp_guards :: "guard list" where
  "mcp_guards = [APIIPLimit, APIKeyAuthentication SurfaceMCP, APIKeyLimit]"

subsection \<open>The guards\<close>

text \<open>What the guards of one request depend on, and the state they share.\<close>

record 'b front_env =
  fe_now :: time
  fe_later :: time
  fe_jwt :: "string \<Rightarrow> jwt_token option"
  fe_auth_faults :: auth_faults
  fe_jti :: "string option"
  fe_access_ttl :: int
  fe_hash :: "string \<Rightarrow> string"
  fe_api_faults :: api_faults
  fe_keys :: "string \<rightharpoonup> api_key_row"
  fe_query :: query_end
  fe_grants :: grant_db
  fe_csrf_ok :: bool
  fe_fresh :: "nat \<Rightarrow> 'b"
  fe_take :: "time \<Rightarrow> 'b \<Rightarrow> bool \<times> 'b"
  fe_returns_count :: bool
  fe_ip_fault :: hit_fault
  fe_user_fault :: hit_fault
  fe_user_limit :: nat
  fe_mcp_path :: "string option"
  fe_trusted :: "(addr \<times> int) list"

record 'b front_state =
  fs_auth :: auth_state
  fs_counters :: counters
  fs_login :: "'b limiters"
  fs_login_user :: "'b limiters"
  fs_api_ip :: "'b limiters"
  fs_api_key :: "'b limiters"
  fs_health :: "'b limiters"

record incoming =
  in_request :: request
  in_raw_path :: string
  in_remote_addr :: string
  in_forwarded_for :: "string list"
  in_username :: string

datatype front_reply =
    Served string request "(string \<times> string) list"
  | Refused nat | CsrfInvalid | LoginRedirect bool | PasswordRedirect | TooManyRequests int | Crashed error_body

definition health_ready_rate_limit :: nat where "health_ready_rate_limit = 120"

definition limited :: "limit_reply \<Rightarrow> request \<Rightarrow> front_reply + request" where
  "limited l r = (case l of Pass \<Rightarrow> Inr r | TooMany n \<Rightarrow> Inl (TooManyRequests n))"

definition gated :: "gate_result \<Rightarrow> front_reply + request" where
  "gated g = (case g of Next r \<Rightarrow> Inr r | Status n \<Rightarrow> Inl (Refused n))"

definition limit_by :: "'b front_env \<Rightarrow> nat \<Rightarrow> string \<Rightarrow> 'b limiters \<Rightarrow> limit_reply \<times> 'b limiters" where
  "limit_by e n key = limiter_gate (fe_fresh e) (fe_take e) n key (fe_now e)"

definition run_guard ::
  "'b front_env \<Rightarrow> string \<Rightarrow> string \<Rightarrow> guard \<Rightarrow> request \<Rightarrow> 'b front_state \<Rightarrow> (front_reply + request) \<times> 'b front_state" where
  "run_guard e ip username g r s =
     (case g of
        CsrfProtect \<Rightarrow> (if fe_csrf_ok e then Inr r else Inl CsrfInvalid, s)
      | LoginIPLimit \<Rightarrow> (case limit_by e 5 ip (fs_login s) of (l, ls) \<Rightarrow> (limited l r, s\<lparr>fs_login := ls\<rparr>))
      | DBLoginIPLimit \<Rightarrow>
          (case db_limit (fe_returns_count e) (fe_ip_fault e) login_ip_limit ip (fe_now e) (fe_later e) (fs_counters s) of
             (l, c) \<Rightarrow> (limited l r, s\<lparr>fs_counters := c\<rparr>))
      | LoginUserLimit \<Rightarrow>
          (case limit_by e (fe_user_limit e) (login_username_key username) (fs_login_user s) of
             (l, ls) \<Rightarrow> (limited l r, s\<lparr>fs_login_user := ls\<rparr>))
      | DBLoginUserLimit \<Rightarrow>
          (case db_limit (fe_returns_count e) (fe_user_fault e) (fe_user_limit e) (login_username_key username)
                  (fe_now e) (fe_later e) (fs_counters s) of
             (l, c) \<Rightarrow> (limited l r, s\<lparr>fs_counters := c\<rparr>))
      | Authenticate \<Rightarrow>
          (case auth_with_policy (fe_jwt e) (fe_auth_faults e) (fe_jti e) (fe_now e) (fe_access_ttl e) r (fs_auth s) of
             (a, st) \<Rightarrow>
               (case a of
                  ToLogin clear \<Rightarrow> Inl (LoginRedirect clear)
                | ToChangePassword \<Rightarrow> Inl PasswordRedirect
                | Admit u _ \<Rightarrow> Inr (r\<lparr>rq_user := Some u\<rparr>)
                | Panic \<Rightarrow> (case error_handler r None of Inl b \<Rightarrow> Inl (Crashed b) | Inr r' \<Rightarrow> Inr r'),
                s\<lparr>fs_auth := st\<rparr>))
      | DNSAdminOnly \<Rightarrow> (gated (require_dns_admin_gate r), s)
      | AdminOnly \<Rightarrow> (gated (require_admin_gate r), s)
      | ZoneAccess \<Rightarrow> (gated (check_zone_access (fe_query e) (fe_grants e) r), s)
      | APIIPLimit \<Rightarrow> (case limit_by e 300 ip (fs_api_ip s) of (l, ls) \<Rightarrow> (limited l r, s\<lparr>fs_api_ip := ls\<rparr>))
      | APIKeyAuthentication surface \<Rightarrow>
          (case api_key_auth (fe_hash e) surface (fe_api_faults e) (fe_now e) (fe_keys e) (as_db (fs_auth s)) r of
             ApiError code _ \<Rightarrow> (Inl (Refused code), s)
           | ApiAdmit u scope \<Rightarrow> (Inr (r\<lparr>rq_user := Some u, rq_scope := Some scope\<rparr>), s))
      | APIKeyLimit \<Rightarrow>
          (case limit_by e 100 (extract_api_key r) (fs_api_key s) of (l, ls) \<Rightarrow> (limited l r, s\<lparr>fs_api_key := ls\<rparr>))
      | WriteScope \<Rightarrow> (gated (require_write_scope r), s)
      | CanonicalZone \<Rightarrow> (gated (canonicalize_zone_id r), s)
      | HealthLimit \<Rightarrow> (case limit_by e health_ready_rate_limit ip (fs_health s) of (l, ls) \<Rightarrow> (limited l r, s\<lparr>fs_health := ls\<rparr>)))"

fun run_guards ::
  "'b front_env \<Rightarrow> string \<Rightarrow> string \<Rightarrow> guard list \<Rightarrow> request \<Rightarrow> 'b front_state \<Rightarrow> (front_reply + request) \<times> 'b front_state" where
  "run_guards e ip username [] r s = (Inr r, s)"
| "run_guards e ip username (g # gs) r s =
     (case run_guard e ip username g r s of
        (Inl x, s') \<Rightarrow> (Inl x, s')
      | (Inr r', s') \<Rightarrow> run_guards e ip username gs r' s')"

subsection \<open>The router\<close>

datatype target = Endpoint route | ApiMount | McpEndpoint

definition known_methods :: "string list" where
  "known_methods = [''CONNECT'', ''DELETE'', ''GET'', ''HEAD'', ''OPTIONS'', ''PATCH'', ''POST'', ''PUT'', ''TRACE'', ''QUERY'']"

definition endpoints :: "(route \<Rightarrow> bool) \<Rightarrow> route list \<Rightarrow> (segment list \<times> route) list" where
  "endpoints P rs = map (\<lambda>r. (parse_pattern (rt_pattern r), r)) (filter P rs)"

definition root_table :: "nat \<Rightarrow> string option \<Rightarrow> (route \<Rightarrow> bool) \<Rightarrow> (segment list \<times> target) list" where
  "root_table user_limit mcp_path P =
     map (\<lambda>(p, r). (p, Endpoint r)) (endpoints P (web_routes user_limit @ plain_routes))
     @ map (\<lambda>p. (parse_pattern p, ApiMount)) [''/api/v1'', ''/api/v1/'', ''/api/v1/*'']
     @ (case mcp_path of None \<Rightarrow> [] | Some p \<Rightarrow> [(parse_pattern p, McpEndpoint)])"

definition bind_zone :: "(string \<times> string) list \<Rightarrow> request \<Rightarrow> request" where
  "bind_zone ps r = r\<lparr>rq_zone_id := (case map_of ps ''zone_id'' of Some z \<Rightarrow> z | None \<Rightarrow> [])\<rparr>"

definition enter ::
  "'b front_env \<Rightarrow> string \<Rightarrow> string \<Rightarrow> string list \<Rightarrow> route \<Rightarrow> request \<Rightarrow> 'b front_state \<Rightarrow> front_reply \<times> 'b front_state" where
  "enter e ip username vs rt r s =
     (let ps = zip (param_names (parse_pattern (rt_pattern rt))) vs in
      case run_guards e ip username (rt_guards rt) (bind_zone ps r) s of
        (Inl x, s') \<Rightarrow> (x, s')
      | (Inr r', s') \<Rightarrow> (Served (rt_handler rt) r' ps, s'))"

definition no_route :: "('a option) \<Rightarrow> front_reply" where
  "no_route any_method = Refused (if any_method = None then 404 else 405)"

definition serve_api ::
  "'b front_env \<Rightarrow> string \<Rightarrow> string \<Rightarrow> string \<Rightarrow> request \<Rightarrow> 'b front_state \<Rightarrow> front_reply \<times> 'b front_state" where
  "serve_api e ip username path r s =
     (case run_guards e ip username api_guards r s of
        (Inl x, s') \<Rightarrow> (x, s')
      | (Inr r', s') \<Rightarrow>
          let find = (\<lambda>P. find_route (split_on CHR ''/'' path) (endpoints P api_routes)) in
          case find (\<lambda>rt. rt_method rt = rq_method r) of
            Some (vs, rt) \<Rightarrow> enter e ip username vs rt r' s'
          | None \<Rightarrow> (no_route (find (\<lambda>_. True)), s'))"

definition route_path :: "incoming \<Rightarrow> string" where
  "route_path q =
     (let p = (if in_raw_path q \<noteq> [] then in_raw_path q else rq_path (in_request q)) in if p = [] then ''/'' else p)"

definition serve :: "'b front_env \<Rightarrow> incoming \<Rightarrow> 'b front_state \<Rightarrow> front_reply \<times> 'b front_state" where
  "serve e q s =
     (let r = in_request q; username = in_username q;
          ip = extract_ip (get_client_ip (client_ip_middleware (fe_trusted e) (in_remote_addr q) (in_forwarded_for q)))
                 (split_host_port (in_remote_addr q)) (in_remote_addr q);
          find = (\<lambda>P. find_route (split_on CHR ''/'' (route_path q)) (root_table (fe_user_limit e) (fe_mcp_path e) P)) in
      if rq_method r \<notin> set known_methods then (Refused 405, s)
      else case find (\<lambda>rt. rt_method rt = rq_method r) of
        None \<Rightarrow> (no_route (find (\<lambda>_. True)), s)
      | Some (vs, Endpoint rt) \<Rightarrow> enter e ip username vs rt r s
      | Some (vs, ApiMount) \<Rightarrow> serve_api e ip username (''/'' @ concat vs) r s
      | Some (vs, McpEndpoint) \<Rightarrow>
          (case run_guards e ip username mcp_guards r s of
             (Inl x, s') \<Rightarrow> (x, s')
           | (Inr r', s') \<Rightarrow> (Served ''MCP'' r' [], s')))"

section \<open>Properties of the routes\<close>

subsection \<open>The policy\<close>

text \<open>Which handlers are open to everybody, which are for administrators of identities and of the DNS,
  and which act on the zone of the URL.\<close>

definition open_handlers :: "string list" where
  "open_handlers = [''LoginPage'', ''Login'', ''OIDCLogin'', ''OIDCCallback'', ''StaticFile'', ''Favicon'', ''Health'', ''HealthLive'',
     ''HealthReady'']"

definition identity_handlers :: "string list" where
  "identity_handlers = [''ListUsers'', ''CreateUserPage'', ''CreateUser'', ''EditUserPage'', ''UpdateUser'', ''LockUser'', ''UnlockUser'',
     ''DeleteUser'', ''BulkDeleteUsers'', ''ListGroups'', ''CreateGroupPage'', ''CreateGroup'', ''EditGroupPage'', ''UpdateGroup'',
     ''DeleteGroup'', ''BulkDeleteGroups'', ''AddMemberToGroup'', ''RemoveMemberFromGroup'', ''AddZoneToGroup'', ''RemoveZoneFromGroup'']"

definition dns_admin_handlers :: "string list" where
  "dns_admin_handlers = [''CreateZonePage'', ''CreateZone'', ''DeleteZone'', ''BulkDeleteZones'', ''RectifyZone'', ''NotifyZone'',
     ''ClearZoneCache'', ''CreateMetadata'', ''DeleteMetadata'', ''CreateCryptokey'', ''ToggleCryptokey'', ''DeleteCryptokey'',
     ''ListTSIGKeys'', ''CreateTSIGKeyPage'', ''CreateTSIGKey'', ''EditTSIGKeyPage'', ''UpdateTSIGKey'', ''DeleteTSIGKey'',
     ''BulkDeleteTSIGKeys'', ''ListTemplates'', ''CreateTemplatePage'', ''CreateTemplate'', ''EditTemplatePage'', ''UpdateTemplate'',
     ''DeleteTemplate'', ''BulkDeleteTemplates'', ''AddTemplateRecord'', ''DeleteTemplateRecord'', ''APICreateZone'', ''APIDeleteZone'']"

definition zone_handlers :: "string list" where
  "zone_handlers = [''ViewZone'', ''ExportZone'', ''ApplyTemplateToZone'', ''CreateRecordPage'', ''CreateRecord'', ''BatchCreateRecords'',
     ''EditRecordPage'', ''UpdateRecord'', ''InlineUpdateRecord'', ''DeleteRecord'', ''BulkDeleteRecords'', ''ImportZone'',
     ''APIGetZone'', ''APIListRecords'', ''APIExportZone'', ''APICreateRecord'', ''APIUpdateRecord'', ''APIDeleteRecord'']"

definition api_handlers :: "string list" where
  "api_handlers = [''APIListZones'', ''APIStats'', ''APICreateZone'', ''APIDeleteZone'', ''APIGetZone'', ''APIListRecords'',
     ''APIExportZone'', ''APICreateRecord'', ''APIUpdateRecord'', ''APIDeleteRecord'']"

definition identifies :: "guard \<Rightarrow> bool" where
  "identifies g = (case g of Authenticate \<Rightarrow> True | APIKeyAuthentication _ \<Rightarrow> True | _ \<Rightarrow> False)"

text \<open>The guards behind the one that establishes the user.\<close>

definition role_guards_ok :: "string \<Rightarrow> guard list \<Rightarrow> bool" where
  "role_guards_ok h gs \<longleftrightarrow>
     list_all (\<lambda>g. \<not> identifies g) gs
     \<and> (if h \<in> set identity_handlers then AdminOnly \<in> set gs else True)
     \<and> (if h \<in> set dns_admin_handlers then DNSAdminOnly \<in> set gs else True)
     \<and> (if h \<in> set zone_handlers then gs \<noteq> [] \<and> last gs = ZoneAccess else True)"

definition web_route_ok :: "route \<Rightarrow> bool" where
  "web_route_ok rt \<longleftrightarrow>
     rt_handler rt \<in> set open_handlers
     \<or> rt_handler rt \<notin> set api_handlers \<and> rt_handler rt \<noteq> ''MCP''
       \<and> (case rt_guards rt of g1 # g2 # gs \<Rightarrow> g1 = CsrfProtect \<and> g2 = Authenticate \<and> role_guards_ok (rt_handler rt) gs
          | _ \<Rightarrow> False)"

definition api_route_ok :: "route \<Rightarrow> bool" where
  "api_route_ok rt \<longleftrightarrow> rt_handler rt \<in> set api_handlers \<and> role_guards_ok (rt_handler rt) (rt_guards rt)"

lemmas policy_defs = web_route_ok_def api_route_ok_def role_guards_ok_def identifies_def open_handlers_def identity_handlers_def
  dns_admin_handlers_def zone_handlers_def api_handlers_def

lemmas route_defs = get_def post_def put_def del_def under_def

lemma session_routes_ok: "list_all web_route_ok (under [CsrfProtect] session_routes)"
  by code_simp

lemma plain_routes_ok: "list_all web_route_ok plain_routes"
  by code_simp

lemma web_routes_ok: "list_all web_route_ok (web_routes n)"
  using session_routes_ok
  by (simp add: web_routes_def under_def get_def post_def web_route_ok_def [of "\<lparr>rt_method = _, rt_pattern = _, rt_guards = _, rt_handler = _\<rparr>"] open_handlers_def)

lemma api_routes_ok: "list_all api_route_ok api_routes"
  by code_simp

subsection \<open>Guards in sequence\<close>

text \<open>What no guard changes: everything of the request but the user, the scope and the zone.\<close>

definition same_request :: "request \<Rightarrow> request \<Rightarrow> bool" where
  "same_request r r' \<longleftrightarrow> r' = r\<lparr>rq_user := rq_user r', rq_scope := rq_scope r', rq_zone_id := rq_zone_id r'\<rparr>"

lemma same_request_refl [simp]: "same_request r r"
  by (simp add: same_request_def)

lemma same_request_trans: "same_request r r' \<Longrightarrow> same_request r' r'' \<Longrightarrow> same_request r r''"
  by (cases r; cases r'; cases r'') (simp add: same_request_def)

lemma gated_Inr: "gated g = Inr r \<longleftrightarrow> g = Next r"
  by (cases g) (simp_all add: gated_def)

lemma limited_Inr: "limited l r = Inr r' \<longleftrightarrow> l = Pass \<and> r' = r"
  by (cases l) (auto simp: limited_def)

lemma role_gate_Next: "require_role P r = Next r' \<longleftrightarrow> r' = r \<and> (\<exists>u. rq_user r = Some u \<and> P u)"
  by (auto simp: require_role_def split: option.splits)

lemma write_scope_Next:
  "require_write_scope r = Next r' \<longleftrightarrow>
     r' = r \<and> (rq_method r \<in> {''GET'', ''HEAD'', ''OPTIONS''} \<or> (\<exists>sc. rq_scope r = Some sc \<and> scope_can_write sc))"
  by (auto simp: require_write_scope_def split: option.splits)

lemma check_zone_access_keeps: "check_zone_access q db r = Next r' \<Longrightarrow> same_request r r' \<and> rq_user r' = rq_user r \<and> rq_scope r' = rq_scope r"
  by (auto simp: check_zone_access_def can_access_zone_def canonicalize_zone_path_value_def same_request_def Let_def
      split: option.splits if_splits query_end.splits)

lemma check_zone_access_user:
  "check_zone_access q db r = Next r' \<Longrightarrow>
   \<exists>u. rq_user r' = Some u \<and> (can_manage_dns u \<or> rq_zone_id r' = [] \<or> has_grant db (u_id u) (rq_zone_id r'))"
  by (auto simp: check_zone_access_def can_access_zone_def canonicalize_zone_path_value_def Let_def
      split: option.splits if_splits query_end.splits)

lemma guard_keeps:
  assumes "run_guard e ip un g r s = (Inr r', s')"
  shows "same_request r r'" "\<not> identifies g \<Longrightarrow> rq_user r' = rq_user r \<and> rq_scope r' = rq_scope r"
    "g \<noteq> Authenticate \<Longrightarrow> fs_auth s' = fs_auth s"
proof -
  have "same_request r r' \<and> (\<not> identifies g \<longrightarrow> rq_user r' = rq_user r \<and> rq_scope r' = rq_scope r)
      \<and> (g \<noteq> Authenticate \<longrightarrow> fs_auth s' = fs_auth s)"
    using assms check_zone_access_keeps [of "fe_query e" "fe_grants e" r r']
    by (cases g)
      (auto simp: run_guard_def gated_Inr limited_Inr identifies_def require_admin_gate_def require_dns_admin_gate_def
        role_gate_Next write_scope_Next canonicalize_zone_id_def canonicalize_zone_path_value_def same_request_def
        error_handler_def split: prod.splits if_splits auth_result.splits api_key_result.splits)
  then show "same_request r r'" "\<not> identifies g \<Longrightarrow> rq_user r' = rq_user r \<and> rq_scope r' = rq_scope r"
    "g \<noteq> Authenticate \<Longrightarrow> fs_auth s' = fs_auth s" by blast+
qed

lemma guard_not_served: "run_guard e ip un g r s \<noteq> (Inl (Served h r' ps), s')"
  by (cases g)
    (auto simp: run_guard_def gated_def limited_def error_handler_def
      split: prod.splits if_splits auth_result.splits api_key_result.splits gate_result.splits limit_reply.splits)

lemma guards_not_served: "run_guards e ip un gs r s \<noteq> (Inl (Served h r' ps), s')"
proof (induction gs arbitrary: r s)
  case (Cons g gs)
  then show ?case by (auto simp: guard_not_served split: prod.splits sum.splits)
qed simp

lemma run_guards_Cons:
  "run_guards e ip un (g # gs) r s = (Inr r', s') \<longleftrightarrow>
     (\<exists>r1 s1. run_guard e ip un g r s = (Inr r1, s1) \<and> run_guards e ip un gs r1 s1 = (Inr r', s'))"
  by (auto split: prod.splits sum.splits)

lemma run_guards_append:
  "run_guards e ip un (gs @ hs) r s = (Inr r', s') \<longleftrightarrow>
     (\<exists>r1 s1. run_guards e ip un gs r s = (Inr r1, s1) \<and> run_guards e ip un hs r1 s1 = (Inr r', s'))"
proof (induction gs arbitrary: r s)
  case (Cons g gs)
  then show ?case unfolding append_Cons run_guards_Cons by blast
qed auto

lemma run_guards_keep:
  "run_guards e ip un gs r s = (Inr r', s') \<Longrightarrow>
   same_request r r' \<and> (list_all (\<lambda>g. \<not> identifies g) gs \<longrightarrow> rq_user r' = rq_user r \<and> rq_scope r' = rq_scope r)"
proof (induction gs arbitrary: r s)
  case (Cons g gs)
  from Cons.prems obtain r1 s1 where g: "run_guard e ip un g r s = (Inr r1, s1)" and gs: "run_guards e ip un gs r1 s1 = (Inr r', s')"
    unfolding run_guards_Cons by blast
  from Cons.IH [OF gs] guard_keeps(1,2) [OF g] show ?case by (auto intro: same_request_trans)
qed simp

lemma role_guards_pass:
  assumes run: "run_guards e ip un gs r s = (Inr r', s')" and ok: "role_guards_ok h gs" and u: "rq_user r = Some u"
  shows "rq_user r' = Some u \<and> rq_scope r' = rq_scope r \<and> same_request r r'
    \<and> (if h \<in> set identity_handlers then is_admin u else True)
    \<and> (if h \<in> set dns_admin_handlers then can_manage_dns u else True)
    \<and> (if h \<in> set zone_handlers then can_manage_dns u \<or> rq_zone_id r' = [] \<or> has_grant (fe_grants e) (u_id u) (rq_zone_id r') else True)"
proof -
  have plain: "list_all (\<lambda>g. \<not> identifies g) gs" using ok by (simp add: role_guards_ok_def)
  have keep: "rq_user r' = Some u" "rq_scope r' = rq_scope r" "same_request r r'"
    using run_guards_keep [OF run] plain u by auto
  have at: "\<exists>r1 s1 r2 s2. run_guard e ip un g r1 s1 = (Inr r2, s2) \<and> rq_user r1 = Some u" if "g \<in> set gs" for g
  proof -
    from that obtain pre post where gs: "gs = pre @ g # post" by (meson split_list)
    with run obtain r1 s1 r2 s2 where "run_guards e ip un pre r s = (Inr r1, s1)" "run_guard e ip un g r1 s1 = (Inr r2, s2)"
      unfolding gs run_guards_append run_guards_Cons by blast
    moreover have "list_all (\<lambda>g. \<not> identifies g) pre" using plain gs by simp
    ultimately show ?thesis using run_guards_keep [of e ip un pre r s r1 s1] u by auto
  qed
  have "is_admin u" if "AdminOnly \<in> set gs"
    using at [OF that] by (auto simp: run_guard_def gated_Inr require_admin_gate_def role_gate_Next)
  moreover have "can_manage_dns u" if "DNSAdminOnly \<in> set gs"
    using at [OF that] by (auto simp: run_guard_def gated_Inr require_dns_admin_gate_def role_gate_Next)
  moreover have "can_manage_dns u \<or> rq_zone_id r' = [] \<or> has_grant (fe_grants e) (u_id u) (rq_zone_id r')"
    if "gs \<noteq> []" "last gs = ZoneAccess"
  proof -
    from that have "gs = butlast gs @ [ZoneAccess]" by (metis append_butlast_last_id)
    with run obtain r1 s1 where "run_guards e ip un [ZoneAccess] r1 s1 = (Inr r', s')"
      using run_guards_append by metis
    then have "check_zone_access (fe_query e) (fe_grants e) r1 = Next r'"
      by (auto simp: run_guard_def gated_Inr split: sum.splits)
    from check_zone_access_user [OF this] keep(1) show ?thesis by auto
  qed
  ultimately show ?thesis using keep ok by (auto simp: role_guards_ok_def)
qed

subsection \<open>The policy holds\<close>

lemma same_fields:
  assumes "same_request r r'"
  shows "rq_method r' = rq_method r" "rq_path r' = rq_path r" "rq_cookie r' = rq_cookie r"
    "rq_authorization r' = rq_authorization r" "rq_api_key r' = rq_api_key r"
  using assms by (cases r; cases r'; simp add: same_request_def)+

lemma same_token: "same_request r r' \<Longrightarrow> token_of jwt r' = token_of jwt r"
  by (simp add: token_of_def session_token_def same_fields fun_eq_iff cong: if_cong)

lemma same_admissible: "same_request r r' \<Longrightarrow> admissible now r' = admissible now r"
  by (simp add: admissible_def same_fields fun_eq_iff)

lemma bind_zone_same: "same_request r (bind_zone ps r)"
  by (cases r) (simp add: same_request_def bind_zone_def)

definition signed_in :: "'b front_env \<Rightarrow> request \<Rightarrow> 'b front_state \<Rightarrow> user \<Rightarrow> bool" where
  "signed_in e r s u \<longleftrightarrow> (\<exists>cl. token_of (fe_jwt e) r cl \<and> admissible (fe_now e) r (as_db (fs_auth s)) cl u)"

definition key_holder :: "'b front_env \<Rightarrow> api_key_surface \<Rightarrow> request \<Rightarrow> 'b front_state \<Rightarrow> user \<Rightarrow> api_key_scope \<Rightarrow> bool" where
  "key_holder e surface r s u scope \<longleftrightarrow>
     api_key_auth (fe_hash e) surface (fe_api_faults e) (fe_now e) (fe_keys e) (as_db (fs_auth s)) r = ApiAdmit u scope"

text \<open>What must hold of a user before his request reaches a handler.\<close>

definition may_reach :: "'b front_env \<Rightarrow> string \<Rightarrow> user \<Rightarrow> string \<Rightarrow> bool" where
  "may_reach e h u zone \<longleftrightarrow>
     (if h \<in> set identity_handlers then is_admin u else True)
     \<and> (if h \<in> set dns_admin_handlers then can_manage_dns u else True)
     \<and> (if h \<in> set zone_handlers then can_manage_dns u \<or> zone = [] \<or> has_grant (fe_grants e) (u_id u) zone else True)"

lemma key_auth_pass:
  assumes "run_guard e ip un (APIKeyAuthentication surface) r s = (Inr r', s')"
  shows "\<exists>u scope. rq_user r' = Some u \<and> rq_scope r' = Some scope \<and> key_holder e surface r s u scope"
  using assms by (auto simp: run_guard_def key_holder_def split: api_key_result.splits)

lemma auth_pass:
  assumes "run_guard e ip un Authenticate r s = (Inr r', s')"
  shows "\<exists>u. rq_user r' = Some u \<and> signed_in e r s u"
  using assms by (auto simp: run_guard_def signed_in_def auth_Admit error_handler_def split: prod.splits auth_result.splits)

lemma find_route_in: "find_route ss rs = Some (vs, r) \<Longrightarrow> r \<in> snd ` set rs"
proof -
  have lit: "snd ` set (after_lit t qs) \<subseteq> snd ` set qs" for t and qs :: "(segment list \<times> 'a) list"
    by (induction t qs rule: after_lit.induct) auto
  have par: "snd ` set (after_param qs) \<subseteq> snd ` set qs" for qs :: "(segment list \<times> 'a) list"
    by (induction qs rule: after_param.induct) auto
  have last: "last_with p qs = Some x \<Longrightarrow> x \<in> snd ` set qs" for p x and qs :: "(segment list \<times> 'a) list"
    by (induction p qs rule: last_with.induct) (auto split: option.splits if_splits)
  show "find_route ss rs = Some (vs, r) \<Longrightarrow> r \<in> snd ` set rs"
  proof (induction ss arbitrary: rs vs)
    case Nil
    then show ?case by (auto dest: last)
  next
    case (Cons t ss)
    show ?case
    proof (cases "find_route ss (after_lit t rs)")
      case (Some x)
      with Cons.prems Cons.IH [of "after_lit t rs" vs] show ?thesis using lit [of t rs] by auto
    next
      case None
      show ?thesis
      proof (cases "if t = [] \<and> ss = [] then None else find_route ss (after_param rs)")
        case (Some x)
        with None Cons.prems have "find_route ss (after_param rs) = Some (fst x, r)" by (cases x) (auto split: if_splits)
        from Cons.IH [OF this] show ?thesis using par [of rs] by blast
      next
        case f: None
        with None Cons.prems have "last_with [Wildcard] rs = Some r" by (auto split: if_splits)
        then show ?thesis by (rule last)
      qed
    qed
  qed
qed

lemma enter_web:
  assumes "enter e ip un vs rt r s = (Served h r' ps, s')" and ok: "web_route_ok rt"
  shows "h \<in> set open_handlers \<or> h \<notin> set api_handlers \<and> h \<noteq> ''MCP'' \<and> fe_csrf_ok e
    \<and> (\<exists>u. rq_user r' = Some u \<and> signed_in e r s u \<and> may_reach e h u (rq_zone_id r'))"
proof -
  from assms(1) have h: "h = rt_handler rt" and run: "run_guards e ip un (rt_guards rt) (bind_zone ps r) s = (Inr r', s')"
    by (auto simp: enter_def guards_not_served Let_def split: prod.splits sum.splits)
  show ?thesis
  proof (cases "h \<in> set open_handlers")
    case False
    with ok h obtain gs where gs: "rt_guards rt = CsrfProtect # Authenticate # gs" and role: "role_guards_ok h gs"
        and not_api: "h \<notin> set api_handlers" "h \<noteq> ''MCP''"
      by (auto simp: web_route_ok_def split: list.splits)
    from run obtain r1 s1 r2 s2 where g1: "run_guard e ip un CsrfProtect (bind_zone ps r) s = (Inr r1, s1)"
        and g2: "run_guard e ip un Authenticate r1 s1 = (Inr r2, s2)" and rest: "run_guards e ip un gs r2 s2 = (Inr r', s')"
      unfolding gs run_guards_Cons by blast
    from g1 have csrf: "fe_csrf_ok e" and r1: "r1 = bind_zone ps r" "s1 = s" by (auto simp: run_guard_def split: if_splits)
    from auth_pass [OF g2] obtain u where u: "rq_user r2 = Some u" "signed_in e r1 s u" using r1 by auto
    have "signed_in e r s u"
      using u(2) r1(1) same_token [OF bind_zone_same [of r ps]] same_admissible [OF bind_zone_same [of r ps]] by (simp add: signed_in_def)
    moreover have "rq_user r' = Some u \<and> may_reach e h u (rq_zone_id r')"
      using role_guards_pass [OF rest role u(1)] by (simp add: may_reach_def)
    ultimately show ?thesis using not_api csrf by blast
  qed simp
qed

lemma serve_api_policy:
  assumes "serve_api e ip un path r s = (Served h r' ps, s')"
  shows "h \<in> set api_handlers \<and> (\<exists>u scope. rq_user r' = Some u \<and> key_holder e SurfaceAPI r s u scope
    \<and> (rq_method r \<in> {''GET'', ''HEAD'', ''OPTIONS''} \<or> scope_can_write scope) \<and> may_reach e h u (rq_zone_id r'))"
proof -
  from assms obtain r0 s0 vs rt where g: "run_guards e ip un api_guards r s = (Inr r0, s0)"
      and rt: "find_route (split_on CHR ''/'' path) (endpoints (\<lambda>rt. rt_method rt = rq_method r) api_routes) = Some (vs, rt)"
      and enter: "enter e ip un vs rt r0 s0 = (Served h r' ps, s')"
    by (auto simp: serve_api_def no_route_def guards_not_served Let_def split: prod.splits sum.splits option.splits)
  have ok: "api_route_ok rt" using find_route_in [OF rt] api_routes_ok by (auto simp: endpoints_def list_all_iff)
  from g obtain r1 s1 r2 s2 r3 s3 where g1: "run_guard e ip un APIIPLimit r s = (Inr r1, s1)"
      and g2: "run_guard e ip un (APIKeyAuthentication SurfaceAPI) r1 s1 = (Inr r2, s2)"
      and g3: "run_guard e ip un APIKeyLimit r2 s2 = (Inr r3, s3)"
      and g4: "run_guard e ip un WriteScope r3 s3 = (Inr r0, s0)"
    unfolding api_guards_def run_guards_Cons by auto
  have r1: "r1 = r" "fs_auth s1 = fs_auth s" using g1 by (auto simp: run_guard_def limited_Inr split: prod.splits)
  from key_auth_pass [OF g2] obtain u scope where u: "rq_user r2 = Some u" "rq_scope r2 = Some scope" "key_holder e SurfaceAPI r s u scope"
    using r1 by (auto simp: key_holder_def)
  have r3: "r3 = r2" using g3 by (auto simp: run_guard_def limited_Inr split: prod.splits)
  have m: "rq_method r2 = rq_method r" using same_fields(1) [OF guard_keeps(1) [OF g2]] r1 by simp
  from g4 have r0: "r0 = r3" "rq_method r \<in> {''GET'', ''HEAD'', ''OPTIONS''} \<or> scope_can_write scope"
    using u m r3 by (auto simp: run_guard_def gated_Inr write_scope_Next)
  from enter have h: "h = rt_handler rt" and run: "run_guards e ip un (rt_guards rt) (bind_zone ps r0) s0 = (Inr r', s')"
    by (auto simp: enter_def guards_not_served Let_def split: prod.splits sum.splits)
  have "rq_user (bind_zone ps r0) = Some u" using u r0 r3 by (simp add: bind_zone_def)
  from role_guards_pass [OF run _ this, of h] ok h have "rq_user r' = Some u \<and> may_reach e h u (rq_zone_id r')"
    by (simp add: api_route_ok_def may_reach_def)
  with u r0 ok h show ?thesis by (auto simp: api_route_ok_def)
qed

text \<open>C6: Behind the router every handler is reached under its policy only.  Whatever the method, the path
  and the headers of a request, the limiters and the faults: outside the login, health and static
  handlers it has passed the CSRF check and belongs to a session that is admitted, or carries an
  API key of the surface, with the write scope where it writes; its user is an administrator where
  accounts or groups are managed, an administrator of the DNS where zones, keys or templates are,
  and where records of a zone are he manages the DNS or holds a grant of the zone the handler is
  given, or that zone is empty.\<close>

theorem routes_guarded:
  "case fst (serve e q s) of
     Served h r ps \<Rightarrow>
       h \<in> set open_handlers
       \<or> (\<exists>u. rq_user r = Some u \<and> may_reach e h u (rq_zone_id r)
            \<and> (if h = ''MCP'' then \<exists>scope. key_holder e SurfaceMCP (in_request q) s u scope
               else if h \<in> set api_handlers then
                 \<exists>scope. key_holder e SurfaceAPI (in_request q) s u scope
                   \<and> (rq_method (in_request q) \<in> {''GET'', ''HEAD'', ''OPTIONS''} \<or> scope_can_write scope)
               else signed_in e (in_request q) s u \<and> fe_csrf_ok e))
   | _ \<Rightarrow> True"
proof (cases "fst (serve e q s)")
  case (Served h r' ps)
  then obtain s' where serve: "serve e q s = (Served h r' ps, s')" by (metis prod.collapse)
  let ?r = "in_request q" and ?un = "in_username q"
  let ?find = "\<lambda>P. find_route (split_on CHR ''/'' (route_path q)) (root_table (fe_user_limit e) (fe_mcp_path e) P)"
  obtain vs t where f: "?find (\<lambda>rt. rt_method rt = rq_method ?r) = Some (vs, t)"
    using serve by (cases "?find (\<lambda>rt. rt_method rt = rq_method ?r)") (auto simp: serve_def no_route_def Let_def split: if_splits)
  have t: "t \<in> snd ` set (root_table (fe_user_limit e) (fe_mcp_path e) (\<lambda>rt. rt_method rt = rq_method ?r))"
    by (rule find_route_in [OF f])
  obtain ip where go: "(case t of Endpoint rt \<Rightarrow> enter e ip ?un vs rt ?r s
       | ApiMount \<Rightarrow> serve_api e ip ?un (''/'' @ concat vs) ?r s
       | McpEndpoint \<Rightarrow> (case run_guards e ip ?un mcp_guards ?r s of
             (Inl x, s') \<Rightarrow> (x, s') | (Inr r', s') \<Rightarrow> (Served ''MCP'' r' [], s'))) = (Served h r' ps, s')"
    using serve f by (cases t) (auto simp: serve_def Let_def split: if_splits)
  show ?thesis
  proof (cases t)
    case (Endpoint rt)
    then have "rt \<in> set (web_routes (fe_user_limit e)) \<or> rt \<in> set plain_routes" using t
      by (auto simp: root_table_def endpoints_def split: option.splits)
    then have ok: "web_route_ok rt" using web_routes_ok plain_routes_ok by (auto simp: list_all_iff)
    from go Endpoint have "enter e ip ?un vs rt ?r s = (Served h r' ps, s')" by simp
    from enter_web [OF this ok] show ?thesis unfolding Served by auto
  next
    case ApiMount
    with go have "serve_api e ip ?un (''/'' @ concat vs) ?r s = (Served h r' ps, s')" by simp
    from serve_api_policy [OF this] show ?thesis unfolding Served by (auto simp: api_handlers_def)
  next
    case McpEndpoint
    with go have h: "h = ''MCP''" and run: "run_guards e ip ?un mcp_guards ?r s = (Inr r', s')"
      by (auto simp: guards_not_served split: prod.splits sum.splits)
    from run obtain r1 s1 r2 s2 where g1: "run_guard e ip ?un APIIPLimit ?r s = (Inr r1, s1)"
        and g2: "run_guard e ip ?un (APIKeyAuthentication SurfaceMCP) r1 s1 = (Inr r2, s2)"
        and g3: "run_guards e ip ?un [APIKeyLimit] r2 s2 = (Inr r', s')"
      unfolding mcp_guards_def run_guards_Cons by auto
    have r1: "r1 = ?r" "fs_auth s1 = fs_auth s" using g1 by (auto simp: run_guard_def limited_Inr split: prod.splits)
    from key_auth_pass [OF g2] obtain u scope where u: "rq_user r2 = Some u" "key_holder e SurfaceMCP ?r s u scope"
      using r1 by (auto simp: key_holder_def)
    have "rq_user r' = Some u" using run_guards_keep [OF g3] u by (simp add: identifies_def)
    then show ?thesis using u h
      unfolding Served by (auto simp: may_reach_def identity_handlers_def dns_admin_handlers_def zone_handlers_def)
  qed
qed simp_all

subsection \<open>The search\<close>

text \<open>An empty segment is a zone to the router and none to the gate: a URL with two slashes enters a
  zone-scoped route, and the gate passes every user.\<close>

definition sample_table :: "string \<Rightarrow> (segment list \<times> target) list" where
  "sample_table m = root_table 10 (Some ''/mcp'') (\<lambda>rt. rt_method rt = m)"

definition routed :: "string \<Rightarrow> string \<Rightarrow> (string list \<times> string) option" where
  "routed m path =
     map_option (\<lambda>(vs, t). (vs, case t of Endpoint rt \<Rightarrow> rt_handler rt | ApiMount \<Rightarrow> ''/api/v1'' | McpEndpoint \<Rightarrow> ''MCP''))
       (find_route (split_on CHR ''/'' path) (sample_table m))"

lemma routed_examples:
  "routed ''GET'' ''/zones/new'' = Some ([], ''CreateZonePage'')"
  "routed ''GET'' ''/zones/a.example.'' = Some ([''a.example.''], ''ViewZone'')"
  "routed ''GET'' ''/zones/'' = None"
  "routed ''POST'' ''/zones//records/create'' = Some ([[]], ''CreateRecord'')"
  "routed ''POST'' ''/zones/new/records/create'' = Some ([''new''], ''CreateRecord'')"
  "routed ''GET'' ''/static/css/a.css'' = Some ([''css/a.css''], ''StaticFile'')"
  "routed ''DELETE'' ''/api/v1/zones/a.'' = Some ([''zones/a.''], ''/api/v1'')"
  by code_simp+

end
