(* ===== verification/Spec2Isabelle.thy ===== *)
theory Spec2Isabelle
  imports ZoneRoundTrip CachedClient LoginLaws SsoLaws WebRecordLaws GroupLaws WebZoneLaws TransportLaws RateLimit ApiKeys ConfigLaws Activity Keys Routes
begin

text \<open>
  Verification library of GoZone, a web, REST and MCP front end for the PowerDNS API written
  in Go.  A request passes the front of the server, which finds out its client and its route, and
  the guards of the route; the web handlers, the REST handlers and the MCP tools then act, the last
  two through the shared DNS service (\<^verbatim>\<open>internal/dnsops\<close>), which validates and normalises names and
  contents, checks zone grants, serialises writers per zone, calls PowerDNS through a caching
  client and writes the activity log.  An SQL database keeps users, grants, sessions, revoked
  tokens, API keys, counters and the log, and is shared by all instances.

  Conventions.  A Go string is a list of bytes (\<^typ>\<open>string\<close>); functions of the Unicode
  library are modelled on ASCII where they meet the program's own checks, or are parameters.  An
  error is a value of a sum or option type with the source's cases, never its text.  Integers
  are unbounded with Go's 64-bit and 16-bit limits written at the conversions that check them
  (\<open>Strconv\<close>) and the wrap-around where the program reaches it (\<open>Paging\<close>, \<open>Config\<close>).  Times are
  integers in nanoseconds.  SQL tables are maps or lists; the outcome of each query (success,
  failure, cancellation) is an argument, so every theorem holds for each pattern of database
  failures it does not exclude.  No definition uses fuel: every loop is a structural recursion or
  has a measure.

  The theories and the code they model, under \<^verbatim>\<open>internal\<close> unless said otherwise.

  \<^item> \<open>Prelude\<close>, \<open>Strconv\<close>, \<open>GoNet\<close>, \<open>GoCsv\<close>: what is used of Go's library for strings, numbers,
    addresses and CSV.  \<open>TextCodec\<close>: the locale of a decoder that undoes its encoder.
  \<^item> \<open>Models\<close> (\<^verbatim>\<open>models\<close>), \<open>RecordCodec\<close> (\<^verbatim>\<open>models/recordtype.go\<close>), \<open>Validators\<close> and \<open>RecordValidators\<close>
    (\<^verbatim>\<open>validators\<close>), \<open>RecordOps\<close> (\<^verbatim>\<open>dnsops/records.go\<close>, \<^verbatim>\<open>zones.go\<close>): zones, record sets and how an edited
    content becomes the content on the wire; a prepared set is accepted by the write it prepares for.
  \<^item> \<open>Authz\<close> (\<^verbatim>\<open>dnsops/authz.go\<close>, \<^verbatim>\<open>middleware/zoneauth.go\<close>): grants; service, middleware and lists agree.
    \<open>Service\<close> (\<^verbatim>\<open>dnsops/service.go\<close>, \<^verbatim>\<open>records.go\<close>, \<^verbatim>\<open>zones.go\<close>, \<^verbatim>\<open>zonelock.go\<close>, \<^verbatim>\<open>audit.go\<close>): every operation of
    the service, and the interleaving of writers under the zone lock.
  \<^item> \<open>CsvSanitize\<close>, \<open>ZoneExport\<close>, \<open>ZoneImport\<close>, \<open>ZoneRoundTrip\<close> (\<^verbatim>\<open>dnsops/csv_sanitize.go\<close>, \<^verbatim>\<open>dnsops/export.go\<close>,
    \<^verbatim>\<open>handlers/import.go\<close>): both file formats, written and read back.
  \<^item> \<open>Cache\<close> (\<^verbatim>\<open>cache\<close>), \<open>CachedClient\<close> (\<^verbatim>\<open>pdns/cached.go\<close>, \<^verbatim>\<open>singleflight.go\<close>), \<open>PdnsClient\<close> (\<^verbatim>\<open>pdns/client.go\<close>,
    \<^verbatim>\<open>errors.go\<close>): a cache refines a map of values that have not expired; readers, flights and writers
    as interleaved steps, after which no read is stale; requests, paths and outcomes of each endpoint.
  \<^item> \<open>Accounts\<close>, \<open>AccountLaws\<close> (\<^verbatim>\<open>handlers/users.go\<close>, \<^verbatim>\<open>change_password.go\<close>, the accounts in \<^verbatim>\<open>database\<close>,
    \<^verbatim>\<open>cmd/user.go\<close>): the account table and the invariants that each operation keeps.
  \<^item> \<open>Sessions\<close> (\<^verbatim>\<open>database/sessions.go\<close>, \<^verbatim>\<open>middleware/session_tracker.go\<close>), \<open>AuthMw\<close> (\<^verbatim>\<open>middleware/auth.go\<close>),
    \<open>Login\<close>, \<open>LoginLaws\<close> (\<^verbatim>\<open>handlers/auth.go\<close>): who is admitted, when a session ends, how failures lock out.
  \<^item> \<open>OidcState\<close>, \<open>Oidc\<close>, \<open>OidcLaws\<close> (\<^verbatim>\<open>oidc\<close>), \<open>Sso\<close>, \<open>SsoLaws\<close> (\<^verbatim>\<open>handlers/oidc.go\<close>,
    \<^verbatim>\<open>database/external_identities.go\<close>, \<^verbatim>\<open>sso_tokens.go\<close>): state tokens, the callback, and the accounts a
    single sign-on may find, make and change.
  \<^item> \<open>ApiKeys\<close> (\<^verbatim>\<open>handlers/api_keys.go\<close>), \<open>Keys\<close> (\<^verbatim>\<open>handlers/tsigkeys.go\<close>, \<^verbatim>\<open>dnssec.go\<close>): the keys of users, and
    those of PowerDNS with the interleaving of their updates.
  \<^item> \<open>WebRecords\<close>, \<open>WebRecordLaws\<close> (\<^verbatim>\<open>handlers/records.go\<close>), \<open>WebZones\<close>, \<open>WebZoneLaws\<close> (\<^verbatim>\<open>handlers/zones.go\<close>),
    \<open>Templates\<close>, \<open>TemplateLaws\<close> (\<^verbatim>\<open>handlers/templates.go\<close>), \<open>ZoneGroups\<close>, \<open>GroupLaws\<close> (\<^verbatim>\<open>handlers/groups.go\<close>,
    \<^verbatim>\<open>groups_reconcile.go\<close>), \<open>Activity\<close> (\<^verbatim>\<open>handlers/activity.go\<close>), \<open>Paging\<close> (their lists and searches): the web
    handlers, compared with the service where they repeat its work.
  \<^item> \<open>RestApi\<close> (\<^verbatim>\<open>handlers/api.go\<close>), \<open>Mcp\<close> (\<^verbatim>\<open>mcpserver\<close>), \<open>TransportLaws\<close>: both transports, and that they are
    the same operations under the same grants.
  \<^item> \<open>Config\<close>, \<open>ConfigLaws\<close> (\<^verbatim>\<open>config/config.go\<close>): what a configuration that loads guarantees.  \<open>RateLimit\<close>
    (\<^verbatim>\<open>database/rate_limit.go\<close>, \<^verbatim>\<open>middleware/ratelimit.go\<close>, \<^verbatim>\<open>dbratelimit.go\<close>): budgets of the cluster and of an
    instance.
  \<^item> \<open>Front\<close> (\<^verbatim>\<open>cmd/middleware.go\<close>, \<^verbatim>\<open>cmd/csrf.go\<close>, \<^verbatim>\<open>middleware/security.go\<close>, \<^verbatim>\<open>errors\<close>): trusted proxies, headers and
    error bodies.  \<open>Routes\<close> (\<^verbatim>\<open>cmd/router.go\<close>, \<^verbatim>\<open>cmd/routes.go\<close>): the table of routes, the search of the
    router and the guards in sequence, composed of the definitions of \<open>AuthMw\<close>, \<open>Authz\<close> and
    \<open>RateLimit\<close>; its theorem relates the table to a policy that is stated apart from it.

  Not in the repository and hence parameters: PowerDNS behind its HTTP client (a record of
  calls on an abstract state), the transport of HTTP, the JWT library (a map from verified strings
  to claims), the identity provider, password and key hashes, HKDF, random bytes, the YAML and JSON
  decoders, \<^verbatim>\<open>url.Parse\<close>, the verdict of the CSRF library, the token bucket, the Unicode tables.
  What a theorem assumes of them it names.

  Not modelled.  The rendering of pages, cookies and log output, and the dashboard, which only shows
  what the modelled calls return; process start, signals and the scheduling of the periodic jobs
  (their effects are modelled, with their times as arguments); schema migrations and the SQL texts
  of the dialects, whose upserts and locks are modelled by their effect; connection retries; the MCP
  prompts, which are fixed texts; the command line except the commands on accounts; tests and
  vendored libraries, of which only the search of the router, the resolution of the client address
  and the CSV format are written out.
\<close>

end
